(* ===== verification/Prelude.thy ===== *)
theory Prelude
  imports Main "HOL-Library.Word"
begin

text \<open>
  What every component shares: the JavaScript values the code passes around, the
  errors it throws, and the small amount of JavaScript semantics the sources use
  (truthiness, property reads).

  Strings are sequences of UTF-16 code units, as in the language; buffers are byte
  lists.  A function that can throw returns a sum, \<open>Inl\<close> holding what is thrown.
  Numbers are integers; a numeric literal that is not a plain integer is carried by
  its text (\<open>Dbl\<close>), since no modelled code computes with one.  Functions, symbols
  and properties inherited from a prototype are not values of the model.
\<close>

section \<open>Strings and values\<close>

type_synonym byte = "8 word"
type_synonym bytes = "byte list"
type_synonym jsstring = "16 word list"

text \<open>A string literal of the source, one code unit per character.\<close>

definition js :: "string \<Rightarrow> jsstring" where
  "js s = map of_char s"

datatype jsval =
    Undef
  | Null
  | Bool bool
  | Num int
  | Dbl jsstring
  | Str jsstring
  | Buf bytes
  | Arr "jsval list"
  | Obj "(jsstring \<times> jsval) list"

text \<open>
  What a \<open>throw\<close> carries.  \<open>TypeError\<close> and \<open>SyntaxError\<close> are the engine's own
  (their texts are the engine's, so the model does not fix them), \<open>ErrorObj\<close> is
  \<open>new Error(message)\<close>, \<open>ThrownVal\<close> any other thrown value.
\<close>

datatype thrown =
    TypeError
  | SyntaxError jsstring
  | ErrorObj jsstring
  | ThrownVal jsval

type_synonym 'a result = "thrown + 'a"

section \<open>Literals compare as their characters do\<close>

lemma of_char_inj_u16: "(of_char a :: 16 word) = of_char b \<longleftrightarrow> a = b"
proof -
  have nat_u16: "unat (of_char c :: 16 word) = (of_char c :: nat)" for c :: char
  proof -
    have "(of_char c :: 16 word) = word_of_nat (of_char c)"
      by (simp only: of_nat_of_char)
    moreover have "(of_char c :: nat) < 2 ^ 16"
      by (rule less_trans [of _ 256]) simp_all
    ultimately show ?thesis
      by (simp add: unat_of_nat take_bit_nat_eq_self)
  qed
  show ?thesis
    by (metis nat_u16 of_char_eq_iff)
qed

lemma js_eq_iff [simp]: "js a = js b \<longleftrightarrow> a = b"
  by (auto simp: js_def list_eq_iff_nth_eq of_char_inj_u16)

lemma js_Nil [simp]: "js [] = []"
  by (simp add: js_def)

lemma js_eq_Nil [simp]: "js a = [] \<longleftrightarrow> a = []" and Nil_eq_js [simp]: "[] = js a \<longleftrightarrow> a = []"
  by (auto simp: js_def)

lemma js_append: "js (a @ b) = js a @ js b"
  by (simp add: js_def)

lemma length_js [simp]: "length (js s) = length s"
  by (simp add: js_def)

section \<open>Throwing computations\<close>

definition rbind :: "'e + 'a \<Rightarrow> ('a \<Rightarrow> 'e + 'b) \<Rightarrow> 'e + 'b" where
  "rbind r f = (case r of Inl e \<Rightarrow> Inl e | Inr a \<Rightarrow> f a)"

lemma rbind_simps [simp]: "rbind (Inl e) f = Inl e" "rbind (Inr a) f = f a"
  by (simp_all add: rbind_def)

lemma rbind_eq_Inr: "rbind r f = Inr b \<longleftrightarrow> (\<exists>a. r = Inr a \<and> f a = Inr b)"
  by (cases r) simp_all

lemma rbind_eq_Inl: "rbind r f = Inl e \<longleftrightarrow> r = Inl e \<or> (\<exists>a. r = Inr a \<and> f a = Inl e)"
  by (cases r) simp_all

section \<open>Truthiness and property reads\<close>

fun truthy :: "jsval \<Rightarrow> bool" where
  "truthy Undef = False"
| "truthy Null = False"
| "truthy (Bool b) = b"
| "truthy (Num n) = (n \<noteq> 0)"
| "truthy (Dbl t) = (\<exists>d \<in> set (takeWhile (\<lambda>c. c \<noteq> 101 \<and> c \<noteq> 69) t). 49 \<le> d \<and> d \<le> 57)"
| "truthy (Str s) = (s \<noteq> [])"
| "truthy (Buf b) = True"
| "truthy (Arr xs) = True"
| "truthy (Obj ps) = True"

text \<open>\<open>a || b\<close> on values.\<close>

definition js_or :: "jsval \<Rightarrow> jsval \<Rightarrow> jsval" where
  "js_or a b = (if truthy a then a else b)"

text \<open>
  \<open>m.k\<close>: reading a property of \<open>undefined\<close> or \<open>null\<close> throws, an absent property is
  \<open>undefined\<close>.
\<close>

fun getp :: "jsval \<Rightarrow> jsstring \<Rightarrow> jsval result" where
  "getp Undef k = Inl TypeError"
| "getp Null k = Inl TypeError"
| "getp (Obj ps) k = Inr (case map_of ps k of None \<Rightarrow> Undef | Some v \<Rightarrow> v)"
| "getp _ k = Inr Undef"

text \<open>The value a read yields where it does not throw.\<close>

definition field :: "jsval \<Rightarrow> jsstring \<Rightarrow> jsval" where
  "field m k = (case getp m k of Inl _ \<Rightarrow> Undef | Inr v \<Rightarrow> v)"

fun is_obj :: "jsval \<Rightarrow> bool" where
  "is_obj (Obj ps) = True"
| "is_obj _ = False"

lemma is_obj_getp: "is_obj m \<Longrightarrow> getp m k = Inr (field m k)"
  by (cases m) (simp_all add: field_def)

lemma field_Obj [simp]: "field (Obj ps) k = (case map_of ps k of None \<Rightarrow> Undef | Some v \<Rightarrow> v)"
  by (simp add: field_def)

section \<open>Runs\<close>

text \<open>If no run of a step relation is longer than a bound, there is a run that cannot go on.\<close>

lemma bounded_runs_end:
  fixes r :: "'s \<Rightarrow> 's \<Rightarrow> bool"
  assumes bound: "\<And>k q. (r ^^ k) s q \<Longrightarrow> k \<le> B"
  shows "\<exists>q. r\<^sup>*\<^sup>* s q \<and> (\<nexists>q'. r q q')"
proof -
  define runs where "runs k \<longleftrightarrow> (\<exists>q. (r ^^ k) s q)" for k
  have "runs 0" and le: "runs k \<Longrightarrow> k \<le> B" for k
    using bound by (auto simp: runs_def)
  have "runs (GREATEST k. runs k)"
    by (rule GreatestI_nat [of runs, OF \<open>runs 0\<close> le])
  then obtain q where q: "(r ^^ (GREATEST k. runs k)) s q"
    unfolding runs_def by blast
  have "\<not> r q q'" for q'
  proof
    assume "r q q'"
    with q have "runs (Suc (GREATEST k. runs k))"
      unfolding runs_def by (blast intro: relpowp_Suc_I)
    from Greatest_le_nat [of runs, OF this le] show False
      by simp
  qed
  then show ?thesis
    using relpowp_imp_rtranclp [OF q] by blast
qed

end
