(* ===== verification/Compact_Encoding.thy ===== *)
theory Compact_Encoding
  imports Prelude
begin

text \<open>
  The interface of the compact-encoding package, which the generated codecs of
  src/spec/hrpc/messages.js are written against and which is not part of the
  repository.  The package is a parameter of the model (the record \<open>cenc\<close>); what the
  code relies on are the laws of the locale \<open>compact_encoding\<close>.  A codec is the triple
  of functions \<open>preencode\<close>, \<open>encode\<close>, \<open>decode\<close> threading a state of two cursors and a
  buffer; the locale \<open>wire_codec\<close> is the contract every codec keeps, the package's and
  the generated ones alike.
\<close>

section \<open>Codecs and their state\<close>

text \<open>The state object \<open>{ start, end, buffer }\<close>.\<close>

record cstate =
  cs_start :: nat
  cs_end :: nat
  cs_buffer :: bytes

record codec =
  preencode :: "cstate \<Rightarrow> jsval \<Rightarrow> cstate result"
  encode :: "cstate \<Rightarrow> jsval \<Rightarrow> cstate result"
  decode :: "cstate \<Rightarrow> (jsval \<times> cstate) result"

text \<open>
  The package's exports used by the generated code: \<open>c.uint\<close>, \<open>c.string\<close>,
  \<open>c.buffer\<close>, \<open>c.array(codec)\<close>, \<open>c.frame(codec)\<close>, \<open>c.encode(codec, v)\<close> and
  \<open>c.decode(codec, bytes)\<close>.
\<close>

record cenc =
  c_uint :: codec
  c_string :: codec
  c_buffer :: codec
  c_array :: "codec \<Rightarrow> codec"
  c_frame :: "codec \<Rightarrow> codec"
  c_encode :: "codec \<Rightarrow> jsval \<Rightarrow> bytes result"
  c_decode :: "codec \<Rightarrow> bytes \<Rightarrow> jsval result"

text \<open>The bytes the package's leaf codecs produce.\<close>

record wirefmt =
  w_uint :: "nat \<Rightarrow> bytes"
  w_str :: "jsstring \<Rightarrow> bytes"
  w_buf :: "bytes \<Rightarrow> bytes"

section \<open>Moves on the state\<close>

text \<open>Reserving, writing, looking at and passing over bytes.\<close>

definition grow :: "nat \<Rightarrow> cstate \<Rightarrow> cstate" where
  "grow n st = st\<lparr>cs_end := cs_end st + n\<rparr>"

definition fits :: "nat \<Rightarrow> cstate \<Rightarrow> bool" where
  "fits n st \<longleftrightarrow> cs_start st + n \<le> length (cs_buffer st)"

definition put :: "bytes \<Rightarrow> cstate \<Rightarrow> cstate" where
  "put bs st = st\<lparr>cs_start := cs_start st + length bs,
     cs_buffer := take (cs_start st) (cs_buffer st) @ bs
                  @ drop (cs_start st + length bs) (cs_buffer st)\<rparr>"

definition unread :: "cstate \<Rightarrow> bytes" where
  "unread st = drop (cs_start st) (take (cs_end st) (cs_buffer st))"

definition skip :: "nat \<Rightarrow> cstate \<Rightarrow> cstate" where
  "skip n st = st\<lparr>cs_start := cs_start st + n\<rparr>"

named_theorems codec_moves \<open>how the moves compose\<close>

lemma grow_grow [codec_moves]: "grow b (grow a st) = grow (a + b) st"
  by (simp add: grow_def)

lemma grow_inc [codec_moves]: "(grow a st)\<lparr>cs_end := Suc (cs_end (grow a st))\<rparr> = grow (Suc a) st"
    "st\<lparr>cs_end := Suc (cs_end st)\<rparr> = grow 1 st"
  by (simp_all add: grow_def)

lemma grow_0 [codec_moves]: "grow 0 st = st"
  by (simp add: grow_def)

lemma put_put [codec_moves]:
  assumes "cs_start st + (length a + length b) \<le> length (cs_buffer st)"
  shows "put b (put a st) = put (a @ b) st"
proof -
  have "min (length (cs_buffer st)) (cs_start st) = cs_start st"
    using assms by simp
  then show ?thesis
    by (simp add: put_def ac_simps)
qed

lemma put_Nil [codec_moves]: "put [] st = st"
  by (simp add: put_def)

lemma start_put [codec_moves]: "cs_start (put a st) = cs_start st + length a"
  by (simp add: put_def)

lemma length_buffer_put [codec_moves]:
  "cs_start st + length a \<le> length (cs_buffer st) \<Longrightarrow>
   length (cs_buffer (put a st)) = length (cs_buffer st)"
  by (simp add: put_def)

lemma unread_skip [codec_moves]: "unread (skip n st) = drop n (unread st)"
  by (simp add: unread_def skip_def add.commute)

lemma skip_skip [codec_moves]: "skip b (skip a st) = skip (a + b) st"
  by (simp add: skip_def)

lemma skip_0 [codec_moves]: "skip 0 st = st"
  by (simp add: skip_def)

section \<open>The contract of a codec\<close>

text \<open>
  A codec works for the values \<open>ok\<close>: \<open>preencode\<close> reserves exactly as many bytes as
  \<open>encode\<close> writes, \<open>encode\<close> writes the bytes \<open>wire v\<close>, and \<open>decode\<close> at these bytes
  returns \<open>got v\<close> and stops right behind them, whatever follows.
\<close>

locale wire_codec =
  fixes p :: codec
    and ok :: "jsval \<Rightarrow> bool"
    and wire :: "jsval \<Rightarrow> bytes"
    and got :: "jsval \<Rightarrow> jsval"
  assumes preencode_ok: "ok v \<Longrightarrow> preencode p st v = Inr (grow (length (wire v)) st)"
    and encode_ok: "ok v \<Longrightarrow> fits (length (wire v)) st \<Longrightarrow> encode p st v = Inr (put (wire v) st)"
    and decode_ok: "ok v \<Longrightarrow> unread st = wire v @ rest \<Longrightarrow>
      decode p st = Inr (got v, skip (length (wire v)) st)"

text \<open>\<open>c.encode\<close> and \<open>c.decode\<close>: a fresh state, reserve, allocate, write; and read from the start.\<close>

definition run_encode :: "(nat \<Rightarrow> bytes) \<Rightarrow> codec \<Rightarrow> jsval \<Rightarrow> bytes result" where
  "run_encode alloc p v =
     rbind (preencode p \<lparr>cs_start = 0, cs_end = 0, cs_buffer = []\<rparr> v) (\<lambda>st.
     rbind (encode p (st\<lparr>cs_start := 0, cs_buffer := alloc (cs_end st)\<rparr>) v) (\<lambda>st.
     Inr (cs_buffer st)))"

definition run_decode :: "codec \<Rightarrow> bytes \<Rightarrow> jsval result" where
  "run_decode p bs =
     rbind (decode p \<lparr>cs_start = 0, cs_end = length bs, cs_buffer = bs\<rparr>) (\<lambda>r. Inr (fst r))"

context wire_codec
begin

lemma run_encode_ok:
  assumes "ok v" and alloc: "\<And>n. length (alloc n) = n"
  shows "run_encode alloc p v = Inr (wire v)"
proof -
  let ?st = "\<lparr>cs_start = 0, cs_end = length (wire v), cs_buffer = alloc (length (wire v))\<rparr>"
  have "fits (length (wire v)) ?st"
    by (simp add: fits_def alloc)
  then show ?thesis
    using assms(1) alloc by (simp add: run_encode_def preencode_ok encode_ok grow_def put_def)
qed

text \<open>Decoding without naming what follows.\<close>

lemma decode_at:
  assumes "ok v" and "take (length (wire v)) (unread st) = wire v"
  shows "decode p st = Inr (got v, skip (length (wire v)) st)"
proof (rule decode_ok [OF assms(1)])
  show "unread st = wire v @ drop (length (wire v)) (unread st)"
    using assms(2) by (metis append_take_drop_id)
qed

lemma run_decode_ok: "ok v \<Longrightarrow> run_decode p (wire v @ rest) = Inr (got v)"
  by (simp add: run_decode_def decode_ok [where rest = rest] unread_def)

lemma run_roundtrip:
  assumes "ok v" and "\<And>n. length (alloc n) = n"
  shows "rbind (run_encode alloc p v) (run_decode p) = Inr (got v)"
  using run_encode_ok [of v alloc] run_decode_ok [of v "[]"] assms by simp

text \<open>A codec's bytes determine what is decoded, so equal encodings decode alike.\<close>

lemma wire_inj: "ok v \<Longrightarrow> ok u \<Longrightarrow> wire v = wire u \<Longrightarrow> got v = got u"
  using run_decode_ok [of v "[]"] run_decode_ok [of u "[]"] by simp

lemma wire_prefix_free:
  assumes "ok v" and "ok u" and "wire u = wire v @ rest"
  shows "rest = []"
proof -
  let ?st = "\<lparr>cs_start = 0, cs_end = length (wire u), cs_buffer = wire u\<rparr>"
  have "decode p ?st = Inr (got u, skip (length (wire u)) ?st)"
    using assms(2) by (simp add: decode_ok [where rest = "[]"] unread_def)
  moreover have "decode p ?st = Inr (got v, skip (length (wire v)) ?st)"
    using assms(1,3) by (simp add: decode_ok [where rest = rest] unread_def)
  ultimately have "length (wire u) = length (wire v)"
    by (simp add: skip_def)
  then show ?thesis
    using assms(3) by simp
qed

end

section \<open>The package's laws\<close>

fun nat_of :: "jsval \<Rightarrow> nat" where
  "nat_of (Num n) = nat n"
| "nat_of _ = 0"

fun str_of :: "jsval \<Rightarrow> jsstring" where
  "str_of (Str s) = s"
| "str_of _ = []"

fun buf_of :: "jsval \<Rightarrow> bytes" where
  "buf_of (Buf b) = b"
| "buf_of _ = []"

fun arr_of :: "jsval \<Rightarrow> jsval list" where
  "arr_of (Arr xs) = xs"
| "arr_of _ = []"

text \<open>
  Well-formed UTF-16: every surrogate is half of a pair (a high one followed by a low
  one).  Text that is not well formed does not survive UTF-8.
\<close>

definition is_high :: "16 word \<Rightarrow> bool" where
  "is_high u \<longleftrightarrow> 0xD800 \<le> u \<and> u < 0xDC00"

definition is_low :: "16 word \<Rightarrow> bool" where
  "is_low u \<longleftrightarrow> 0xDC00 \<le> u \<and> u < 0xE000"

fun wf16 :: "jsstring \<Rightarrow> bool" where
  "wf16 [] = True"
| "wf16 [u] = (\<not> is_high u \<and> \<not> is_low u)"
| "wf16 (u # v # s) =
     (if is_high u then is_low v \<and> wf16 s else \<not> is_low u \<and> wf16 (v # s))"

fun uint_ok :: "jsval \<Rightarrow> bool" where
  "uint_ok (Num n) = (0 \<le> n \<and> n < 2 ^ 53)"
| "uint_ok _ = False"

fun str_ok :: "jsval \<Rightarrow> bool" where
  "str_ok (Str s) = (wf16 s \<and> length s < 2 ^ 32)"
| "str_ok _ = False"

text \<open>Only non-empty buffers: what an empty one decodes to is left open.\<close>

fun buf_ok :: "jsval \<Rightarrow> bool" where
  "buf_ok (Buf b) = (b \<noteq> [] \<and> length b < 2 ^ 32)"
| "buf_ok _ = False"

fun arr_ok :: "(jsval \<Rightarrow> bool) \<Rightarrow> jsval \<Rightarrow> bool" where
  "arr_ok ok (Arr xs) = (length xs \<le> 0x100000 \<and> list_all ok xs)"
| "arr_ok ok _ = False"

definition arr_wire :: "wirefmt \<Rightarrow> (jsval \<Rightarrow> bytes) \<Rightarrow> jsval \<Rightarrow> bytes" where
  "arr_wire f w v = w_uint f (length (arr_of v)) @ concat (map w (arr_of v))"

definition arr_got :: "(jsval \<Rightarrow> jsval) \<Rightarrow> jsval \<Rightarrow> jsval" where
  "arr_got b v = Arr (map b (arr_of v))"

definition frame_ok :: "(jsval \<Rightarrow> bool) \<Rightarrow> (jsval \<Rightarrow> bytes) \<Rightarrow> jsval \<Rightarrow> bool" where
  "frame_ok ok w v \<longleftrightarrow> ok v \<and> length (w v) < 2 ^ 53"

definition frame_wire :: "wirefmt \<Rightarrow> (jsval \<Rightarrow> bytes) \<Rightarrow> jsval \<Rightarrow> bytes" where
  "frame_wire f w v = w_uint f (length (w v)) @ w v"

locale compact_encoding =
  fixes c :: cenc
    and f :: wirefmt
    and alloc :: "nat \<Rightarrow> bytes"
  assumes uint_codec: "wire_codec (c_uint c) uint_ok (\<lambda>v. w_uint f (nat_of v)) (\<lambda>v. v)"
    and uint_byte: "n \<le> 252 \<Longrightarrow> w_uint f n = [word_of_nat n]"
    and string_codec: "wire_codec (c_string c) str_ok (\<lambda>v. w_str f (str_of v)) (\<lambda>v. v)"
    and buffer_codec: "wire_codec (c_buffer c) buf_ok (\<lambda>v. w_buf f (buf_of v)) (\<lambda>v. v)"
    and array_codec: "wire_codec p ok wire got \<Longrightarrow>
      wire_codec (c_array c p) (arr_ok ok) (arr_wire f wire) (arr_got got)"
    and frame_codec: "wire_codec p ok wire got \<Longrightarrow>
      wire_codec (c_frame c p) (frame_ok ok wire) (frame_wire f wire) got"
    and c_encode_run: "c_encode c p v = run_encode alloc p v"
    and c_decode_run: "c_decode c p bs = run_decode p bs"
    and alloc_length: "length (alloc n) = n"
begin

text \<open>What \<open>c.encode\<close> and \<open>c.decode\<close> do with any codec that keeps the contract.\<close>

lemma c_encode_ok: "wire_codec p ok wire got \<Longrightarrow> ok v \<Longrightarrow> c_encode c p v = Inr (wire v)"
  by (simp add: c_encode_run wire_codec.run_encode_ok alloc_length)

lemma c_decode_ok: "wire_codec p ok wire got \<Longrightarrow> ok v \<Longrightarrow> c_decode c p (wire v) = Inr (got v)"
  using wire_codec.run_decode_ok [of p ok wire got v "[]"] by (simp add: c_decode_run)

lemma small_uint_encode:
  assumes "0 \<le> n" and "n \<le> 252" and "cs_start st + 1 \<le> length (cs_buffer st)"
  shows "encode (c_uint c) st (Num n) = Inr (put [word_of_int n] st)"
  using wire_codec.encode_ok [OF uint_codec, of "Num n" st] assms
  by (simp add: uint_byte nat_le_iff fits_def)

lemma small_uint_decode:
  assumes "unread st \<noteq> []" and "uint (hd (unread st)) \<le> 252"
  shows "decode (c_uint c) st = Inr (Num (uint (hd (unread st))), skip 1 st)"
proof -
  have "unread st = [hd (unread st)] @ tl (unread st)"
    using assms(1) by simp
  moreover have "nat (uint (hd (unread st))) \<le> 252"
    using assms(2) by linarith
  ultimately show ?thesis
    using wire_codec.decode_ok [OF uint_codec, of "Num (uint (hd (unread st)))" st "tl (unread st)"] assms(2)
    by (simp add: uint_byte)
qed

lemma string_preencode:
  "str_ok v \<Longrightarrow> preencode (c_string c) st v = Inr (grow (length (w_str f (str_of v))) st)"
  by (rule wire_codec.preencode_ok [OF string_codec])

lemma string_encode:
  "str_ok v \<Longrightarrow> cs_start st + length (w_str f (str_of v)) \<le> length (cs_buffer st) \<Longrightarrow>
   encode (c_string c) st v = Inr (put (w_str f (str_of v)) st)"
  by (rule wire_codec.encode_ok [OF string_codec]) (simp_all add: fits_def)

lemma string_decode:
  "str_ok v \<Longrightarrow> take (length (w_str f (str_of v))) (unread st) = w_str f (str_of v) \<Longrightarrow>
   decode (c_string c) st = Inr (v, skip (length (w_str f (str_of v))) st)"
  by (rule wire_codec.decode_at [OF string_codec])

lemma buffer_preencode:
  "buf_ok v \<Longrightarrow> preencode (c_buffer c) st v = Inr (grow (length (w_buf f (buf_of v))) st)"
  by (rule wire_codec.preencode_ok [OF buffer_codec])

lemma buffer_encode:
  "buf_ok v \<Longrightarrow> cs_start st + length (w_buf f (buf_of v)) \<le> length (cs_buffer st) \<Longrightarrow>
   encode (c_buffer c) st v = Inr (put (w_buf f (buf_of v)) st)"
  by (rule wire_codec.encode_ok [OF buffer_codec]) (simp_all add: fits_def)

lemma buffer_decode:
  "buf_ok v \<Longrightarrow> take (length (w_buf f (buf_of v))) (unread st) = w_buf f (buf_of v) \<Longrightarrow>
   decode (c_buffer c) st = Inr (v, skip (length (w_buf f (buf_of v))) st)"
  by (rule wire_codec.decode_at [OF buffer_codec])

end

end
