(* ===== verification/Schema.thy ===== *)
theory Schema
  imports Compact_Encoding
begin

text \<open>
  The wire schema of src/build.js as data: the types and the commands it registers, in
  order.  On top of it the layout a schema prescribes, by recursion over the schema
  alone: which values conform to a type (\<open>ty_ok\<close>), the bytes they are sent as
  (\<open>ty_wire\<close>) and what the receiver gets (\<open>ty_got\<close>).  This is the specification the
  generated codecs of the theory Messages are proved against.
\<close>

section \<open>Registrations\<close>

record fielddef =
  fname :: jsstring
  ftype :: jsstring
  farray :: bool
  frequired :: bool

datatype tydef =
    Struct jsstring "fielddef list"
  | Enum jsstring "jsstring list"

definition required_field :: "string \<Rightarrow> string \<Rightarrow> fielddef" where
  "required_field n t = \<lparr>fname = js n, ftype = js t, farray = False, frequired = True\<rparr>"

definition optional_field :: "string \<Rightarrow> string \<Rightarrow> fielddef" where
  "optional_field n t = \<lparr>fname = js n, ftype = js t, farray = False, frequired = False\<rparr>"

definition array_field :: "string \<Rightarrow> string \<Rightarrow> fielddef" where
  "array_field n t = \<lparr>fname = js n, ftype = js t, farray = True, frequired = True\<rparr>"

text \<open>The calls of \<open>types.register\<close>; the namespace puts \<open>@bareclaw/\<close> before each name.\<close>

definition build_types :: "tydef list" where
  "build_types =
    [Struct (js ''@bareclaw/empty'') [],
     Struct (js ''@bareclaw/chat-request'')
       [required_field ''sessionId'' ''string'',
        required_field ''message'' ''string'',
        optional_field ''model'' ''string''],
     Enum (js ''@bareclaw/chunk-type'')
       [js ''content'', js ''thinking'', js ''done'', js ''error''],
     Struct (js ''@bareclaw/chat-chunk'')
       [required_field ''type'' ''@bareclaw/chunk-type'',
        optional_field ''content'' ''string''],
     Struct (js ''@bareclaw/session-scope'')
       [optional_field ''agentId'' ''string'',
        optional_field ''channel'' ''string'',
        optional_field ''account'' ''string'',
        optional_field ''peer'' ''string''],
     Struct (js ''@bareclaw/session-key'') [required_field ''key'' ''string''],
     Struct (js ''@bareclaw/session-list'') [array_field ''keys'' ''string''],
     Struct (js ''@bareclaw/session-blob'')
       [required_field ''key'' ''string'',
        required_field ''data'' ''buffer''],
     Struct (js ''@bareclaw/state-blob'') [array_field ''sessions'' ''@bareclaw/session-blob''],
     Struct (js ''@bareclaw/tool-def'')
       [required_field ''name'' ''string'',
        required_field ''description'' ''string'',
        optional_field ''inputSchema'' ''buffer''],
     Struct (js ''@bareclaw/tool-call'')
       [required_field ''callId'' ''string'',
        required_field ''name'' ''string'',
        required_field ''input'' ''buffer''],
     Struct (js ''@bareclaw/tool-result'')
       [required_field ''callId'' ''string'',
        optional_field ''output'' ''buffer'',
        optional_field ''errMsg'' ''string''],
     Enum (js ''@bareclaw/state-field'') [js ''history'', js ''summary''],
     Struct (js ''@bareclaw/state-chunk'')
       [required_field ''sessionKey'' ''string'',
        required_field ''field'' ''@bareclaw/state-field'',
        required_field ''data'' ''buffer'']]"

text \<open>
  The calls of \<open>rpc.register\<close>.  A command without a response is registered with
  \<open>send: true\<close>; no request is a stream.
\<close>

record rpcdef =
  rpc_name :: jsstring
  rpc_request :: jsstring
  rpc_response :: "jsstring option"
  rpc_response_stream :: bool
  rpc_send :: bool

definition unary_rpc :: "string \<Rightarrow> string \<Rightarrow> string \<Rightarrow> rpcdef" where
  "unary_rpc n q r = \<lparr>rpc_name = js n, rpc_request = js q, rpc_response = Some (js r),
     rpc_response_stream = False, rpc_send = False\<rparr>"

definition build_rpcs :: "rpcdef list" where
  "build_rpcs =
    [\<lparr>rpc_name = js ''@bareclaw/chat'', rpc_request = js ''@bareclaw/chat-request'',
      rpc_response = Some (js ''@bareclaw/chat-chunk''), rpc_response_stream = True, rpc_send = False\<rparr>,
     unary_rpc ''@bareclaw/session-create'' ''@bareclaw/session-scope'' ''@bareclaw/session-key'',
     unary_rpc ''@bareclaw/session-list'' ''@bareclaw/empty'' ''@bareclaw/session-list'',
     unary_rpc ''@bareclaw/session-export'' ''@bareclaw/session-key'' ''@bareclaw/session-blob'',
     unary_rpc ''@bareclaw/session-import'' ''@bareclaw/session-blob'' ''@bareclaw/empty'',
     unary_rpc ''@bareclaw/state-export'' ''@bareclaw/empty'' ''@bareclaw/state-blob'',
     unary_rpc ''@bareclaw/state-import'' ''@bareclaw/state-blob'' ''@bareclaw/empty'',
     unary_rpc ''@bareclaw/tool-register'' ''@bareclaw/tool-def'' ''@bareclaw/empty'',
     unary_rpc ''@bareclaw/tool-exec'' ''@bareclaw/tool-call'' ''@bareclaw/tool-result'',
     \<lparr>rpc_name = js ''@bareclaw/state-changed'', rpc_request = js ''@bareclaw/state-chunk'',
      rpc_response = None, rpc_response_stream = False, rpc_send = True\<rparr>]"

section \<open>The layout a schema prescribes\<close>

fun tydef_name :: "tydef \<Rightarrow> jsstring" where
  "tydef_name (Struct n fs) = n"
| "tydef_name (Enum n vs) = n"

definition find_type :: "jsstring \<Rightarrow> tydef option" where
  "find_type t = find (\<lambda>d. tydef_name d = t) build_types"

definition is_struct :: "jsstring \<Rightarrow> bool" where
  "is_struct t = (case find_type t of Some (Struct n fs) \<Rightarrow> True | _ \<Rightarrow> False)"

text \<open>The value of an enum is its position, counted from one.\<close>

fun enum_index :: "jsstring list \<Rightarrow> jsstring \<Rightarrow> nat" where
  "enum_index [] s = 1"
| "enum_index (v # vs) s = (if v = s then 1 else Suc (enum_index vs s))"

fun enum_ok :: "jsstring list \<Rightarrow> jsval \<Rightarrow> bool" where
  "enum_ok vs (Str s) = (s \<in> set vs)"
| "enum_ok vs _ = False"

text \<open>One bit per optional field, the first one lowest, set when the field's value is truthy.\<close>

fun flag_bits :: "jsval \<Rightarrow> fielddef list \<Rightarrow> nat" where
  "flag_bits m [] = 0"
| "flag_bits m (fd # fds) = (if truthy (field m (fname fd)) then 1 else 0) + 2 * flag_bits m fds"

definition optionals :: "fielddef list \<Rightarrow> fielddef list" where
  "optionals fs = filter (\<lambda>fd. \<not> frequired fd) fs"

text \<open>
  A struct: the required fields in order, then, if the type has optional fields, the
  flags, then the optional fields that are set.  An array of structs frames each element.
\<close>

definition fd_wire :: "wirefmt \<Rightarrow> (jsstring \<Rightarrow> jsval \<Rightarrow> bytes) \<Rightarrow> fielddef \<Rightarrow> jsval \<Rightarrow> bytes" where
  "fd_wire f w fd =
     (if farray fd
      then arr_wire f (if is_struct (ftype fd) then frame_wire f (w (ftype fd)) else w (ftype fd))
      else w (ftype fd))"

definition struct_wire ::
    "wirefmt \<Rightarrow> (jsstring \<Rightarrow> jsval \<Rightarrow> bytes) \<Rightarrow> fielddef list \<Rightarrow> jsval \<Rightarrow> bytes" where
  "struct_wire f w fs m =
     concat (map (\<lambda>fd. fd_wire f w fd (field m (fname fd))) (filter frequired fs))
     @ (if optionals fs = [] then [] else w_uint f (flag_bits m (optionals fs)))
     @ concat (map (\<lambda>fd. if truthy (field m (fname fd)) then fd_wire f w fd (field m (fname fd)) else [])
         (optionals fs))"

primrec ty_wire :: "nat \<Rightarrow> wirefmt \<Rightarrow> jsstring \<Rightarrow> jsval \<Rightarrow> bytes" where
  "ty_wire 0 f t v = []"
| "ty_wire (Suc d) f t v =
     (if t = js ''string'' then w_str f (str_of v)
      else if t = js ''buffer'' then w_buf f (buf_of v)
      else case find_type t of
        None \<Rightarrow> []
      | Some (Enum n vs) \<Rightarrow> w_uint f (enum_index vs (str_of v))
      | Some (Struct n fs) \<Rightarrow> struct_wire f (ty_wire d f) fs v)"

definition fd_ok ::
    "wirefmt \<Rightarrow> (jsstring \<Rightarrow> jsval \<Rightarrow> bool) \<Rightarrow> (jsstring \<Rightarrow> jsval \<Rightarrow> bytes) \<Rightarrow> fielddef \<Rightarrow> jsval \<Rightarrow> bool" where
  "fd_ok f ok w fd =
     (if farray fd
      then arr_ok (if is_struct (ftype fd) then frame_ok (ok (ftype fd)) (w (ftype fd)) else ok (ftype fd))
      else ok (ftype fd))"

primrec ty_ok :: "nat \<Rightarrow> wirefmt \<Rightarrow> jsstring \<Rightarrow> jsval \<Rightarrow> bool" where
  "ty_ok 0 f t v = False"
| "ty_ok (Suc d) f t v =
     (if t = js ''string'' then str_ok v
      else if t = js ''buffer'' then buf_ok v
      else case find_type t of
        None \<Rightarrow> False
      | Some (Enum n vs) \<Rightarrow> enum_ok vs v
      | Some (Struct n fs) \<Rightarrow> is_obj v \<and>
          list_all (\<lambda>fd. frequired fd \<or> truthy (field v (fname fd)) \<longrightarrow>
            fd_ok f (ty_ok d f) (ty_wire d f) fd (field v (fname fd))) fs)"

text \<open>
  What arrives: an object with exactly the schema's fields; an optional field whose
  value was not truthy arrives as \<open>null\<close>.
\<close>

primrec ty_got :: "nat \<Rightarrow> jsstring \<Rightarrow> jsval \<Rightarrow> jsval" where
  "ty_got 0 t v = v"
| "ty_got (Suc d) t v =
     (if t = js ''string'' \<or> t = js ''buffer'' then v
      else case find_type t of
        None \<Rightarrow> v
      | Some (Enum n vs) \<Rightarrow> v
      | Some (Struct n fs) \<Rightarrow>
          Obj (map (\<lambda>fd. (fname fd,
            if frequired fd \<or> truthy (field v (fname fd))
            then (if farray fd then arr_got (ty_got d (ftype fd)) else ty_got d (ftype fd)) (field v (fname fd))
            else Null)) fs))"

text \<open>Types nest at most three deep: a state blob holds session blobs, which hold strings.\<close>

abbreviation schema_depth :: nat where
  "schema_depth \<equiv> Suc (Suc (Suc 0))"

abbreviation conforms :: "wirefmt \<Rightarrow> string \<Rightarrow> jsval \<Rightarrow> bool" where
  "conforms f t \<equiv> ty_ok schema_depth f (js t)"

abbreviation layout :: "wirefmt \<Rightarrow> string \<Rightarrow> jsval \<Rightarrow> bytes" where
  "layout f t \<equiv> ty_wire schema_depth f (js t)"

abbreviation received :: "string \<Rightarrow> jsval \<Rightarrow> jsval" where
  "received t \<equiv> ty_got schema_depth (js t)"

lemma find_type_known:
  "find_type (js ''string'') = None"
  "find_type (js ''buffer'') = None"
  "find_type (js ''@bareclaw/empty'') = Some (Struct (js ''@bareclaw/empty'') [])"
  "find_type (js ''@bareclaw/chat-request'') = Some (Struct (js ''@bareclaw/chat-request'') [required_field ''sessionId'' ''string'', required_field ''message'' ''string'', optional_field ''model'' ''string''])"
  "find_type (js ''@bareclaw/chunk-type'') = Some (Enum (js ''@bareclaw/chunk-type'') [js ''content'', js ''thinking'', js ''done'', js ''error''])"
  "find_type (js ''@bareclaw/chat-chunk'') = Some (Struct (js ''@bareclaw/chat-chunk'') [required_field ''type'' ''@bareclaw/chunk-type'', optional_field ''content'' ''string''])"
  "find_type (js ''@bareclaw/session-scope'') = Some (Struct (js ''@bareclaw/session-scope'') [optional_field ''agentId'' ''string'', optional_field ''channel'' ''string'', optional_field ''account'' ''string'', optional_field ''peer'' ''string''])"
  "find_type (js ''@bareclaw/session-key'') = Some (Struct (js ''@bareclaw/session-key'') [required_field ''key'' ''string''])"
  "find_type (js ''@bareclaw/session-list'') = Some (Struct (js ''@bareclaw/session-list'') [array_field ''keys'' ''string''])"
  "find_type (js ''@bareclaw/session-blob'') = Some (Struct (js ''@bareclaw/session-blob'') [required_field ''key'' ''string'', required_field ''data'' ''buffer''])"
  "find_type (js ''@bareclaw/state-blob'') = Some (Struct (js ''@bareclaw/state-blob'') [array_field ''sessions'' ''@bareclaw/session-blob''])"
  "find_type (js ''@bareclaw/tool-def'') = Some (Struct (js ''@bareclaw/tool-def'') [required_field ''name'' ''string'', required_field ''description'' ''string'', optional_field ''inputSchema'' ''buffer''])"
  "find_type (js ''@bareclaw/tool-call'') = Some (Struct (js ''@bareclaw/tool-call'') [required_field ''callId'' ''string'', required_field ''name'' ''string'', required_field ''input'' ''buffer''])"
  "find_type (js ''@bareclaw/tool-result'') = Some (Struct (js ''@bareclaw/tool-result'') [required_field ''callId'' ''string'', optional_field ''output'' ''buffer'', optional_field ''errMsg'' ''string''])"
  "find_type (js ''@bareclaw/state-field'') = Some (Enum (js ''@bareclaw/state-field'') [js ''history'', js ''summary''])"
  "find_type (js ''@bareclaw/state-chunk'') = Some (Struct (js ''@bareclaw/state-chunk'') [required_field ''sessionKey'' ''string'', required_field ''field'' ''@bareclaw/state-field'', required_field ''data'' ''buffer''])"
  by (simp_all add: find_type_def build_types_def)

named_theorems schema_simps \<open>unfolding the schema at a known type\<close>

declare ty_wire.simps [simp del] ty_ok.simps [simp del] ty_got.simps [simp del]

lemmas [schema_simps] = ty_wire.simps ty_ok.simps ty_got.simps find_type_known is_struct_def optionals_def
  required_field_def optional_field_def array_field_def
  struct_wire_def fd_wire_def fd_ok_def arr_got_def

end
