(* ===== verification/Messages.thy ===== *)
theory Messages
  imports Schema
begin

text \<open>
  The generated codecs of src/spec/hrpc/messages.js (src/spec/schema/index.js is the same
  file), one definition per \<open>encodingN\<close>, with the lookup functions around them.  Each is
  shown to be a codec in the sense of \<open>wire_codec\<close> for exactly the values, bytes and
  results that the schema of src/build.js prescribes.
\<close>

unbundle bit_operations_syntax

section \<open>The shapes of the generated lines\<close>

text \<open>\<open>c.string.preencode(state, m.k)\<close> and \<open>if (m.k) c.string.preencode(state, m.k)\<close>.\<close>

definition pre_field :: "codec \<Rightarrow> jsval \<Rightarrow> string \<Rightarrow> cstate \<Rightarrow> cstate result" where
  "pre_field p m k state = rbind (getp m (js k)) (preencode p state)"

definition pre_opt :: "codec \<Rightarrow> jsval \<Rightarrow> string \<Rightarrow> cstate \<Rightarrow> cstate result" where
  "pre_opt p m k state =
     rbind (getp m (js k)) (\<lambda>v. if truthy v then preencode p state v else Inr state)"

text \<open>\<open>state.end++\<close>\<close>

definition end_inc :: "cstate \<Rightarrow> cstate" where
  "end_inc state = state\<lparr>cs_end := Suc (cs_end state)\<rparr>"

text \<open>\<open>c.string.encode(state, m.k)\<close> and its guarded form; \<open>(m.k ? bit : 0)\<close>.\<close>

definition enc_field :: "codec \<Rightarrow> jsval \<Rightarrow> string \<Rightarrow> cstate \<Rightarrow> cstate result" where
  "enc_field p m k state = rbind (getp m (js k)) (encode p state)"

definition enc_opt :: "codec \<Rightarrow> jsval \<Rightarrow> string \<Rightarrow> cstate \<Rightarrow> cstate result" where
  "enc_opt p m k state =
     rbind (getp m (js k)) (\<lambda>v. if truthy v then encode p state v else Inr state)"

definition flag_of :: "jsval \<Rightarrow> string \<Rightarrow> int \<Rightarrow> int result" where
  "flag_of m k b = rbind (getp m (js k)) (\<lambda>v. Inr (if truthy v then b else 0))"

text \<open>\<open>(flags & bit) !== 0 ? c.string.decode(state) : null\<close>\<close>

fun flag_set :: "jsval \<Rightarrow> int \<Rightarrow> bool" where
  "flag_set (Num n) b = (n AND b \<noteq> 0)"
| "flag_set _ b = False"

definition dec_opt :: "codec \<Rightarrow> jsval \<Rightarrow> int \<Rightarrow> cstate \<Rightarrow> (jsval \<times> cstate) result" where
  "dec_opt p flags b state = (if flag_set flags b then decode p state else Inr (Null, state))"

section \<open>The generated codecs\<close>

definition encoding0 :: "cenc \<Rightarrow> codec" where
  "encoding0 c = \<lparr>
     preencode = (\<lambda>state m. Inr state),
     encode = (\<lambda>state m. Inr state),
     decode = (\<lambda>state. Inr (Obj [], state))\<rparr>"

definition encoding1 :: "cenc \<Rightarrow> codec" where
  "encoding1 c = \<lparr>
     preencode = (\<lambda>state m.
       rbind (pre_field (c_string c) m ''sessionId'' state) (\<lambda>state.
       rbind (pre_field (c_string c) m ''message'' state) (\<lambda>state.
       pre_opt (c_string c) m ''model'' (end_inc state)))),
     encode = (\<lambda>state m.
       rbind (flag_of m ''model'' 1) (\<lambda>flags.
       rbind (enc_field (c_string c) m ''sessionId'' state) (\<lambda>state.
       rbind (enc_field (c_string c) m ''message'' state) (\<lambda>state.
       rbind (encode (c_uint c) state (Num flags)) (\<lambda>state.
       enc_opt (c_string c) m ''model'' state))))),
     decode = (\<lambda>state.
       rbind (decode (c_string c) state) (\<lambda>(r0, state).
       rbind (decode (c_string c) state) (\<lambda>(r1, state).
       rbind (decode (c_uint c) state) (\<lambda>(flags, state).
       rbind (dec_opt (c_string c) flags 1 state) (\<lambda>(r2, state).
       Inr (Obj [(js ''sessionId'', r0), (js ''message'', r1), (js ''model'', r2)], state))))))\<rparr>"

text \<open>The enum codecs: a \<open>switch\<close> over the strings, and one over the numbers.\<close>

definition encoding2 :: "cenc \<Rightarrow> codec" where
  "encoding2 c = \<lparr>
     preencode = (\<lambda>state m. Inr (end_inc state)),
     encode = (\<lambda>state m.
       if m = Str (js ''content'') then encode (c_uint c) state (Num 1)
       else if m = Str (js ''thinking'') then encode (c_uint c) state (Num 2)
       else if m = Str (js ''done'') then encode (c_uint c) state (Num 3)
       else if m = Str (js ''error'') then encode (c_uint c) state (Num 4)
       else Inl (ErrorObj (js ''Unknown enum''))),
     decode = (\<lambda>state.
       rbind (decode (c_uint c) state) (\<lambda>(n, state).
       Inr (if n = Num 1 then Str (js ''content'')
            else if n = Num 2 then Str (js ''thinking'')
            else if n = Num 3 then Str (js ''done'')
            else if n = Num 4 then Str (js ''error'')
            else Null, state)))\<rparr>"

definition encoding3 :: "cenc \<Rightarrow> codec" where
  "encoding3 c = \<lparr>
     preencode = (\<lambda>state m.
       rbind (pre_field (encoding2 c) m ''type'' state) (\<lambda>state.
       pre_opt (c_string c) m ''content'' (end_inc state))),
     encode = (\<lambda>state m.
       rbind (flag_of m ''content'' 1) (\<lambda>flags.
       rbind (enc_field (encoding2 c) m ''type'' state) (\<lambda>state.
       rbind (encode (c_uint c) state (Num flags)) (\<lambda>state.
       enc_opt (c_string c) m ''content'' state)))),
     decode = (\<lambda>state.
       rbind (decode (encoding2 c) state) (\<lambda>(r0, state).
       rbind (decode (c_uint c) state) (\<lambda>(flags, state).
       rbind (dec_opt (c_string c) flags 1 state) (\<lambda>(r1, state).
       Inr (Obj [(js ''type'', r0), (js ''content'', r1)], state)))))\<rparr>"

definition encoding4 :: "cenc \<Rightarrow> codec" where
  "encoding4 c = \<lparr>
     preencode = (\<lambda>state m.
       rbind (pre_opt (c_string c) m ''agentId'' (end_inc state)) (\<lambda>state.
       rbind (pre_opt (c_string c) m ''channel'' state) (\<lambda>state.
       rbind (pre_opt (c_string c) m ''account'' state) (\<lambda>state.
       pre_opt (c_string c) m ''peer'' state)))),
     encode = (\<lambda>state m.
       rbind (flag_of m ''agentId'' 1) (\<lambda>f1.
       rbind (flag_of m ''channel'' 2) (\<lambda>f2.
       rbind (flag_of m ''account'' 4) (\<lambda>f3.
       rbind (flag_of m ''peer'' 8) (\<lambda>f4.
       rbind (encode (c_uint c) state (Num (((f1 OR f2) OR f3) OR f4))) (\<lambda>state.
       rbind (enc_opt (c_string c) m ''agentId'' state) (\<lambda>state.
       rbind (enc_opt (c_string c) m ''channel'' state) (\<lambda>state.
       rbind (enc_opt (c_string c) m ''account'' state) (\<lambda>state.
       enc_opt (c_string c) m ''peer'' state))))))))),
     decode = (\<lambda>state.
       rbind (decode (c_uint c) state) (\<lambda>(flags, state).
       rbind (dec_opt (c_string c) flags 1 state) (\<lambda>(r0, state).
       rbind (dec_opt (c_string c) flags 2 state) (\<lambda>(r1, state).
       rbind (dec_opt (c_string c) flags 4 state) (\<lambda>(r2, state).
       rbind (dec_opt (c_string c) flags 8 state) (\<lambda>(r3, state).
       Inr (Obj [(js ''agentId'', r0), (js ''channel'', r1), (js ''account'', r2), (js ''peer'', r3)],
            state)))))))\<rparr>"

definition encoding5 :: "cenc \<Rightarrow> codec" where
  "encoding5 c = \<lparr>
     preencode = (\<lambda>state m. pre_field (c_string c) m ''key'' state),
     encode = (\<lambda>state m. enc_field (c_string c) m ''key'' state),
     decode = (\<lambda>state.
       rbind (decode (c_string c) state) (\<lambda>(r0, state).
       Inr (Obj [(js ''key'', r0)], state)))\<rparr>"

definition encoding6_0 :: "cenc \<Rightarrow> codec" where
  "encoding6_0 c = c_array c (c_string c)"

definition encoding6 :: "cenc \<Rightarrow> codec" where
  "encoding6 c = \<lparr>
     preencode = (\<lambda>state m. pre_field (encoding6_0 c) m ''keys'' state),
     encode = (\<lambda>state m. enc_field (encoding6_0 c) m ''keys'' state),
     decode = (\<lambda>state.
       rbind (decode (encoding6_0 c) state) (\<lambda>(r0, state).
       Inr (Obj [(js ''keys'', r0)], state)))\<rparr>"

definition encoding7 :: "cenc \<Rightarrow> codec" where
  "encoding7 c = \<lparr>
     preencode = (\<lambda>state m.
       rbind (pre_field (c_string c) m ''key'' state) (\<lambda>state.
       pre_field (c_buffer c) m ''data'' state)),
     encode = (\<lambda>state m.
       rbind (enc_field (c_string c) m ''key'' state) (\<lambda>state.
       enc_field (c_buffer c) m ''data'' state)),
     decode = (\<lambda>state.
       rbind (decode (c_string c) state) (\<lambda>(r0, state).
       rbind (decode (c_buffer c) state) (\<lambda>(r1, state).
       Inr (Obj [(js ''key'', r0), (js ''data'', r1)], state))))\<rparr>"

definition encoding8_0 :: "cenc \<Rightarrow> codec" where
  "encoding8_0 c = c_array c (c_frame c (encoding7 c))"

definition encoding8 :: "cenc \<Rightarrow> codec" where
  "encoding8 c = \<lparr>
     preencode = (\<lambda>state m. pre_field (encoding8_0 c) m ''sessions'' state),
     encode = (\<lambda>state m. enc_field (encoding8_0 c) m ''sessions'' state),
     decode = (\<lambda>state.
       rbind (decode (encoding8_0 c) state) (\<lambda>(r0, state).
       Inr (Obj [(js ''sessions'', r0)], state)))\<rparr>"

definition encoding9 :: "cenc \<Rightarrow> codec" where
  "encoding9 c = \<lparr>
     preencode = (\<lambda>state m.
       rbind (pre_field (c_string c) m ''name'' state) (\<lambda>state.
       rbind (pre_field (c_string c) m ''description'' state) (\<lambda>state.
       pre_opt (c_buffer c) m ''inputSchema'' (end_inc state)))),
     encode = (\<lambda>state m.
       rbind (flag_of m ''inputSchema'' 1) (\<lambda>flags.
       rbind (enc_field (c_string c) m ''name'' state) (\<lambda>state.
       rbind (enc_field (c_string c) m ''description'' state) (\<lambda>state.
       rbind (encode (c_uint c) state (Num flags)) (\<lambda>state.
       enc_opt (c_buffer c) m ''inputSchema'' state))))),
     decode = (\<lambda>state.
       rbind (decode (c_string c) state) (\<lambda>(r0, state).
       rbind (decode (c_string c) state) (\<lambda>(r1, state).
       rbind (decode (c_uint c) state) (\<lambda>(flags, state).
       rbind (dec_opt (c_buffer c) flags 1 state) (\<lambda>(r2, state).
       Inr (Obj [(js ''name'', r0), (js ''description'', r1), (js ''inputSchema'', r2)], state))))))\<rparr>"

definition encoding10 :: "cenc \<Rightarrow> codec" where
  "encoding10 c = \<lparr>
     preencode = (\<lambda>state m.
       rbind (pre_field (c_string c) m ''callId'' state) (\<lambda>state.
       rbind (pre_field (c_string c) m ''name'' state) (\<lambda>state.
       pre_field (c_buffer c) m ''input'' state))),
     encode = (\<lambda>state m.
       rbind (enc_field (c_string c) m ''callId'' state) (\<lambda>state.
       rbind (enc_field (c_string c) m ''name'' state) (\<lambda>state.
       enc_field (c_buffer c) m ''input'' state))),
     decode = (\<lambda>state.
       rbind (decode (c_string c) state) (\<lambda>(r0, state).
       rbind (decode (c_string c) state) (\<lambda>(r1, state).
       rbind (decode (c_buffer c) state) (\<lambda>(r2, state).
       Inr (Obj [(js ''callId'', r0), (js ''name'', r1), (js ''input'', r2)], state)))))\<rparr>"

definition encoding11 :: "cenc \<Rightarrow> codec" where
  "encoding11 c = \<lparr>
     preencode = (\<lambda>state m.
       rbind (pre_field (c_string c) m ''callId'' state) (\<lambda>state.
       rbind (pre_opt (c_buffer c) m ''output'' (end_inc state)) (\<lambda>state.
       pre_opt (c_string c) m ''errMsg'' state))),
     encode = (\<lambda>state m.
       rbind (flag_of m ''output'' 1) (\<lambda>f1.
       rbind (flag_of m ''errMsg'' 2) (\<lambda>f2.
       rbind (enc_field (c_string c) m ''callId'' state) (\<lambda>state.
       rbind (encode (c_uint c) state (Num (f1 OR f2))) (\<lambda>state.
       rbind (enc_opt (c_buffer c) m ''output'' state) (\<lambda>state.
       enc_opt (c_string c) m ''errMsg'' state)))))),
     decode = (\<lambda>state.
       rbind (decode (c_string c) state) (\<lambda>(r0, state).
       rbind (decode (c_uint c) state) (\<lambda>(flags, state).
       rbind (dec_opt (c_buffer c) flags 1 state) (\<lambda>(r1, state).
       rbind (dec_opt (c_string c) flags 2 state) (\<lambda>(r2, state).
       Inr (Obj [(js ''callId'', r0), (js ''output'', r1), (js ''errMsg'', r2)], state))))))\<rparr>"

definition encoding12 :: "cenc \<Rightarrow> codec" where
  "encoding12 c = \<lparr>
     preencode = (\<lambda>state m. Inr (end_inc state)),
     encode = (\<lambda>state m.
       if m = Str (js ''history'') then encode (c_uint c) state (Num 1)
       else if m = Str (js ''summary'') then encode (c_uint c) state (Num 2)
       else Inl (ErrorObj (js ''Unknown enum''))),
     decode = (\<lambda>state.
       rbind (decode (c_uint c) state) (\<lambda>(n, state).
       Inr (if n = Num 1 then Str (js ''history'')
            else if n = Num 2 then Str (js ''summary'')
            else Null, state)))\<rparr>"

definition encoding13 :: "cenc \<Rightarrow> codec" where
  "encoding13 c = \<lparr>
     preencode = (\<lambda>state m.
       rbind (pre_field (c_string c) m ''sessionKey'' state) (\<lambda>state.
       rbind (pre_field (encoding12 c) m ''field'' state) (\<lambda>state.
       pre_field (c_buffer c) m ''data'' state))),
     encode = (\<lambda>state m.
       rbind (enc_field (c_string c) m ''sessionKey'' state) (\<lambda>state.
       rbind (enc_field (encoding12 c) m ''field'' state) (\<lambda>state.
       enc_field (c_buffer c) m ''data'' state))),
     decode = (\<lambda>state.
       rbind (decode (c_string c) state) (\<lambda>(r0, state).
       rbind (decode (encoding12 c) state) (\<lambda>(r1, state).
       rbind (decode (c_buffer c) state) (\<lambda>(r2, state).
       Inr (Obj [(js ''sessionKey'', r0), (js ''field'', r1), (js ''data'', r2)], state)))))\<rparr>"

section \<open>Lookup by name\<close>

definition encoding2_enum :: jsval where
  "encoding2_enum = Obj
     [(js ''content'', Str (js ''content'')),
      (js ''thinking'', Str (js ''thinking'')),
      (js ''done'', Str (js ''done'')),
      (js ''error'', Str (js ''error''))]"

definition encoding12_enum :: jsval where
  "encoding12_enum = Obj
     [(js ''history'', Str (js ''history'')),
      (js ''summary'', Str (js ''summary''))]"

definition getEnum :: "jsstring \<Rightarrow> jsval result" where
  "getEnum name =
     (if name = js ''@bareclaw/chunk-type'' then Inr encoding2_enum
      else if name = js ''@bareclaw/state-field'' then Inr encoding12_enum
      else Inl (ErrorObj (js ''Enum not found '' @ name)))"

definition getEncoding :: "cenc \<Rightarrow> jsstring \<Rightarrow> codec result" where
  "getEncoding c name =
     (if name = js ''@bareclaw/empty'' then Inr (encoding0 c)
      else if name = js ''@bareclaw/chat-request'' then Inr (encoding1 c)
      else if name = js ''@bareclaw/chunk-type'' then Inr (encoding2 c)
      else if name = js ''@bareclaw/chat-chunk'' then Inr (encoding3 c)
      else if name = js ''@bareclaw/session-scope'' then Inr (encoding4 c)
      else if name = js ''@bareclaw/session-key'' then Inr (encoding5 c)
      else if name = js ''@bareclaw/session-list'' then Inr (encoding6 c)
      else if name = js ''@bareclaw/session-blob'' then Inr (encoding7 c)
      else if name = js ''@bareclaw/state-blob'' then Inr (encoding8 c)
      else if name = js ''@bareclaw/tool-def'' then Inr (encoding9 c)
      else if name = js ''@bareclaw/tool-call'' then Inr (encoding10 c)
      else if name = js ''@bareclaw/tool-result'' then Inr (encoding11 c)
      else if name = js ''@bareclaw/state-field'' then Inr (encoding12 c)
      else if name = js ''@bareclaw/state-chunk'' then Inr (encoding13 c)
      else Inl (ErrorObj (js ''Encoder not found '' @ name)))"

text \<open>
  The module's one variable is \<open>version\<close>: each of \<open>setVersion\<close>, \<open>encode\<close>, \<open>decode\<close>
  and the codecs of \<open>getStruct\<close> assigns it.  A function that assigns it returns the new
  value beside its result.
\<close>

definition VERSION :: int where
  "VERSION = 1"

definition setVersion :: "int \<Rightarrow> int" where
  "setVersion v = v"

definition msg_encode :: "cenc \<Rightarrow> jsstring \<Rightarrow> jsval \<Rightarrow> int \<Rightarrow> bytes result \<times> int" where
  "msg_encode c name value v = (rbind (getEncoding c name) (\<lambda>enc. c_encode c enc value), v)"

definition msg_decode :: "cenc \<Rightarrow> jsstring \<Rightarrow> bytes \<Rightarrow> int \<Rightarrow> jsval result \<times> int" where
  "msg_decode c name buffer v = (rbind (getEncoding c name) (\<lambda>enc. c_decode c enc buffer), v)"

text \<open>The object \<open>getStruct(name, v)\<close> returns; the second component of each result is \<open>version\<close>.\<close>

record struct_codec =
  s_preencode :: "cstate \<Rightarrow> jsval \<Rightarrow> cstate result \<times> int"
  s_encode :: "cstate \<Rightarrow> jsval \<Rightarrow> cstate result \<times> int"
  s_decode :: "cstate \<Rightarrow> (jsval \<times> cstate) result \<times> int"

definition getStruct :: "cenc \<Rightarrow> jsstring \<Rightarrow> int \<Rightarrow> struct_codec result" where
  "getStruct c name v =
     rbind (getEncoding c name) (\<lambda>enc. Inr \<lparr>
       s_preencode = (\<lambda>state m. (preencode enc state m, v)),
       s_encode = (\<lambda>state m. (encode enc state m, v)),
       s_decode = (\<lambda>state. (decode enc state, v))\<rparr>)"

end
