(* ===== verification/Message_Codecs.thy ===== *)
theory Message_Codecs
  imports Messages
begin

text \<open>
  The refinement of the schema by the generated codecs: for every type of
  src/build.js, what the layout of the theory Schema amounts to, and that the codec of
  src/spec/hrpc/messages.js is a \<open>wire_codec\<close> for it.  From there \<open>c.encode\<close> and
  \<open>c.decode\<close> by name, over all types at once.
\<close>

unbundle bit_operations_syntax

section \<open>The layout of each type\<close>

text \<open>Stated for any depth that reaches the leaves, so the depth chosen does not matter.\<close>

lemma schema_string:
  "ty_ok (Suc d) f (js ''string'') = str_ok"
  "ty_wire (Suc d) f (js ''string'') = (\<lambda>v. w_str f (str_of v))"
  "ty_got (Suc d) (js ''string'') = (\<lambda>v. v)"
  by (simp_all add: schema_simps fun_eq_iff)

lemma schema_empty:
  "ty_ok (Suc (Suc d)) f (js ''@bareclaw/empty'') m \<longleftrightarrow>
     is_obj m"
  "ty_wire (Suc (Suc d)) f (js ''@bareclaw/empty'') m =
     []"
  "ty_got (Suc (Suc d)) (js ''@bareclaw/empty'') m =
     Obj []"
  by (auto simp: schema_simps)

lemma schema_chat_request:
  "ty_ok (Suc (Suc d)) f (js ''@bareclaw/chat-request'') m \<longleftrightarrow>
     is_obj m
     \<and> str_ok (field m (js ''sessionId''))
     \<and> str_ok (field m (js ''message''))
     \<and> (truthy (field m (js ''model'')) \<longrightarrow> str_ok (field m (js ''model'')))"
  "ty_wire (Suc (Suc d)) f (js ''@bareclaw/chat-request'') m =
     w_str f (str_of (field m (js ''sessionId'')))
     @ w_str f (str_of (field m (js ''message'')))
     @ w_uint f ((if truthy (field m (js ''model'')) then 1 else 0))
     @ (if truthy (field m (js ''model'')) then w_str f (str_of (field m (js ''model''))) else [])"
  "ty_got (Suc (Suc d)) (js ''@bareclaw/chat-request'') m =
     Obj [(js ''sessionId'', field m (js ''sessionId'')),
       (js ''message'', field m (js ''message'')),
       (js ''model'', if truthy (field m (js ''model'')) then field m (js ''model'') else Null)]"
  by (auto simp: schema_simps)

lemma schema_chunk_type:
  "ty_ok (Suc d) f (js ''@bareclaw/chunk-type'') m \<longleftrightarrow> enum_ok [js ''content'', js ''thinking'', js ''done'', js ''error''] m"
  "ty_wire (Suc d) f (js ''@bareclaw/chunk-type'') m = w_uint f (enum_index [js ''content'', js ''thinking'', js ''done'', js ''error''] (str_of m))"
  "ty_got (Suc d) (js ''@bareclaw/chunk-type'') m = m"
  by (simp_all add: schema_simps)

lemma schema_chat_chunk:
  "ty_ok (Suc (Suc d)) f (js ''@bareclaw/chat-chunk'') m \<longleftrightarrow>
     is_obj m
     \<and> ty_ok (Suc d) f (js ''@bareclaw/chunk-type'') (field m (js ''type''))
     \<and> (truthy (field m (js ''content'')) \<longrightarrow> str_ok (field m (js ''content'')))"
  "ty_wire (Suc (Suc d)) f (js ''@bareclaw/chat-chunk'') m =
     ty_wire (Suc d) f (js ''@bareclaw/chunk-type'') (field m (js ''type''))
     @ w_uint f ((if truthy (field m (js ''content'')) then 1 else 0))
     @ (if truthy (field m (js ''content'')) then w_str f (str_of (field m (js ''content''))) else [])"
  "ty_got (Suc (Suc d)) (js ''@bareclaw/chat-chunk'') m =
     Obj [(js ''type'', field m (js ''type'')),
       (js ''content'', if truthy (field m (js ''content'')) then field m (js ''content'') else Null)]"
  by (auto simp: schema_simps)

lemma schema_session_scope:
  "ty_ok (Suc (Suc d)) f (js ''@bareclaw/session-scope'') m \<longleftrightarrow>
     is_obj m
     \<and> (truthy (field m (js ''agentId'')) \<longrightarrow> str_ok (field m (js ''agentId'')))
     \<and> (truthy (field m (js ''channel'')) \<longrightarrow> str_ok (field m (js ''channel'')))
     \<and> (truthy (field m (js ''account'')) \<longrightarrow> str_ok (field m (js ''account'')))
     \<and> (truthy (field m (js ''peer'')) \<longrightarrow> str_ok (field m (js ''peer'')))"
  "ty_wire (Suc (Suc d)) f (js ''@bareclaw/session-scope'') m =
     w_uint f ((if truthy (field m (js ''agentId'')) then 1 else 0) + (if truthy (field m (js ''channel'')) then 2 else 0) + (if truthy (field m (js ''account'')) then 4 else 0) + (if truthy (field m (js ''peer'')) then 8 else 0))
     @ (if truthy (field m (js ''agentId'')) then w_str f (str_of (field m (js ''agentId''))) else [])
     @ (if truthy (field m (js ''channel'')) then w_str f (str_of (field m (js ''channel''))) else [])
     @ (if truthy (field m (js ''account'')) then w_str f (str_of (field m (js ''account''))) else [])
     @ (if truthy (field m (js ''peer'')) then w_str f (str_of (field m (js ''peer''))) else [])"
  "ty_got (Suc (Suc d)) (js ''@bareclaw/session-scope'') m =
     Obj [(js ''agentId'', if truthy (field m (js ''agentId'')) then field m (js ''agentId'') else Null),
       (js ''channel'', if truthy (field m (js ''channel'')) then field m (js ''channel'') else Null),
       (js ''account'', if truthy (field m (js ''account'')) then field m (js ''account'') else Null),
       (js ''peer'', if truthy (field m (js ''peer'')) then field m (js ''peer'') else Null)]"
  by (auto simp: schema_simps)

lemma schema_session_key:
  "ty_ok (Suc (Suc d)) f (js ''@bareclaw/session-key'') m \<longleftrightarrow>
     is_obj m
     \<and> str_ok (field m (js ''key''))"
  "ty_wire (Suc (Suc d)) f (js ''@bareclaw/session-key'') m =
     w_str f (str_of (field m (js ''key'')))"
  "ty_got (Suc (Suc d)) (js ''@bareclaw/session-key'') m =
     Obj [(js ''key'', field m (js ''key''))]"
  by (auto simp: schema_simps)

lemma schema_session_list:
  "ty_ok (Suc (Suc d)) f (js ''@bareclaw/session-list'') m \<longleftrightarrow>
     is_obj m
     \<and> arr_ok str_ok (field m (js ''keys''))"
  "ty_wire (Suc (Suc d)) f (js ''@bareclaw/session-list'') m =
     arr_wire f (\<lambda>v. w_str f (str_of v)) (field m (js ''keys''))"
  "ty_got (Suc (Suc d)) (js ''@bareclaw/session-list'') m =
     Obj [(js ''keys'', Arr (arr_of (field m (js ''keys''))))]"
  by (auto simp: schema_string schema_simps)

lemma schema_session_blob:
  "ty_ok (Suc (Suc d)) f (js ''@bareclaw/session-blob'') m \<longleftrightarrow>
     is_obj m
     \<and> str_ok (field m (js ''key''))
     \<and> buf_ok (field m (js ''data''))"
  "ty_wire (Suc (Suc d)) f (js ''@bareclaw/session-blob'') m =
     w_str f (str_of (field m (js ''key'')))
     @ w_buf f (buf_of (field m (js ''data'')))"
  "ty_got (Suc (Suc d)) (js ''@bareclaw/session-blob'') m =
     Obj [(js ''key'', field m (js ''key'')),
       (js ''data'', field m (js ''data''))]"
  by (auto simp: schema_simps)

lemma schema_state_blob:
  "ty_ok (Suc (Suc (Suc d))) f (js ''@bareclaw/state-blob'') m \<longleftrightarrow>
     is_obj m
     \<and> arr_ok (frame_ok (ty_ok (Suc (Suc d)) f (js ''@bareclaw/session-blob''))
        (ty_wire (Suc (Suc d)) f (js ''@bareclaw/session-blob''))) (field m (js ''sessions''))"
  "ty_wire (Suc (Suc (Suc d))) f (js ''@bareclaw/state-blob'') m =
     arr_wire f (frame_wire f (ty_wire (Suc (Suc d)) f (js ''@bareclaw/session-blob''))) (field m (js ''sessions''))"
  "ty_got (Suc (Suc (Suc d))) (js ''@bareclaw/state-blob'') m =
     Obj [(js ''sessions'', arr_got (ty_got (Suc (Suc d)) (js ''@bareclaw/session-blob'')) (field m (js ''sessions'')))]"
  by (auto simp: schema_simps)

lemma schema_tool_def:
  "ty_ok (Suc (Suc d)) f (js ''@bareclaw/tool-def'') m \<longleftrightarrow>
     is_obj m
     \<and> str_ok (field m (js ''name''))
     \<and> str_ok (field m (js ''description''))
     \<and> (truthy (field m (js ''inputSchema'')) \<longrightarrow> buf_ok (field m (js ''inputSchema'')))"
  "ty_wire (Suc (Suc d)) f (js ''@bareclaw/tool-def'') m =
     w_str f (str_of (field m (js ''name'')))
     @ w_str f (str_of (field m (js ''description'')))
     @ w_uint f ((if truthy (field m (js ''inputSchema'')) then 1 else 0))
     @ (if truthy (field m (js ''inputSchema'')) then w_buf f (buf_of (field m (js ''inputSchema''))) else [])"
  "ty_got (Suc (Suc d)) (js ''@bareclaw/tool-def'') m =
     Obj [(js ''name'', field m (js ''name'')),
       (js ''description'', field m (js ''description'')),
       (js ''inputSchema'', if truthy (field m (js ''inputSchema'')) then field m (js ''inputSchema'') else Null)]"
  by (auto simp: schema_simps)

lemma schema_tool_call:
  "ty_ok (Suc (Suc d)) f (js ''@bareclaw/tool-call'') m \<longleftrightarrow>
     is_obj m
     \<and> str_ok (field m (js ''callId''))
     \<and> str_ok (field m (js ''name''))
     \<and> buf_ok (field m (js ''input''))"
  "ty_wire (Suc (Suc d)) f (js ''@bareclaw/tool-call'') m =
     w_str f (str_of (field m (js ''callId'')))
     @ w_str f (str_of (field m (js ''name'')))
     @ w_buf f (buf_of (field m (js ''input'')))"
  "ty_got (Suc (Suc d)) (js ''@bareclaw/tool-call'') m =
     Obj [(js ''callId'', field m (js ''callId'')),
       (js ''name'', field m (js ''name'')),
       (js ''input'', field m (js ''input''))]"
  by (auto simp: schema_simps)

lemma schema_tool_result:
  "ty_ok (Suc (Suc d)) f (js ''@bareclaw/tool-result'') m \<longleftrightarrow>
     is_obj m
     \<and> str_ok (field m (js ''callId''))
     \<and> (truthy (field m (js ''output'')) \<longrightarrow> buf_ok (field m (js ''output'')))
     \<and> (truthy (field m (js ''errMsg'')) \<longrightarrow> str_ok (field m (js ''errMsg'')))"
  "ty_wire (Suc (Suc d)) f (js ''@bareclaw/tool-result'') m =
     w_str f (str_of (field m (js ''callId'')))
     @ w_uint f ((if truthy (field m (js ''output'')) then 1 else 0) + (if truthy (field m (js ''errMsg'')) then 2 else 0))
     @ (if truthy (field m (js ''output'')) then w_buf f (buf_of (field m (js ''output''))) else [])
     @ (if truthy (field m (js ''errMsg'')) then w_str f (str_of (field m (js ''errMsg''))) else [])"
  "ty_got (Suc (Suc d)) (js ''@bareclaw/tool-result'') m =
     Obj [(js ''callId'', field m (js ''callId'')),
       (js ''output'', if truthy (field m (js ''output'')) then field m (js ''output'') else Null),
       (js ''errMsg'', if truthy (field m (js ''errMsg'')) then field m (js ''errMsg'') else Null)]"
  by (auto simp: schema_simps)

lemma schema_state_field:
  "ty_ok (Suc d) f (js ''@bareclaw/state-field'') m \<longleftrightarrow> enum_ok [js ''history'', js ''summary''] m"
  "ty_wire (Suc d) f (js ''@bareclaw/state-field'') m = w_uint f (enum_index [js ''history'', js ''summary''] (str_of m))"
  "ty_got (Suc d) (js ''@bareclaw/state-field'') m = m"
  by (simp_all add: schema_simps)

lemma schema_state_chunk:
  "ty_ok (Suc (Suc d)) f (js ''@bareclaw/state-chunk'') m \<longleftrightarrow>
     is_obj m
     \<and> str_ok (field m (js ''sessionKey''))
     \<and> ty_ok (Suc d) f (js ''@bareclaw/state-field'') (field m (js ''field''))
     \<and> buf_ok (field m (js ''data''))"
  "ty_wire (Suc (Suc d)) f (js ''@bareclaw/state-chunk'') m =
     w_str f (str_of (field m (js ''sessionKey'')))
     @ ty_wire (Suc d) f (js ''@bareclaw/state-field'') (field m (js ''field''))
     @ w_buf f (buf_of (field m (js ''data'')))"
  "ty_got (Suc (Suc d)) (js ''@bareclaw/state-chunk'') m =
     Obj [(js ''sessionKey'', field m (js ''sessionKey'')),
       (js ''field'', field m (js ''field'')),
       (js ''data'', field m (js ''data''))]"
  by (auto simp: schema_simps)

section \<open>Each generated codec refines its type\<close>

lemmas codec_shape = pre_field_def pre_opt_def end_inc_def enc_field_def enc_opt_def
  flag_of_def dec_opt_def fits_def is_obj_getp

context compact_encoding
begin

lemmas codec_steps = codec_shape codec_moves add.assoc
  string_preencode buffer_preencode string_encode buffer_encode
  small_uint_encode small_uint_decode uint_byte

lemma empty_codec:
  "wire_codec (encoding0 c) (ty_ok (Suc (Suc d)) f (js ''@bareclaw/empty''))
     (ty_wire (Suc (Suc d)) f (js ''@bareclaw/empty'')) (ty_got (Suc (Suc d)) (js ''@bareclaw/empty''))"
proof (unfold_locales, goal_cases)
  case (1 v st)
  then show ?case
    by (simp add: schema_empty encoding0_def codec_steps)
next
  case (2 v st)
  then show ?case
    by (simp add: schema_empty encoding0_def codec_steps split: if_splits)
next
  case (3 v st rest)
  then show ?case
    by (simp add: schema_empty encoding0_def codec_steps
       split: if_splits)
qed

lemma chat_request_codec:
  "wire_codec (encoding1 c) (ty_ok (Suc (Suc d)) f (js ''@bareclaw/chat-request''))
     (ty_wire (Suc (Suc d)) f (js ''@bareclaw/chat-request'')) (ty_got (Suc (Suc d)) (js ''@bareclaw/chat-request''))"
proof (unfold_locales, goal_cases)
  case (1 v st)
  then show ?case
    by (simp add: schema_chat_request encoding1_def codec_steps)
next
  case (2 v st)
  then show ?case
    by (simp add: schema_chat_request encoding1_def codec_steps split: if_splits)
next
  case (3 v st rest)
  then show ?case
    by (simp add: schema_chat_request encoding1_def codec_steps
      string_decode [of "field v (js ''sessionId'')"] string_decode [of "field v (js ''message'')"] string_decode [of "field v (js ''model'')"] split: if_splits)
qed

lemma chunk_type_codec:
  "wire_codec (encoding2 c) (ty_ok (Suc d) f (js ''@bareclaw/chunk-type''))
     (ty_wire (Suc d) f (js ''@bareclaw/chunk-type'')) (ty_got (Suc d) (js ''@bareclaw/chunk-type''))"
proof (unfold_locales, goal_cases)
  case (1 v st)
  then show ?case
    by (cases v) (auto simp: schema_chunk_type encoding2_def codec_steps)
next
  case (2 v st)
  then show ?case
    by (cases v) (auto simp: schema_chunk_type encoding2_def codec_steps)
next
  case (3 v st rest)
  then show ?case
    by (cases v) (auto simp: schema_chunk_type encoding2_def codec_steps)
qed

lemma chat_chunk_codec:
  "wire_codec (encoding3 c) (ty_ok (Suc (Suc d)) f (js ''@bareclaw/chat-chunk''))
     (ty_wire (Suc (Suc d)) f (js ''@bareclaw/chat-chunk'')) (ty_got (Suc (Suc d)) (js ''@bareclaw/chat-chunk''))"
proof (unfold_locales, goal_cases)
  case (1 v st)
  then show ?case
    by (simp add: schema_chat_chunk encoding3_def codec_steps wire_codec.preencode_ok [OF chunk_type_codec [where d = d]])
next
  case (2 v st)
  then show ?case
    by (simp add: schema_chat_chunk encoding3_def codec_steps wire_codec.encode_ok [OF chunk_type_codec [where d = d]] split: if_splits)
next
  case (3 v st rest)
  then show ?case
    by (simp add: schema_chat_chunk encoding3_def codec_steps
       string_decode [of "field v (js ''content'')"] schema_chunk_type wire_codec.decode_at [OF chunk_type_codec [where d = d], unfolded schema_chunk_type, of "field v (js ''type'')"] split: if_splits)
qed

lemma session_scope_codec:
  "wire_codec (encoding4 c) (ty_ok (Suc (Suc d)) f (js ''@bareclaw/session-scope''))
     (ty_wire (Suc (Suc d)) f (js ''@bareclaw/session-scope'')) (ty_got (Suc (Suc d)) (js ''@bareclaw/session-scope''))"
proof (unfold_locales, goal_cases)
  case (1 v st)
  then show ?case
    by (simp add: schema_session_scope encoding4_def codec_steps)
next
  case (2 v st)
  then show ?case
    by (simp add: schema_session_scope encoding4_def codec_steps split: if_splits)
next
  case (3 v st rest)
  then show ?case
    by (cases "truthy (field v (js ''agentId''))"; cases "truthy (field v (js ''channel''))"; cases "truthy (field v (js ''account''))"; cases "truthy (field v (js ''peer''))";
        (simp add: schema_session_scope encoding4_def codec_steps
      string_decode [of "field v (js ''agentId'')"] string_decode [of "field v (js ''channel'')"] string_decode [of "field v (js ''account'')"] string_decode [of "field v (js ''peer'')"]))
qed

lemma session_key_codec:
  "wire_codec (encoding5 c) (ty_ok (Suc (Suc d)) f (js ''@bareclaw/session-key''))
     (ty_wire (Suc (Suc d)) f (js ''@bareclaw/session-key'')) (ty_got (Suc (Suc d)) (js ''@bareclaw/session-key''))"
proof (unfold_locales, goal_cases)
  case (1 v st)
  then show ?case
    by (simp add: schema_session_key encoding5_def codec_steps)
next
  case (2 v st)
  then show ?case
    by (simp add: schema_session_key encoding5_def codec_steps split: if_splits)
next
  case (3 v st rest)
  then show ?case
    by (simp add: schema_session_key encoding5_def codec_steps
      string_decode [of "field v (js ''key'')"] split: if_splits)
qed

lemma session_list_codec:
  "wire_codec (encoding6 c) (ty_ok (Suc (Suc d)) f (js ''@bareclaw/session-list''))
     (ty_wire (Suc (Suc d)) f (js ''@bareclaw/session-list'')) (ty_got (Suc (Suc d)) (js ''@bareclaw/session-list''))"
proof -
  have elems: "wire_codec (encoding6_0 c) (arr_ok str_ok) (arr_wire f (\<lambda>v. w_str f (str_of v))) (arr_got (\<lambda>v. v))"
    unfolding encoding6_0_def by (rule array_codec [OF string_codec])
  show ?thesis
  proof (unfold_locales, goal_cases)
    case (1 v st)
    then show ?case
      by (simp add: schema_session_list encoding6_def codec_shape wire_codec.preencode_ok [OF elems])
  next
    case (2 v st)
    then show ?case
      by (simp add: schema_session_list encoding6_def codec_shape wire_codec.encode_ok [OF elems])
  next
    case (3 v st rest)
    then show ?case
      by (simp add: schema_session_list encoding6_def arr_got_def wire_codec.decode_at [OF elems, of "field v (js ''keys'')"])
  qed
qed

lemma session_blob_codec:
  "wire_codec (encoding7 c) (ty_ok (Suc (Suc d)) f (js ''@bareclaw/session-blob''))
     (ty_wire (Suc (Suc d)) f (js ''@bareclaw/session-blob'')) (ty_got (Suc (Suc d)) (js ''@bareclaw/session-blob''))"
proof (unfold_locales, goal_cases)
  case (1 v st)
  then show ?case
    by (simp add: schema_session_blob encoding7_def codec_steps)
next
  case (2 v st)
  then show ?case
    by (simp add: schema_session_blob encoding7_def codec_steps split: if_splits)
next
  case (3 v st rest)
  then show ?case
    by (simp add: schema_session_blob encoding7_def codec_steps
      string_decode [of "field v (js ''key'')"] buffer_decode [of "field v (js ''data'')"] split: if_splits)
qed

lemma state_blob_codec:
  "wire_codec (encoding8 c) (ty_ok (Suc (Suc (Suc d))) f (js ''@bareclaw/state-blob''))
     (ty_wire (Suc (Suc (Suc d))) f (js ''@bareclaw/state-blob'')) (ty_got (Suc (Suc (Suc d))) (js ''@bareclaw/state-blob''))"
proof -
  have elems: "wire_codec (encoding8_0 c) (arr_ok (frame_ok (ty_ok (Suc (Suc d)) f (js ''@bareclaw/session-blob'')) (ty_wire (Suc (Suc d)) f (js ''@bareclaw/session-blob''))))
      (arr_wire f (frame_wire f (ty_wire (Suc (Suc d)) f (js ''@bareclaw/session-blob''))))
      (arr_got (ty_got (Suc (Suc d)) (js ''@bareclaw/session-blob'')))"
    unfolding encoding8_0_def by (rule array_codec [OF frame_codec [OF session_blob_codec [where d = d]]])
  show ?thesis
  proof (unfold_locales, goal_cases)
    case (1 v st)
    then show ?case
      by (simp add: schema_state_blob encoding8_def codec_shape wire_codec.preencode_ok [OF elems])
  next
    case (2 v st)
    then show ?case
      by (simp add: schema_state_blob encoding8_def codec_shape wire_codec.encode_ok [OF elems])
  next
    case (3 v st rest)
    then show ?case
      by (simp add: schema_state_blob encoding8_def arr_got_def wire_codec.decode_at [OF elems, of "field v (js ''sessions'')"])
  qed
qed

lemma tool_def_codec:
  "wire_codec (encoding9 c) (ty_ok (Suc (Suc d)) f (js ''@bareclaw/tool-def''))
     (ty_wire (Suc (Suc d)) f (js ''@bareclaw/tool-def'')) (ty_got (Suc (Suc d)) (js ''@bareclaw/tool-def''))"
proof (unfold_locales, goal_cases)
  case (1 v st)
  then show ?case
    by (simp add: schema_tool_def encoding9_def codec_steps)
next
  case (2 v st)
  then show ?case
    by (simp add: schema_tool_def encoding9_def codec_steps split: if_splits)
next
  case (3 v st rest)
  then show ?case
    by (simp add: schema_tool_def encoding9_def codec_steps
      string_decode [of "field v (js ''name'')"] string_decode [of "field v (js ''description'')"] buffer_decode [of "field v (js ''inputSchema'')"] split: if_splits)
qed

lemma tool_call_codec:
  "wire_codec (encoding10 c) (ty_ok (Suc (Suc d)) f (js ''@bareclaw/tool-call''))
     (ty_wire (Suc (Suc d)) f (js ''@bareclaw/tool-call'')) (ty_got (Suc (Suc d)) (js ''@bareclaw/tool-call''))"
proof (unfold_locales, goal_cases)
  case (1 v st)
  then show ?case
    by (simp add: schema_tool_call encoding10_def codec_steps)
next
  case (2 v st)
  then show ?case
    by (simp add: schema_tool_call encoding10_def codec_steps split: if_splits)
next
  case (3 v st rest)
  then show ?case
    by (simp add: schema_tool_call encoding10_def codec_steps
      string_decode [of "field v (js ''callId'')"] string_decode [of "field v (js ''name'')"] buffer_decode [of "field v (js ''input'')"] split: if_splits)
qed

lemma tool_result_codec:
  "wire_codec (encoding11 c) (ty_ok (Suc (Suc d)) f (js ''@bareclaw/tool-result''))
     (ty_wire (Suc (Suc d)) f (js ''@bareclaw/tool-result'')) (ty_got (Suc (Suc d)) (js ''@bareclaw/tool-result''))"
proof (unfold_locales, goal_cases)
  case (1 v st)
  then show ?case
    by (simp add: schema_tool_result encoding11_def codec_steps)
next
  case (2 v st)
  then show ?case
    by (simp add: schema_tool_result encoding11_def codec_steps split: if_splits)
next
  case (3 v st rest)
  then show ?case
    by (simp add: schema_tool_result encoding11_def codec_steps
      string_decode [of "field v (js ''callId'')"] buffer_decode [of "field v (js ''output'')"] string_decode [of "field v (js ''errMsg'')"] split: if_splits)
qed

lemma state_field_codec:
  "wire_codec (encoding12 c) (ty_ok (Suc d) f (js ''@bareclaw/state-field''))
     (ty_wire (Suc d) f (js ''@bareclaw/state-field'')) (ty_got (Suc d) (js ''@bareclaw/state-field''))"
proof (unfold_locales, goal_cases)
  case (1 v st)
  then show ?case
    by (cases v) (auto simp: schema_state_field encoding12_def codec_steps)
next
  case (2 v st)
  then show ?case
    by (cases v) (auto simp: schema_state_field encoding12_def codec_steps)
next
  case (3 v st rest)
  then show ?case
    by (cases v) (auto simp: schema_state_field encoding12_def codec_steps)
qed

lemma state_chunk_codec:
  "wire_codec (encoding13 c) (ty_ok (Suc (Suc d)) f (js ''@bareclaw/state-chunk''))
     (ty_wire (Suc (Suc d)) f (js ''@bareclaw/state-chunk'')) (ty_got (Suc (Suc d)) (js ''@bareclaw/state-chunk''))"
proof (unfold_locales, goal_cases)
  case (1 v st)
  then show ?case
    by (simp add: schema_state_chunk encoding13_def codec_steps wire_codec.preencode_ok [OF state_field_codec [where d = d]])
next
  case (2 v st)
  then show ?case
    by (simp add: schema_state_chunk encoding13_def codec_steps wire_codec.encode_ok [OF state_field_codec [where d = d]] split: if_splits)
next
  case (3 v st rest)
  then show ?case
    by (simp add: schema_state_chunk encoding13_def codec_steps
      string_decode [of "field v (js ''sessionKey'')"]  buffer_decode [of "field v (js ''data'')"] schema_state_field wire_codec.decode_at [OF state_field_codec [where d = d], unfolded schema_state_field, of "field v (js ''field'')"] split: if_splits)
qed

end

end
