(* ===== verification/Text_Encoding.thy ===== *)
theory Text_Encoding
  imports Compact_Encoding
begin

text \<open>
  The interface of the b4a package, \<open>b4a.from(string)\<close> and \<open>b4a.toString(buffer)\<close>
  (UTF-8 both ways), as the locale \<open>text_encoding\<close>; and UTF-8 itself as the definitions
  the interface is interpreted with.
\<close>

section \<open>Strings to bytes and back\<close>

record b4a =
  b4a_from :: "jsstring \<Rightarrow> bytes"
  b4a_toString :: "bytes \<Rightarrow> jsstring"

locale text_encoding =
  fixes b :: b4a
  assumes from_append: "wf16 s \<Longrightarrow> b4a_from b (s @ t) = b4a_from b s @ b4a_from b t"
    and from_ascii: "u < 0x80 \<Longrightarrow> b4a_from b [u] = [ucast u]"
    and from_latin: "0x80 \<le> u \<Longrightarrow> u < 0x100 \<Longrightarrow>
      b4a_from b [u] = [word_of_nat (0xC0 + unat u div 64), word_of_nat (0x80 + unat u mod 64)]"
    and toString_from: "wf16 s \<Longrightarrow> b4a_toString b (b4a_from b s) = s"
begin

lemma from_Nil: "b4a_from b [] = []"
  using from_append [of "[]" "[]"] by simp

lemma from_inj: "wf16 s \<Longrightarrow> wf16 t \<Longrightarrow> b4a_from b s = b4a_from b t \<longleftrightarrow> s = t"
  by (metis toString_from)

end

section \<open>UTF-8\<close>

definition cp_bytes :: "nat \<Rightarrow> bytes" where
  "cp_bytes n =
     (if n < 0x80 then [word_of_nat n]
      else if n < 0x800 then [word_of_nat (0xC0 + n div 64), word_of_nat (0x80 + n mod 64)]
      else if n < 0x10000 then
        [word_of_nat (0xE0 + n div 4096), word_of_nat (0x80 + n div 64 mod 64), word_of_nat (0x80 + n mod 64)]
      else
        [word_of_nat (0xF0 + n div 262144), word_of_nat (0x80 + n div 4096 mod 64),
         word_of_nat (0x80 + n div 64 mod 64), word_of_nat (0x80 + n mod 64)])"

definition cp_units :: "nat \<Rightarrow> jsstring" where
  "cp_units n =
     (if n < 0x10000 then [word_of_nat n]
      else [word_of_nat (0xD800 + (n - 0x10000) div 1024), word_of_nat (0xDC00 + (n - 0x10000) mod 1024)])"

text \<open>The code point of a surrogate pair; a lone surrogate is sent as U+FFFD.\<close>

definition pair_cp :: "16 word \<Rightarrow> 16 word \<Rightarrow> nat" where
  "pair_cp u v = 0x10000 + (unat u - 0xD800) * 1024 + (unat v - 0xDC00)"

fun utf8 :: "jsstring \<Rightarrow> bytes" where
  "utf8 [] = []"
| "utf8 [u] = (if is_high u \<or> is_low u then cp_bytes 0xFFFD else cp_bytes (unat u))"
| "utf8 (u # v # s) =
     (if is_high u \<and> is_low v then cp_bytes (pair_cp u v) @ utf8 s
      else (if is_high u \<or> is_low u then cp_bytes 0xFFFD else cp_bytes (unat u)) @ utf8 (v # s))"

definition cont :: "byte \<Rightarrow> bool" where
  "cont b \<longleftrightarrow> 0x80 \<le> unat b \<and> unat b < 0xC0"

text \<open>A byte that starts no sequence is read as U+FFFD.\<close>

fun utf8_dec :: "bytes \<Rightarrow> jsstring" where
  "utf8_dec [] = []"
| "utf8_dec (b0 # r) =
     (if unat b0 < 0x80 then word_of_nat (unat b0) # utf8_dec r
      else case r of
        [] \<Rightarrow> [0xFFFD]
      | b1 # r1 \<Rightarrow>
          if 0xC2 \<le> unat b0 \<and> unat b0 < 0xE0 \<and> cont b1
          then cp_units ((unat b0 - 0xC0) * 64 + (unat b1 - 0x80)) @ utf8_dec r1
          else case r1 of
            [] \<Rightarrow> 0xFFFD # utf8_dec r
          | b2 # r2 \<Rightarrow>
              if 0xE0 \<le> unat b0 \<and> unat b0 < 0xF0 \<and> cont b1 \<and> cont b2
                 \<and> 0x800 \<le> (unat b0 - 0xE0) * 4096 + (unat b1 - 0x80) * 64 + (unat b2 - 0x80)
              then cp_units ((unat b0 - 0xE0) * 4096 + (unat b1 - 0x80) * 64 + (unat b2 - 0x80)) @ utf8_dec r2
              else case r2 of
                [] \<Rightarrow> 0xFFFD # utf8_dec r
              | b3 # r3 \<Rightarrow>
                  if 0xF0 \<le> unat b0 \<and> unat b0 < 0xF5 \<and> cont b1 \<and> cont b2 \<and> cont b3
                     \<and> 0x10000 \<le> (unat b0 - 0xF0) * 262144 + (unat b1 - 0x80) * 4096
                         + (unat b2 - 0x80) * 64 + (unat b3 - 0x80)
                  then cp_units ((unat b0 - 0xF0) * 262144 + (unat b1 - 0x80) * 4096
                         + (unat b2 - 0x80) * 64 + (unat b3 - 0x80)) @ utf8_dec r3
                  else 0xFFFD # utf8_dec r)"

declare utf8_dec.simps(2) [simp del]

lemma unat_byte: "n < 256 \<Longrightarrow> unat (word_of_nat n :: byte) = n"
  by (simp add: unat_of_nat take_bit_nat_eq_self)

lemma unat_u16: "unat (u :: 16 word) < 65536"
  using unsigned_less [of u, where ?'a = nat] by simp

lemma utf8_dec_1: "unat b0 < 0x80 \<Longrightarrow> utf8_dec (b0 # r) = word_of_nat (unat b0) # utf8_dec r"
  by (simp add: utf8_dec.simps(2))

lemma utf8_dec_2:
  "0xC2 \<le> unat b0 \<Longrightarrow> unat b0 < 0xE0 \<Longrightarrow> cont b1 \<Longrightarrow>
   utf8_dec (b0 # b1 # r) = cp_units ((unat b0 - 0xC0) * 64 + (unat b1 - 0x80)) @ utf8_dec r"
  by (simp add: utf8_dec.simps(2) [of b0])

lemma utf8_dec_3:
  "0xE0 \<le> unat b0 \<Longrightarrow> unat b0 < 0xF0 \<Longrightarrow> cont b1 \<Longrightarrow> cont b2 \<Longrightarrow>
   n = (unat b0 - 0xE0) * 4096 + (unat b1 - 0x80) * 64 + (unat b2 - 0x80) \<Longrightarrow> 0x800 \<le> n \<Longrightarrow>
   utf8_dec (b0 # b1 # b2 # r) = cp_units n @ utf8_dec r"
  by (simp add: utf8_dec.simps(2) [of b0])

lemma utf8_dec_4:
  "0xF0 \<le> unat b0 \<Longrightarrow> unat b0 < 0xF5 \<Longrightarrow> cont b1 \<Longrightarrow> cont b2 \<Longrightarrow> cont b3 \<Longrightarrow>
   n = (unat b0 - 0xF0) * 262144 + (unat b1 - 0x80) * 4096 + (unat b2 - 0x80) * 64 + (unat b3 - 0x80) \<Longrightarrow>
   0x10000 \<le> n \<Longrightarrow>
   utf8_dec (b0 # b1 # b2 # b3 # r) = cp_units n @ utf8_dec r"
  by (simp add: utf8_dec.simps(2) [of b0])

lemma cont_byte: "m < 64 \<Longrightarrow> cont (word_of_nat (0x80 + m))"
  unfolding cont_def by (subst (1 2) unat_byte) simp_all

lemma split_sextets:
  "(n::nat) div 4096 * 4096 + n div 64 mod 64 * 64 + n mod 64 = n"
  "(n::nat) div 262144 * 262144 + n div 4096 mod 64 * 4096 + n div 64 mod 64 * 64 + n mod 64 = n"
proof -
  have three: "(m::nat) div 4096 * 4096 + m div 64 mod 64 * 64 + m mod 64 = m" for m
  proof -
    have "m div 4096 * 4096 + m div 64 mod 64 * 64 = (m div 64 div 64 * 64 + m div 64 mod 64) * 64"
      by (simp add: div_mult2_eq [symmetric])
    also have "\<dots> = m div 64 * 64"
      by (simp only: div_mult_mod_eq)
    finally show ?thesis
      by (simp only: div_mult_mod_eq)
  qed
  then show "n div 4096 * 4096 + n div 64 mod 64 * 64 + n mod 64 = n" .
  have "n div 262144 * 262144 + n div 4096 mod 64 * 4096 + n div 64 mod 64 * 64
      = (n div 64 div 4096 * 4096 + n div 64 div 64 mod 64 * 64 + n div 64 mod 64) * 64"
    by (simp add: div_mult2_eq [symmetric])
  also have "\<dots> = n div 64 * 64"
    by (simp only: three)
  finally show "n div 262144 * 262144 + n div 4096 mod 64 * 4096 + n div 64 mod 64 * 64 + n mod 64 = n"
    by (simp only: div_mult_mod_eq)
qed

lemma utf8_dec_cp_bytes:
  assumes "n < 0x110000"
  shows "utf8_dec (cp_bytes n @ r) = cp_units n @ utf8_dec r"
proof -
  have tail: "unat (word_of_nat (0x80 + m mod 64) :: byte) = 0x80 + m mod 64" for m :: nat
    by (rule unat_byte) (use mod_less_divisor [of 64 m] in linarith)
  have con: "cont (word_of_nat (0x80 + m mod 64))" for m :: nat
    by (rule cont_byte) simp
  consider (one) "n < 0x80" | (two) "0x80 \<le> n" "n < 0x800" | (three) "0x800 \<le> n" "n < 0x10000"
    | (four) "0x10000 \<le> n"
    by linarith
  then show ?thesis
  proof cases
    case one
    then have "unat (word_of_nat n :: byte) = n"
      by (intro unat_byte) simp
    with one show ?thesis
      by (simp add: cp_bytes_def cp_units_def utf8_dec_1)
  next
    case two
    define b0 :: byte where "b0 = word_of_nat (0xC0 + n div 64)"
    have b0: "unat b0 = 0xC0 + n div 64"
      unfolding b0_def by (rule unat_byte) (use two in linarith)
    have "utf8_dec (b0 # word_of_nat (0x80 + n mod 64) # r)
      = cp_units ((unat b0 - 0xC0) * 64 + (unat (word_of_nat (0x80 + n mod 64) :: byte) - 0x80)) @ utf8_dec r"
      by (rule utf8_dec_2 [OF _ _ con]) (use b0 two in linarith)+
    then show ?thesis
      unfolding b0 tail using two by (simp add: cp_bytes_def b0_def del: of_nat_add)
  next
    case three
    define b0 :: byte where "b0 = word_of_nat (0xE0 + n div 4096)"
    have b0: "unat b0 = 0xE0 + n div 4096"
      unfolding b0_def by (rule unat_byte) (use three in linarith)
    have "utf8_dec (b0 # word_of_nat (0x80 + n div 64 mod 64) # word_of_nat (0x80 + n mod 64) # r)
      = cp_units n @ utf8_dec r"
    proof (rule utf8_dec_3 [OF _ _ con con])
      show "n = (unat b0 - 0xE0) * 4096 + (unat (word_of_nat (0x80 + n div 64 mod 64) :: byte) - 0x80) * 64
          + (unat (word_of_nat (0x80 + n mod 64) :: byte) - 0x80)"
        unfolding b0 tail using split_sextets(1) [of n] by simp
    qed (use b0 three in linarith)+
    then show ?thesis
      using three by (simp add: cp_bytes_def b0_def del: of_nat_add)
  next
    case four
    define b0 :: byte where "b0 = word_of_nat (0xF0 + n div 262144)"
    have b0: "unat b0 = 0xF0 + n div 262144"
      unfolding b0_def by (rule unat_byte) (use assms in linarith)
    have "utf8_dec (b0 # word_of_nat (0x80 + n div 4096 mod 64) # word_of_nat (0x80 + n div 64 mod 64)
        # word_of_nat (0x80 + n mod 64) # r) = cp_units n @ utf8_dec r"
    proof (rule utf8_dec_4 [OF _ _ con con con])
      show "n = (unat b0 - 0xF0) * 262144 + (unat (word_of_nat (0x80 + n div 4096 mod 64) :: byte) - 0x80) * 4096
          + (unat (word_of_nat (0x80 + n div 64 mod 64) :: byte) - 0x80) * 64
          + (unat (word_of_nat (0x80 + n mod 64) :: byte) - 0x80)"
        unfolding b0 tail using split_sextets(2) [of n] by simp
    qed (use b0 four assms in linarith)+
    then show ?thesis
      using four by (simp add: cp_bytes_def b0_def del: of_nat_add)
  qed
qed

lemma cp_units_single: "\<not> is_high u \<Longrightarrow> \<not> is_low u \<Longrightarrow> cp_units (unat u) = [u]"
proof -
  have "unat u < 0x10000"
    using unat_u16 [of u] by simp
  then show ?thesis
    by (simp add: cp_units_def)
qed

lemma surrogate_bounds:
  "is_high u \<Longrightarrow> 0xD800 \<le> unat u \<and> unat u < 0xDC00"
  "is_low v \<Longrightarrow> 0xDC00 \<le> unat v \<and> unat v < 0xE000"
  by (simp_all add: is_high_def is_low_def word_le_nat_alt word_less_nat_alt)

lemma cp_units_pair:
  assumes "is_high u" and "is_low v"
  shows "cp_units (pair_cp u v) = [u, v]"
proof -
  have d: "pair_cp u v - 0x10000 = (unat u - 0xD800) * 1024 + (unat v - 0xDC00)"
    by (simp add: pair_cp_def)
  have v: "unat v - 0xDC00 < 1024"
    using surrogate_bounds(2) [OF assms(2)] by linarith
  have "(pair_cp u v - 0x10000) div 1024 = unat u - 0xD800"
    "(pair_cp u v - 0x10000) mod 1024 = unat v - 0xDC00"
    unfolding d using v by simp_all
  then show ?thesis
    using surrogate_bounds(1) [OF assms(1)] surrogate_bounds(2) [OF assms(2)]
    by (simp add: cp_units_def pair_cp_def)
qed

lemma pair_cp_bound:
  assumes "is_high u" and "is_low v"
  shows "pair_cp u v < 0x110000"
proof -
  have "unat u - 0xD800 \<le> 1023" "unat v - 0xDC00 \<le> 1023"
    using surrogate_bounds(1) [OF assms(1)] surrogate_bounds(2) [OF assms(2)] by linarith+
  then show ?thesis
    unfolding pair_cp_def by linarith
qed

lemma utf8_roundtrip: "wf16 s \<Longrightarrow> utf8_dec (utf8 s) = s"
proof (induction s rule: wf16.induct)
  case 1
  then show ?case by simp
next
  case (2 u)
  have "unat u < 0x110000"
    using unat_u16 [of u] by simp
  with 2 show ?case
    using utf8_dec_cp_bytes [of "unat u" "[]"] by (simp add: cp_units_single)
next
  case (3 u v s)
  have "unat u < 0x110000"
    using unat_u16 [of u] by simp
  with 3 show ?case
    by (auto simp: utf8_dec_cp_bytes cp_units_single cp_units_pair pair_cp_bound split: if_splits)
qed

lemma utf8_append: "wf16 s \<Longrightarrow> utf8 (s @ t) = utf8 s @ utf8 t"
proof (induction s rule: wf16.induct)
  case 1
  then show ?case by simp
next
  case (2 u)
  then show ?case by (cases t) auto
next
  case (3 u v s)
  then show ?case by (auto split: if_splits)
qed

definition utf8_b4a :: b4a where
  "utf8_b4a = \<lparr>b4a_from = utf8, b4a_toString = utf8_dec\<rparr>"

interpretation utf8_text: text_encoding utf8_b4a
proof (unfold_locales, goal_cases)
  case (1 s t)
  then show ?case
    by (simp add: utf8_b4a_def utf8_append)
next
  case (2 u)
  then have "unat u < 0x80"
    by (simp add: word_less_nat_alt)
  moreover from 2 have "\<not> is_high u" "\<not> is_low u"
    by (auto simp: is_high_def is_low_def word_le_nat_alt word_less_nat_alt)
  ultimately show ?case
    by (simp add: utf8_b4a_def cp_bytes_def unsigned_ucast_eq)
next
  case (3 u)
  then have "0x80 \<le> unat u" "unat u < 0x800"
    by (simp_all add: word_le_nat_alt word_less_nat_alt)
  moreover from 3 have "\<not> is_high u" "\<not> is_low u"
    by (auto simp: is_high_def is_low_def word_le_nat_alt word_less_nat_alt)
  ultimately show ?case
    by (simp add: utf8_b4a_def cp_bytes_def)
next
  case (4 s)
  then show ?case
    by (simp add: utf8_b4a_def utf8_roundtrip)
qed

end
