(* ===== verification/Reference_Encoding.thy ===== *)
theory Reference_Encoding
  imports Text_Encoding
begin

text \<open>
  The compact-encoding wire format, written out as the package documents it: variable
  length unsigned integers (one byte up to 252, then a marker byte and 2, 4 or 8 bytes,
  little endian), length-prefixed UTF-8 strings and buffers, length-prefixed arrays and
  frames.  It is the instance the interface \<open>compact_encoding\<close> is interpreted with, so
  every theorem stated over the interface can be evaluated on concrete messages.
\<close>

section \<open>Unsigned integers\<close>

fun le_bytes :: "nat \<Rightarrow> nat \<Rightarrow> bytes" where
  "le_bytes 0 n = []"
| "le_bytes (Suc k) n = word_of_nat (n mod 256) # le_bytes k (n div 256)"

fun le_nat :: "bytes \<Rightarrow> nat" where
  "le_nat [] = 0"
| "le_nat (b # bs) = unat b + 256 * le_nat bs"

lemma length_le_bytes [simp]: "length (le_bytes k n) = k"
  by (induction k arbitrary: n) simp_all

lemma le_nat_le_bytes: "n < 256 ^ k \<Longrightarrow> le_nat (le_bytes k n) = n"
proof (induction k arbitrary: n)
  case 0
  then show ?case by simp
next
  case (Suc k)
  have "n div 256 < 256 ^ k"
    using Suc.prems by (simp add: less_mult_imp_div_less ac_simps)
  moreover have "unat (word_of_nat (n mod 256) :: byte) = n mod 256"
    by (rule unat_byte) simp
  ultimately show ?case
    by (simp add: Suc.IH)
qed

definition ref_uint :: "nat \<Rightarrow> bytes" where
  "ref_uint n =
     (if n \<le> 0xFC then [word_of_nat n]
      else if n < 256 ^ 2 then 0xFD # le_bytes 2 n
      else if n < 256 ^ 4 then 0xFE # le_bytes 4 n
      else 0xFF # le_bytes 8 n)"

definition out_of_bounds :: thrown where
  "out_of_bounds = ErrorObj (js ''Out of bounds'')"

text \<open>A parser returns a value and how many bytes it took.\<close>

definition parse_uint :: "bytes \<Rightarrow> (nat \<times> nat) result" where
  "parse_uint bs =
     (case bs of
        [] \<Rightarrow> Inl out_of_bounds
      | b # r \<Rightarrow>
          if unat b \<le> 0xFC then Inr (unat b, 1)
          else let k = (if unat b = 0xFD then 2 else if unat b = 0xFE then 4 else 8)
               in if length r < k then Inl out_of_bounds else Inr (le_nat (take k r), Suc k))"

lemma parse_uint_ref: "n < 2 ^ 64 \<Longrightarrow> parse_uint (ref_uint n @ rest) = Inr (n, length (ref_uint n))"
  by (auto simp: parse_uint_def ref_uint_def unat_byte le_nat_le_bytes)

section \<open>Codecs from parsers\<close>

definition mk_codec :: "(jsval \<Rightarrow> bytes result) \<Rightarrow> (bytes \<Rightarrow> (jsval \<times> nat) result) \<Rightarrow> codec" where
  "mk_codec w parse = \<lparr>
     preencode = (\<lambda>st v. rbind (w v) (\<lambda>bs. Inr (grow (length bs) st))),
     encode = (\<lambda>st v. rbind (w v) (\<lambda>bs. if fits (length bs) st then Inr (put bs st) else Inl out_of_bounds)),
     decode = (\<lambda>st. rbind (parse (unread st)) (\<lambda>(v, n). Inr (v, skip n st)))\<rparr>"

lemma mk_codec_wire:
  assumes "\<And>v. ok v \<Longrightarrow> w v = Inr (wire v)"
    and "\<And>v rest. ok v \<Longrightarrow> parse (wire v @ rest) = Inr (got v, length (wire v))"
  shows "wire_codec (mk_codec w parse) ok wire got"
  by unfold_locales (simp_all add: mk_codec_def assms)

definition ref_uint_codec :: codec where
  "ref_uint_codec = mk_codec
     (\<lambda>v. if uint_ok v then Inr (ref_uint (nat_of v)) else Inl TypeError)
     (\<lambda>bs. rbind (parse_uint bs) (\<lambda>(n, k). Inr (Num (int n), k)))"

definition parse_lengthed :: "bytes \<Rightarrow> (bytes \<times> nat) result" where
  "parse_lengthed bs = rbind (parse_uint bs) (\<lambda>(n, k).
     if length bs < k + n then Inl out_of_bounds else Inr (take n (drop k bs), k + n))"

definition lengthed :: "bytes \<Rightarrow> bytes" where
  "lengthed bs = ref_uint (length bs) @ bs"

definition ref_string_codec :: codec where
  "ref_string_codec = mk_codec
     (\<lambda>v. case v of Str s \<Rightarrow> Inr (lengthed (utf8 s)) | _ \<Rightarrow> Inl TypeError)
     (\<lambda>bs. rbind (parse_lengthed bs) (\<lambda>(s, k). Inr (Str (utf8_dec s), k)))"

definition ref_buffer_codec :: codec where
  "ref_buffer_codec = mk_codec
     (\<lambda>v. case v of Buf b \<Rightarrow> Inr (lengthed b) | Null \<Rightarrow> Inr [0] | Undef \<Rightarrow> Inr [0] | _ \<Rightarrow> Inl TypeError)
     (\<lambda>bs. rbind (parse_lengthed bs) (\<lambda>(b, k). Inr (if b = [] then Null else Buf b, k)))"

lemma parse_lengthed_ref:
  "length bs < 2 ^ 64 \<Longrightarrow> parse_lengthed (lengthed bs @ rest) = Inr (bs, length (lengthed bs))"
  by (simp add: parse_lengthed_def lengthed_def parse_uint_ref)

lemma length_cp_bytes: "length (cp_bytes n) \<le> 4"
  by (simp add: cp_bytes_def)

lemma length_utf8: "length (utf8 s) \<le> 4 * length s"
proof (induction s rule: utf8.induct)
  case 1
  then show ?case by simp
next
  case (2 u)
  then show ?case
    using length_cp_bytes by simp
next
  case (3 u v s)
  then show ?case
    using length_cp_bytes [of "pair_cp u v"] length_cp_bytes [of "unat u"] length_cp_bytes [of "0xFFFD"]
    by (cases "is_high u \<and> is_low v") (simp_all, linarith+)
qed

lemma ref_uint_wire: "wire_codec ref_uint_codec uint_ok (\<lambda>v. ref_uint (nat_of v)) (\<lambda>v. v)"
  unfolding ref_uint_codec_def
proof (rule mk_codec_wire)
  fix v rest
  assume "uint_ok v"
  then obtain n where v: "v = Num n" and "0 \<le> n" "n < 2 ^ 53"
    by (cases v) simp_all
  then have "nat n < 2 ^ 64"
    by (simp add: nat_less_iff)
  then show "rbind (parse_uint (ref_uint (nat_of v) @ rest)) (\<lambda>(n, k). Inr (Num (int n), k))
    = Inr (v, length (ref_uint (nat_of v)))"
    using v \<open>0 \<le> n\<close> by (simp add: parse_uint_ref)
qed simp

lemma ref_string_wire: "wire_codec ref_string_codec str_ok (\<lambda>v. lengthed (utf8 (str_of v))) (\<lambda>v. v)"
  unfolding ref_string_codec_def
proof (rule mk_codec_wire)
  fix v rest
  assume "str_ok v"
  then obtain s where v: "v = Str s" and s: "wf16 s" "length s < 2 ^ 32"
    by (cases v) simp_all
  have "length (utf8 s) < 2 ^ 64"
    using length_utf8 [of s] s(2) by simp
  then show "rbind (parse_lengthed (lengthed (utf8 (str_of v)) @ rest)) (\<lambda>(s, k). Inr (Str (utf8_dec s), k))
    = Inr (v, length (lengthed (utf8 (str_of v))))"
    using v s(1) by (simp add: parse_lengthed_ref utf8_roundtrip)
next
  fix v
  assume "str_ok v"
  then show "(case v of Str s \<Rightarrow> Inr (lengthed (utf8 s)) | _ \<Rightarrow> Inl TypeError) = Inr (lengthed (utf8 (str_of v)))"
    by (cases v) simp_all
qed

lemma ref_buffer_wire: "wire_codec ref_buffer_codec buf_ok (\<lambda>v. lengthed (buf_of v)) (\<lambda>v. v)"
  unfolding ref_buffer_codec_def
proof (rule mk_codec_wire)
  fix v rest
  assume "buf_ok v"
  then obtain b where v: "v = Buf b" and b: "b \<noteq> []" "length b < 2 ^ 32"
    by (cases v) simp_all
  then show "rbind (parse_lengthed (lengthed (buf_of v) @ rest)) (\<lambda>(b, k). Inr (if b = [] then Null else Buf b, k))
    = Inr (v, length (lengthed (buf_of v)))"
    by (simp add: parse_lengthed_ref)
next
  fix v
  assume "buf_ok v"
  then show "(case v of Buf b \<Rightarrow> Inr (lengthed b) | Null \<Rightarrow> Inr [0] | Undef \<Rightarrow> Inr [0] | _ \<Rightarrow> Inl TypeError)
    = Inr (lengthed (buf_of v))"
    by (cases v) simp_all
qed

section \<open>Arrays and frames\<close>

fun pre_all :: "codec \<Rightarrow> jsval list \<Rightarrow> cstate \<Rightarrow> cstate result" where
  "pre_all p [] st = Inr st"
| "pre_all p (v # vs) st = rbind (preencode p st v) (pre_all p vs)"

fun enc_all :: "codec \<Rightarrow> jsval list \<Rightarrow> cstate \<Rightarrow> cstate result" where
  "enc_all p [] st = Inr st"
| "enc_all p (v # vs) st = rbind (encode p st v) (enc_all p vs)"

fun dec_all :: "codec \<Rightarrow> nat \<Rightarrow> cstate \<Rightarrow> (jsval list \<times> cstate) result" where
  "dec_all p 0 st = Inr ([], st)"
| "dec_all p (Suc n) st =
     rbind (decode p st) (\<lambda>(v, st). rbind (dec_all p n st) (\<lambda>(vs, st). Inr (v # vs, st)))"

definition ref_array :: "codec \<Rightarrow> codec" where
  "ref_array p = \<lparr>
     preencode = (\<lambda>st v. case v of
         Arr xs \<Rightarrow> rbind (preencode ref_uint_codec st (Num (int (length xs)))) (pre_all p xs)
       | _ \<Rightarrow> Inl TypeError),
     encode = (\<lambda>st v. case v of
         Arr xs \<Rightarrow> rbind (encode ref_uint_codec st (Num (int (length xs)))) (enc_all p xs)
       | _ \<Rightarrow> Inl TypeError),
     decode = (\<lambda>st. rbind (decode ref_uint_codec st) (\<lambda>(n, st).
         if 0x100000 < nat_of n then Inl (ErrorObj (js ''Array is too big''))
         else rbind (dec_all p (nat_of n) st) (\<lambda>(vs, st). Inr (Arr vs, st))))\<rparr>"

definition ref_frame :: "codec \<Rightarrow> codec" where
  "ref_frame p = \<lparr>
     preencode = (\<lambda>st v. rbind (preencode p st v) (\<lambda>st'.
         preencode ref_uint_codec st' (Num (int (cs_end st' - cs_end st))))),
     encode = (\<lambda>st v.
         rbind (preencode p \<lparr>cs_start = 0, cs_end = 0, cs_buffer = []\<rparr> v) (\<lambda>st'.
         rbind (encode ref_uint_codec st (Num (int (cs_end st')))) (\<lambda>st. encode p st v))),
     decode = (\<lambda>st. rbind (decode ref_uint_codec st) (\<lambda>(n, st).
         if cs_end st < cs_start st + nat_of n then Inl out_of_bounds
         else rbind (decode p (st\<lparr>cs_end := cs_start st + nat_of n\<rparr>)) (\<lambda>(v, st').
           Inr (v, st'\<lparr>cs_start := cs_start st + nat_of n, cs_end := cs_end st\<rparr>))))\<rparr>"

context wire_codec
begin

lemma pre_all_ok: "list_all ok vs \<Longrightarrow> pre_all p vs st = Inr (grow (length (concat (map wire vs))) st)"
  by (induction vs arbitrary: st) (simp_all add: preencode_ok codec_moves)

lemma enc_all_ok:
  "list_all ok vs \<Longrightarrow> fits (length (concat (map wire vs))) st \<Longrightarrow>
   enc_all p vs st = Inr (put (concat (map wire vs)) st)"
proof (induction vs arbitrary: st)
  case Nil
  then show ?case by (simp add: codec_moves)
next
  case (Cons v vs)
  then show ?case
    by (simp add: encode_ok fits_def codec_moves)
qed

lemma dec_all_ok:
  "list_all ok vs \<Longrightarrow> unread st = concat (map wire vs) @ rest \<Longrightarrow>
   dec_all p (length vs) st = Inr (map got vs, skip (length (concat (map wire vs))) st)"
proof (induction vs arbitrary: st)
  case Nil
  then show ?case by (simp add: codec_moves)
next
  case (Cons v vs)
  then have "decode p st = Inr (got v, skip (length (wire v)) st)"
    by (intro decode_ok) simp_all
  moreover have "dec_all p (length vs) (skip (length (wire v)) st)
    = Inr (map got vs, skip (length (concat (map wire vs))) (skip (length (wire v)) st))"
    using Cons.prems by (intro Cons.IH) (simp_all add: codec_moves)
  ultimately show ?case
    by (simp add: codec_moves)
qed

end

definition ref_fmt :: wirefmt where
  "ref_fmt = \<lparr>w_uint = ref_uint, w_str = (\<lambda>s. lengthed (utf8 s)), w_buf = lengthed\<rparr>"

lemmas ref_uint_preencode = wire_codec.preencode_ok [OF ref_uint_wire]
lemmas ref_uint_encode = wire_codec.encode_ok [OF ref_uint_wire]
lemmas ref_uint_decode = wire_codec.decode_ok [OF ref_uint_wire]

lemma ref_array_wire:
  assumes "wire_codec p ok wire got"
  shows "wire_codec (ref_array p) (arr_ok ok) (arr_wire ref_fmt wire) (arr_got got)"
proof (unfold_locales, goal_cases)
  case (1 v st)
  then obtain xs where "v = Arr xs" "length xs \<le> 0x100000" "list_all ok xs"
    by (cases v) simp_all
  then show ?case
    by (simp add: ref_array_def arr_wire_def ref_fmt_def ref_uint_preencode
      wire_codec.pre_all_ok [OF assms] codec_moves)
next
  case (2 v st)
  then obtain xs where "v = Arr xs" "length xs \<le> 0x100000" "list_all ok xs"
    by (cases v) simp_all
  with 2 show ?case
    by (simp add: ref_array_def arr_wire_def ref_fmt_def ref_uint_encode fits_def
      wire_codec.enc_all_ok [OF assms] codec_moves)
next
  case (3 v st rest)
  then obtain xs where xs: "v = Arr xs" "length xs \<le> 0x100000" "list_all ok xs"
    by (cases v) simp_all
  have "decode ref_uint_codec st = Inr (Num (int (length xs)), skip (length (ref_uint (length xs))) st)"
    using 3 xs ref_uint_decode [of "Num (int (length xs))" st "concat (map wire xs) @ rest"]
    by (simp add: arr_wire_def ref_fmt_def)
  moreover have "dec_all p (length xs) (skip (length (ref_uint (length xs))) st)
    = Inr (map got xs, skip (length (concat (map wire xs))) (skip (length (ref_uint (length xs))) st))"
    using 3 xs by (intro wire_codec.dec_all_ok [OF assms]) (simp_all add: codec_moves arr_wire_def ref_fmt_def)
  ultimately show ?case
    using xs by (simp add: ref_array_def arr_wire_def arr_got_def ref_fmt_def codec_moves)
qed

lemma unread_room: "unread st \<noteq> [] \<Longrightarrow> cs_start st + length (unread st) \<le> cs_end st"
  by (simp add: unread_def)

lemma unread_cut:
  "cs_start st + k \<le> cs_end st \<Longrightarrow> unread (st\<lparr>cs_end := cs_start st + k\<rparr>) = take k (unread st)"
  by (simp add: unread_def drop_take min_def)

lemma ref_uint_nonempty: "ref_uint n \<noteq> []"
  by (simp add: ref_uint_def)

lemma ref_frame_wire:
  assumes "wire_codec p ok wire got"
  shows "wire_codec (ref_frame p) (frame_ok ok wire) (frame_wire ref_fmt wire) got"
proof (unfold_locales, goal_cases)
  case (1 v st)
  then have "ok v" "length (wire v) < 2 ^ 53"
    by (simp_all add: frame_ok_def)
  then show ?case
    by (simp add: ref_frame_def frame_wire_def ref_fmt_def wire_codec.preencode_ok [OF assms]
      ref_uint_preencode grow_def add.commute)
next
  case (2 v st)
  then have "ok v" "length (wire v) < 2 ^ 53"
    by (simp_all add: frame_ok_def)
  with 2 show ?case
    by (simp add: ref_frame_def frame_wire_def ref_fmt_def wire_codec.preencode_ok [OF assms]
      wire_codec.encode_ok [OF assms] ref_uint_encode grow_def fits_def codec_moves)
next
  case (3 v st rest)
  then have ok: "ok v" "length (wire v) < 2 ^ 53"
    by (simp_all add: frame_ok_def)
  let ?n = "length (ref_uint (length (wire v)))"
  let ?st = "skip ?n st"
  have un: "unread st = ref_uint (length (wire v)) @ wire v @ rest"
    using 3 by (simp add: frame_wire_def ref_fmt_def)
  have uint: "decode ref_uint_codec st = Inr (Num (int (length (wire v))), ?st)"
    using ok un ref_uint_decode [of "Num (int (length (wire v)))" st "wire v @ rest"] by simp
  have rest: "unread ?st = wire v @ rest"
    using un by (simp add: codec_moves)
  have "cs_start st + length (unread st) \<le> cs_end st"
    by (rule unread_room) (simp add: un ref_uint_nonempty)
  then have room: "cs_start ?st + length (wire v) \<le> cs_end ?st"
    by (simp add: un skip_def)
  have "unread (?st\<lparr>cs_end := cs_start ?st + length (wire v)\<rparr>) = wire v @ []"
    using unread_cut [OF room] rest by simp
  then have "decode p (?st\<lparr>cs_end := cs_start ?st + length (wire v)\<rparr>)
    = Inr (got v, skip (length (wire v)) (?st\<lparr>cs_end := cs_start ?st + length (wire v)\<rparr>))"
    using ok(1) by (intro wire_codec.decode_ok [OF assms])
  then show ?case
    using uint room by (simp add: ref_frame_def frame_wire_def ref_fmt_def skip_def)
qed

section \<open>The interpretation\<close>

definition ref_alloc :: "nat \<Rightarrow> bytes" where
  "ref_alloc n = replicate n 0"

definition ref_cenc :: cenc where
  "ref_cenc = \<lparr>c_uint = ref_uint_codec, c_string = ref_string_codec, c_buffer = ref_buffer_codec,
     c_array = ref_array, c_frame = ref_frame,
     c_encode = run_encode ref_alloc, c_decode = run_decode\<rparr>"

interpretation ref: compact_encoding ref_cenc ref_fmt ref_alloc
proof (rule compact_encoding.intro, goal_cases)
  case 1
  show ?case
    using ref_uint_wire by (simp add: ref_cenc_def ref_fmt_def)
next
  case (2 n)
  then show ?case
    by (simp add: ref_fmt_def ref_uint_def)
next
  case 3
  show ?case
    using ref_string_wire by (simp add: ref_cenc_def ref_fmt_def)
next
  case 4
  show ?case
    using ref_buffer_wire by (simp add: ref_cenc_def ref_fmt_def)
next
  case (5 p ok wire got)
  then show ?case
    by (simp add: ref_cenc_def ref_array_wire)
next
  case (6 p ok wire got)
  then show ?case
    by (simp add: ref_cenc_def ref_frame_wire)
next
  case 7
  show ?case
    by (simp add: ref_cenc_def)
next
  case 8
  show ?case
    by (simp add: ref_cenc_def)
next
  case 9
  show ?case
    by (simp add: ref_alloc_def)
qed

end
