(* ===== verification/Wire.thy ===== *)
theory Wire
  imports Message_Codecs Reference_Encoding
begin

text \<open>
  The generated message module as its callers see it: by type name.  Every codec of
  \<open>getEncoding\<close> is an interpretation of \<open>wire_codec\<close>, so the schema of src/build.js is
  what \<open>encode\<close> and \<open>decode\<close> implement; what happens to values outside the schema is
  stated per branch.
\<close>

section \<open>The codecs by name\<close>

definition type_names :: "jsstring list" where
  "type_names = map tydef_name build_types"

lemma type_names_eq:
  "type_names = map js [''@bareclaw/empty'', ''@bareclaw/chat-request'', ''@bareclaw/chunk-type'',
     ''@bareclaw/chat-chunk'', ''@bareclaw/session-scope'', ''@bareclaw/session-key'',
     ''@bareclaw/session-list'', ''@bareclaw/session-blob'', ''@bareclaw/state-blob'',
     ''@bareclaw/tool-def'', ''@bareclaw/tool-call'', ''@bareclaw/tool-result'',
     ''@bareclaw/state-field'', ''@bareclaw/state-chunk'']"
  by (simp add: type_names_def build_types_def)

lemma getEncoding_known:
  "getEncoding c (js ''@bareclaw/empty'') = Inr (encoding0 c)"
  "getEncoding c (js ''@bareclaw/chat-request'') = Inr (encoding1 c)"
  "getEncoding c (js ''@bareclaw/chunk-type'') = Inr (encoding2 c)"
  "getEncoding c (js ''@bareclaw/chat-chunk'') = Inr (encoding3 c)"
  "getEncoding c (js ''@bareclaw/session-scope'') = Inr (encoding4 c)"
  "getEncoding c (js ''@bareclaw/session-key'') = Inr (encoding5 c)"
  "getEncoding c (js ''@bareclaw/session-list'') = Inr (encoding6 c)"
  "getEncoding c (js ''@bareclaw/session-blob'') = Inr (encoding7 c)"
  "getEncoding c (js ''@bareclaw/state-blob'') = Inr (encoding8 c)"
  "getEncoding c (js ''@bareclaw/tool-def'') = Inr (encoding9 c)"
  "getEncoding c (js ''@bareclaw/tool-call'') = Inr (encoding10 c)"
  "getEncoding c (js ''@bareclaw/tool-result'') = Inr (encoding11 c)"
  "getEncoding c (js ''@bareclaw/state-field'') = Inr (encoding12 c)"
  "getEncoding c (js ''@bareclaw/state-chunk'') = Inr (encoding13 c)"
  by (simp_all add: getEncoding_def)

lemma getEncoding_unknown:
  "t \<notin> set type_names \<Longrightarrow> getEncoding c t = Inl (ErrorObj (js ''Encoder not found '' @ t))"
  by (simp add: getEncoding_def type_names_eq)

sublocale compact_encoding \<subseteq> empty: wire_codec "encoding0 c"
    "conforms f ''@bareclaw/empty''" "layout f ''@bareclaw/empty''" "received ''@bareclaw/empty''"
  by (rule empty_codec)

sublocale compact_encoding \<subseteq> chat_request: wire_codec "encoding1 c"
    "conforms f ''@bareclaw/chat-request''" "layout f ''@bareclaw/chat-request''"
    "received ''@bareclaw/chat-request''"
  by (rule chat_request_codec)

sublocale compact_encoding \<subseteq> chunk_type: wire_codec "encoding2 c"
    "conforms f ''@bareclaw/chunk-type''" "layout f ''@bareclaw/chunk-type''"
    "received ''@bareclaw/chunk-type''"
  by (rule chunk_type_codec)

sublocale compact_encoding \<subseteq> chat_chunk: wire_codec "encoding3 c"
    "conforms f ''@bareclaw/chat-chunk''" "layout f ''@bareclaw/chat-chunk''"
    "received ''@bareclaw/chat-chunk''"
  by (rule chat_chunk_codec)

sublocale compact_encoding \<subseteq> session_scope: wire_codec "encoding4 c"
    "conforms f ''@bareclaw/session-scope''" "layout f ''@bareclaw/session-scope''"
    "received ''@bareclaw/session-scope''"
  by (rule session_scope_codec)

sublocale compact_encoding \<subseteq> session_key: wire_codec "encoding5 c"
    "conforms f ''@bareclaw/session-key''" "layout f ''@bareclaw/session-key''"
    "received ''@bareclaw/session-key''"
  by (rule session_key_codec)

sublocale compact_encoding \<subseteq> session_list: wire_codec "encoding6 c"
    "conforms f ''@bareclaw/session-list''" "layout f ''@bareclaw/session-list''"
    "received ''@bareclaw/session-list''"
  by (rule session_list_codec)

sublocale compact_encoding \<subseteq> session_blob: wire_codec "encoding7 c"
    "conforms f ''@bareclaw/session-blob''" "layout f ''@bareclaw/session-blob''"
    "received ''@bareclaw/session-blob''"
  by (rule session_blob_codec)

sublocale compact_encoding \<subseteq> state_blob: wire_codec "encoding8 c"
    "conforms f ''@bareclaw/state-blob''" "layout f ''@bareclaw/state-blob''"
    "received ''@bareclaw/state-blob''"
  by (rule state_blob_codec)

sublocale compact_encoding \<subseteq> tool_def: wire_codec "encoding9 c"
    "conforms f ''@bareclaw/tool-def''" "layout f ''@bareclaw/tool-def''"
    "received ''@bareclaw/tool-def''"
  by (rule tool_def_codec)

sublocale compact_encoding \<subseteq> tool_call: wire_codec "encoding10 c"
    "conforms f ''@bareclaw/tool-call''" "layout f ''@bareclaw/tool-call''"
    "received ''@bareclaw/tool-call''"
  by (rule tool_call_codec)

sublocale compact_encoding \<subseteq> tool_result: wire_codec "encoding11 c"
    "conforms f ''@bareclaw/tool-result''" "layout f ''@bareclaw/tool-result''"
    "received ''@bareclaw/tool-result''"
  by (rule tool_result_codec)

sublocale compact_encoding \<subseteq> state_field: wire_codec "encoding12 c"
    "conforms f ''@bareclaw/state-field''" "layout f ''@bareclaw/state-field''"
    "received ''@bareclaw/state-field''"
  by (rule state_field_codec)

sublocale compact_encoding \<subseteq> state_chunk: wire_codec "encoding13 c"
    "conforms f ''@bareclaw/state-chunk''" "layout f ''@bareclaw/state-chunk''"
    "received ''@bareclaw/state-chunk''"
  by (rule state_chunk_codec)

context compact_encoding
begin

lemmas all_codecs = empty.wire_codec_axioms chat_request.wire_codec_axioms chunk_type.wire_codec_axioms
  chat_chunk.wire_codec_axioms session_scope.wire_codec_axioms session_key.wire_codec_axioms
  session_list.wire_codec_axioms session_blob.wire_codec_axioms state_blob.wire_codec_axioms
  tool_def.wire_codec_axioms tool_call.wire_codec_axioms tool_result.wire_codec_axioms
  state_field.wire_codec_axioms state_chunk.wire_codec_axioms

lemma getEncoding_codec:
  assumes "t \<in> set type_names"
  obtains p where "getEncoding c t = Inr p"
    and "wire_codec p (ty_ok schema_depth f t) (ty_wire schema_depth f t) (ty_got schema_depth t)"
proof -
  have "\<exists>p. getEncoding c t = Inr p \<and>
    wire_codec p (ty_ok schema_depth f t) (ty_wire schema_depth f t) (ty_got schema_depth t)"
    using assms unfolding type_names_eq list.map list.set insert_iff empty_iff
    by (elim disjE FalseE; simp only: getEncoding_known; blast intro: all_codecs)
  then show ?thesis
    using that by blast
qed

lemma msg_encode_ok:
  "t \<in> set type_names \<Longrightarrow> ty_ok schema_depth f t v \<Longrightarrow>
   msg_encode c t v ver = (Inr (ty_wire schema_depth f t v), ver)"
  by (elim getEncoding_codec) (simp add: msg_encode_def c_encode_ok)

lemma msg_decode_ok:
  "t \<in> set type_names \<Longrightarrow> ty_ok schema_depth f t v \<Longrightarrow>
   msg_decode c t (ty_wire schema_depth f t v) ver = (Inr (ty_got schema_depth t v), ver)"
  by (elim getEncoding_codec) (simp add: msg_decode_def c_decode_ok)

end

section \<open>Encoding and decoding implement the schema\<close>

text \<open>
  C6. For every type src/build.js registers and every value conforming to it, the generated
  \<open>encode\<close> returns exactly the bytes the schema's layout prescribes, and the generated
  \<open>decode\<close> of these bytes returns the value the schema says is received; both leave
  \<open>version\<close> at the version they were called with.
\<close>

theorem generated_codecs_implement_schema:
  assumes "compact_encoding c f alloc"
    and "t \<in> set type_names" and "ty_ok schema_depth f t v"
  shows "msg_encode c t v ver = (Inr (ty_wire schema_depth f t v), ver)
    \<and> msg_decode c t (ty_wire schema_depth f t v) ver = (Inr (ty_got schema_depth t v), ver)"
  using compact_encoding.msg_encode_ok [OF assms(1)] compact_encoding.msg_decode_ok [OF assms(1)] assms(2,3)
  by simp

theorem generated_codecs_implement_schema_witness:
  "msg_encode ref_cenc (js ''@bareclaw/chat-chunk'')
     (Obj [(js ''type'', Str (js ''error'')), (js ''content'', Str [104, 105])]) 1
   = (Inr [4, 1, 2, 104, 105], 1)"
proof -
  let ?v = "Obj [(js ''type'', Str (js ''error'')), (js ''content'', Str [104, 105])]"
  have ok: "ty_ok schema_depth ref_fmt (js ''@bareclaw/chat-chunk'') ?v"
    by (simp add: schema_chat_chunk schema_chunk_type is_high_def is_low_def)
  have "js ''@bareclaw/chat-chunk'' \<in> set type_names"
    by (simp add: type_names_eq)
  from generated_codecs_implement_schema [OF ref.compact_encoding_axioms this ok]
  show ?thesis
    by (simp add: schema_chat_chunk schema_chunk_type ref_fmt_def ref_uint_def lengthed_def
      is_high_def is_low_def cp_bytes_def)
qed

text \<open>
  C28. Reserving and writing agree: for a conforming value the generated \<open>preencode\<close> reserves
  some number of bytes, and the generated \<open>encode\<close>, at any place with that much room, moves the
  cursor by exactly that number and keeps the buffer's length.  This is what makes the single
  reserved byte for flags and enums (\<open>state.end++\<close>) right.
\<close>

theorem preencode_reserves_what_encode_writes:
  assumes "compact_encoding c f alloc"
    and "t \<in> set type_names" and "ty_ok schema_depth f t v"
  shows "\<exists>p n. getEncoding c t = Inr p
    \<and> (\<forall>st. preencode p st v = Inr (st\<lparr>cs_end := cs_end st + n\<rparr>))
    \<and> (\<forall>st. cs_start st + n \<le> length (cs_buffer st) \<longrightarrow>
        (\<exists>st'. encode p st v = Inr st' \<and> cs_start st' = cs_start st + n
          \<and> length (cs_buffer st') = length (cs_buffer st)))"
proof -
  obtain p where p: "getEncoding c t = Inr p"
    and w: "wire_codec p (ty_ok schema_depth f t) (ty_wire schema_depth f t) (ty_got schema_depth t)"
    using compact_encoding.getEncoding_codec [OF assms(1,2)] by blast
  let ?n = "length (ty_wire schema_depth f t v)"
  have "preencode p st v = Inr (st\<lparr>cs_end := cs_end st + ?n\<rparr>)" for st
    using wire_codec.preencode_ok [OF w assms(3)] by (simp add: grow_def)
  moreover have "encode p st v = Inr (put (ty_wire schema_depth f t v) st)"
    if "cs_start st + ?n \<le> length (cs_buffer st)" for st
    using wire_codec.encode_ok [OF w assms(3)] that by (simp add: fits_def)
  ultimately show ?thesis
    using p by (intro exI [of _ p] exI [of _ ?n]) (simp add: codec_moves)
qed

theorem preencode_reserves_what_encode_writes_witness:
  "\<exists>p n. getEncoding ref_cenc (js ''@bareclaw/session-key'') = Inr p
    \<and> (\<forall>st. preencode p st (Obj [(js ''key'', Str [107])]) = Inr (st\<lparr>cs_end := cs_end st + n\<rparr>))
    \<and> (\<forall>st. cs_start st + n \<le> length (cs_buffer st) \<longrightarrow>
        (\<exists>st'. encode p st (Obj [(js ''key'', Str [107])]) = Inr st' \<and> cs_start st' = cs_start st + n
          \<and> length (cs_buffer st') = length (cs_buffer st)))"
  by (rule preencode_reserves_what_encode_writes [OF ref.compact_encoding_axioms])
    (simp_all add: type_names_eq schema_session_key is_high_def is_low_def)

section \<open>What was received can be sent again\<close>

lemma arr_ok_parts: "arr_ok ok v \<Longrightarrow> length (arr_of v) \<le> 0x100000 \<and> list_all ok (arr_of v)"
  by (cases v) simp_all

lemma session_blob_resend:
  "ty_ok (Suc (Suc d)) f (js ''@bareclaw/session-blob'') v \<Longrightarrow>
   ty_ok (Suc (Suc d)) f (js ''@bareclaw/session-blob'') (ty_got (Suc (Suc d)) (js ''@bareclaw/session-blob'') v)
   \<and> ty_wire (Suc (Suc d)) f (js ''@bareclaw/session-blob'') (ty_got (Suc (Suc d)) (js ''@bareclaw/session-blob'') v)
     = ty_wire (Suc (Suc d)) f (js ''@bareclaw/session-blob'') v"
  by (simp add: schema_session_blob)

lemma array_resend:
  assumes "\<And>x. ok x \<Longrightarrow> ok (g x) \<and> w (g x) = w x" and "arr_ok (frame_ok ok w) v"
  shows "arr_ok (frame_ok ok w) (arr_got g v)
    \<and> arr_wire f (frame_wire f w) (arr_got g v) = arr_wire f (frame_wire f w) v"
proof -
  obtain xs where xs: "v = Arr xs" "length xs \<le> 0x100000" "list_all (frame_ok ok w) xs"
    using assms(2) by (cases v) simp_all
  have "list_all (frame_ok ok w) (map g xs)"
    using xs(3) assms(1) by (induction xs) (simp_all add: frame_ok_def)
  moreover have "concat (map (\<lambda>x. frame_wire f w (g x)) xs) = concat (map (frame_wire f w) xs)"
    using xs(3) assms(1) by (induction xs) (simp_all add: frame_ok_def frame_wire_def)
  ultimately show ?thesis
    using xs by (simp add: arr_got_def arr_wire_def comp_def)
qed



section \<open>Values outside the schema\<close>

text \<open>
  The lookups throw for every name that is not registered in src/build.js, and for no
  other: \<open>encode\<close> and \<open>decode\<close> with the name in the message, \<open>getEnum\<close> unless the name is
  that of an enum, for which it returns the registered members.
\<close>

definition enum_members :: "jsstring \<Rightarrow> jsstring list option" where
  "enum_members t = (case find_type t of Some (Enum n vs) \<Rightarrow> Some vs | _ \<Rightarrow> None)"

theorem lookups_throw_exactly_for_unregistered_names:
  "(case getEncoding c t of
      Inl e \<Rightarrow> t \<notin> set type_names \<and> e = ErrorObj (js ''Encoder not found '' @ t)
    | Inr p \<Rightarrow> t \<in> set type_names)
   \<and> getEnum t = (case enum_members t of
        None \<Rightarrow> Inl (ErrorObj (js ''Enum not found '' @ t))
      | Some vs \<Rightarrow> Inr (Obj (map (\<lambda>v. (v, Str v)) vs)))"
proof
  show "case getEncoding c t of
      Inl e \<Rightarrow> t \<notin> set type_names \<and> e = ErrorObj (js ''Encoder not found '' @ t)
    | Inr p \<Rightarrow> t \<in> set type_names"
    by (simp add: getEncoding_def type_names_eq)
  have "find_type t = None \<or> t \<in> set type_names"
    by (auto simp: find_type_def type_names_def find_None_iff)
  then show "getEnum t = (case enum_members t of
        None \<Rightarrow> Inl (ErrorObj (js ''Enum not found '' @ t))
      | Some vs \<Rightarrow> Inr (Obj (map (\<lambda>v. (v, Str v)) vs)))"
    unfolding type_names_eq list.map list.set insert_iff empty_iff
    by (elim disjE FalseE) (auto simp: getEnum_def enum_members_def find_type_known
      encoding2_enum_def encoding12_enum_def)
qed

context compact_encoding
begin

lemma chat_chunk_unknown_type:
  assumes "is_obj m" and "\<not> enum_ok [js ''content'', js ''thinking'', js ''done'', js ''error''] (field m (js ''type''))"
    and "truthy (field m (js ''content'')) \<longrightarrow> str_ok (field m (js ''content''))"
  shows "c_encode c (encoding3 c) m = Inl (ErrorObj (js ''Unknown enum''))"
  using assms
  by (cases "field m (js ''type'')")
    (auto simp: c_encode_run run_encode_def encoding3_def encoding2_def codec_steps)

end

text \<open>
  A chat chunk whose type is not one of the schema's four is never sent: encoding it throws
  'Unknown enum'.  In the other direction an unknown number does not throw: the chunk arrives
  with type \<open>null\<close>.
\<close>

theorem unknown_chunk_type_is_refused_by_encode_and_nulled_by_decode:
  assumes lib: "compact_encoding c f alloc"
    and "is_obj m" and "field m (js ''type'') \<notin> Str ` set (map js [''content'', ''thinking'', ''done'', ''error''])"
    and "truthy (field m (js ''content'')) \<longrightarrow> str_ok (field m (js ''content''))"
    and "4 < n" and "n \<le> 252"
  shows "fst (msg_encode c (js ''@bareclaw/chat-chunk'') m ver) = Inl (ErrorObj (js ''Unknown enum''))
    \<and> fst (msg_decode c (js ''@bareclaw/chat-chunk'') [word_of_nat n, 0] ver)
        = Inr (Obj [(js ''type'', Null), (js ''content'', Null)])"
proof
  have "\<not> enum_ok [js ''content'', js ''thinking'', js ''done'', js ''error''] (field m (js ''type''))"
    using assms(3) by (cases "field m (js ''type'')") auto
  then show "fst (msg_encode c (js ''@bareclaw/chat-chunk'') m ver) = Inl (ErrorObj (js ''Unknown enum''))"
    using compact_encoding.chat_chunk_unknown_type [OF lib assms(2) _ assms(4)]
    by (simp add: msg_encode_def getEncoding_known)
  have "uint (word_of_nat n :: byte) = int n"
    using assms(6) by (simp add: uint_nat unat_byte)
  let ?st = "\<lparr>cs_start = 0, cs_end = 2, cs_buffer = [word_of_nat n, 0]\<rparr>"
  have "decode (c_uint c) ?st = Inr (Num (int n), skip 1 ?st)"
    using compact_encoding.small_uint_decode [OF lib, of ?st] assms(6) \<open>uint (word_of_nat n :: byte) = int n\<close>
    by (simp add: unread_def)
  moreover have "decode (c_uint c) (skip 1 ?st) = Inr (Num 0, skip 2 ?st)"
    using compact_encoding.small_uint_decode [OF lib, of "skip 1 ?st"] by (simp add: unread_def skip_def)
  ultimately show "fst (msg_decode c (js ''@bareclaw/chat-chunk'') [word_of_nat n, 0] ver)
        = Inr (Obj [(js ''type'', Null), (js ''content'', Null)])"
    using assms(5)
    by (simp add: msg_decode_def getEncoding_known compact_encoding.c_decode_run [OF lib] run_decode_def
      encoding3_def encoding2_def dec_opt_def numeral_2_eq_2)
qed

theorem unknown_chunk_type_is_refused_by_encode_and_nulled_by_decode_witness:
  "fst (msg_encode ref_cenc (js ''@bareclaw/chat-chunk'')
      (Obj [(js ''type'', Str (js ''tool_call''))]) 1) = Inl (ErrorObj (js ''Unknown enum''))
   \<and> fst (msg_decode ref_cenc (js ''@bareclaw/chat-chunk'') [word_of_nat 5, 0] 1)
      = Inr (Obj [(js ''type'', Null), (js ''content'', Null)])"
  by (rule unknown_chunk_type_is_refused_by_encode_and_nulled_by_decode [OF ref.compact_encoding_axioms]) auto

end
