(* ===== verification/Hrpc.thy ===== *)
theory Hrpc
  imports Wire
begin

text \<open>
  The generated RPC class of src/spec/hrpc/index.js: the method table, the encodings per
  method, the dispatcher the constructor installs (\<open>on_request\<close>), the client calls
  \<open>_call\<close> and \<open>_callSync\<close>, and the handler setters.  The RPC object and the stream
  classes it builds on (bare-rpc, hrpc/runtime) are not in the repository: the
  operations of an RPC object are a parameter (\<open>rpc_lib\<close>) over a state \<open>'w\<close>, and what a
  request over it amounts to is the contract \<open>rpc_transport\<close>.
\<close>

section \<open>The tables\<close>

text \<open>One map holds both directions: names to numbers and numbers to names.\<close>

definition methods :: "(jsval \<times> jsval) list" where
  "methods =
    [(Str (js ''@bareclaw/chat''), Num 0),
     (Num 0, Str (js ''@bareclaw/chat'')),
     (Str (js ''@bareclaw/session-create''), Num 1),
     (Num 1, Str (js ''@bareclaw/session-create'')),
     (Str (js ''@bareclaw/session-list''), Num 2),
     (Num 2, Str (js ''@bareclaw/session-list'')),
     (Str (js ''@bareclaw/session-export''), Num 3),
     (Num 3, Str (js ''@bareclaw/session-export'')),
     (Str (js ''@bareclaw/session-import''), Num 4),
     (Num 4, Str (js ''@bareclaw/session-import'')),
     (Str (js ''@bareclaw/state-export''), Num 5),
     (Num 5, Str (js ''@bareclaw/state-export'')),
     (Str (js ''@bareclaw/state-import''), Num 6),
     (Num 6, Str (js ''@bareclaw/state-import'')),
     (Str (js ''@bareclaw/tool-register''), Num 7),
     (Num 7, Str (js ''@bareclaw/tool-register'')),
     (Str (js ''@bareclaw/tool-exec''), Num 8),
     (Num 8, Str (js ''@bareclaw/tool-exec'')),
     (Str (js ''@bareclaw/state-changed''), Num 9),
     (Num 9, Str (js ''@bareclaw/state-changed''))]"

definition methods_get :: "jsval \<Rightarrow> jsval" where
  "methods_get k = (case map_of methods k of None \<Rightarrow> Undef | Some v \<Rightarrow> v)"

definition request_types :: "(jsval \<times> jsstring) list" where
  "request_types =
    [(Str (js ''@bareclaw/chat''), js ''@bareclaw/chat-request''),
     (Str (js ''@bareclaw/session-create''), js ''@bareclaw/session-scope''),
     (Str (js ''@bareclaw/session-list''), js ''@bareclaw/empty''),
     (Str (js ''@bareclaw/session-export''), js ''@bareclaw/session-key''),
     (Str (js ''@bareclaw/session-import''), js ''@bareclaw/session-blob''),
     (Str (js ''@bareclaw/state-export''), js ''@bareclaw/empty''),
     (Str (js ''@bareclaw/state-import''), js ''@bareclaw/state-blob''),
     (Str (js ''@bareclaw/tool-register''), js ''@bareclaw/tool-def''),
     (Str (js ''@bareclaw/tool-exec''), js ''@bareclaw/tool-call''),
     (Str (js ''@bareclaw/state-changed''), js ''@bareclaw/state-chunk'')]"

definition response_types :: "(jsval \<times> jsstring) list" where
  "response_types =
    [(Str (js ''@bareclaw/chat''), js ''@bareclaw/chat-chunk''),
     (Str (js ''@bareclaw/session-create''), js ''@bareclaw/session-key''),
     (Str (js ''@bareclaw/session-list''), js ''@bareclaw/session-list''),
     (Str (js ''@bareclaw/session-export''), js ''@bareclaw/session-blob''),
     (Str (js ''@bareclaw/session-import''), js ''@bareclaw/empty''),
     (Str (js ''@bareclaw/state-export''), js ''@bareclaw/state-blob''),
     (Str (js ''@bareclaw/state-import''), js ''@bareclaw/empty''),
     (Str (js ''@bareclaw/tool-register''), js ''@bareclaw/empty''),
     (Str (js ''@bareclaw/tool-exec''), js ''@bareclaw/tool-result'')]"

text \<open>The two maps of the constructor: the codec of a command, absent for an unknown one.\<close>

definition encoding_in :: "cenc \<Rightarrow> (jsval \<times> jsstring) list \<Rightarrow> jsval \<Rightarrow> codec option" where
  "encoding_in c tab command =
     (case map_of tab command of
        None \<Rightarrow> None
      | Some t \<Rightarrow> (case getEncoding c t of Inl e \<Rightarrow> None | Inr p \<Rightarrow> Some p))"

definition requestEncodings :: "cenc \<Rightarrow> jsval \<Rightarrow> codec option" where
  "requestEncodings c = encoding_in c request_types"

definition responseEncodings :: "cenc \<Rightarrow> jsval \<Rightarrow> codec option" where
  "responseEncodings c = encoding_in c response_types"

definition requestIsStream :: "jsval \<Rightarrow> bool" where
  "requestIsStream command = (command \<in> set [])"

definition responseIsStream :: "jsval \<Rightarrow> bool" where
  "responseIsStream command = (command \<in> set [Str (js ''@bareclaw/chat'')])"

definition requestIsSend :: "jsval \<Rightarrow> bool" where
  "requestIsSend command = (command \<in> set [Str (js ''@bareclaw/state-changed'')])"

text \<open>\<open>c.encode\<close> and \<open>c.decode\<close> with a codec that may be \<open>undefined\<close>.\<close>

definition encode_with :: "cenc \<Rightarrow> codec option \<Rightarrow> jsval \<Rightarrow> bytes result" where
  "encode_with c p v = (case p of None \<Rightarrow> Inl TypeError | Some enc \<Rightarrow> c_encode c enc v)"

definition decode_with :: "cenc \<Rightarrow> codec option \<Rightarrow> bytes \<Rightarrow> jsval result" where
  "decode_with c p bs = (case p of None \<Rightarrow> Inl TypeError | Some enc \<Rightarrow> c_decode c enc bs)"

section \<open>The dispatcher\<close>

text \<open>
  What a handler is called with: the decoded request; or a response stream carrying the
  request as \<open>data\<close>; or a request stream, with or without a response stream.  A handler
  runs on the state of the process it belongs to.
\<close>

datatype harg =
    HRequest jsval
  | HStream "codec option" jsval
  | HRequestStream "codec option" "codec option" bool

type_synonym 'p handler = "harg \<Rightarrow> 'p \<Rightarrow> jsval result \<times> 'p"

text \<open>The handlers are the own properties of \<open>this._handlers\<close>, keyed by command.\<close>

type_synonym 'p handlers = "jsval \<Rightarrow> 'p handler option"

definition no_handlers :: "'p handlers" where
  "no_handlers = (\<lambda>_. None)"

text \<open>What becomes of an incoming request: a reply, nothing to reply, or a rejection.\<close>

datatype outcome = Replied bytes | Completed | Rejected thrown

definition request_of :: "cenc \<Rightarrow> codec option \<Rightarrow> bytes option \<Rightarrow> jsval result" where
  "request_of c p data =
     (case data of
        None \<Rightarrow> Inr Null
      | Some bs \<Rightarrow> if length bs > 0 then decode_with c p bs else Inr Null)"

text \<open>\<open>await this._handlers[command](arg)\<close>: calling \<open>undefined\<close> throws.\<close>

definition call_handler :: "'p handlers \<Rightarrow> jsval \<Rightarrow> harg \<Rightarrow> 'p \<Rightarrow> jsval result \<times> 'p" where
  "call_handler hs command arg w =
     (case hs command of None \<Rightarrow> (Inl TypeError, w) | Some h \<Rightarrow> h arg w)"

definition reply_with :: "cenc \<Rightarrow> codec option \<Rightarrow> jsval result \<times> 'p \<Rightarrow> outcome \<times> 'p" where
  "reply_with c p r =
     (case fst r of
        Inl e \<Rightarrow> Rejected e
      | Inr response \<Rightarrow> (case encode_with c p response of Inl e \<Rightarrow> Rejected e | Inr bs \<Rightarrow> Replied bs),
      snd r)"

definition complete :: "jsval result \<times> 'p \<Rightarrow> outcome \<times> 'p" where
  "complete r = (case fst r of Inl e \<Rightarrow> Rejected e | Inr _ \<Rightarrow> Completed, snd r)"

definition on_request :: "cenc \<Rightarrow> 'p handlers \<Rightarrow> jsval \<Rightarrow> bytes option \<Rightarrow> 'p \<Rightarrow> outcome \<times> 'p" where
  "on_request c hs req_command data w =
     (let command = methods_get req_command;
          responseEncoding = responseEncodings c command;
          requestEncoding = requestEncodings c command
      in if requestIsSend command then
           (case request_of c requestEncoding data of
              Inl e \<Rightarrow> (Rejected e, w)
            | Inr request \<Rightarrow> complete (call_handler hs command (HRequest request) w))
         else if \<not> requestIsStream command \<and> \<not> responseIsStream command then
           (case request_of c requestEncoding data of
              Inl e \<Rightarrow> (Rejected e, w)
            | Inr request \<Rightarrow> reply_with c responseEncoding (call_handler hs command (HRequest request) w))
         else if \<not> requestIsStream command \<and> responseIsStream command then
           (case request_of c requestEncoding data of
              Inl e \<Rightarrow> (Rejected e, w)
            | Inr request \<Rightarrow> complete (call_handler hs command (HStream responseEncoding request) w))
         else if requestIsStream command \<and> \<not> responseIsStream command then
           reply_with c responseEncoding
             (call_handler hs command (HRequestStream requestEncoding responseEncoding False) w)
         else
           complete (call_handler hs command (HRequestStream requestEncoding responseEncoding True) w))"

text \<open>The setters assign one property each.\<close>

definition set_handler :: "string \<Rightarrow> 'p handler \<Rightarrow> 'p handlers \<Rightarrow> 'p handlers" where
  "set_handler name h hs = hs(Str (js name) \<mapsto> h)"

definition onChat :: "'p handler \<Rightarrow> 'p handlers \<Rightarrow> 'p handlers" where
  "onChat = set_handler ''@bareclaw/chat''"

definition onSessionCreate :: "'p handler \<Rightarrow> 'p handlers \<Rightarrow> 'p handlers" where
  "onSessionCreate = set_handler ''@bareclaw/session-create''"

definition onSessionList :: "'p handler \<Rightarrow> 'p handlers \<Rightarrow> 'p handlers" where
  "onSessionList = set_handler ''@bareclaw/session-list''"

definition onSessionExport :: "'p handler \<Rightarrow> 'p handlers \<Rightarrow> 'p handlers" where
  "onSessionExport = set_handler ''@bareclaw/session-export''"

definition onSessionImport :: "'p handler \<Rightarrow> 'p handlers \<Rightarrow> 'p handlers" where
  "onSessionImport = set_handler ''@bareclaw/session-import''"

definition onStateExport :: "'p handler \<Rightarrow> 'p handlers \<Rightarrow> 'p handlers" where
  "onStateExport = set_handler ''@bareclaw/state-export''"

definition onStateImport :: "'p handler \<Rightarrow> 'p handlers \<Rightarrow> 'p handlers" where
  "onStateImport = set_handler ''@bareclaw/state-import''"

definition onToolRegister :: "'p handler \<Rightarrow> 'p handlers \<Rightarrow> 'p handlers" where
  "onToolRegister = set_handler ''@bareclaw/tool-register''"

definition onToolExec :: "'p handler \<Rightarrow> 'p handlers \<Rightarrow> 'p handlers" where
  "onToolExec = set_handler ''@bareclaw/tool-exec''"

definition onStateChanged :: "'p handler \<Rightarrow> 'p handlers \<Rightarrow> 'p handlers" where
  "onStateChanged = set_handler ''@bareclaw/state-changed''"

section \<open>The client\<close>

text \<open>
  The operations of an RPC object: opening a request or an event for a command (each has
  an identity), sending its payload, awaiting the reply, opening its streams.
\<close>

record 'w rpc_lib =
  lib_request :: "jsval \<Rightarrow> 'w \<Rightarrow> nat \<times> 'w"
  lib_event :: "jsval \<Rightarrow> 'w \<Rightarrow> nat \<times> 'w"
  lib_send :: "nat \<Rightarrow> bytes \<Rightarrow> 'w \<Rightarrow> 'w"
  lib_reply :: "nat \<Rightarrow> 'w \<Rightarrow> bytes result \<times> 'w"
  lib_responseStream :: "nat \<Rightarrow> 'w \<Rightarrow> nat \<times> 'w"
  lib_requestStream :: "nat \<Rightarrow> 'w \<Rightarrow> nat \<times> 'w"

definition hrpc_call :: "cenc \<Rightarrow> 'w rpc_lib \<Rightarrow> string \<Rightarrow> jsval \<Rightarrow> 'w \<Rightarrow> jsval result \<times> 'w" where
  "hrpc_call c rpc name args w =
     (let requestEncoding = requestEncodings c (Str (js name));
          responseEncoding = responseEncodings c (Str (js name));
          (request, w) = lib_request rpc (methods_get (Str (js name))) w
      in case encode_with c requestEncoding args of
           Inl e \<Rightarrow> (Inl e, w)
         | Inr encoded \<Rightarrow>
             (let (reply, w) = lib_reply rpc request (lib_send rpc request encoded w)
              in (rbind reply (decode_with c responseEncoding), w)))"

text \<open>
  What \<open>_callSync\<close> returns: nothing, or a stream object over the opened request's
  streams (a response stream with its codec, a request stream with its codec).
\<close>

datatype sync_result =
    NoStream
  | ResponseStream nat "codec option"
  | RequestStream nat "codec option"
  | DuplexStream nat nat "codec option" "codec option"

definition hrpc_callSync ::
    "cenc \<Rightarrow> 'w rpc_lib \<Rightarrow> string \<Rightarrow> jsval \<Rightarrow> 'w \<Rightarrow> sync_result result \<times> 'w" where
  "hrpc_callSync c rpc name args w =
     (let requestEncoding = requestEncodings c (Str (js name));
          responseEncoding = responseEncodings c (Str (js name));
          cmd = Str (js name);
          sent = (if requestIsSend cmd
                  then (case encode_with c requestEncoding args of
                          Inl e \<Rightarrow> (Inl e, w)
                        | Inr encoded \<Rightarrow>
                            (let (request, w) = lib_event rpc (methods_get cmd) w
                             in (Inr (), lib_send rpc request encoded w)))
                  else (Inr (), w))
      in case fst sent of
           Inl e \<Rightarrow> (Inl e, snd sent)
         | Inr _ \<Rightarrow>
             (let (request, w) = lib_request rpc (methods_get cmd) (snd sent)
              in if \<not> requestIsStream cmd \<and> responseIsStream cmd then
                   (case encode_with c requestEncoding args of
                      Inl e \<Rightarrow> (Inl e, w)
                    | Inr encoded \<Rightarrow>
                        (let (s, w) = lib_responseStream rpc request (lib_send rpc request encoded w)
                         in (Inr (ResponseStream s responseEncoding), w)))
                 else if requestIsStream cmd \<and> \<not> responseIsStream cmd then
                   (let (s, w) = lib_requestStream rpc request w
                    in (Inr (RequestStream s requestEncoding), w))
                 else if requestIsStream cmd \<and> responseIsStream cmd then
                   (let (r, w) = lib_responseStream rpc request w;
                        (s, w) = lib_requestStream rpc request w
                    in (Inr (DuplexStream r s responseEncoding requestEncoding), w))
                 else (Inr NoStream, w)))"

definition hrpc_chat :: "cenc \<Rightarrow> 'w rpc_lib \<Rightarrow> jsval \<Rightarrow> 'w \<Rightarrow> sync_result result \<times> 'w" where
  "hrpc_chat c rpc = hrpc_callSync c rpc ''@bareclaw/chat''"

definition sessionCreate :: "cenc \<Rightarrow> 'w rpc_lib \<Rightarrow> jsval \<Rightarrow> 'w \<Rightarrow> jsval result \<times> 'w" where
  "sessionCreate c rpc = hrpc_call c rpc ''@bareclaw/session-create''"

definition sessionList :: "cenc \<Rightarrow> 'w rpc_lib \<Rightarrow> jsval \<Rightarrow> 'w \<Rightarrow> jsval result \<times> 'w" where
  "sessionList c rpc = hrpc_call c rpc ''@bareclaw/session-list''"

definition sessionExport :: "cenc \<Rightarrow> 'w rpc_lib \<Rightarrow> jsval \<Rightarrow> 'w \<Rightarrow> jsval result \<times> 'w" where
  "sessionExport c rpc = hrpc_call c rpc ''@bareclaw/session-export''"

definition sessionImport :: "cenc \<Rightarrow> 'w rpc_lib \<Rightarrow> jsval \<Rightarrow> 'w \<Rightarrow> jsval result \<times> 'w" where
  "sessionImport c rpc = hrpc_call c rpc ''@bareclaw/session-import''"

definition stateExport :: "cenc \<Rightarrow> 'w rpc_lib \<Rightarrow> jsval \<Rightarrow> 'w \<Rightarrow> jsval result \<times> 'w" where
  "stateExport c rpc = hrpc_call c rpc ''@bareclaw/state-export''"

definition stateImport :: "cenc \<Rightarrow> 'w rpc_lib \<Rightarrow> jsval \<Rightarrow> 'w \<Rightarrow> jsval result \<times> 'w" where
  "stateImport c rpc = hrpc_call c rpc ''@bareclaw/state-import''"

definition toolRegister :: "cenc \<Rightarrow> 'w rpc_lib \<Rightarrow> jsval \<Rightarrow> 'w \<Rightarrow> jsval result \<times> 'w" where
  "toolRegister c rpc = hrpc_call c rpc ''@bareclaw/tool-register''"

definition toolExec :: "cenc \<Rightarrow> 'w rpc_lib \<Rightarrow> jsval \<Rightarrow> 'w \<Rightarrow> jsval result \<times> 'w" where
  "toolExec c rpc = hrpc_call c rpc ''@bareclaw/tool-exec''"

definition stateChanged :: "cenc \<Rightarrow> 'w rpc_lib \<Rightarrow> jsval \<Rightarrow> 'w \<Rightarrow> sync_result result \<times> 'w" where
  "stateChanged c rpc = hrpc_callSync c rpc ''@bareclaw/state-changed''"

end
