(* ===== verification/Hrpc_Spec.thy ===== *)
theory Hrpc_Spec
  imports Hrpc
begin

text \<open>
  What the generated RPC class promises: its tables are those src/build.js registers, a call
  over a transport runs the peer's handler once and brings its answer back, and nothing else
  ever produces a reply.  The transport is the locale \<open>rpc_transport\<close>; \<open>link\<close> is a transport
  in which both ends live in one state, the instance the locale is interpreted on.
\<close>

section \<open>The tables\<close>

lemma methods_get_name:
  "methods_get (Str (js ''@bareclaw/chat'')) = Num 0"
  "methods_get (Str (js ''@bareclaw/session-create'')) = Num 1"
  "methods_get (Str (js ''@bareclaw/session-list'')) = Num 2"
  "methods_get (Str (js ''@bareclaw/session-export'')) = Num 3"
  "methods_get (Str (js ''@bareclaw/session-import'')) = Num 4"
  "methods_get (Str (js ''@bareclaw/state-export'')) = Num 5"
  "methods_get (Str (js ''@bareclaw/state-import'')) = Num 6"
  "methods_get (Str (js ''@bareclaw/tool-register'')) = Num 7"
  "methods_get (Str (js ''@bareclaw/tool-exec'')) = Num 8"
  "methods_get (Str (js ''@bareclaw/state-changed'')) = Num 9"
  by (simp_all add: methods_get_def methods_def)

lemma methods_get_number:
  "methods_get (Num 0) = Str (js ''@bareclaw/chat'')"
  "methods_get (Num 1) = Str (js ''@bareclaw/session-create'')"
  "methods_get (Num 2) = Str (js ''@bareclaw/session-list'')"
  "methods_get (Num 3) = Str (js ''@bareclaw/session-export'')"
  "methods_get (Num 4) = Str (js ''@bareclaw/session-import'')"
  "methods_get (Num 5) = Str (js ''@bareclaw/state-export'')"
  "methods_get (Num 6) = Str (js ''@bareclaw/state-import'')"
  "methods_get (Num 7) = Str (js ''@bareclaw/tool-register'')"
  "methods_get (Num 8) = Str (js ''@bareclaw/tool-exec'')"
  "methods_get (Num 9) = Str (js ''@bareclaw/state-changed'')"
  by (simp_all add: methods_get_def methods_def)

lemma methods_get_other:
  "k \<notin> Str ` rpc_name ` set build_rpcs \<Longrightarrow> k \<notin> Num ` {0..<10} \<Longrightarrow> methods_get k = Undef"
  by (simp add: methods_get_def methods_def build_rpcs_def unary_rpc_def) fastforce

lemma requestIsStream_False [simp]: "\<not> requestIsStream command"
  by (simp add: requestIsStream_def)

lemma responseIsStream_iff [simp]: "responseIsStream command \<longleftrightarrow> command = Str (js ''@bareclaw/chat'')"
  by (simp add: responseIsStream_def)

lemma requestIsSend_iff [simp]: "requestIsSend command \<longleftrightarrow> command = Str (js ''@bareclaw/state-changed'')"
  by (simp add: requestIsSend_def)

text \<open>The names that occur in the tables, as a registration of src/build.js has them.\<close>

definition rpc_unary :: "rpcdef \<Rightarrow> bool" where
  "rpc_unary d \<longleftrightarrow> d \<in> set build_rpcs \<and> \<not> rpc_send d \<and> \<not> rpc_response_stream d"

lemma build_rpcs_tables:
  "list_all (\<lambda>d. methods_get (methods_get (Str (rpc_name d))) = Str (rpc_name d)
     \<and> map_of request_types (Str (rpc_name d)) = Some (rpc_request d)
     \<and> map_of response_types (Str (rpc_name d)) = rpc_response d
     \<and> requestIsSend (Str (rpc_name d)) = rpc_send d
     \<and> responseIsStream (Str (rpc_name d)) = rpc_response_stream d) build_rpcs"
  by (simp add: build_rpcs_def unary_rpc_def methods_get_name methods_get_number request_types_def
    response_types_def)

lemma build_rpcs_registered:
  "list_all (\<lambda>d. rpc_request d \<in> set type_names \<and> pred_option (\<lambda>r. r \<in> set type_names) (rpc_response d)) build_rpcs"
  by (simp add: build_rpcs_def unary_rpc_def type_names_eq)

lemma rpc_unaryD:
  assumes "rpc_unary d" and "rpc_response d = Some r"
  shows "methods_get (methods_get (Str (rpc_name d))) = Str (rpc_name d)"
    and "map_of request_types (Str (rpc_name d)) = Some (rpc_request d)"
    and "map_of response_types (Str (rpc_name d)) = Some r"
    and "\<not> requestIsSend (Str (rpc_name d))" and "\<not> responseIsStream (Str (rpc_name d))"
    and "rpc_request d \<in> set type_names" and "r \<in> set type_names"
  using assms build_rpcs_tables build_rpcs_registered
  by (auto simp: rpc_unary_def list_all_iff)

section \<open>A call over a transport\<close>

text \<open>
  A transport joins a client to a peer that serves each request: when the peer answers the
  payload sent on a request, the awaited reply is that answer, and the peer's state is the one
  its server left.
\<close>

locale rpc_transport =
  fixes rpc :: "'w rpc_lib"
    and serve :: "jsval \<Rightarrow> bytes option \<Rightarrow> 'p \<Rightarrow> outcome \<times> 'p"
    and peer :: "'w \<Rightarrow> 'p"
  assumes exchange: "lib_request rpc command w = (k, w1) \<Longrightarrow>
    serve command (Some payload) (peer w) = (Replied answer, p') \<Longrightarrow>
    \<exists>w2. lib_reply rpc k (lib_send rpc k payload w1) = (Inr answer, w2) \<and> peer w2 = p'"

locale hrpc_pair = compact_encoding c f alloc + rpc_transport rpc "on_request c hs" peer
  for c :: cenc and f :: wirefmt and alloc :: "nat \<Rightarrow> bytes"
    and rpc :: "'w rpc_lib" and hs :: "'p handlers" and peer :: "'w \<Rightarrow> 'p"

text \<open>What a handler is given for a conforming request: an empty payload is not decoded.\<close>

definition handed :: "wirefmt \<Rightarrow> jsstring \<Rightarrow> jsval \<Rightarrow> jsval" where
  "handed f t v = (if ty_wire schema_depth f t v = [] then Null else ty_got schema_depth t v)"

context compact_encoding
begin

lemma encode_with_known:
  assumes "t \<in> set type_names" and "ty_ok schema_depth f t v" and "map_of tab command = Some t"
  shows "encode_with c (encoding_in c tab command) v = Inr (ty_wire schema_depth f t v)"
    and "decode_with c (encoding_in c tab command) (ty_wire schema_depth f t v)
      = Inr (ty_got schema_depth t v)"
proof -
  obtain p where p: "getEncoding c t = Inr p"
    and w: "wire_codec p (ty_ok schema_depth f t) (ty_wire schema_depth f t) (ty_got schema_depth t)"
    using getEncoding_codec [OF assms(1)] by blast
  show "encode_with c (encoding_in c tab command) v = Inr (ty_wire schema_depth f t v)"
    using c_encode_ok [OF w assms(2)] p assms(3) by (simp add: encode_with_def encoding_in_def)
  show "decode_with c (encoding_in c tab command) (ty_wire schema_depth f t v)
      = Inr (ty_got schema_depth t v)"
    using c_decode_ok [OF w assms(2)] p assms(3) by (simp add: decode_with_def encoding_in_def)
qed

lemma request_of_conforming:
  assumes "t \<in> set type_names" and "ty_ok schema_depth f t v" and "map_of tab command = Some t"
  shows "request_of c (encoding_in c tab command) (Some (ty_wire schema_depth f t v)) = Inr (handed f t v)"
  using encode_with_known [OF assms] by (simp add: request_of_def handed_def)

lemma on_request_unary:
  assumes d: "rpc_unary d" "rpc_response d = Some r"
    and "ty_ok schema_depth f (rpc_request d) v"
    and h: "hs (Str (rpc_name d)) = Some h" "h (HRequest (handed f (rpc_request d) v)) p = (Inr resp, p')"
    and "ty_ok schema_depth f r resp"
  shows "on_request c hs (methods_get (Str (rpc_name d)))
      (Some (ty_wire schema_depth f (rpc_request d) v)) p
    = (Replied (ty_wire schema_depth f r resp), p')"
  using rpc_unaryD [OF d] request_of_conforming [of "rpc_request d" v request_types "Str (rpc_name d)"]
    encode_with_known [of r resp response_types "Str (rpc_name d)"] assms(3,6) h
  by (simp add: on_request_def requestEncodings_def responseEncodings_def call_handler_def reply_with_def)

end

context hrpc_pair
begin

lemma call_returns_answer:
  assumes d: "rpc_unary d" "rpc_response d = Some r" "rpc_name d = js n"
    and v: "ty_ok schema_depth f (rpc_request d) v"
    and h: "hs (Str (js n)) = Some h" "h (HRequest (handed f (rpc_request d) v)) (peer w) = (Inr resp, p')"
    and resp: "ty_ok schema_depth f r resp"
  shows "\<exists>w'. hrpc_call c rpc n v w = (Inr (ty_got schema_depth r resp), w') \<and> peer w' = p'"
proof -
  obtain k w1 where open_request: "lib_request rpc (methods_get (Str (js n))) w = (k, w1)"
    by fastforce
  have "on_request c hs (methods_get (Str (js n))) (Some (ty_wire schema_depth f (rpc_request d) v)) (peer w)
      = (Replied (ty_wire schema_depth f r resp), p')"
    using h(1) unfolding d(3) [symmetric] by (intro on_request_unary [where h = h] d v resp h(2))
  from exchange [OF open_request this] obtain w2 where
    "lib_reply rpc k (lib_send rpc k (ty_wire schema_depth f (rpc_request d) v) w1)
      = (Inr (ty_wire schema_depth f r resp), w2)" "peer w2 = p'"
    by blast
  moreover have "encode_with c (requestEncodings c (Str (js n))) v = Inr (ty_wire schema_depth f (rpc_request d) v)"
    "decode_with c (responseEncodings c (Str (js n))) (ty_wire schema_depth f r resp) = Inr (ty_got schema_depth r resp)"
    using rpc_unaryD [OF d(1,2)] d(3) v resp encode_with_known
    by (simp_all add: requestEncodings_def responseEncodings_def)
  ultimately show ?thesis
    using open_request by (simp add: hrpc_call_def)
qed

end

section \<open>Both ends in one state\<close>

text \<open>
  A link keeps the peer's state, the next identity, the command each identity was opened for,
  the outcome of what was sent on it, and which opened requests still wait for one.
\<close>

record 'p link =
  lk_peer :: 'p
  lk_next :: nat
  lk_command :: "nat \<Rightarrow> jsval"
  lk_outcome :: "nat \<Rightarrow> outcome option"
  lk_pending :: "nat list"

definition link_start :: "'p \<Rightarrow> 'p link" where
  "link_start p = \<lparr>lk_peer = p, lk_next = 0, lk_command = (\<lambda>_. Undef), lk_outcome = (\<lambda>_. None),
     lk_pending = []\<rparr>"

definition link_open :: "bool \<Rightarrow> jsval \<Rightarrow> 'p link \<Rightarrow> nat \<times> 'p link" where
  "link_open awaited command w =
     (lk_next w,
      w\<lparr>lk_next := Suc (lk_next w), lk_command := (lk_command w)(lk_next w := command),
        lk_pending := (if awaited then lk_next w # lk_pending w else lk_pending w)\<rparr>)"

definition link_send ::
    "(jsval \<Rightarrow> bytes option \<Rightarrow> 'p \<Rightarrow> outcome \<times> 'p) \<Rightarrow> nat \<Rightarrow> bytes \<Rightarrow> 'p link \<Rightarrow> 'p link" where
  "link_send serve k payload w =
     (let (out, p) = serve (lk_command w k) (Some payload) (lk_peer w)
      in w\<lparr>lk_peer := p, lk_outcome := (lk_outcome w)(k \<mapsto> out), lk_pending := removeAll k (lk_pending w)\<rparr>)"

definition link_reply :: "nat \<Rightarrow> 'p link \<Rightarrow> bytes result \<times> 'p link" where
  "link_reply k w =
     (case lk_outcome w k of
        Some (Replied bs) \<Rightarrow> Inr bs
      | Some (Rejected e) \<Rightarrow> Inl e
      | _ \<Rightarrow> Inl (ErrorObj (js ''closed'')), w)"

definition link_lib :: "(jsval \<Rightarrow> bytes option \<Rightarrow> 'p \<Rightarrow> outcome \<times> 'p) \<Rightarrow> 'p link rpc_lib" where
  "link_lib serve = \<lparr>lib_request = link_open True, lib_event = link_open False,
     lib_send = link_send serve, lib_reply = link_reply,
     lib_responseStream = Pair, lib_requestStream = Pair\<rparr>"

lemmas link_simps = link_lib_def link_open_def link_send_def link_reply_def

interpretation link: rpc_transport "link_lib serve" serve lk_peer for serve
  by unfold_locales (auto simp: link_simps)

interpretation link_pair: hrpc_pair ref_cenc ref_fmt ref_alloc "link_lib (on_request ref_cenc hs)" hs lk_peer
  for hs
  by unfold_locales

section \<open>Properties\<close>

lemma encode_with_known_response:
  "encode_with c (responseEncodings c k) v = Inr bs \<Longrightarrow> k \<in> fst ` set response_types"
  by (force simp: encode_with_def responseEncodings_def encoding_in_def split: option.splits dest: map_of_SomeD)

text \<open>
  The generated tables are the registrations of src/build.js, in its order: the i-th
  method has number i and number i names it, its request and response types, its stream and
  send flags are the registered ones, every type is a registered one, and nothing else is in
  the method table.
\<close>

theorem rpc_tables_are_the_registrations:
  "map (\<lambda>d. methods_get (Str (rpc_name d))) build_rpcs = map (\<lambda>i. Num (int i)) [0..<length build_rpcs]
   \<and> map (\<lambda>i. methods_get (Num (int i))) [0..<length build_rpcs] = map (\<lambda>d. Str (rpc_name d)) build_rpcs
   \<and> {k. methods_get k \<noteq> Undef} = Str ` rpc_name ` set build_rpcs \<union> Num ` {0..<int (length build_rpcs)}
   \<and> map (\<lambda>d. let k = Str (rpc_name d) in
        \<lparr>rpc_name = rpc_name d, rpc_request = the (map_of request_types k),
         rpc_response = map_of response_types k, rpc_response_stream = responseIsStream k,
         rpc_send = requestIsSend k\<rparr>) build_rpcs = build_rpcs
   \<and> snd ` set request_types \<union> snd ` set response_types \<subseteq> set type_names"
proof (intro conjI)
  show "map (\<lambda>d. methods_get (Str (rpc_name d))) build_rpcs = map (\<lambda>i. Num (int i)) [0..<length build_rpcs]"
    by (simp add: build_rpcs_def unary_rpc_def methods_get_name)
  show numbered: "map (\<lambda>i. methods_get (Num (int i))) [0..<length build_rpcs] = map (\<lambda>d. Str (rpc_name d)) build_rpcs"
    by (simp add: build_rpcs_def unary_rpc_def methods_get_number)
  show "map (\<lambda>d. let k = Str (rpc_name d) in
        \<lparr>rpc_name = rpc_name d, rpc_request = the (map_of request_types k),
         rpc_response = map_of response_types k, rpc_response_stream = responseIsStream k,
         rpc_send = requestIsSend k\<rparr>) build_rpcs = build_rpcs"
    using build_rpcs_tables by (intro map_idI) (auto simp: list_all_iff Let_def)
  show "snd ` set request_types \<union> snd ` set response_types \<subseteq> set type_names"
    by (simp add: request_types_def response_types_def type_names_eq)
  have numbers: "{0..<int (length build_rpcs)} = set [0..9]"
    by (auto simp: build_rpcs_def unary_rpc_def)
  have "fst ` set methods = Str ` rpc_name ` set build_rpcs \<union> Num ` {0..<int (length build_rpcs)}"
    unfolding numbers by (simp add: methods_def build_rpcs_def unary_rpc_def upto_rec1 insert_commute)
  moreover have "{k. methods_get k \<noteq> Undef} = fst ` set methods"
    by (auto simp: methods_get_def map_of_eq_None_iff split: option.splits dest: map_of_SomeD)
      (auto simp: methods_def)
  ultimately show "{k. methods_get k \<noteq> Undef} = Str ` rpc_name ` set build_rpcs \<union> Num ` {0..<int (length build_rpcs)}"
    by simp
qed

text \<open>
  C5. A unary call brings the peer's answer back.  For any transport: if the arguments conform to
  the command's request type and the peer has a handler for the command that answers with a
  conforming response, then the call returns the response as received, the handler having run
  exactly once, on the arguments as received (on \<open>null\<close> when they encode to nothing).
\<close>

theorem unary_call_returns_the_handlers_answer:
  assumes "hrpc_pair c f alloc rpc hs peer"
    and "rpc_unary d" and "rpc_response d = Some r" and "rpc_name d = js n"
    and "ty_ok schema_depth f (rpc_request d) v"
    and "hs (Str (js n)) = Some h" and "h (HRequest (handed f (rpc_request d) v)) (peer w) = (Inr resp, p')"
    and "ty_ok schema_depth f r resp"
  shows "\<exists>w'. hrpc_call c rpc n v w = (Inr (ty_got schema_depth r resp), w') \<and> peer w' = p'"
  using hrpc_pair.call_returns_answer [OF assms] .

definition counting_handler :: "nat handler" where
  "counting_handler arg n = (Inr (Obj [(js ''key'', Str (if arg = HRequest (Obj [(js ''agentId'', Null), (js ''channel'', Null), (js ''account'', Null), (js ''peer'', Null)]) then [97] else [98]))]), Suc n)"

theorem unary_call_returns_the_handlers_answer_witness:
  "\<exists>w'. sessionCreate ref_cenc (link_lib (on_request ref_cenc (onSessionCreate counting_handler no_handlers)))
      (Obj []) (link_start 4) = (Inr (Obj [(js ''key'', Str [97])]), w') \<and> lk_peer w' = 5"
proof -
  have scope: "handed ref_fmt (js ''@bareclaw/session-scope'') (Obj [])
      = Obj [(js ''agentId'', Null), (js ''channel'', Null), (js ''account'', Null), (js ''peer'', Null)]"
    by (simp add: handed_def schema_session_scope ref_fmt_def ref_uint_def)
  show ?thesis
    using unary_call_returns_the_handlers_answer [OF link_pair.hrpc_pair_axioms,
        of "build_rpcs ! 1" "js ''@bareclaw/session-key''" "''@bareclaw/session-create''" "Obj []"
           "onSessionCreate counting_handler no_handlers" counting_handler "link_start 4"
           "Obj [(js ''key'', Str [97])]" 5]
    by (simp add: build_rpcs_def unary_rpc_def rpc_unary_def onSessionCreate_def set_handler_def
      sessionCreate_def counting_handler_def scope link_start_def schema_session_key schema_session_scope
      is_high_def is_low_def)
qed

text \<open>
  No reply without the handler: whenever the dispatcher replies to a request, the command
  was registered, its request decoded (or was empty), its handler ran once on it from the
  process's state and returned, and the reply is the encoding of what it returned; a command
  without handler, a handler that throws and a response that cannot be encoded never reply.
\<close>

theorem replies_come_from_handlers:
  assumes "on_request c hs command data p = (Replied bs, p')"
  shows "\<exists>h request response. hs (methods_get command) = Some h
    \<and> request_of c (requestEncodings c (methods_get command)) data = Inr request
    \<and> h (HRequest request) p = (Inr response, p')
    \<and> encode_with c (responseEncodings c (methods_get command)) response = Inr bs
    \<and> methods_get command \<notin> {Undef, Str (js ''@bareclaw/chat''), Str (js ''@bareclaw/state-changed'')}"
proof -
  let ?k = "methods_get command"
  have reply: "\<not> requestIsSend ?k" "\<not> responseIsStream ?k"
    using assms by (auto simp: on_request_def Let_def complete_def split: if_splits sum.splits)
  then obtain request where request: "request_of c (requestEncodings c ?k) data = Inr request"
    "reply_with c (responseEncodings c ?k) (call_handler hs ?k (HRequest request) p) = (Replied bs, p')"
    using assms by (auto simp: on_request_def Let_def split: sum.splits)
  then obtain h response where h: "hs ?k = Some h" "h (HRequest request) p = (Inr response, p')"
    "encode_with c (responseEncodings c ?k) response = Inr bs"
    by (cases "hs ?k"; cases "the (hs ?k) (HRequest request) p")
      (auto simp: reply_with_def call_handler_def split: sum.splits)
  have "?k \<noteq> Undef"
    using h(3) by (auto dest: encode_with_known_response simp: response_types_def)
  with reply request h show ?thesis
    by auto
qed

theorem replies_come_from_handlers_witness:
  "\<exists>h request response. onSessionList (\<lambda>_ n. (Inr (Obj [(js ''keys'', Arr [])]), n + 1)) no_handlers (methods_get (Num 2)) = Some h
    \<and> request_of ref_cenc (requestEncodings ref_cenc (methods_get (Num 2))) None = Inr request
    \<and> h (HRequest request) (0::nat) = (Inr response, 1)
    \<and> encode_with ref_cenc (responseEncodings ref_cenc (methods_get (Num 2))) response = Inr [0]
    \<and> methods_get (Num 2) \<notin> {Undef, Str (js ''@bareclaw/chat''), Str (js ''@bareclaw/state-changed'')}"
proof (rule replies_come_from_handlers)
  have table: "map_of response_types (Str (js ''@bareclaw/session-list'')) = Some (js ''@bareclaw/session-list'')"
    by (simp add: response_types_def)
  have "encode_with ref_cenc (responseEncodings ref_cenc (Str (js ''@bareclaw/session-list''))) (Obj [(js ''keys'', Arr [])]) = Inr [0]"
    using ref.encode_with_known(1) [of "js ''@bareclaw/session-list''" "Obj [(js ''keys'', Arr [])]" response_types, OF _ _ table]
    by (simp add: responseEncodings_def type_names_eq arr_wire_def schema_session_list ref_fmt_def ref_uint_def)
  then show "on_request ref_cenc (onSessionList (\<lambda>_ n. (Inr (Obj [(js ''keys'', Arr [])]), n + 1)) no_handlers) (Num 2) None (0::nat)
      = (Replied [0], 1)"
    by (simp add: on_request_def methods_get_number request_of_def call_handler_def reply_with_def
      onSessionList_def set_handler_def)
qed

text \<open>
  A chat is a stream: for a conforming request \<open>chat\<close> opens request 0, sends it once and
  returns the response stream with the codec of chat chunks; the peer's dispatcher calls its
  chat handler once with a stream of that codec carrying the request as received, and never
  replies.
\<close>

theorem chat_opens_a_stream_carrying_the_request:
  assumes "compact_encoding c f alloc"
    and "ty_ok schema_depth f (js ''@bareclaw/chat-request'') v"
    and "hs (Str (js ''@bareclaw/chat'')) = Some h"
  shows "\<exists>bs. hrpc_chat c rpc v w =
      (let (k, w1) = lib_request rpc (Num 0) w;
           (s, w2) = lib_responseStream rpc k (lib_send rpc k bs w1)
       in (Inr (ResponseStream s (Some (encoding3 c))), w2))
    \<and> on_request c hs (Num 0) (Some bs) p
      = complete (h (HStream (Some (encoding3 c)) (handed f (js ''@bareclaw/chat-request'') v)) p)"
proof -
  let ?k = "Str (js ''@bareclaw/chat'')" and ?t = "js ''@bareclaw/chat-request''"
  have req: "map_of request_types ?k = Some ?t" and t: "?t \<in> set type_names"
    and resp: "responseEncodings c ?k = Some (encoding3 c)"
    by (simp_all add: request_types_def type_names_eq responseEncodings_def encoding_in_def response_types_def
      getEncoding_known)
  note sent = compact_encoding.encode_with_known [OF assms(1) t assms(2) req]
    compact_encoding.request_of_conforming [OF assms(1) t assms(2) req]
  show ?thesis
    using sent resp assms(3)
    by (intro exI [of _ "ty_wire schema_depth f ?t v"])
      (simp add: hrpc_chat_def hrpc_callSync_def methods_get_name methods_get_number on_request_def
        requestEncodings_def call_handler_def split: prod.splits)
qed

theorem chat_opens_a_stream_carrying_the_request_witness:
  "\<exists>bs. hrpc_chat ref_cenc (link_lib (\<lambda>_ _ n. (Completed, Suc n))) (Obj [(js ''sessionId'', Str []), (js ''message'', Str [104])]) (link_start (0::nat)) =
      (let (k, w1) = lib_request (link_lib (\<lambda>_ _ n. (Completed, Suc n))) (Num 0) (link_start 0);
           (s, w2) = lib_responseStream (link_lib (\<lambda>_ _ n. (Completed, Suc n))) k (lib_send (link_lib (\<lambda>_ _ n. (Completed, Suc n))) k bs w1)
       in (Inr (ResponseStream s (Some (encoding3 ref_cenc))), w2))
    \<and> on_request ref_cenc (onChat counting_handler no_handlers) (Num 0) (Some bs) 7
      = complete (counting_handler (HStream (Some (encoding3 ref_cenc))
          (handed ref_fmt (js ''@bareclaw/chat-request'') (Obj [(js ''sessionId'', Str []), (js ''message'', Str [104])]))) 7)"
  by (rule chat_opens_a_stream_carrying_the_request [OF ref.compact_encoding_axioms])
    (simp_all add: schema_chat_request onChat_def set_handler_def is_high_def is_low_def)



end
