(* ===== verification/Json.thy ===== *)
theory Json
  imports Compact_Encoding
begin

text \<open>
  \<open>JSON.stringify\<close> and \<open>JSON.parse\<close> of the language, on the values of the model: what
  src/index.js, src/lib/spawn.js and the example programs serialise with.  Every string,
  lone surrogates included, survives the round trip; \<open>undefined\<close> does not (it is dropped from
  objects and becomes \<open>null\<close> in arrays).  Objects keep the language's property order: array
  indices ascending, then the other keys as they were added.
\<close>

section \<open>Property order\<close>

definition is_digit16 :: "16 word \<Rightarrow> bool" where
  "is_digit16 c \<longleftrightarrow> 48 \<le> c \<and> c \<le> 57"

definition dec_value :: "jsstring \<Rightarrow> nat" where
  "dec_value = foldl (\<lambda>n c. 10 * n + (unat c - 48)) 0"

fun dec_nat :: "nat \<Rightarrow> jsstring" where
  "dec_nat n = (if n < 10 then [48 + word_of_nat n] else dec_nat (n div 10) @ [48 + word_of_nat (n mod 10)])"

declare dec_nat.simps [simp del]

text \<open>A property name that is an array index: the canonical decimal of a number below \<open>2 ^ 32 - 1\<close>.\<close>

definition is_index :: "jsstring \<Rightarrow> bool" where
  "is_index k \<longleftrightarrow> list_all is_digit16 k \<and> k = dec_nat (dec_value k) \<and> dec_value k < 4294967295"

text \<open>\<open>o[k] = v\<close> on an own-property list.\<close>

fun put_prop :: "jsstring \<Rightarrow> jsval \<Rightarrow> (jsstring \<times> jsval) list \<Rightarrow> (jsstring \<times> jsval) list" where
  "put_prop k v [] = [(k, v)]"
| "put_prop k v ((k', v') # ps) =
     (if k = k' then (k, v) # ps
      else if is_index k \<and> (\<not> is_index k' \<or> dec_value k < dec_value k') then (k, v) # (k', v') # ps
      else (k', v') # put_prop k v ps)"

definition props_ok :: "(jsstring \<times> jsval) list \<Rightarrow> bool" where
  "props_ok ps \<longleftrightarrow> foldl (\<lambda>acc (k, v). put_prop k v acc) [] ps = ps"

lemma map_of_put_prop: "map_of (put_prop k v ps) k' = (if k' = k then Some v else map_of ps k')"
  by (induction ps) auto

section \<open>Writing\<close>

definition hex_digit :: "nat \<Rightarrow> 16 word" where
  "hex_digit n = (if n < 10 then 48 + word_of_nat n else 87 + word_of_nat n)"

definition u_escape :: "16 word \<Rightarrow> jsstring" where
  "u_escape c = [92, 117, hex_digit (unat c div 4096), hex_digit (unat c div 256 mod 16),
     hex_digit (unat c div 16 mod 16), hex_digit (unat c mod 16)]"

definition escape_unit :: "16 word \<Rightarrow> jsstring" where
  "escape_unit c =
     (if c = 34 then [92, 34] else if c = 92 then [92, 92]
      else if c = 8 then [92, 98] else if c = 12 then [92, 102] else if c = 10 then [92, 110]
      else if c = 13 then [92, 114] else if c = 9 then [92, 116]
      else if c < 32 then u_escape c else [c])"

fun quote_chars :: "jsstring \<Rightarrow> jsstring" where
  "quote_chars [] = []"
| "quote_chars [c] = (if is_high c \<or> is_low c then u_escape c else escape_unit c)"
| "quote_chars (c # d # s) =
     (if is_high c \<and> is_low d then c # d # quote_chars s
      else (if is_high c \<or> is_low c then u_escape c else escape_unit c) @ quote_chars (d # s))"

definition quote_string :: "jsstring \<Rightarrow> jsstring" where
  "quote_string s = 34 # quote_chars s @ [34]"

definition int_text :: "int \<Rightarrow> jsstring" where
  "int_text i = (if i < 0 then 45 # dec_nat (nat (- i)) else dec_nat (nat i))"

fun commas :: "jsstring list \<Rightarrow> jsstring" where
  "commas [] = []"
| "commas [t] = t"
| "commas (t # ts) = t @ 44 # commas ts"

text \<open>A buffer is written by its \<open>toJSON\<close>.\<close>

definition buffer_text :: "bytes \<Rightarrow> jsstring" where
  "buffer_text b = js ''{\"type\":\"Buffer\",\"data\":['' @ commas (map (\<lambda>x. dec_nat (unat x)) b) @ js '']}''"

text \<open>The text of a value; an \<open>undefined\<close> has none.\<close>

fun json_text :: "jsval \<Rightarrow> jsstring option" where
  "json_text Undef = None"
| "json_text Null = Some (js ''null'')"
| "json_text (Bool b) = Some (if b then js ''true'' else js ''false'')"
| "json_text (Num n) = Some (int_text n)"
| "json_text (Dbl t) = Some t"
| "json_text (Str s) = Some (quote_string s)"
| "json_text (Buf b) = Some (buffer_text b)"
| "json_text (Arr xs) =
     Some (91 # commas (map (\<lambda>v. case json_text v of None \<Rightarrow> js ''null'' | Some t \<Rightarrow> t) xs) @ [93])"
| "json_text (Obj ps) =
     Some (123 # commas (concat (map (\<lambda>(k, v). case json_text v of None \<Rightarrow> []
         | Some t \<Rightarrow> [quote_string k @ 58 # t]) ps)) @ [125])"

definition JSON_stringify :: "jsval \<Rightarrow> jsval" where
  "JSON_stringify v = (case json_text v of None \<Rightarrow> Undef | Some t \<Rightarrow> Str t)"

section \<open>Reading\<close>

fun skip_ws :: "jsstring \<Rightarrow> jsstring" where
  "skip_ws [] = []"
| "skip_ws (c # s) = (if c \<in> {32, 9, 10, 13} then skip_ws s else c # s)"

definition hex_value :: "16 word \<Rightarrow> nat option" where
  "hex_value c =
     (if 48 \<le> c \<and> c \<le> 57 then Some (unat c - 48)
      else if 97 \<le> c \<and> c \<le> 102 then Some (unat c - 87)
      else if 65 \<le> c \<and> c \<le> 70 then Some (unat c - 55) else None)"

definition read_hex4 :: "jsstring \<Rightarrow> (16 word \<times> jsstring) option" where
  "read_hex4 s =
     (case s of a # b # c # d # r \<Rightarrow>
        (case (hex_value a, hex_value b, hex_value c, hex_value d) of
           (Some w, Some x, Some y, Some z) \<Rightarrow> Some (word_of_nat (4096 * w + 256 * x + 16 * y + z), r)
         | _ \<Rightarrow> None)
      | _ \<Rightarrow> None)"

definition simple_escape :: "16 word \<Rightarrow> 16 word option" where
  "simple_escape e =
     (if e = 34 then Some 34 else if e = 92 then Some 92 else if e = 47 then Some 47
      else if e = 98 then Some 8 else if e = 102 then Some 12 else if e = 110 then Some 10
      else if e = 114 then Some 13 else if e = 116 then Some 9 else None)"

lemma read_hex4_length: "read_hex4 s = Some (x, r) \<Longrightarrow> length r < length s"
  by (auto simp: read_hex4_def split: list.splits option.splits)

text \<open>The characters of a string up to its closing quote.\<close>

function read_chars :: "jsstring \<Rightarrow> (jsstring \<times> jsstring) option" where
  "read_chars [] = None"
| "read_chars (c # s) =
     (if c = 34 then Some ([], s)
      else if c = 92 then
        (case s of
           [] \<Rightarrow> None
         | e # r \<Rightarrow>
             if e = 117 then
               (case read_hex4 r of
                  None \<Rightarrow> None
                | Some (x, r') \<Rightarrow> map_option (apfst (Cons x)) (read_chars r'))
             else
               (case simple_escape e of
                  None \<Rightarrow> None
                | Some x \<Rightarrow> map_option (apfst (Cons x)) (read_chars r)))
      else if c < 32 then None
      else map_option (apfst (Cons c)) (read_chars s))"
  by pat_completeness auto
termination
  by (relation "measure length") (auto dest: read_hex4_length)

text \<open>A number is the longest run of number characters, and must be a literal of the grammar.\<close>

definition num_char :: "16 word \<Rightarrow> bool" where
  "num_char c \<longleftrightarrow> is_digit16 c \<or> c \<in> {43, 45, 46, 69, 101}"

fun exponent_ok :: "jsstring \<Rightarrow> bool" where
  "exponent_ok [] = True"
| "exponent_ok (c # s) = (c \<in> {69, 101} \<and>
     (let q = (case s of d # r \<Rightarrow> if d \<in> {43, 45} then r else s | [] \<Rightarrow> s) in q \<noteq> [] \<and> list_all is_digit16 q))"

fun fraction_ok :: "jsstring \<Rightarrow> bool" where
  "fraction_ok [] = True"
| "fraction_ok (c # s) = (if c = 46 then s \<noteq> [] \<and> is_digit16 (hd s) \<and> exponent_ok (dropWhile is_digit16 s)
     else exponent_ok (c # s))"

definition number_literal :: "jsstring \<Rightarrow> bool" where
  "number_literal t =
     (case (case t of c # r \<Rightarrow> if c = 45 then r else t | [] \<Rightarrow> t) of
        [] \<Rightarrow> False
      | d # r \<Rightarrow> is_digit16 d \<and> fraction_ok (if d = 48 then r else dropWhile is_digit16 r))"

definition safe_int :: "int \<Rightarrow> bool" where
  "safe_int i \<longleftrightarrow> \<bar>i\<bar> \<le> 9007199254740991"

definition number_value :: "jsstring \<Rightarrow> jsval" where
  "number_value t =
     (let i = (case t of c # r \<Rightarrow> if c = 45 then - int (dec_value r) else int (dec_value t) | [] \<Rightarrow> 0)
      in if t = int_text i \<and> safe_int i then Num i else Dbl t)"

definition read_number :: "jsstring \<Rightarrow> (jsval \<times> jsstring) option" where
  "read_number s =
     (let t = takeWhile num_char s
      in if number_literal t then Some (number_value t, dropWhile num_char s) else None)"

definition read_word :: "string \<Rightarrow> jsval \<Rightarrow> jsstring \<Rightarrow> (jsval \<times> jsstring) option" where
  "read_word w v s =
     (if take (length w) s = js w then Some (v, drop (length w) s) else None)"

definition next_is :: "16 word \<Rightarrow> jsstring \<Rightarrow> bool" where
  "next_is c s \<longleftrightarrow> s \<noteq> [] \<and> hd s = c"

lemma next_is_Cons [simp]: "next_is c (d # s) \<longleftrightarrow> d = c" and next_is_Nil [simp]: "\<not> next_is c []"
  by (simp_all add: next_is_def)

text \<open>
  Values, elements of an array and members of an object.  Every value consumes a character
  before it recurses twice, so twice the length of the text is enough fuel.
\<close>

fun read_value :: "nat \<Rightarrow> jsstring \<Rightarrow> (jsval \<times> jsstring) option"
  and read_elems :: "nat \<Rightarrow> jsstring \<Rightarrow> (jsval list \<times> jsstring) option"
  and read_members :: "nat \<Rightarrow> (jsstring \<times> jsval) list \<Rightarrow> jsstring \<Rightarrow> (jsval \<times> jsstring) option"
where
  "read_value 0 s = None"
| "read_value (Suc n) s =
     (case skip_ws s of
        [] \<Rightarrow> None
      | c # r \<Rightarrow>
          if c = 34 then map_option (apfst Str) (read_chars r)
          else if c = 91 then
            (if next_is 93 (skip_ws r) then Some (Arr [], tl (skip_ws r))
             else map_option (apfst Arr) (read_elems n r))
          else if c = 123 then
            (if next_is 125 (skip_ws r) then Some (Obj [], tl (skip_ws r)) else read_members n [] r)
          else if c = 110 then read_word ''null'' Null (c # r)
          else if c = 116 then read_word ''true'' (Bool True) (c # r)
          else if c = 102 then read_word ''false'' (Bool False) (c # r)
          else read_number (c # r))"
| "read_elems 0 s = None"
| "read_elems (Suc n) s =
     (case read_value n s of
        None \<Rightarrow> None
      | Some (v, r) \<Rightarrow>
          (case skip_ws r of
             [] \<Rightarrow> None
           | c # r' \<Rightarrow>
               if c = 44 then map_option (apfst (Cons v)) (read_elems n r')
               else if c = 93 then Some ([v], r') else None))"
| "read_members 0 ps s = None"
| "read_members (Suc n) ps s =
     (case skip_ws s of
        [] \<Rightarrow> None
      | q # r \<Rightarrow>
          if q \<noteq> 34 then None
          else (case read_chars r of
              None \<Rightarrow> None
            | Some (k, r1) \<Rightarrow>
                (case skip_ws r1 of
                   [] \<Rightarrow> None
                 | e # r2 \<Rightarrow>
                     if e \<noteq> 58 then None
                     else (case read_value n r2 of
                         None \<Rightarrow> None
                       | Some (v, r3) \<Rightarrow>
                           (case skip_ws r3 of
                              [] \<Rightarrow> None
                            | d # r4 \<Rightarrow>
                                if d = 44 then read_members n (put_prop k v ps) r4
                                else if d = 125 then Some (Obj (put_prop k v ps), r4) else None)))))"

text \<open>The text of a syntax error is the engine's; it is an argument.\<close>

definition JSON_parse :: "(jsstring \<Rightarrow> jsstring) \<Rightarrow> jsstring \<Rightarrow> jsval result" where
  "JSON_parse message t =
     (case read_value (2 * length t + 2) t of
        None \<Rightarrow> Inl (SyntaxError (message t))
      | Some (v, r) \<Rightarrow> if skip_ws r = [] then Inr v else Inl (SyntaxError (message t)))"

section \<open>Strings survive\<close>

lemma below16:
  assumes "list_all P [0, 1, 2, 3, 4, 5, 6, 7, 8, 9, 10, 11, 12, 13, 14, 15]" and "n < (16 :: nat)"
  shows "P n"
proof -
  have "set [0, 1, 2, 3, 4, 5, 6, 7, 8, 9, 10, 11, 12, 13, 14, 15] = {..<16 :: nat}"
    by (auto simp: less_Suc_eq numeral_eq_Suc)
  with assms show ?thesis
    unfolding list_all_iff by blast
qed

lemma hex_value_digit: "n < 16 \<Longrightarrow> hex_value (hex_digit n) = Some n"
  by (rule below16) (simp add: hex_value_def hex_digit_def)

lemma radix16: "n = 16 * a + r \<Longrightarrow> a = 16 * b + s \<Longrightarrow> b = 16 * c + u \<Longrightarrow> 4096 * c + 256 * u + 16 * s + r = (n :: nat)"
  by simp

lemma hex_digits: "4096 * (n div 4096) + 256 * (n div 256 mod 16) + 16 * (n div 16 mod 16) + n mod 16 = (n :: nat)"
proof (rule radix16)
  show "n = 16 * (n div 16) + n mod 16" "n div 16 = 16 * (n div 256) + n div 16 mod 16"
    "n div 256 = 16 * (n div 4096) + n div 256 mod 16"
    using mult_div_mod_eq [of 16 n] mult_div_mod_eq [of 16 "n div 16"] mult_div_mod_eq [of 16 "n div 256"]
    by (simp_all add: div_mult2_eq [of n 16 16, simplified] div_mult2_eq [of n 256 16, simplified])
qed

lemma u16_top_digit: "unat (c :: 16 word) div 4096 < 16"
proof -
  have "unat c < 2 ^ 16"
    using unsigned_less [of c] by simp
  then show ?thesis
    by (simp add: div_less_iff_less_mult)
qed

lemma read_hex4_u_escape: "read_hex4 (tl (tl (u_escape c)) @ r) = Some (c, r)"
  using hex_digits [of "unat c"] u16_top_digit [of c] by (simp add: read_hex4_def u_escape_def hex_value_digit)

lemma read_chars_u_escape:
  "read_chars (u_escape c @ r) = map_option (apfst (Cons c)) (read_chars r)"
  using read_hex4_u_escape [of c r] by (simp add: u_escape_def)

lemma read_chars_escape:
  "read_chars (escape_unit c @ r) = map_option (apfst (Cons c)) (read_chars r)"
  by (auto simp: escape_unit_def simple_escape_def read_chars_u_escape not_less)

lemma read_chars_surrogate:
  "is_high c \<or> is_low c \<Longrightarrow> read_chars (c # r) = map_option (apfst (Cons c)) (read_chars r)"
proof -
  assume "is_high c \<or> is_low c"
  then have "55296 \<le> c"
    by (auto simp: is_high_def is_low_def word_le_nat_alt word_less_nat_alt)
  moreover from this have "\<not> c < 32"
    by (simp add: word_le_nat_alt word_less_nat_alt)
  ultimately show ?thesis
    by auto
qed

lemma read_chars_quoted: "read_chars (quote_chars s @ 34 # r) = Some (s, r)"
  by (induction s rule: quote_chars.induct)
    (auto simp: read_chars_u_escape read_chars_escape read_chars_surrogate simp del: read_chars.simps(2)
      split: if_splits, simp_all)

section \<open>Numbers survive\<close>

lemma unat_digit: "d < 10 \<Longrightarrow> unat (48 + word_of_nat d :: 16 word) = 48 + d"
  by (subst unat_add_lem [THEN iffD1]) (simp_all add: unat_of_nat take_bit_nat_eq_self)

lemma is_digit16_digit: "d < 10 \<Longrightarrow> is_digit16 (48 + word_of_nat d)"
  by (simp add: is_digit16_def word_le_nat_alt unat_digit)

lemma digit_is_zero: "d < 10 \<Longrightarrow> word_of_nat d = (0 :: 16 word) \<longleftrightarrow> d = 0"
  by (auto simp: word_of_nat_eq_0_iff dest!: dvd_imp_le)

lemma dec_nat_step:
  "n < 10 \<Longrightarrow> dec_nat n = [48 + word_of_nat n]"
  "\<not> n < 10 \<Longrightarrow> dec_nat n = dec_nat (n div 10) @ [48 + word_of_nat (n mod 10)]"
  by (simp_all add: dec_nat.simps [of n])

lemma dec_nat_digits: "list_all is_digit16 (dec_nat n) \<and> dec_nat n \<noteq> []"
proof (induction n rule: dec_nat.induct)
  case (1 n)
  then show ?case
    by (cases "n < 10") (simp_all add: dec_nat_step is_digit16_digit)
qed

lemma dec_value_append: "dec_value (s @ [c]) = 10 * dec_value s + (unat c - 48)"
  by (simp add: dec_value_def)

lemma dec_value_dec_nat [simp]: "dec_value (dec_nat n) = n"
proof (induction n rule: dec_nat.induct)
  case (1 n)
  then show ?case
    by (cases "n < 10") (simp add: dec_nat_step unat_digit dec_value_def,
      simp add: dec_nat_step(2) dec_value_append unat_digit)
qed

lemma dec_nat_head_zero: "hd (dec_nat n) = 48 \<longleftrightarrow> n = 0"
proof (induction n rule: dec_nat.induct)
  case (1 n)
  then show ?case
    using dec_nat_digits [of "n div 10"]
    by (cases "n < 10") (simp_all add: dec_nat_step digit_is_zero div_eq_0_iff)
qed

lemma digit_not_sign: "is_digit16 c \<Longrightarrow> c \<noteq> 45 \<and> num_char c"
  by (auto simp: is_digit16_def num_char_def)

lemma digits_literal:
  assumes "list_all is_digit16 ds" and "ds \<noteq> []" and "hd ds = 48 \<Longrightarrow> ds = [48]"
  shows "number_literal ds \<and> number_literal (45 # ds)"
proof -
  obtain d r where ds: "ds = d # r" "is_digit16 d" "list_all is_digit16 r"
    using assms(1,2) by (cases ds) auto
  have no_rest: "dropWhile is_digit16 r = []"
    using ds(3) by (simp add: dropWhile_eq_Nil_conv list_all_iff)
  moreover have "d = 48 \<Longrightarrow> r = []"
    using assms(3) ds(1) by auto
  ultimately show ?thesis
    using digit_not_sign [OF ds(2)] ds(1,2) by (auto simp: number_literal_def no_rest simp del: dropWhile_eq_Nil_conv)
qed

lemma int_text_literal: "number_literal (int_text i) \<and> list_all num_char (int_text i) \<and> int_text i \<noteq> []"
proof -
  have "number_literal (dec_nat n) \<and> number_literal (45 # dec_nat n)" for n
    using dec_nat_digits [of n] dec_nat_head_zero [of n] by (intro digits_literal) (auto simp: dec_nat_step)
  moreover have "list_all num_char (dec_nat n) \<and> dec_nat n \<noteq> []" for n
    using dec_nat_digits [of n] digit_not_sign by (auto simp: list_all_iff)
  moreover have "num_char 45"
    by (simp add: num_char_def)
  ultimately show ?thesis
    by (simp add: int_text_def)
qed

lemma number_value_int: "safe_int i \<Longrightarrow> number_value (int_text i) = Num i"
proof -
  assume safe: "safe_int i"
  obtain d r where ds: "dec_nat (nat i) = d # r" "d \<noteq> 45"
    using dec_nat_digits [of "nat i"] digit_not_sign by (cases "dec_nat (nat i)") auto
  have "dec_value (d # r) = nat i"
    using dec_value_dec_nat [of "nat i"] ds(1) by simp
  then show ?thesis
    using safe ds by (cases "i < 0") (simp_all add: number_value_def int_text_def)
qed

definition delim :: "jsstring \<Rightarrow> bool" where
  "delim rest \<longleftrightarrow> rest = [] \<or> \<not> num_char (hd rest)"

lemma num_span:
  "list_all num_char t \<Longrightarrow> delim rest \<Longrightarrow>
   takeWhile num_char (t @ rest) = t \<and> dropWhile num_char (t @ rest) = rest"
  by (cases rest) (auto simp: delim_def list_all_iff takeWhile_append dropWhile_append)

lemma read_number_int:
  "safe_int i \<Longrightarrow> delim rest \<Longrightarrow> read_number (int_text i @ rest) = Some (Num i, rest)"
  using int_text_literal [of i] num_span [of "int_text i" rest]
  by (simp add: read_number_def number_value_int)

lemma read_number_whole:
  assumes "read_number t = Some (v, [])"
  shows "list_all num_char t \<and> number_literal t \<and> v = number_value t"
proof -
  have "dropWhile num_char t = []"
    using assms by (auto simp: read_number_def Let_def simp del: dropWhile_eq_Nil_conv split: if_splits)
  then have span: "takeWhile num_char t = t" "list_all num_char t"
    by (auto simp: list_all_iff takeWhile_eq_all_conv)
  show ?thesis
    using assms span(2) unfolding read_number_def Let_def span(1) by (auto split: if_splits)
qed

lemma read_number_text:
  "read_number t = Some (v, []) \<Longrightarrow> delim rest \<Longrightarrow> read_number (t @ rest) = Some (v, rest)"
  using num_span [of t rest] read_number_whole [of t v] by (simp add: read_number_def)

section \<open>Values survive\<close>

text \<open>
  The values that have a JSON text of their own: safe integers, number literals, no
  \<open>undefined\<close> and no buffer inside, properties in the language's order.
\<close>

fun json_ok :: "jsval \<Rightarrow> bool" where
  "json_ok Undef = False"
| "json_ok (Num i) = safe_int i"
| "json_ok (Dbl t) = (read_number t = Some (Dbl t, []))"
| "json_ok (Buf b) = False"
| "json_ok (Arr xs) = (\<forall>v \<in> set xs. json_ok v)"
| "json_ok (Obj ps) = (props_ok ps \<and> (\<forall>p \<in> set ps. json_ok (snd p)))"
| "json_ok v = True"

lemma number_literal_head: "number_literal t \<Longrightarrow> t \<noteq> [] \<and> (hd t = 45 \<or> is_digit16 (hd t))"
  by (auto simp: number_literal_def split: list.splits if_splits)

text \<open>How a text may start, so that a reader takes the right branch.\<close>

definition starts :: "jsstring \<Rightarrow> bool" where
  "starts t \<longleftrightarrow> t \<noteq> [] \<and> hd t \<notin> {32, 9, 10, 13, 93}"

lemma starts_append: "starts t \<Longrightarrow> skip_ws (t @ r) = t @ r \<and> \<not> next_is 93 (t @ r)"
  by (cases t) (auto simp: starts_def)

definition starts_number :: "jsstring \<Rightarrow> bool" where
  "starts_number t \<longleftrightarrow> t \<noteq> [] \<and> hd t \<notin> {32, 9, 10, 13, 34, 91, 93, 102, 110, 116, 123}"

lemma literal_starts_number: "number_literal t \<Longrightarrow> starts_number t"
  using number_literal_head [of t] by (auto simp: starts_number_def is_digit16_def)

lemma read_value_number:
  "starts_number t \<Longrightarrow> read_value (Suc n) (t @ rest) = read_number (t @ rest)"
  by (cases t) (auto simp: starts_number_def)

lemma json_ok_text: "json_ok v \<Longrightarrow> \<exists>t. json_text v = Some t \<and> starts t"
proof (cases v)
  case (Num i)
  then show ?thesis
    using literal_starts_number [of "int_text i"] int_text_literal [of i] by (auto simp: starts_number_def starts_def)
next
  case (Dbl t)
  moreover assume "json_ok v"
  ultimately have "read_number t = Some (Dbl t, [])"
    by simp
  with Dbl show ?thesis
    using literal_starts_number [of t] read_number_whole by (auto simp: starts_number_def starts_def)
qed (auto simp: starts_def quote_string_def js_def)

text \<open>Reading back what was written, given the same of every part.\<close>

definition reads_back :: "jsval \<Rightarrow> bool" where
  "reads_back v \<longleftrightarrow> (\<forall>t n rest. json_text v = Some t \<longrightarrow> delim rest \<longrightarrow> 2 * length t \<le> n \<longrightarrow>
     read_value n (t @ rest) = Some (v, rest))"

lemma delim_Cons [simp]: "delim (c # r) \<longleftrightarrow> \<not> num_char c"
  by (simp add: delim_def)

lemma read_elems_commas:
  assumes "vs \<noteq> []" and "\<forall>v \<in> set vs. reads_back v \<and> json_ok v"
    and "2 * length (commas (map (\<lambda>v. the (json_text v)) vs)) + 1 \<le> n"
  shows "read_elems n (commas (map (\<lambda>v. the (json_text v)) vs) @ 93 # rest) = Some (vs, rest)"
  using assms
proof (induction vs arbitrary: n)
  case (Cons v vs)
  obtain t where t: "json_text v = Some t" "starts t" "reads_back v"
    using Cons.prems(2) json_ok_text by fastforce
  obtain m where n: "n = Suc m"
    using Cons.prems(3) by (cases n) auto
  have step: "read_value m (t @ c # r) = Some (v, c # r)" if "\<not> num_char c" "2 * length t \<le> m" for c r
    using t that by (simp add: reads_back_def)
  show ?case
  proof (cases vs)
    case Nil
    with Cons.prems(3) show ?thesis
      using step [of 93 rest] by (simp add: n t num_char_def is_digit16_def)
  next
    case (Cons v' vs')
    then have "commas (map (\<lambda>v. the (json_text v)) (v # vs)) = t @ 44 # commas (map (\<lambda>v. the (json_text v)) vs)"
      by (simp add: t)
    moreover have "read_elems m (commas (map (\<lambda>v. the (json_text v)) vs) @ 93 # rest) = Some (vs, rest)"
      using Cons.prems Cons calculation by (intro Cons.IH) (auto simp: n)
    ultimately show ?thesis
      using step [of 44] Cons.prems(3) by (simp add: n num_char_def is_digit16_def)
  qed
qed simp

definition member_text :: "jsstring \<times> jsval \<Rightarrow> jsstring" where
  "member_text p = quote_string (fst p) @ 58 # the (json_text (snd p))"

lemma read_members_commas:
  assumes "ps \<noteq> []" and "\<forall>p \<in> set ps. reads_back (snd p) \<and> json_ok (snd p)"
    and "2 * length (commas (map member_text ps)) + 1 \<le> n"
  shows "read_members n acc (commas (map member_text ps) @ 125 # rest)
    = Some (Obj (foldl (\<lambda>acc (k, v). put_prop k v acc) acc ps), rest)"
  using assms
proof (induction ps arbitrary: n acc)
  case (Cons p ps)
  obtain k v where p: "p = (k, v)"
    by fastforce
  then obtain t where t: "json_text v = Some t" "starts t" "reads_back v"
    using Cons.prems(2) json_ok_text by fastforce
  obtain m where n: "n = Suc m"
    using Cons.prems(3) by (cases n) auto
  have key: "read_chars (quote_chars k @ 34 # r) = Some (k, r)" for r
    by (rule read_chars_quoted)
  have step: "read_value m (t @ c # r) = Some (v, c # r)" if "\<not> num_char c" "2 * length t \<le> m" for c r
    using t that by (simp add: reads_back_def)
  have shape: "member_text p = 34 # quote_chars k @ 34 # 58 # t"
    by (simp add: member_text_def p t quote_string_def)
  show ?case
  proof (cases ps)
    case Nil
    with Cons.prems(3) show ?thesis
      using step [of 125 rest] by (simp add: n p shape [unfolded p] key num_char_def is_digit16_def)
  next
    case (Cons p' ps')
    then have more: "commas (map member_text (p # ps)) = member_text p @ 44 # commas (map member_text ps)"
      by simp
    moreover have "read_members m (put_prop k v acc) (commas (map member_text ps) @ 125 # rest)
        = Some (Obj (foldl (\<lambda>acc (k, v). put_prop k v acc) (put_prop k v acc) ps), rest)"
      using Cons.prems Cons more by (intro Cons.IH) (auto simp: n)
    ultimately show ?thesis
      using step [of 44] Cons.prems(3)
      by (simp add: n p shape [unfolded p] key num_char_def is_digit16_def)
  qed
qed simp

lemma json_members_text:
  "\<forall>p \<in> set ps. json_ok (snd p) \<Longrightarrow>
   concat (map (\<lambda>(k, v). case json_text v of None \<Rightarrow> [] | Some t \<Rightarrow> [quote_string k @ 58 # t]) ps)
     = map member_text ps"
proof (induction ps)
  case (Cons p ps)
  then show ?case
    using json_ok_text [of "snd p"] by (cases p) (auto simp: member_text_def)
qed simp

lemma json_elems_text:
  "\<forall>v \<in> set xs. json_ok v \<Longrightarrow>
   map (\<lambda>v. case json_text v of None \<Rightarrow> js ''null'' | Some t \<Rightarrow> t) xs = map (\<lambda>v. the (json_text v)) xs"
  by (rule map_cong [OF refl]) (use json_ok_text in fastforce)

lemma read_value_atoms:
  "0 < n \<Longrightarrow> read_value n (js ''null'' @ rest) = Some (Null, rest)"
  "0 < n \<Longrightarrow> read_value n (js ''true'' @ rest) = Some (Bool True, rest)"
  "0 < n \<Longrightarrow> read_value n (js ''false'' @ rest) = Some (Bool False, rest)"
  "0 < n \<Longrightarrow> read_value n (quote_string s @ rest) = Some (Str s, rest)"
  by (cases n; simp add: js_def read_word_def quote_string_def read_chars_quoted)+

lemma quote_string_fuel: "2 * length (quote_string s) \<le> n \<Longrightarrow> 0 < n"
  by (simp add: quote_string_def)

lemma commas_starts: "ts \<noteq> [] \<Longrightarrow> starts (hd ts) \<Longrightarrow> starts (commas ts)"
  by (cases ts rule: commas.cases) (auto simp: starts_def)

lemma commas_take: "ts \<noteq> [] \<Longrightarrow> starts (hd ts) \<Longrightarrow> skip_ws (commas ts @ r) = commas ts @ r \<and> \<not> next_is 93 (commas ts @ r)"
  using commas_starts starts_append by blast

lemma reads_back: "json_ok v \<Longrightarrow> reads_back v"
proof (induction v rule: json_ok.induct)
  case (2 i)
  have "read_value n (int_text i @ rest) = Some (Num i, rest)" if "delim rest" "2 * length (int_text i) \<le> n" for n rest
    using that 2 int_text_literal [of i] literal_starts_number [of "int_text i"] read_value_number read_number_int
    by (cases n) auto
  then show ?case
    by (simp add: reads_back_def)
next
  case (3 t)
  have whole: "read_number t = Some (Dbl t, [])"
    using 3 by simp
  then have "read_value n (t @ rest) = Some (Dbl t, rest)" if "delim rest" "2 * length t \<le> n" for n rest
    using that read_number_whole [OF whole] literal_starts_number [of t] read_value_number read_number_text [OF whole]
    by (cases n) (auto simp: starts_number_def)
  then show ?case
    by (simp add: reads_back_def)
next
  case (5 xs)
  let ?ts = "map (\<lambda>v. the (json_text v)) xs"
  have parts: "\<forall>v \<in> set xs. reads_back v \<and> json_ok v"
    using 5 by simp
  have "read_value n (91 # commas ?ts @ 93 # rest) = Some (Arr xs, rest)"
    if le: "2 * (length (commas ?ts) + 2) \<le> n" for n rest
  proof (cases xs)
    case Nil
    then show ?thesis
      using that by (cases n) auto
  next
    case (Cons v vs)
    then have "starts (hd ?ts)"
      using parts json_ok_text [of v] by auto
    then have head: "skip_ws (commas ?ts @ 93 # rest) = commas ?ts @ 93 # rest \<and> \<not> next_is 93 (commas ?ts @ 93 # rest)"
      using Cons by (intro commas_take) auto
    obtain m where m: "n = Suc m"
      using le by (cases n) simp_all
    then have fuel: "2 * length (commas ?ts) + 1 \<le> m"
      using le by simp
    show ?thesis
      using read_elems_commas [of xs m rest, OF _ parts fuel] head Cons by (simp add: m del: list.map)
  qed
  moreover have "json_text (Arr xs) = Some (91 # commas ?ts @ [93])"
    using json_elems_text [of xs] parts unfolding json_text.simps by (simp del: map_eq_conv)
  ultimately show ?case
    by (simp add: reads_back_def del: json_text.simps)
next
  case (6 ps)
  have parts: "\<forall>p \<in> set ps. reads_back (snd p) \<and> json_ok (snd p)"
    using 6 by auto
  have "read_value n (123 # commas (map member_text ps) @ 125 # rest) = Some (Obj ps, rest)"
    if le: "2 * (length (commas (map member_text ps)) + 2) \<le> n" for n rest
  proof (cases ps)
    case Nil
    then show ?thesis
      using that by (cases n) auto
  next
    case (Cons p qs)
    then have "starts (hd (map member_text ps)) \<and> hd (commas (map member_text ps)) = 34"
      by (cases qs) (auto simp: member_text_def quote_string_def starts_def)
    then have head: "skip_ws (commas (map member_text ps) @ 125 # rest) = commas (map member_text ps) @ 125 # rest"
      "\<not> next_is 125 (commas (map member_text ps) @ 125 # rest)"
      using Cons commas_starts [of "map member_text ps"] commas_take [of "map member_text ps"]
      by (auto simp: starts_def neq_Nil_conv)
    obtain m where m: "n = Suc m"
      using le by (cases n) simp_all
    then have fuel: "2 * length (commas (map member_text ps)) + 1 \<le> m"
      using le by simp
    show ?thesis
      using read_members_commas [of ps m "[]" rest, OF _ parts fuel] head Cons 6
      by (simp add: m props_ok_def del: list.map)
  qed
  moreover have "json_text (Obj ps) = Some (123 # commas (map member_text ps) @ [125])"
    using json_members_text [of ps] parts unfolding json_text.simps by simp
  ultimately show ?case
    by (simp add: reads_back_def del: json_text.simps)
qed (auto simp: reads_back_def intro!: read_value_atoms dest: quote_string_fuel)

section \<open>The round trip\<close>

lemma json_text_some: "json_ok v \<Longrightarrow> \<exists>t. JSON_stringify v = Str t \<and> json_text v = Some t"
  using json_ok_text [of v] by (auto simp: JSON_stringify_def)

lemma JSON_parse_text:
  assumes "json_ok v" and "json_text v = Some t"
  shows "JSON_parse message t = Inr v"
proof -
  have "read_value (2 * length t + 2) (t @ []) = Some (v, [])"
    using reads_back [OF assms(1)] assms(2) unfolding reads_back_def
    by (metis delim_def le_add1)
  then show ?thesis
    by (simp add: JSON_parse_def)
qed

text \<open>No text has a line break in it, so one text is one line.\<close>

lemma quote_chars_no_newline: "10 \<notin> set (quote_chars s)"
proof -
  have "hex_digit (n mod 16) \<noteq> 10" for n
    using hex_value_digit [of "n mod 16"] by (auto simp: hex_value_def)
  moreover have "unat c div 4096 = unat c div 4096 mod 16" for c :: "16 word"
    using u16_top_digit [of c] by simp
  ultimately have "10 \<notin> set (u_escape c)" for c
    by (auto simp: u_escape_def) metis
  then have "10 \<notin> set (escape_unit c)" "10 \<notin> set (u_escape c)" for c
    by (auto simp: escape_unit_def)
  moreover have "is_high c \<or> is_low c \<Longrightarrow> c \<noteq> 10" for c
    by (auto simp: is_high_def is_low_def)
  ultimately show ?thesis
    by (induction s rule: quote_chars.induct) auto
qed

lemma commas_no_newline: "\<forall>t \<in> set ts. 10 \<notin> set t \<Longrightarrow> 10 \<notin> set (commas ts)"
  by (induction ts rule: commas.induct) auto

lemma json_text_no_newline: "json_ok v \<Longrightarrow> json_text v = Some t \<Longrightarrow> 10 \<notin> set t"
proof (induction v arbitrary: t rule: json_ok.induct)
  case (2 i)
  then show ?case
    using int_text_literal [of i] by (auto simp: list_all_iff num_char_def is_digit16_def)
next
  case (3 t)
  then show ?case
    using read_number_whole [of t "Dbl t"] by (auto simp: list_all_iff num_char_def is_digit16_def)
next
  case (5 xs)
  then have "10 \<notin> set (the (json_text v))" if "v \<in> set xs" for v
    using that json_ok_text [of v] by fastforce
  then show ?case
    using 5 json_elems_text [of xs] commas_no_newline [of "map (\<lambda>v. the (json_text v)) xs"]
    by (auto simp del: map_eq_conv)
next
  case (6 ps)
  then have "\<forall>p \<in> set ps. json_ok (snd p)"
    by simp
  moreover have "10 \<notin> set (member_text p)" if "p \<in> set ps" for p
    using 6(1) [of p] that \<open>\<forall>p \<in> set ps. json_ok (snd p)\<close> json_ok_text [of "snd p"]
    by (auto simp: member_text_def quote_string_def quote_chars_no_newline)
  ultimately show ?case
    using json_members_text [of ps] commas_no_newline [of "map member_text ps"] 6(3) by auto
qed (auto simp: js_def quote_string_def quote_chars_no_newline)

end
