(* ===== verification/Spawn.thy ===== *)
theory Spawn
  imports Json
begin

text \<open>
  src/lib/spawn.js and src/lib/bareclaw.js: the command line the Go agent is started with,
  the check that its binary is executable, and the flag parser of src/go/cmd/main.go the
  command line is read by.  Spawning itself is an operation of bare-subprocess.
\<close>

section \<open>The command line\<close>

text \<open>\<open>typeof v === 'object'\<close>: \<open>null\<close> is one, but the code tests truthiness first.\<close>

fun typeof_object :: "jsval \<Rightarrow> bool" where
  "typeof_object Null = True"
| "typeof_object (Buf b) = True"
| "typeof_object (Arr xs) = True"
| "typeof_object (Obj ps) = True"
| "typeof_object v = False"

definition push_flag :: "string \<Rightarrow> jsval \<Rightarrow> jsval list" where
  "push_flag flag v = (if truthy v then [Str (js flag), v] else [])"

definition spawn_args :: "jsval \<Rightarrow> jsval list" where
  "spawn_args opts =
     (let config = field opts (js ''config'')
      in (if truthy config \<and> typeof_object config then [Str (js ''--config-json''), JSON_stringify config]
          else if truthy config then [Str (js ''--config''), config]
          else [])
         @ push_flag ''--provider'' (field opts (js ''provider''))
         @ push_flag ''--api-key'' (field opts (js ''apiKey''))
         @ push_flag ''--model'' (field opts (js ''model''))
         @ push_flag ''--api-base'' (field opts (js ''apiBase''))
         @ (if truthy (field opts (js ''builtinTools'')) then [Str (js ''--builtin-tools'')] else []))"

text \<open>
  \<open>spawn\<close> over the process operations: reading a property of \<open>opts\<close> throws when \<open>opts\<close> is
  \<open>null\<close>; \<open>start\<close> stands for spawning with file descriptor 3 as a pipe and opening the RPC
  object on that pipe.
\<close>

definition spawnRPC :: "(jsval list \<Rightarrow> 'w \<Rightarrow> unit result \<times> 'w) \<Rightarrow> jsval \<Rightarrow> 'w \<Rightarrow> unit result \<times> 'w" where
  "spawnRPC start opts w =
     (let opts = (if opts = Undef then Obj [] else opts)
      in case getp opts (js ''config'') of
           Inl e \<Rightarrow> (Inl e, w)
         | Inr _ \<Rightarrow> start (spawn_args opts) w)"

text \<open>
  src/lib/bareclaw.js: the mode of the binary's file; not accessible for execution means
  changing it to rwxr-xr-x, which may fail and then fails the import.
\<close>

definition ensure_executable ::
    "('w \<Rightarrow> bool) \<Rightarrow> (nat \<Rightarrow> 'w \<Rightarrow> unit result \<times> 'w) \<Rightarrow> 'w \<Rightarrow> unit result \<times> 'w" where
  "ensure_executable accessX chmod w = (if accessX w then (Inr (), w) else chmod 493 w)"

section \<open>The flags the agent reads\<close>

text \<open>
  The flags of src/go/cmd/main.go and the package \<open>flag\<close> of Go's standard library: an
  argument \<open>-name\<close> or \<open>--name\<close>, with \<open>=value\<close> attached, or (for a flag that is not
  boolean) the next argument as its value; the first argument that is no flag ends them.
\<close>

record flags =
  fl_config :: jsstring
  fl_config_json :: jsstring
  fl_provider :: jsstring
  fl_model :: jsstring
  fl_api_key :: jsstring
  fl_api_base :: jsstring
  fl_builtin :: bool

definition no_flags :: flags where
  "no_flags = \<lparr>fl_config = [], fl_config_json = [], fl_provider = [], fl_model = [], fl_api_key = [],
     fl_api_base = [], fl_builtin = False\<rparr>"

definition set_flag :: "jsstring \<Rightarrow> jsstring \<Rightarrow> flags \<Rightarrow> flags option" where
  "set_flag name v f =
     (if name = js ''config'' then Some (f\<lparr>fl_config := v\<rparr>)
      else if name = js ''config-json'' then Some (f\<lparr>fl_config_json := v\<rparr>)
      else if name = js ''provider'' then Some (f\<lparr>fl_provider := v\<rparr>)
      else if name = js ''model'' then Some (f\<lparr>fl_model := v\<rparr>)
      else if name = js ''api-key'' then Some (f\<lparr>fl_api_key := v\<rparr>)
      else if name = js ''api-base'' then Some (f\<lparr>fl_api_base := v\<rparr>)
      else None)"

text \<open>\<open>strconv.ParseBool\<close>.\<close>

definition parse_bool :: "jsstring \<Rightarrow> bool option" where
  "parse_bool v =
     (if v \<in> js ` {''1'', ''t'', ''T'', ''true'', ''TRUE'', ''True''} then Some True
      else if v \<in> js ` {''0'', ''f'', ''F'', ''false'', ''FALSE'', ''False''} then Some False
      else None)"

text \<open>The name of a flag argument and the value attached to it by \<open>=\<close>, if any.\<close>

datatype flag_arg = EndOfFlags | BadFlag | FlagArg jsstring "jsstring option"

definition split_flag :: "jsstring \<Rightarrow> flag_arg" where
  "split_flag s =
     (if length s < 2 \<or> hd s \<noteq> 45 \<or> s = [45, 45] then EndOfFlags
      else let name = (if s ! 1 = 45 then drop 2 s else drop 1 s)
           in if name = [] \<or> hd name \<in> {45, 61} then BadFlag
              else FlagArg (takeWhile (\<lambda>c. c \<noteq> 61) name)
                (if 61 \<in> set name then Some (tl (dropWhile (\<lambda>c. c \<noteq> 61) name)) else None))"

text \<open>\<open>flag.Parse\<close>: \<open>None\<close> is a usage error, on which the process exits.\<close>

fun parse_flags :: "jsstring list \<Rightarrow> flags \<Rightarrow> flags option" where
  "parse_flags [] f = Some f"
| "parse_flags (s # args) f =
     (case split_flag s of
        EndOfFlags \<Rightarrow> Some f
      | BadFlag \<Rightarrow> None
      | FlagArg name attached \<Rightarrow>
          if name = js ''builtin-tools'' then
            (case attached of
               None \<Rightarrow> parse_flags args (f\<lparr>fl_builtin := True\<rparr>)
             | Some v \<Rightarrow> (case parse_bool v of None \<Rightarrow> None | Some b \<Rightarrow> parse_flags args (f\<lparr>fl_builtin := b\<rparr>)))
          else
            (case attached of
               Some v \<Rightarrow> (case set_flag name v f of None \<Rightarrow> None | Some f \<Rightarrow> parse_flags args f)
             | None \<Rightarrow>
                 (case args of
                    [] \<Rightarrow> None
                  | v # rest \<Rightarrow> (case set_flag name v f of None \<Rightarrow> None | Some f \<Rightarrow> parse_flags rest f))))"

section \<open>What the agent is told\<close>

text \<open>An option that is a string, or falsy (and then not passed).\<close>

fun opt_text :: "jsval \<Rightarrow> jsstring" where
  "opt_text (Str s) = s"
| "opt_text _ = []"

definition string_opt :: "jsval \<Rightarrow> bool" where
  "string_opt v \<longleftrightarrow> truthy v \<longrightarrow> (\<exists>s. v = Str s)"

lemma string_opt_cases: "string_opt v \<Longrightarrow> (truthy v \<and> v = Str (opt_text v)) \<or> (\<not> truthy v \<and> opt_text v = [])"
  by (cases v) (auto simp: string_opt_def)

definition config_opt :: "jsval \<Rightarrow> bool" where
  "config_opt v \<longleftrightarrow> string_opt v \<or> json_ok v \<and> typeof_object v"

definition arg_texts :: "jsval list \<Rightarrow> jsstring list" where
  "arg_texts = map opt_text"

lemma split_flag_known [simp]:
  "split_flag (js ''--config'') = FlagArg (js ''config'') None"
  "split_flag (js ''--config-json'') = FlagArg (js ''config-json'') None"
  "split_flag (js ''--provider'') = FlagArg (js ''provider'') None"
  "split_flag (js ''--api-key'') = FlagArg (js ''api-key'') None"
  "split_flag (js ''--model'') = FlagArg (js ''model'') None"
  "split_flag (js ''--api-base'') = FlagArg (js ''api-base'') None"
  "split_flag (js ''--builtin-tools'') = FlagArg (js ''builtin-tools'') None"
  by (simp_all add: split_flag_def js_def)

lemma parse_push:
  "string_opt v \<Longrightarrow> parse_flags (arg_texts (push_flag ''--provider'' v) @ rest) f
     = parse_flags rest (if truthy v then f\<lparr>fl_provider := opt_text v\<rparr> else f)"
  "string_opt v \<Longrightarrow> parse_flags (arg_texts (push_flag ''--api-key'' v) @ rest) f
     = parse_flags rest (if truthy v then f\<lparr>fl_api_key := opt_text v\<rparr> else f)"
  "string_opt v \<Longrightarrow> parse_flags (arg_texts (push_flag ''--model'' v) @ rest) f
     = parse_flags rest (if truthy v then f\<lparr>fl_model := opt_text v\<rparr> else f)"
  "string_opt v \<Longrightarrow> parse_flags (arg_texts (push_flag ''--api-base'' v) @ rest) f
     = parse_flags rest (if truthy v then f\<lparr>fl_api_base := opt_text v\<rparr> else f)"
  by (simp_all add: push_flag_def arg_texts_def set_flag_def)

text \<open>The same where the flag has not been set.\<close>

lemma parse_text:
  "string_opt v \<Longrightarrow> fl_provider f = [] \<Longrightarrow> parse_flags (arg_texts (push_flag ''--provider'' v) @ rest) f
     = parse_flags rest (f\<lparr>fl_provider := opt_text v\<rparr>)"
  "string_opt v \<Longrightarrow> fl_api_key f = [] \<Longrightarrow> parse_flags (arg_texts (push_flag ''--api-key'' v) @ rest) f
     = parse_flags rest (f\<lparr>fl_api_key := opt_text v\<rparr>)"
  "string_opt v \<Longrightarrow> fl_model f = [] \<Longrightarrow> parse_flags (arg_texts (push_flag ''--model'' v) @ rest) f
     = parse_flags rest (f\<lparr>fl_model := opt_text v\<rparr>)"
  "string_opt v \<Longrightarrow> fl_api_base f = [] \<Longrightarrow> parse_flags (arg_texts (push_flag ''--api-base'' v) @ rest) f
     = parse_flags rest (f\<lparr>fl_api_base := opt_text v\<rparr>)"
  using string_opt_cases [of v] by (cases f; auto simp: parse_push)+

definition config_part :: "jsval \<Rightarrow> jsval list" where
  "config_part config =
     (if truthy config \<and> typeof_object config then [Str (js ''--config-json''), JSON_stringify config]
      else if truthy config then [Str (js ''--config''), config]
      else [])"

lemma parse_config:
  "config_opt v \<Longrightarrow> parse_flags (arg_texts (config_part v) @ rest) f
     = parse_flags rest (if truthy v \<and> typeof_object v then f\<lparr>fl_config_json := opt_text (JSON_stringify v)\<rparr>
         else if truthy v then f\<lparr>fl_config := opt_text v\<rparr> else f)"
  by (auto simp: config_part_def arg_texts_def set_flag_def)

lemma arg_texts_append: "arg_texts (a @ b) = arg_texts a @ arg_texts b"
  by (simp add: arg_texts_def)

lemma flags_read:
  assumes "config_opt (field opts (js ''config''))"
    and "string_opt (field opts (js ''provider''))" and "string_opt (field opts (js ''apiKey''))"
    and "string_opt (field opts (js ''model''))" and "string_opt (field opts (js ''apiBase''))"
  shows "\<exists>f. parse_flags (arg_texts (spawn_args opts)) no_flags = Some f
    \<and> fl_provider f = opt_text (field opts (js ''provider''))
    \<and> fl_api_key f = opt_text (field opts (js ''apiKey''))
    \<and> fl_model f = opt_text (field opts (js ''model''))
    \<and> fl_api_base f = opt_text (field opts (js ''apiBase''))
    \<and> fl_builtin f = truthy (field opts (js ''builtinTools''))
    \<and> (if typeof_object (field opts (js ''config'')) \<and> truthy (field opts (js ''config''))
       then fl_config f = [] \<and> fl_config_json f = the (json_text (field opts (js ''config''))) \<and> fl_config_json f \<noteq> []
       else fl_config f = opt_text (field opts (js ''config'')) \<and> fl_config_json f = [])"
proof -
  let ?config = "field opts (js ''config'')" and ?b = "field opts (js ''builtinTools'')"
  have last: "parse_flags (arg_texts (if truthy ?b then [Str (js ''--builtin-tools'')] else [])) f
      = Some (if truthy ?b then f\<lparr>fl_builtin := True\<rparr> else f)" for f
    by (simp add: arg_texts_def)
  have inline: "opt_text (JSON_stringify ?config) = the (json_text ?config)" "the (json_text ?config) \<noteq> []"
    if "typeof_object ?config" "truthy ?config"
  proof -
    have "json_ok ?config"
      using assms(1) that by (cases ?config) (auto simp: config_opt_def string_opt_def)
    then obtain t where "json_text ?config = Some t" "starts t"
      using json_ok_text by blast
    then show "opt_text (JSON_stringify ?config) = the (json_text ?config)" "the (json_text ?config) \<noteq> []"
      by (simp_all add: JSON_stringify_def starts_def)
  qed
  have args: "spawn_args opts = config_part ?config
      @ push_flag ''--provider'' (field opts (js ''provider'')) @ push_flag ''--api-key'' (field opts (js ''apiKey''))
      @ push_flag ''--model'' (field opts (js ''model'')) @ push_flag ''--api-base'' (field opts (js ''apiBase''))
      @ (if truthy ?b then [Str (js ''--builtin-tools'')] else [])"
    by (simp only: spawn_args_def Let_def config_part_def)
  have absent: "opt_text ?config = []" if "\<not> truthy ?config"
    using that by (cases ?config) auto
  define f where "f = \<lparr>fl_config = (if truthy ?config \<and> \<not> typeof_object ?config then opt_text ?config else []),
    fl_config_json = (if typeof_object ?config \<and> truthy ?config then the (json_text ?config) else []),
    fl_provider = opt_text (field opts (js ''provider'')), fl_model = opt_text (field opts (js ''model'')),
    fl_api_key = opt_text (field opts (js ''apiKey'')), fl_api_base = opt_text (field opts (js ''apiBase'')),
    fl_builtin = truthy ?b\<rparr>"
  have "parse_flags (arg_texts (spawn_args opts)) no_flags = Some f"
    unfolding args arg_texts_append parse_config [OF assms(1)] using inline(1)
    by (simp add: no_flags_def parse_text [OF assms(2)] parse_text [OF assms(3)] parse_text [OF assms(4)]
      parse_text [OF assms(5)] last f_def)
  moreover have "\<not> (truthy ?config \<and> \<not> typeof_object ?config) \<Longrightarrow> \<not> (typeof_object ?config \<and> truthy ?config) \<Longrightarrow> opt_text ?config = []"
    using absent by blast
  ultimately show ?thesis
    using inline(2) by (intro exI [of _ f]) (simp add: f_def)
qed


text \<open>
  The agent is told what the options say: for options that are strings (or falsy) and a
  configuration that is a path or an object with a JSON text, Go's flag parser reads the command
  line without error, whatever characters the values contain (a leading dash, an equals sign),
  and the flags it ends with are the options; an inline configuration parses back to the object
  given.
\<close>

theorem agent_flags_are_the_options:
  assumes "config_opt (field opts (js ''config''))"
    and "string_opt (field opts (js ''provider''))" and "string_opt (field opts (js ''apiKey''))"
    and "string_opt (field opts (js ''model''))" and "string_opt (field opts (js ''apiBase''))"
  shows "\<exists>f. parse_flags (arg_texts (spawn_args opts)) no_flags = Some f
    \<and> fl_provider f = opt_text (field opts (js ''provider''))
    \<and> fl_api_key f = opt_text (field opts (js ''apiKey''))
    \<and> fl_model f = opt_text (field opts (js ''model''))
    \<and> fl_api_base f = opt_text (field opts (js ''apiBase''))
    \<and> fl_builtin f = truthy (field opts (js ''builtinTools''))
    \<and> (if typeof_object (field opts (js ''config'')) \<and> truthy (field opts (js ''config''))
       then fl_config f = [] \<and> JSON_parse message (fl_config_json f) = Inr (field opts (js ''config''))
       else fl_config f = opt_text (field opts (js ''config'')) \<and> fl_config_json f = [])"
proof -
  have "JSON_parse message (the (json_text (field opts (js ''config'')))) = Inr (field opts (js ''config''))"
    if "typeof_object (field opts (js ''config''))" "truthy (field opts (js ''config''))"
  proof -
    have "json_ok (field opts (js ''config''))"
      using assms(1) that by (cases "field opts (js ''config'')") (auto simp: config_opt_def string_opt_def)
    then show ?thesis
      using json_ok_text JSON_parse_text by fastforce
  qed
  then show ?thesis
    using flags_read [OF assms] by (auto split: if_splits)
qed

theorem agent_flags_are_the_options_witness:
  "\<exists>f. parse_flags (arg_texts (spawn_args (Obj [(js ''config'', Obj [(js ''a'', Num 1)]), (js ''model'', Str (js ''--x=y''))]))) no_flags = Some f
    \<and> fl_model f = js ''--x=y'' \<and> fl_provider f = [] \<and> \<not> fl_builtin f
    \<and> JSON_parse id (fl_config_json f) = Inr (Obj [(js ''a'', Num 1)])"
proof -
  let ?o = "Obj [(js ''config'', Obj [(js ''a'', Num 1)]), (js ''model'', Str (js ''--x=y''))]"
  have "config_opt (field ?o (js ''config''))"
    by (simp add: config_opt_def props_ok_def safe_int_def)
  from agent_flags_are_the_options [OF this, of id] show ?thesis
    by (auto simp: string_opt_def)
qed

end
