(* ===== verification/Bee.thy ===== *)
theory Bee
  imports Prelude
begin

text \<open>
  The operations of a Hyperbee the code uses, and what it relies on: a store ordered by the
  bytes of its keys, in which a flushed batch replaces or adds its entries and a range read
  returns the entries between its bounds in order.  The interface is the locale
  \<open>bee_store\<close>; the instance keeps the entries as an ordered list.
\<close>

section \<open>The order of keys\<close>

fun bytes_less :: "bytes \<Rightarrow> bytes \<Rightarrow> bool" where
  "bytes_less [] [] = False"
| "bytes_less [] (b # bs) = True"
| "bytes_less (a # as) [] = False"
| "bytes_less (a # as) (b # bs) = (a < b \<or> a = b \<and> bytes_less as bs)"

lemma bytes_less_irrefl [simp]: "\<not> bytes_less k k"
  by (induction k) auto

lemma bytes_less_trans: "bytes_less a b \<Longrightarrow> bytes_less b c \<Longrightarrow> bytes_less a c"
proof (induction a b arbitrary: c rule: bytes_less.induct)
  case (4 a as b bs)
  then show ?case
    by (cases c) auto
qed (metis bytes_less.simps neq_Nil_conv)+

lemma bytes_less_linear: "a \<noteq> b \<Longrightarrow> bytes_less a b \<or> bytes_less b a"
  by (induction a b rule: bytes_less.induct) auto

lemma bytes_less_asym: "bytes_less a b \<Longrightarrow> \<not> bytes_less b a"
  using bytes_less_trans bytes_less_irrefl by blast

lemma bytes_less_prefix [simp]: "bytes_less (p @ a) (p @ b) = bytes_less a b"
  by (induction p) auto

lemma bytes_less_append: "\<not> bytes_less (p @ a) p"
  by (induction p) (auto, cases a, auto)

text \<open>Between \<open>p\<close> and \<open>p\<close> followed by \<open>q\<close> lie keys that start with \<open>p\<close> only.\<close>

lemma between_prefix:
  "\<not> bytes_less k p \<Longrightarrow> bytes_less k (p @ q) \<Longrightarrow> \<exists>r. k = p @ r \<and> bytes_less r q"
proof (induction p arbitrary: k)
  case (Cons a p)
  then show ?case
    by (cases k) (auto simp: not_less_iff_gr_or_eq)
qed auto

section \<open>The interface\<close>

text \<open>Values are buffers, or \<open>null\<close> where the code stores one.\<close>

type_synonym entries = "(bytes \<times> jsval) list"

record 'b bee_lib =
  bee_get :: "bytes \<Rightarrow> 'b \<Rightarrow> (jsval option) result \<times> 'b"
  bee_flush :: "entries \<Rightarrow> 'b \<Rightarrow> unit result \<times> 'b"
  bee_range :: "bytes \<Rightarrow> bytes \<Rightarrow> 'b \<Rightarrow> entries result \<times> 'b"

definition ordered :: "entries \<Rightarrow> bool" where
  "ordered es \<longleftrightarrow> sorted_wrt bytes_less (map fst es)"

locale bee_store =
  fixes bee :: "'b bee_lib" and contents :: "'b \<Rightarrow> entries" and usable :: "'b \<Rightarrow> bool"
  assumes ordered: "usable b \<Longrightarrow> ordered (contents b)"
    and get: "usable b \<Longrightarrow> \<exists>b'. bee_get bee k b = (Inr (map_of (contents b) k), b')
        \<and> usable b' \<and> contents b' = contents b"
    and flush: "usable b \<Longrightarrow> \<exists>b'. bee_flush bee kvs b = (Inr (), b') \<and> usable b'
        \<and> map_of (contents b') = map_of (contents b) ++ map_of (rev kvs)"
    and range: "usable b \<Longrightarrow> \<exists>b'. bee_range bee gte lt b
        = (Inr (filter (\<lambda>(k, v). \<not> bytes_less k gte \<and> bytes_less k lt) (contents b)), b')
        \<and> usable b' \<and> contents b' = contents b"

lemma ordered_distinct: "ordered es \<Longrightarrow> distinct (map fst es)"
  unfolding ordered_def by (induction es) auto

lemma ordered_map_of: "ordered es \<Longrightarrow> (k, v) \<in> set es \<longleftrightarrow> map_of es k = Some v"
  using ordered_distinct by force

section \<open>An ordered list as a store\<close>

fun upsert :: "bytes \<Rightarrow> jsval \<Rightarrow> entries \<Rightarrow> entries" where
  "upsert k v [] = [(k, v)]"
| "upsert k v ((k', v') # es) =
     (if k = k' then (k, v) # es
      else if bytes_less k k' then (k, v) # (k', v') # es
      else (k', v') # upsert k v es)"

lemma map_of_upsert: "map_of (upsert k v es) = (map_of es)(k \<mapsto> v)"
  by (induction es) (auto simp: fun_eq_iff)

lemma keys_upsert: "fst ` set (upsert k v es) = insert k (fst ` set es)"
  unfolding dom_map_of_conv_image_fst [symmetric] map_of_upsert by simp

lemma ordered_upsert: "ordered es \<Longrightarrow> ordered (upsert k v es)"
proof (induction es)
  case (Cons e es)
  obtain k' v' where e: "e = (k', v')"
    by fastforce
  have later: "\<forall>x \<in> fst ` set es. bytes_less k' x" and rest: "ordered es"
    using Cons.prems by (auto simp: ordered_def e)
  show ?case
    using Cons.IH [OF rest] Cons.prems later bytes_less_trans bytes_less_linear [of k k']
      keys_upsert [of k v es]
    by (auto simp: ordered_def e)
qed (simp add: ordered_def)

definition list_bee :: "entries bee_lib" where
  "list_bee = \<lparr>bee_get = (\<lambda>k es. (Inr (map_of es k), es)),
     bee_flush = (\<lambda>kvs es. (Inr (), fold (\<lambda>(k, v). upsert k v) kvs es)),
     bee_range = (\<lambda>gte lt es. (Inr (filter (\<lambda>(k, v). \<not> bytes_less k gte \<and> bytes_less k lt) es), es))\<rparr>"

lemma fold_upsert:
  "ordered es \<Longrightarrow> ordered (fold (\<lambda>(k, v). upsert k v) kvs es)
    \<and> map_of (fold (\<lambda>(k, v). upsert k v) kvs es) = map_of es ++ map_of (rev kvs)"
proof (induction kvs arbitrary: es)
  case (Cons p kvs)
  then show ?case
    using ordered_upsert [OF Cons.prems, of "fst p" "snd p"]
    by (cases p) (auto simp: map_of_upsert map_add_assoc [symmetric] map_add_upd_left fun_eq_iff map_add_def
      split: option.splits)
qed simp

interpretation list_bee: bee_store list_bee "\<lambda>es. es" ordered
  using fold_upsert by unfold_locales (auto simp: list_bee_def)

end
