(* ===== verification/Bareclaw.thy ===== *)
theory Bareclaw
  imports Hrpc_Spec Spawn Text_Encoding Bee
begin

text \<open>
  The class Bareclaw of src/index.js: its state, one definition per method, the chat
  generator as the state machine its callers drive (\<open>next\<close>, \<open>return\<close>), and the shutdown
  of the agent process.  What the class calls outside the repository is in the record
  \<open>env\<close>: the RPC transport and its streams, the store, b4a, the process.  An operation takes
  the instance and the outside world and returns its result (or what it throws) and both
  afterwards; \<open>await\<close> is sequencing.
\<close>

section \<open>State\<close>

type_synonym 'a tool = "jsval \<Rightarrow> 'a \<Rightarrow> jsval result \<times> 'a"

text \<open>
  \<open>_tools\<close> may hold \<open>undefined\<close> under a name.  \<open>_rpc\<close>, \<open>_proc\<close> and \<open>_pipe\<close> are set and cleared
  together; \<open>cl_bee\<close> is whether \<open>_bee\<close> is still there.
\<close>

record ('w, 'b, 'a) claw =
  cl_opts :: jsval
  cl_opened :: bool
  cl_rpc :: bool
  cl_bee :: bool
  cl_handlers :: "jsstring list"
  cl_tools :: "jsval \<Rightarrow> 'a tool option"
  cl_world :: 'w
  cl_store :: 'b

datatype proc_event = ProcExit | TimerFires

record ('w, 'b, 'a) env =
  e_c :: cenc
  e_rpc :: "'w rpc_lib"
  e_next :: "nat \<Rightarrow> 'w \<Rightarrow> (jsval option) result \<times> 'w"
  e_end :: "nat \<Rightarrow> 'w \<Rightarrow> 'w"
  e_start :: "jsval list \<Rightarrow> 'w \<Rightarrow> unit result \<times> 'w"
  e_pipe_end :: "'w \<Rightarrow> proc_event list \<times> 'w"
  e_bee :: "'b bee_lib"
  e_bee_ready :: "'b \<Rightarrow> unit result \<times> 'b"
  e_bee_close :: "'b \<Rightarrow> unit result \<times> 'b"
  e_b4a :: b4a
  e_ready :: "('w, 'b, 'a) claw \<Rightarrow> unit result \<times> ('w, 'b, 'a) claw"
  e_syntax :: "jsstring \<Rightarrow> jsstring"
  e_type :: jsstring

text \<open>\<open>new Bareclaw(store, opts)\<close>, before \<open>ready\<close> has run.\<close>

definition claw_new :: "jsval \<Rightarrow> 'w \<Rightarrow> 'b \<Rightarrow> ('w, 'b, 'a) claw" where
  "claw_new opts w b = \<lparr>cl_opts = (if opts = Undef then Obj [] else opts), cl_opened = False, cl_rpc = False,
     cl_bee = True, cl_handlers = [], cl_tools = (\<lambda>_. None), cl_world = w, cl_store = b\<rparr>"

section \<open>Sequencing\<close>

type_synonym ('w, 'b, 'a, 'x) act = "('w, 'b, 'a) claw \<Rightarrow> 'x result \<times> ('w, 'b, 'a) claw"

definition ret :: "'x \<Rightarrow> 's \<Rightarrow> 'x result \<times> 's" where
  "ret x st = (Inr x, st)"

definition fail :: "thrown \<Rightarrow> 's \<Rightarrow> 'x result \<times> 's" where
  "fail e st = (Inl e, st)"

definition andthen :: "('s \<Rightarrow> 'x result \<times> 's) \<Rightarrow> ('x \<Rightarrow> 's \<Rightarrow> 'y result \<times> 's) \<Rightarrow> 's \<Rightarrow> 'y result \<times> 's" where
  "andthen m f st = (case m st of (Inl e, st') \<Rightarrow> (Inl e, st') | (Inr x, st') \<Rightarrow> f x st')"

primrec for_each :: "('x \<Rightarrow> 's \<Rightarrow> unit result \<times> 's) \<Rightarrow> 'x list \<Rightarrow> 's \<Rightarrow> unit result \<times> 's" where
  "for_each f [] = ret ()"
| "for_each f (x # xs) = andthen (f x) (\<lambda>_. for_each f xs)"

text \<open>A call on \<open>this._rpc\<close> or \<open>this._bee\<close>: calling a method of \<open>null\<close> throws.\<close>

definition rpc_do :: "('w \<Rightarrow> 'x result \<times> 'w) \<Rightarrow> ('w, 'b, 'a, 'x) act" where
  "rpc_do f st =
     (if cl_rpc st then (case f (cl_world st) of (r, w) \<Rightarrow> (r, st\<lparr>cl_world := w\<rparr>)) else (Inl TypeError, st))"

definition bee_do :: "('b \<Rightarrow> 'x result \<times> 'b) \<Rightarrow> ('w, 'b, 'a, 'x) act" where
  "bee_do f st =
     (if cl_bee st then (case f (cl_store st) of (r, b) \<Rightarrow> (r, st\<lparr>cl_store := b\<rparr>)) else (Inl TypeError, st))"

text \<open>\<open>if (!this.opened) await this.ready()\<close>\<close>

definition ensure_open :: "('w, 'b, 'a) env \<Rightarrow> ('w, 'b, 'a, unit) act" where
  "ensure_open E st = (if cl_opened st then ret () st else e_ready E st)"

text \<open>Destructuring one property out of a value: \<open>const { k } = v\<close>.\<close>

definition prop_of :: "jsval \<Rightarrow> string \<Rightarrow> 's \<Rightarrow> jsval result \<times> 's" where
  "prop_of v k st = (getp v (js k), st)"

section \<open>Keys of the store\<close>

text \<open>A value in a template literal.\<close>

fun to_text :: "b4a \<Rightarrow> jsval \<Rightarrow> jsstring" where
  "to_text b Undef = js ''undefined''"
| "to_text b Null = js ''null''"
| "to_text b (Bool x) = (if x then js ''true'' else js ''false'')"
| "to_text b (Num i) = int_text i"
| "to_text b (Dbl t) = t"
| "to_text b (Str s) = s"
| "to_text b (Buf x) = b4a_toString b x"
| "to_text b (Arr xs) = commas (map (\<lambda>v. if v \<in> {Undef, Null} then [] else to_text b v) xs)"
| "to_text b (Obj ps) = js ''[object Object]''"

definition sessions_prefix :: jsstring where
  "sessions_prefix = js ''picoclaw/sessions/''"

definition data_key :: "b4a \<Rightarrow> jsval \<Rightarrow> bytes" where
  "data_key b key = b4a_from b (sessions_prefix @ to_text b key @ js ''/data'')"

definition scope_key :: "b4a \<Rightarrow> jsval \<Rightarrow> bytes" where
  "scope_key b key = b4a_from b (sessions_prefix @ to_text b key @ js ''/scope'')"

text \<open>\<open>s.split('/')[0]\<close>\<close>

definition first_segment :: "jsstring \<Rightarrow> jsstring" where
  "first_segment s = takeWhile (\<lambda>c. c \<noteq> 47) s"

text \<open>Adding to a \<open>Set\<close> keeps the first occurrence's place.\<close>

definition set_add :: "'x \<Rightarrow> 'x list \<Rightarrow> 'x list" where
  "set_add x xs = (if x \<in> set xs then xs else xs @ [x])"

definition listed_keys :: "b4a \<Rightarrow> jsstring \<Rightarrow> entries \<Rightarrow> jsstring list" where
  "listed_keys b prefix es =
     fold (\<lambda>(k, v) seen.
       let rest = drop (length prefix) (b4a_toString b k);
           sessionKey = first_segment rest
       in if sessionKey \<noteq> [] then set_add sessionKey seen else seen) es []"

definition listStoreKeys :: "('w, 'b, 'a) env \<Rightarrow> jsstring \<Rightarrow> ('w, 'b, 'a, jsstring list) act" where
  "listStoreKeys E prefix =
     andthen (bee_do (bee_range (e_bee E) (b4a_from (e_b4a E) prefix) (b4a_from (e_b4a E) (prefix @ [255]))))
       (\<lambda>es. ret (listed_keys (e_b4a E) prefix es))"

section \<open>Sessions\<close>

text \<open>One batch: \<open>write\<close>, one \<open>tryPut\<close>, \<open>flush\<close>.\<close>

definition put_one :: "('w, 'b, 'a) env \<Rightarrow> bytes \<Rightarrow> jsval \<Rightarrow> ('w, 'b, 'a, unit) act" where
  "put_one E k v = bee_do (bee_flush (e_bee E) [(k, v)])"

definition exportSession :: "('w, 'b, 'a) env \<Rightarrow> jsval \<Rightarrow> ('w, 'b, 'a, jsval) act" where
  "exportSession E key =
     andthen (ensure_open E) (\<lambda>_.
     andthen (rpc_do (sessionExport (e_c E) (e_rpc E) (Obj [(js ''key'', key)]))) (\<lambda>response.
     prop_of response ''data''))"

definition persistSession :: "('w, 'b, 'a) env \<Rightarrow> jsval \<Rightarrow> ('w, 'b, 'a, unit) act" where
  "persistSession E key st =
     (if \<not> cl_rpc st \<or> \<not> cl_bee st then ret () st
      else andthen (exportSession E key) (\<lambda>blob. put_one E (data_key (e_b4a E) key) blob) st)"

definition session :: "('w, 'b, 'a) env \<Rightarrow> jsval \<Rightarrow> ('w, 'b, 'a, jsval) act" where
  "session E scope =
     (let scope = (if scope = Undef then Obj [] else scope)
      in andthen (ensure_open E) (\<lambda>_.
         andthen (rpc_do (sessionCreate (e_c E) (e_rpc E) scope)) (\<lambda>response.
         andthen (prop_of response ''key'') (\<lambda>key.
         case JSON_stringify scope of
           Str t \<Rightarrow>
             andthen (put_one E (scope_key (e_b4a E) key) (Buf (b4a_from (e_b4a E) t))) (\<lambda>_. ret key)
         | _ \<Rightarrow> fail TypeError))))"

definition sessions :: "('w, 'b, 'a) env \<Rightarrow> ('w, 'b, 'a, jsstring list) act" where
  "sessions E = andthen (ensure_open E) (\<lambda>_. listStoreKeys E sessions_prefix)"

definition importSession :: "('w, 'b, 'a) env \<Rightarrow> jsval \<Rightarrow> jsval \<Rightarrow> ('w, 'b, 'a, unit) act" where
  "importSession E key blob =
     andthen (ensure_open E) (\<lambda>_.
     andthen (rpc_do (sessionImport (e_c E) (e_rpc E) (Obj [(js ''key'', key), (js ''data'', blob)]))) (\<lambda>_.
     put_one E (data_key (e_b4a E) key) blob))"

text \<open>An entry without a value, or with an empty one, is skipped.\<close>

definition load_one :: "('w, 'b, 'a) env \<Rightarrow> jsstring \<Rightarrow> ('w, 'b, 'a, unit) act" where
  "load_one E key =
     andthen (bee_do (bee_get (e_bee E) (data_key (e_b4a E) (Str key)))) (\<lambda>entry.
     case entry of
       Some (Buf x) \<Rightarrow>
         if length x = 0 then ret ()
         else andthen (rpc_do (sessionImport (e_c E) (e_rpc E) (Obj [(js ''key'', Str key), (js ''data'', Buf x)])))
                (\<lambda>_. ret ())
     | _ \<Rightarrow> ret ())"

definition loadFromStore :: "('w, 'b, 'a) env \<Rightarrow> ('w, 'b, 'a, unit) act" where
  "loadFromStore E = andthen (listStoreKeys E sessions_prefix) (for_each (load_one E))"

section \<open>Tools\<close>

definition registerTool ::
    "('w, 'b, 'a) env \<Rightarrow> jsval \<Rightarrow> jsval \<Rightarrow> jsval \<Rightarrow> 'a tool option \<Rightarrow> ('w, 'b, 'a, unit) act" where
  "registerTool E name description schema handler =
     andthen (ensure_open E) (\<lambda>_ st.
       let st = st\<lparr>cl_tools := (cl_tools st)(name := handler)\<rparr>;
           register = (\<lambda>inputSchema.
             andthen (rpc_do (toolRegister (e_c E) (e_rpc E)
               (Obj [(js ''name'', name), (js ''description'', description), (js ''inputSchema'', inputSchema)])))
               (\<lambda>_. ret ()))
       in if truthy schema
          then (case JSON_stringify schema of
                  Str t \<Rightarrow> register (Buf (b4a_from (e_b4a E) t)) st
                | _ \<Rightarrow> fail TypeError st)
          else register Null st)"

text \<open>\<open>err.message || String(err)\<close>: a message is any value, and \<open>null\<close> has none to read.\<close>

definition err_text :: "('w, 'b, 'a) env \<Rightarrow> thrown \<Rightarrow> jsval result" where
  "err_text E err =
     (case err of
        TypeError \<Rightarrow> Inr (js_or (Str (e_type E)) (Str (js ''TypeError'')))
      | SyntaxError m \<Rightarrow> Inr (js_or (Str m) (Str (js ''SyntaxError'')))
      | ErrorObj m \<Rightarrow> Inr (js_or (Str m) (Str (js ''Error'')))
      | ThrownVal v \<Rightarrow> rbind (getp v (js ''message'')) (\<lambda>m. Inr (js_or m (Str (to_text (e_b4a E) v)))))"

text \<open>The \<open>try\<close> block: parse the input, run the handler, serialise its output.\<close>

definition run_tool ::
    "('w, 'b, 'a) env \<Rightarrow> 'a tool option \<Rightarrow> jsval \<Rightarrow> 'a \<Rightarrow> jsval result \<times> 'a" where
  "run_tool E handler call a =
     (case (case field call (js ''input'') of
              Buf x \<Rightarrow> JSON_parse (e_syntax E) (b4a_toString (e_b4a E) x)
            | _ \<Rightarrow> Inl TypeError) of
        Inl e \<Rightarrow> (Inl e, a)
      | Inr input \<Rightarrow>
          (case (case handler of None \<Rightarrow> (Inr Null, a) | Some h \<Rightarrow> h input a) of
             (Inl e, a) \<Rightarrow> (Inl e, a)
           | (Inr output, a) \<Rightarrow>
               (if output \<in> {Null, Undef} then Inr Null
                else case JSON_stringify output of
                       Str t \<Rightarrow> Inr (Buf (b4a_from (e_b4a E) t))
                     | _ \<Rightarrow> Inl TypeError, a)))"

definition tool_result :: "jsval \<Rightarrow> jsval \<Rightarrow> jsval \<Rightarrow> jsval" where
  "tool_result callId output errMsg =
     Obj [(js ''callId'', callId), (js ''output'', output), (js ''errMsg'', errMsg)]"

definition onToolExec_claw ::
    "('w, 'b, 'a) env \<Rightarrow> (jsval \<Rightarrow> 'a tool option) \<Rightarrow> jsval \<Rightarrow> 'a \<Rightarrow> jsval result \<times> 'a" where
  "onToolExec_claw E tools call a =
     (case getp call (js ''name'') of
        Inl e \<Rightarrow> (Inl e, a)
      | Inr name \<Rightarrow>
          (case run_tool E (tools name) call a of
             (Inr output, a) \<Rightarrow> (Inr (tool_result (field call (js ''callId'')) output (Str [])), a)
           | (Inl err, a) \<Rightarrow>
               (rbind (err_text E err) (\<lambda>m. Inr (tool_result (field call (js ''callId'')) Null m)), a)))"

section \<open>Opening and closing\<close>

definition claw_open :: "('w, 'b, 'a) env \<Rightarrow> ('w, 'b, 'a, unit) act" where
  "claw_open E =
     andthen (bee_do (e_bee_ready E)) (\<lambda>_.
     andthen (\<lambda>st. case spawnRPC (e_start E) (cl_opts st) (cl_world st) of
         (Inl e, w) \<Rightarrow> (Inl e, st\<lparr>cl_world := w\<rparr>)
       | (Inr _, w) \<Rightarrow>
           ret () (st\<lparr>cl_world := w, cl_rpc := True,
             cl_handlers := [js ''@bareclaw/tool-exec'', js ''@bareclaw/state-changed'']\<rparr>)) (\<lambda>_.
     loadFromStore E))"

text \<open>
  \<open>_shutdownProc\<close>: the kill timer is armed and the exit of the process awaited before the
  pipe is ended; the promise resolves at the first exit, which also clears the timer.
\<close>

record shutdown =
  sd_armed :: bool
  sd_waiting :: bool
  sd_resolved :: bool
  sd_kills :: nat

definition shutdown_start :: shutdown where
  "shutdown_start = \<lparr>sd_armed = True, sd_waiting = True, sd_resolved = False, sd_kills = 0\<rparr>"

fun shutdown_step :: "shutdown \<Rightarrow> proc_event \<Rightarrow> shutdown" where
  "shutdown_step s ProcExit =
     (if sd_waiting s then s\<lparr>sd_armed := False, sd_waiting := False, sd_resolved := True\<rparr> else s)"
| "shutdown_step s TimerFires =
     (if sd_armed s then s\<lparr>sd_armed := False, sd_kills := sd_kills s + 1\<rparr> else s)"

text \<open>
  What \<open>await this._shutdownProc()\<close> does: \<open>e_pipe_end\<close> ends the pipe and says which events
  follow.  \<open>None\<close> is a promise that never resolves.
\<close>

definition shutdownProc :: "('w, 'b, 'a) env \<Rightarrow> ('w, 'b, 'a) claw \<Rightarrow> unit option \<times> ('w, 'b, 'a) claw" where
  "shutdownProc E st =
     (let (events, w) = e_pipe_end E (cl_world st)
      in (if sd_resolved (foldl shutdown_step shutdown_start events) then Some () else None,
          st\<lparr>cl_world := w\<rparr>))"

definition claw_close :: "('w, 'b, 'a) env \<Rightarrow> ('w, 'b, 'a) claw \<Rightarrow> (unit result) option \<times> ('w, 'b, 'a) claw" where
  "claw_close E st =
     (if \<not> cl_rpc st then (Some (Inr ()), st)
      else case andthen (listStoreKeys E sessions_prefix) (\<lambda>keys.
                andthen (for_each (\<lambda>key. persistSession E (Str key)) keys) (\<lambda>_.
                bee_do (e_bee_close E))) st of
             (Inl e, st) \<Rightarrow> (Some (Inl e), st)
           | (Inr _, st) \<Rightarrow>
               (case shutdownProc E st of
                  (None, st) \<Rightarrow> (None, st)
                | (Some _, st) \<Rightarrow> (Some (Inr ()), st\<lparr>cl_rpc := False, cl_bee := False\<rparr>)))"

section \<open>Chat\<close>

text \<open>
  The generator is created without running.  Suspended at a \<open>yield\<close> it is in the loop over the
  stream \<open>s\<close> (\<open>GenChunk\<close>), or at the final chunk, before \<open>break\<close> (\<open>GenLast\<close>).
\<close>

datatype gen =
    GenStart jsval jsval jsval
  | GenChunk nat jsval
  | GenLast nat jsval
  | GenDone

datatype iter = Yields jsval | Finished

definition chat :: "jsval \<Rightarrow> jsval \<Rightarrow> jsval \<Rightarrow> gen" where
  "chat sessionId message opts = GenStart sessionId message (if opts = Undef then Obj [] else opts)"

text \<open>\<open>finally\<close>: persist, then go on with what the block ended with; an error here replaces it.\<close>

definition chat_finally ::
    "('w, 'b, 'a) env \<Rightarrow> jsval \<Rightarrow> 'x result \<Rightarrow> ('w, 'b, 'a) claw \<Rightarrow> 'x result \<times> ('w, 'b, 'a) claw" where
  "chat_finally E sessionId r = andthen (persistSession E sessionId) (\<lambda>_ st. (r, st))"

text \<open>Leaving the loop early ends the stream first.\<close>

definition leave_loop ::
    "('w, 'b, 'a) env \<Rightarrow> nat \<Rightarrow> jsval \<Rightarrow> 'x result \<Rightarrow> ('w, 'b, 'a) claw \<Rightarrow> 'x result \<times> ('w, 'b, 'a) claw" where
  "leave_loop E s sessionId r st = chat_finally E sessionId r (st\<lparr>cl_world := e_end E s (cl_world st)\<rparr>)"

definition chat_value :: "jsval \<Rightarrow> jsval \<Rightarrow> bool \<Rightarrow> jsval" where
  "chat_value type content done =
     (if done \<and> type \<noteq> Str (js ''error'') then Obj [(js ''type'', type), (js ''done'', Bool True)]
      else Obj [(js ''type'', type), (js ''content'', content), (js ''done'', Bool done)])"

definition is_final :: "jsval \<Rightarrow> bool" where
  "is_final type \<longleftrightarrow> type = Str (js ''done'') \<or> type = Str (js ''error'')"

definition chat_pull ::
    "('w, 'b, 'a) env \<Rightarrow> nat \<Rightarrow> jsval \<Rightarrow> ('w, 'b, 'a) claw \<Rightarrow> (iter result \<times> gen) \<times> ('w, 'b, 'a) claw" where
  "chat_pull E s sessionId st =
     (case e_next E s (cl_world st) of
        (Inl e, w) \<Rightarrow> apfst (\<lambda>r. (r, GenDone)) (chat_finally E sessionId (Inl e) (st\<lparr>cl_world := w\<rparr>))
      | (Inr None, w) \<Rightarrow> apfst (\<lambda>r. (r, GenDone)) (chat_finally E sessionId (Inr Finished) (st\<lparr>cl_world := w\<rparr>))
      | (Inr (Some chunk), w) \<Rightarrow>
          (case getp chunk (js ''type'') of
             Inl e \<Rightarrow> apfst (\<lambda>r. (r, GenDone)) (leave_loop E s sessionId (Inl e) (st\<lparr>cl_world := w\<rparr>))
           | Inr type \<Rightarrow>
               ((Inr (Yields (chat_value type (field chunk (js ''content'')) (is_final type))),
                 if is_final type then GenLast s sessionId else GenChunk s sessionId),
                st\<lparr>cl_world := w\<rparr>)))"

definition chat_request :: "('w, 'b, 'a) claw \<Rightarrow> jsval \<Rightarrow> jsval \<Rightarrow> jsval \<Rightarrow> jsval result" where
  "chat_request st sessionId message opts =
     rbind (getp opts (js ''model'')) (\<lambda>model.
     rbind (if truthy model then Inr model
            else rbind (getp (cl_opts st) (js ''model'')) (\<lambda>m. Inr (js_or m (Str [])))) (\<lambda>model.
     Inr (Obj [(js ''sessionId'', sessionId), (js ''message'', message), (js ''model'', model)])))"

text \<open>\<open>next()\<close>: errors before the loop leave the generator without persisting.\<close>

definition chat_next ::
    "('w, 'b, 'a) env \<Rightarrow> gen \<Rightarrow> ('w, 'b, 'a) claw \<Rightarrow> (iter result \<times> gen) \<times> ('w, 'b, 'a) claw" where
  "chat_next E g st =
     (case g of
        GenStart sessionId message opts \<Rightarrow>
          (case andthen (ensure_open E) (\<lambda>_ st.
                case (if cl_rpc st then chat_request st sessionId message opts else Inl TypeError) of
                  Inl e \<Rightarrow> (Inl e, st)
                | Inr request \<Rightarrow> rpc_do (hrpc_chat (e_c E) (e_rpc E) request) st) st of
             (Inl e, st) \<Rightarrow> ((Inl e, GenDone), st)
           | (Inr (ResponseStream s p), st) \<Rightarrow> chat_pull E s sessionId st
           | (Inr _, st) \<Rightarrow> apfst (\<lambda>r. (r, GenDone)) (chat_finally E sessionId (Inl TypeError) st))
      | GenChunk s sessionId \<Rightarrow> chat_pull E s sessionId st
      | GenLast s sessionId \<Rightarrow> apfst (\<lambda>r. (r, GenDone)) (leave_loop E s sessionId (Inr Finished) st)
      | GenDone \<Rightarrow> ((Inr Finished, GenDone), st))"

text \<open>\<open>return()\<close>: what a consumer's \<open>break\<close> calls.\<close>

definition chat_return ::
    "('w, 'b, 'a) env \<Rightarrow> gen \<Rightarrow> ('w, 'b, 'a) claw \<Rightarrow> (iter result \<times> gen) \<times> ('w, 'b, 'a) claw" where
  "chat_return E g st =
     (case g of
        GenChunk s sessionId \<Rightarrow> apfst (\<lambda>r. (r, GenDone)) (leave_loop E s sessionId (Inr Finished) st)
      | GenLast s sessionId \<Rightarrow> apfst (\<lambda>r. (r, GenDone)) (leave_loop E s sessionId (Inr Finished) st)
      | _ \<Rightarrow> ((Inr Finished, GenDone), st))"

text \<open>
  A consumer's \<open>for await\<close> that takes at most \<open>n\<close> chunks and then breaks: the chunks it saw, how
  it ended, and the instance afterwards.
\<close>

primrec consume ::
    "('w, 'b, 'a) env \<Rightarrow> nat \<Rightarrow> gen \<Rightarrow> ('w, 'b, 'a) claw \<Rightarrow> (jsval list \<times> unit result) \<times> ('w, 'b, 'a) claw" where
  "consume E 0 g st =
     (case chat_return E g st of ((r, g'), st') \<Rightarrow> (([], map_sum id (\<lambda>_. ()) r), st'))"
| "consume E (Suc n) g st =
     (case chat_next E g st of
        ((Inl e, g'), st') \<Rightarrow> (([], Inl e), st')
      | ((Inr Finished, g'), st') \<Rightarrow> (([], Inr ()), st')
      | ((Inr (Yields v), g'), st') \<Rightarrow> (case consume E n g' st' of ((vs, r), st'') \<Rightarrow> ((v # vs, r), st'')))"

section \<open>What the agent may call\<close>

text \<open>
  The handlers \<open>_open\<close> installs, as the RPC dispatcher of this side calls them, on the instance
  and the application's state.
\<close>

fun request_arg :: "harg \<Rightarrow> jsval" where
  "request_arg (HRequest v) = v"
| "request_arg _ = Undef"

definition claw_handlers :: "('w, 'b, 'a) env \<Rightarrow> (('w, 'b, 'a) claw \<times> 'a) handlers" where
  "claw_handlers E =
     onStateChanged (\<lambda>arg (st, a).
         case getp (request_arg arg) (js ''sessionKey'') of
           Inl e \<Rightarrow> (Inl e, (st, a))
         | Inr key \<Rightarrow> (case persistSession E key st of (r, st) \<Rightarrow> (map_sum id (\<lambda>_. Undef) r, (st, a))))
     (onToolExec (\<lambda>arg (st, a).
         case onToolExec_claw E (cl_tools st) (request_arg arg) a of (r, a) \<Rightarrow> (r, (st, a)))
     no_handlers)"

end
