(* ===== verification/Session_Keys.thy ===== *)
theory Session_Keys
  imports Bareclaw
begin

text \<open>
  The layout of the session registry: which bytes a session's entries have, which of them the
  range read of \<open>_listStoreKeys\<close> finds, and which session key it reads off an entry.
\<close>

section \<open>Segments\<close>

lemma first_segment_no_slash: "47 \<notin> set (first_segment s)"
  by (auto simp: first_segment_def dest: set_takeWhileD)

lemma first_segment_id: "47 \<notin> set k \<Longrightarrow> first_segment (k @ 47 # r) = k"
  by (induction k) (auto simp: first_segment_def)

lemma set_set_add [simp]: "set (set_add x xs) = insert x (set xs)"
  by (auto simp: set_add_def)

lemma distinct_set_add: "distinct xs \<Longrightarrow> distinct (set_add x xs)"
  by (simp add: set_add_def)

text \<open>The listing of any entries: the first segments after the prefix, without the empty one.\<close>

definition entry_session :: "b4a \<Rightarrow> jsstring \<Rightarrow> bytes \<Rightarrow> jsstring" where
  "entry_session b prefix k = first_segment (drop (length prefix) (b4a_toString b k))"

lemma listed_keys_set:
  "distinct (listed_keys b prefix es)
   \<and> set (listed_keys b prefix es) = entry_session b prefix ` fst ` set es - {[]}"
proof -
  let ?add = "\<lambda>(k, v) seen. let rest = drop (length prefix) (b4a_toString b k);
      sessionKey = first_segment rest in if sessionKey \<noteq> [] then set_add sessionKey seen else seen"
  have "distinct (fold ?add es seen) \<and>
      set (fold ?add es seen) = set seen \<union> {x. x \<noteq> [] \<and> (\<exists>e \<in> set es. x = entry_session b prefix (fst e))}"
    if "distinct seen" for seen
    using that
  proof (induction es arbitrary: seen)
    case (Cons e es)
    then show ?case
      using distinct_set_add [of seen "entry_session b prefix (fst e)"]
      by (cases e) (auto simp: Let_def entry_session_def)
  qed simp
  from this [of "[]"] show ?thesis
    by (auto simp: listed_keys_def image_iff)
qed

section \<open>Keys that can be listed\<close>

text \<open>
  A session key the registry can hold: not empty, no slash, and starting below U+00FF, where the
  range ends.
\<close>

definition key_ok :: "jsstring \<Rightarrow> bool" where
  "key_ok k \<longleftrightarrow> wf16 k \<and> length k < 2 ^ 32"

definition listable :: "jsstring \<Rightarrow> bool" where
  "listable k \<longleftrightarrow> key_ok k \<and> 47 \<notin> set k \<and> k \<noteq> [] \<and> hd k < 255"

lemma small_not_surrogate: "(u :: 16 word) < 255 \<Longrightarrow> \<not> is_high u \<and> \<not> is_low u"
  by (auto simp: is_high_def is_low_def word_le_nat_alt word_less_nat_alt)

lemma wf16_append: "wf16 s \<Longrightarrow> wf16 t \<Longrightarrow> wf16 (s @ t)"
proof (induction s rule: wf16.induct)
  case (2 u)
  then show ?case
    by (cases t) auto
next
  case (3 u v s)
  then show ?case
    by (auto split: if_splits)
qed simp

lemma wf16_takeWhile: "wf16 s \<Longrightarrow> wf16 (takeWhile (\<lambda>c. c \<noteq> 47) s)"
proof (induction s rule: wf16.induct)
  case (3 u v s)
  have slash: "\<not> is_high 47" "\<not> is_low 47"
    by (simp_all add: is_high_def is_low_def)
  show ?case
  proof (cases "is_high u")
    case True
    with 3 slash have "u \<noteq> 47" "v \<noteq> 47" "is_low v" "wf16 (takeWhile (\<lambda>c. c \<noteq> 47) s)"
      by auto
    with True show ?thesis
      by simp
  next
    case False
    with 3 have "\<not> is_low u" "wf16 (takeWhile (\<lambda>c. c \<noteq> 47) (v # s))"
      by simp_all
    with False show ?thesis
      by (cases "v = 47") simp_all
  qed
qed simp_all

lemma wf16_small: "list_all (\<lambda>u. u < 255) s \<Longrightarrow> wf16 s"
  by (induction s rule: wf16.induct) (auto dest: small_not_surrogate)

lemma wf16_literals [simp]: "wf16 sessions_prefix" "wf16 (js ''/data'')" "wf16 (js ''/scope'')"
  by (rule wf16_small; simp add: sessions_prefix_def js_def)+

lemma latin_digits: "64 * q + r = (n :: nat) \<Longrightarrow> n < 255 \<Longrightarrow> q < 3 \<or> q = 3 \<and> r < 63"
  by arith

text \<open>The entries the range read returns.\<close>

definition in_sessions_range :: "b4a \<Rightarrow> bytes \<Rightarrow> bool" where
  "in_sessions_range b key \<longleftrightarrow> \<not> bytes_less key (b4a_from b sessions_prefix)
     \<and> bytes_less key (b4a_from b (sessions_prefix @ [255]))"

context text_encoding
begin

lemma from_255: "b4a_from b [255] = [0xC3, 0xBF]"
  using from_latin [of 255] by simp

lemma from_head: "\<not> is_high u \<and> \<not> is_low u \<Longrightarrow> b4a_from b (u # s) = b4a_from b [u] @ b4a_from b s"
  using from_append [of "[u]" s] by simp

lemma from_small_less:
  assumes "u < (255 :: 16 word)"
  shows "bytes_less (b4a_from b (u # s)) (b4a_from b [255])"
proof -
  have n: "unat u < 255"
    using assms by (simp add: word_less_nat_alt)
  have byte: "unat (word_of_nat m :: byte) = m" if "m < 256" for m
    using that by (simp add: unat_of_nat take_bit_nat_eq_self)
  show ?thesis
  proof (cases "u < 0x80")
    case True
    then have "ucast u < (0xC3 :: byte)"
      using n by (simp add: word_less_nat_alt unsigned_ucast_eq unsigned_take_bit_eq take_bit_nat_eq_self)
    then show ?thesis
      using from_head [OF small_not_surrogate [OF assms], of s] from_ascii [OF True] from_255 by simp
  next
    case False
    have "u < 0x100"
      using assms by (auto simp: word_less_nat_alt)
    then have head: "b4a_from b [u] = [word_of_nat (0xC0 + unat u div 64), word_of_nat (0x80 + unat u mod 64)]"
      using False by (intro from_latin) auto
    have "unat u div 64 < 3 \<or> unat u div 64 = 3 \<and> unat u mod 64 < 63"
      using latin_digits [OF mult_div_mod_eq n] .
    then have "(word_of_nat (0xC0 + unat u div 64) :: byte) < 0xC3
      \<or> (word_of_nat (0xC0 + unat u div 64) :: byte) = 0xC3 \<and> (word_of_nat (0x80 + unat u mod 64) :: byte) < 0xBF"
      using byte [of "0xC0 + unat u div 64"] byte [of "0x80 + unat u mod 64"]
      by (auto simp: word_less_nat_alt word_unat_eq_iff)
    then show ?thesis
      using from_head [OF small_not_surrogate [OF assms], of s] head from_255 by auto
  qed
qed

abbreviation (input) prefix_bytes :: bytes where
  "prefix_bytes \<equiv> b4a_from b sessions_prefix"

lemma key_bytes:
  "data_key b (Str k) = prefix_bytes @ b4a_from b (k @ js ''/data'')"
  "scope_key b (Str k) = prefix_bytes @ b4a_from b (k @ js ''/scope'')"
  "b4a_from b (sessions_prefix @ [255]) = prefix_bytes @ b4a_from b [255]"
  by (simp_all add: data_key_def scope_key_def from_append)

abbreviation (input) in_range :: "bytes \<Rightarrow> bool" where
  "in_range \<equiv> in_sessions_range b"

lemma listable_in_range:
  assumes "listable k"
  shows "in_range (data_key b (Str k))" and "in_range (scope_key b (Str k))"
  using assms from_small_less [of "hd k"]
  by (cases k; simp add: in_sessions_range_def key_bytes bytes_less_append listable_def)+

lemma entry_session_key:
  assumes "listable k"
  shows "entry_session b sessions_prefix (data_key b (Str k)) = k"
    and "entry_session b sessions_prefix (scope_key b (Str k)) = k"
proof -
  have keys: "b4a_toString b (data_key b (Str k)) = sessions_prefix @ k @ js ''/data''"
    "b4a_toString b (scope_key b (Str k)) = sessions_prefix @ k @ js ''/scope''"
    using assms by (simp_all add: data_key_def scope_key_def toString_from wf16_append listable_def key_ok_def)
  show "entry_session b sessions_prefix (data_key b (Str k)) = k"
    "entry_session b sessions_prefix (scope_key b (Str k)) = k"
    using assms first_segment_id [of k] by (simp_all add: entry_session_def keys js_def listable_def)
qed

lemma data_key_inj: "wf16 k \<Longrightarrow> wf16 k' \<Longrightarrow> data_key b (Str k) = data_key b (Str k') \<longleftrightarrow> k = k'"
  using from_inj [of "k @ js ''/data''" "k' @ js ''/data''"] by (simp add: key_bytes wf16_append)

lemma data_scope_differ: "wf16 k \<Longrightarrow> wf16 k' \<Longrightarrow> data_key b (Str k) \<noteq> scope_key b (Str k')"
proof -
  assume "wf16 k" "wf16 k'"
  then have "data_key b (Str k) = scope_key b (Str k') \<longleftrightarrow> k @ js ''/data'' = k' @ js ''/scope''"
    using from_inj [of "k @ js ''/data''" "k' @ js ''/scope''"] by (simp add: key_bytes wf16_append)
  moreover have "last (k @ js ''/data'') \<noteq> last (k' @ js ''/scope'')"
    by (simp add: js_def)
  ultimately show ?thesis
    by metis
qed

end

end
