(* ===== verification/Bareclaw_Spec.thy ===== *)
theory Bareclaw_Spec
  imports Session_Keys
begin

text \<open>
  What src/index.js promises, over the contracts of what it calls: the agent that holds the
  sessions (\<open>session_agent\<close>), the store (\<open>bee_store\<close>) and b4a (\<open>text_encoding\<close>), joined in
  \<open>claw_env\<close>.
\<close>

named_theorems act_simps

lemma andthen_simps [act_simps]:
  "m st = (Inr x, st') \<Longrightarrow> andthen m f st = f x st'"
  "m st = (Inl e, st') \<Longrightarrow> andthen m f st = (Inl e, st')"
  by (simp_all add: andthen_def)

lemma andthen_ret [act_simps]: "andthen (ret x) f st = f x st"
  by (simp add: andthen_def ret_def)

declare ret_def [act_simps] fail_def [act_simps] prop_of_def [act_simps] rpc_do_def [act_simps]
  bee_do_def [act_simps]

section \<open>What is said of an instance\<close>

text \<open>An instance that is open, and one whose \<open>_open\<close> may still be running.\<close>

definition claw_live :: "('w \<Rightarrow> bool) \<Rightarrow> ('b \<Rightarrow> bool) \<Rightarrow> ('w, 'b, 'a) claw \<Rightarrow> bool" where
  "claw_live up usable st \<longleftrightarrow> cl_opened st \<and> cl_rpc st \<and> cl_bee st \<and> up (cl_world st) \<and> usable (cl_store st)"

definition claw_running :: "('w \<Rightarrow> bool) \<Rightarrow> ('b \<Rightarrow> bool) \<Rightarrow> ('w, 'b, 'a) claw \<Rightarrow> bool" where
  "claw_running up usable st \<longleftrightarrow> cl_rpc st \<and> cl_bee st \<and> up (cl_world st) \<and> usable (cl_store st)"

text \<open>What a step on world and store leaves alone.\<close>

definition frame :: "('w, 'b, 'a) claw \<Rightarrow> ('w, 'b, 'a) claw \<Rightarrow> bool" where
  "frame st st' \<longleftrightarrow> cl_opts st' = cl_opts st \<and> cl_tools st' = cl_tools st \<and> cl_handlers st' = cl_handlers st"

text \<open>The entries the store has.\<close>

definition claw_stored :: "('b \<Rightarrow> entries) \<Rightarrow> ('w, 'b, 'a) claw \<Rightarrow> bytes \<Rightarrow> jsval option" where
  "claw_stored contents st = map_of (contents (cl_store st))"

lemma claw_stored_world [simp]: "claw_stored contents (st\<lparr>cl_world := w\<rparr>) = claw_stored contents st"
  by (simp add: claw_stored_def)

lemma claw_stored_same: "contents (cl_store a) = contents (cl_store b) \<Longrightarrow> claw_stored contents a = claw_stored contents b"
  by (simp add: claw_stored_def)

text \<open>The state the store has of a session: \<open>_loadFromStore\<close> skips an empty value.\<close>

definition claw_on_record :: "b4a \<Rightarrow> ('b \<Rightarrow> entries) \<Rightarrow> ('w, 'b, 'a) claw \<Rightarrow> jsstring \<Rightarrow> bytes option" where
  "claw_on_record b contents st k = (case claw_stored contents st (data_key b (Str k)) of
     Some (Buf d) \<Rightarrow> if d = [] then None else Some d | _ \<Rightarrow> None)"

text \<open>The sessions a store has an entry of, among the keys it can list.\<close>

definition claw_registered :: "b4a \<Rightarrow> ('b \<Rightarrow> entries) \<Rightarrow> ('w, 'b, 'a) claw \<Rightarrow> jsstring set" where
  "claw_registered b contents st = {k. listable k \<and>
     (data_key b (Str k) \<in> dom (claw_stored contents st) \<or> scope_key b (Str k) \<in> dom (claw_stored contents st))}"

text \<open>A store in which everything below the prefix was written for a key it can list.\<close>

definition claw_tidy :: "b4a \<Rightarrow> ('b \<Rightarrow> entries) \<Rightarrow> ('w, 'b, 'a) claw \<Rightarrow> bool" where
  "claw_tidy b contents st \<longleftrightarrow> (\<forall>key \<in> dom (claw_stored contents st). in_sessions_range b key \<longrightarrow>
     (\<exists>k. listable k \<and> key \<in> {data_key b (Str k), scope_key b (Str k)}))"

text \<open>
  A store that only this class has written: entries below the prefix are entries of keys that
  can be sent, and the states in it are dumps of the agent.
\<close>

definition claw_sound :: "b4a \<Rightarrow> ('b \<Rightarrow> entries) \<Rightarrow> (bytes \<Rightarrow> bool) \<Rightarrow> ('w, 'b, 'a) claw \<Rightarrow> bool" where
  "claw_sound b contents dumped st \<longleftrightarrow> (\<forall>key \<in> dom (claw_stored contents st). in_sessions_range b key \<longrightarrow>
      (\<exists>k. key_ok k \<and> key \<in> {data_key b (Str k), scope_key b (Str k)}))
    \<and> (\<forall>k d. key_ok k \<longrightarrow> claw_on_record b contents st k = Some d \<longrightarrow> dumped d)"

text \<open>A new instance on the store another one left.\<close>

definition reopened :: "jsval \<Rightarrow> 'w \<Rightarrow> ('w, 'b, 'a) claw \<Rightarrow> ('w, 'b, 'a) claw" where
  "reopened opts w st = claw_new opts w (cl_store st)"

section \<open>The agent\<close>

definition key_msg :: "jsstring \<Rightarrow> jsval" where
  "key_msg k = Obj [(js ''key'', Str k)]"

definition blob_msg :: "jsstring \<Rightarrow> bytes \<Rightarrow> jsval" where
  "blob_msg k d = Obj [(js ''key'', Str k), (js ''data'', Buf d)]"

text \<open>
  An agent that is up answers an export with the dump of the session, and takes a dump it could
  have written as that session's state; neither touches another session, and creating a key
  touches none.
\<close>

locale session_agent =
  fixes c :: cenc and rpc :: "'w rpc_lib" and up :: "'w \<Rightarrow> bool" and dump :: "'w \<Rightarrow> jsstring \<Rightarrow> bytes"
    and dumped :: "bytes \<Rightarrow> bool"
  assumes export: "up w \<Longrightarrow> key_ok k \<Longrightarrow>
      \<exists>w'. sessionExport c rpc (key_msg k) w = (Inr (blob_msg k (dump w k)), w') \<and> up w' \<and> dump w' = dump w"
    and "import": "up w \<Longrightarrow> key_ok k \<Longrightarrow> dumped d \<Longrightarrow>
      \<exists>v w'. sessionImport c rpc (blob_msg k d) w = (Inr v, w') \<and> up w' \<and> dump w' = (dump w)(k := d)"
    and create: "up w \<Longrightarrow> ty_ok schema_depth f (js ''@bareclaw/session-scope'') scope \<Longrightarrow>
      \<exists>k w'. sessionCreate c rpc scope w = (Inr (key_msg k), w') \<and> key_ok k \<and> up w' \<and> dump w' = dump w"
    and dump_dumped: "up w \<Longrightarrow> key_ok k \<Longrightarrow> dumped (dump w k)"
    and dumped_nonempty: "dumped d \<Longrightarrow> d \<noteq> []"

text \<open>
  The whole environment.  A chat may change any session but leaves the agent up; a started
  process is up, with the sessions \<open>blank\<close> gives it.
\<close>

locale claw_env = session_agent "e_c E" "e_rpc E" up dump dumped + bee_store "e_bee E" contents usable
    + text_encoding "e_b4a E"
  for E :: "('w, 'b, 'a) env" and up :: "'w \<Rightarrow> bool" and dump :: "'w \<Rightarrow> jsstring \<Rightarrow> bytes"
    and dumped :: "bytes \<Rightarrow> bool" and contents :: "'b \<Rightarrow> entries" and usable :: "'b \<Rightarrow> bool" +
  fixes blank :: "jsstring \<Rightarrow> bytes"
  assumes chat_up: "up w \<Longrightarrow> hrpc_chat (e_c E) (e_rpc E) v w = (r, w') \<Longrightarrow> up w'"
    and next_up: "up w \<Longrightarrow> e_next E s w = (r', w') \<Longrightarrow> up w'"
    and end_up: "up w \<Longrightarrow> up (e_end E s w)"
    and start_up: "\<exists>w'. e_start E args w = (Inr (), w') \<and> up w' \<and> dump w' = blank"
    and bee_ready: "usable b \<Longrightarrow> \<exists>b'. e_bee_ready E b = (Inr (), b') \<and> usable b' \<and> contents b' = contents b"
    and bee_close: "usable b \<Longrightarrow> \<exists>b'. e_bee_close E b = (Inr (), b') \<and> usable b' \<and> contents b' = contents b"
begin

abbreviation "live \<equiv> claw_live up usable"
abbreviation "running \<equiv> claw_running up usable"
abbreviation "stored \<equiv> claw_stored contents"
abbreviation "on_record \<equiv> claw_on_record (e_b4a E) contents"
abbreviation "registered \<equiv> claw_registered (e_b4a E) contents"
abbreviation "tidy \<equiv> claw_tidy (e_b4a E) contents"
abbreviation "sound \<equiv> claw_sound (e_b4a E) contents dumped"

abbreviation agent :: "('w, 'b, 'a) claw \<Rightarrow> jsstring \<Rightarrow> bytes" where
  "agent st \<equiv> dump (cl_world st)"

lemma frame_refl: "frame st st"
  by (simp add: frame_def)

lemma frame_trans: "frame a b \<Longrightarrow> frame b d \<Longrightarrow> frame a d"
  by (auto simp: frame_def)

lemma ensure_open_live: "live st \<Longrightarrow> ensure_open E st = (Inr (), st)"
  by (simp add: claw_live_def ensure_open_def ret_def)

lemma export_live:
  assumes "live st" and "key_ok k"
  shows "\<exists>st'. exportSession E (Str k) st = (Inr (Buf (agent st k)), st') \<and> live st' \<and> frame st st'
    \<and> agent st' = agent st \<and> cl_store st' = cl_store st"
proof -
  obtain w' where w': "sessionExport (e_c E) (e_rpc E) (key_msg k) (cl_world st)
      = (Inr (blob_msg k (agent st k)), w')" "up w'" "dump w' = agent st"
    using export [OF _ assms(2)] assms(1) unfolding claw_live_def by blast
  have "exportSession E (Str k) st = (Inr (Buf (agent st k)), st\<lparr>cl_world := w'\<rparr>)"
    using w'(1) assms(1) by (simp add: exportSession_def andthen_def ensure_open_live act_simps
      key_msg_def [symmetric] blob_msg_def claw_live_def)
  moreover have "frame st (st\<lparr>cl_world := w'\<rparr>)"
    by (simp add: frame_def)
  ultimately show ?thesis
    using w'(2,3) assms(1) by (auto simp: claw_live_def)
qed

lemma put_live:
  assumes "live st"
  shows "\<exists>st'. put_one E k v st = (Inr (), st') \<and> live st' \<and> frame st st'
    \<and> cl_world st' = cl_world st \<and> stored st' = (stored st)(k \<mapsto> v)"
proof -
  obtain b' where b': "bee_flush (e_bee E) [(k, v)] (cl_store st) = (Inr (), b')" "usable b'"
    "map_of (contents b') = map_of (contents (cl_store st)) ++ map_of (rev [(k, v)])"
    using flush assms unfolding claw_live_def by blast
  have "put_one E k v st = (Inr (), st\<lparr>cl_store := b'\<rparr>)"
    using b'(1) assms by (simp add: put_one_def act_simps claw_live_def)
  moreover have "frame st (st\<lparr>cl_store := b'\<rparr>)"
    by (simp add: frame_def)
  ultimately show ?thesis
    using b'(2,3) assms by (auto simp: claw_live_def claw_stored_def)
qed

lemma persist_live:
  assumes "live st" and "key_ok k"
  shows "\<exists>st'. persistSession E (Str k) st = (Inr (), st') \<and> live st' \<and> frame st st'
    \<and> agent st' = agent st \<and> stored st' = (stored st)(data_key (e_b4a E) (Str k) \<mapsto> Buf (agent st k))"
proof -
  obtain st1 where st1: "exportSession E (Str k) st = (Inr (Buf (agent st k)), st1)" "live st1" "frame st st1"
    "agent st1 = agent st" "cl_store st1 = cl_store st"
    using export_live [OF assms] by blast
  obtain st' where st': "put_one E (data_key (e_b4a E) (Str k)) (Buf (agent st k)) st1 = (Inr (), st')" "live st'"
    "frame st1 st'" "cl_world st' = cl_world st1"
    "stored st' = (stored st1)(data_key (e_b4a E) (Str k) \<mapsto> Buf (agent st k))"
    using put_live [OF st1(2)] by blast
  have "persistSession E (Str k) st = (Inr (), st')"
    using st1(1) st'(1) assms(1) by (simp add: persistSession_def act_simps claw_live_def)
  moreover have "stored st1 = stored st"
    using st1(5) by (simp add: claw_stored_def)
  ultimately show ?thesis
    using st1 st' frame_trans by auto
qed

section \<open>Chat\<close>

text \<open>The session's entry is the state the agent has.\<close>

abbreviation saved :: "jsstring \<Rightarrow> ('w, 'b, 'a) claw \<Rightarrow> bool" where
  "saved k st \<equiv> live st \<and> stored st (data_key (e_b4a E) (Str k)) = Some (Buf (agent st k))"

lemma saved_live: "saved k st \<Longrightarrow> live st"
  by (simp add:)

lemma finally_saved:
  assumes "live st" and "key_ok k" and "chat_finally E (Str k) r st = (r', st')"
  shows "saved k st' \<and> frame st st' \<and> r' = r"
  using persist_live [OF assms(1,2)] assms(3)
  by (auto simp: chat_finally_def andthen_def)

lemma leave_saved:
  assumes "live st" and "key_ok k" and "leave_loop E s (Str k) r st = (r', st')"
  shows "saved k st' \<and> frame st st' \<and> r' = r"
proof -
  have "live (st\<lparr>cl_world := e_end E s (cl_world st)\<rparr>)"
    using assms(1) end_up by (simp add: claw_live_def)
  from finally_saved [OF this assms(2)] show ?thesis
    using assms(3) by (auto simp: leave_loop_def frame_def)
qed

lemma pull_live:
  assumes "live st" and "key_ok k" and "chat_pull E s (Str k) st = ((r, g), st')"
  shows "frame st st' \<and> live st' \<and>
    (g = GenDone \<and> saved k st' \<and> (\<forall>v. r \<noteq> Inr (Yields v))
     \<or> (\<exists>v. r = Inr (Yields v)) \<and> g \<in> {GenChunk s (Str k), GenLast s (Str k)})"
proof -
  obtain x w where pulled: "e_next E s (cl_world st) = (x, w)"
    by fastforce
  have live: "live (st\<lparr>cl_world := w\<rparr>)"
    using assms(1) next_up [OF _ pulled] by (simp add: claw_live_def)
  have frame: "frame (st\<lparr>cl_world := w\<rparr>) a \<Longrightarrow> frame st a" for a
    by (simp add: frame_def)
  show ?thesis
    using assms(3) live frame frame_refl
    by (auto simp: chat_pull_def pulled apfst_def map_prod_def
        split: sum.splits option.splits prod.splits if_splits
        dest!: finally_saved [OF live assms(2)] leave_saved [OF live assms(2)] intro: saved_live)
qed

lemma consume_saved:
  assumes "live st" and "key_ok k" and "g \<in> {GenChunk s (Str k), GenLast s (Str k)}"
    and "consume E n g st = ((vs, r), st')"
  shows "saved k st' \<and> frame st st'"
  using assms
proof (induction n arbitrary: g st vs r)
  case 0
  then show ?case
    using leave_saved [OF 0(1,2), of s "Inr Finished"]
    by (auto simp: chat_return_def apfst_def map_prod_def split: prod.splits)
next
  case (Suc n)
  show ?case
  proof (cases "g = GenLast s (Str k)")
    case True
    then show ?thesis
      using leave_saved [OF Suc.prems(1,2), of s "Inr Finished"] Suc.prems(4)
      by (auto simp: chat_next_def apfst_def map_prod_def split: prod.splits)
  next
    case False
    then have g: "g = GenChunk s (Str k)"
      using Suc.prems(3) by blast
    obtain x g1 st1 where pull: "chat_pull E s (Str k) st = ((x, g1), st1)"
      by (metis surj_pair)
    note pulled = pull_live [OF Suc.prems(1,2) pull]
    show ?thesis
      using Suc.prems(4) pulled Suc.IH [of st1 g1] Suc.prems(2) frame_trans
      by (auto simp: chat_next_def g pull split: sum.splits iter.splits prod.splits)
  qed
qed

lemma hrpc_chat_stream: "hrpc_chat c rpc v w = (Inr x, w') \<Longrightarrow> \<exists>s. x = ResponseStream s (responseEncodings c (Str (js ''@bareclaw/chat'')))"
  by (auto simp: hrpc_chat_def hrpc_callSync_def split: sum.splits prod.splits)

lemma chat_saved:
  assumes "live st" and "key_ok k" and "consume E (Suc n) (chat (Str k) msg opts) st = ((vs, r), st')"
  shows "live st' \<and> (vs \<noteq> [] \<or> r = Inr () \<longrightarrow> saved k st')"
proof -
  let ?opts = "if opts = Undef then Obj [] else opts"
  obtain x st1 where sent: "(case (if cl_rpc st then chat_request st (Str k) msg ?opts else Inl TypeError) of
        Inl e \<Rightarrow> (Inl e, st)
      | Inr request \<Rightarrow> rpc_do (hrpc_chat (e_c E) (e_rpc E) request) st) = (x, st1)"
    by (metis surj_pair)
  have live1: "live st1"
    using sent assms(1) chat_up
    by (auto simp: claw_live_def rpc_do_def split: sum.splits prod.splits if_splits)
  show ?thesis
  proof (cases x)
    case (Inl e)
    then show ?thesis
      using assms(3) sent live1
      by (auto simp: chat_def chat_next_def andthen_def ensure_open_live [OF assms(1)])
  next
    case (Inr y)
    then obtain s p where y: "y = ResponseStream s p"
      using sent hrpc_chat_stream by (fastforce simp: rpc_do_def split: sum.splits prod.splits if_splits)
    have "consume E (Suc n) (GenChunk s (Str k)) st1 = ((vs, r), st')"
      using assms(3) sent Inr y
      by (simp add: chat_def chat_next_def andthen_def ensure_open_live [OF assms(1)])
    from consume_saved [OF live1 assms(2) _ this] show ?thesis
      using saved_live by blast
  qed
qed

section \<open>The registry\<close>

lemma list_running:
  assumes "running st"
  shows "\<exists>ks st'. listStoreKeys E sessions_prefix st = (Inr ks, st') \<and> running st' \<and> frame st st'
    \<and> cl_opened st' = cl_opened st \<and> cl_world st' = cl_world st \<and> contents (cl_store st') = contents (cl_store st)
    \<and> distinct ks \<and> registered st \<subseteq> set ks \<and> (\<forall>k \<in> set ks. 47 \<notin> set k)
    \<and> (tidy st \<longrightarrow> set ks = registered st)"
proof -
  let ?es = "contents (cl_store st)" and ?b = "e_b4a E"
  let ?found = "filter (\<lambda>(k, v). \<not> bytes_less k prefix_bytes \<and> bytes_less k (b4a_from ?b (sessions_prefix @ [255]))) ?es"
  obtain b' where b': "bee_range (e_bee E) prefix_bytes (b4a_from ?b (sessions_prefix @ [255])) (cl_store st)
      = (Inr ?found, b')" "usable b'" "contents b' = ?es"
    using range assms unfolding claw_running_def by blast
  let ?ks = "listed_keys ?b sessions_prefix ?found"
  have found: "key \<in> fst ` set ?found \<longleftrightarrow> key \<in> dom (stored st) \<and> in_range key" for key
    by (force simp: in_sessions_range_def claw_stored_def dom_map_of_conv_image_fst)
  have keys: "distinct ?ks" "set ?ks = entry_session ?b sessions_prefix ` fst ` set ?found - {[]}"
    using listed_keys_set by blast+
  have listed: "k \<in> set ?ks" if "k \<in> registered st" for k
  proof -
    have "listable k" and "data_key ?b (Str k) \<in> fst ` set ?found \<or> scope_key ?b (Str k) \<in> fst ` set ?found"
      using that listable_in_range [of k] by (auto simp: claw_registered_def found simp del: set_filter)
    then show ?thesis
      using entry_session_key [of k] unfolding keys(2) listable_def by force
  qed
  have only: "k \<in> registered st" if td: "tidy st" and mem: "k \<in> set ?ks" for k
  proof -
    obtain key where key: "key \<in> fst ` set ?found" "k = entry_session ?b sessions_prefix key"
      using mem unfolding keys(2) by blast
    then have "key \<in> dom (stored st)" "in_range key"
      unfolding found by blast+
    with key(2) show ?thesis
      using td entry_session_key unfolding claw_tidy_def claw_registered_def by fastforce
  qed
  have "listStoreKeys E sessions_prefix st = (Inr ?ks, st\<lparr>cl_store := b'\<rparr>)"
    using b'(1) assms by (simp add: listStoreKeys_def act_simps andthen_def claw_running_def)
  moreover have "\<forall>k \<in> set ?ks. 47 \<notin> set k"
    unfolding keys(2) entry_session_def by (auto simp: first_segment_no_slash)
  ultimately show ?thesis
    using keys(1) listed only b'(2,3) assms by (auto simp: claw_running_def frame_def)
qed

lemma live_running: "live st \<longleftrightarrow> cl_opened st \<and> running st"
  by (auto simp: claw_live_def claw_running_def)

lemma sessions_live:
  assumes "live st"
  shows "\<exists>ks st'. sessions E st = (Inr ks, st') \<and> live st' \<and> frame st st' \<and> cl_world st' = cl_world st \<and> stored st' = stored st
    \<and> distinct ks \<and> registered st \<subseteq> set ks \<and> (\<forall>k \<in> set ks. 47 \<notin> set k)
    \<and> (tidy st \<longrightarrow> set ks = registered st)"
  using list_running [of st] assms by (auto simp: sessions_def andthen_def ensure_open_live live_running intro: claw_stored_same)

lemma session_live:
  assumes "live st" and "ty_ok schema_depth f (js ''@bareclaw/session-scope'') scope"
    and "json_ok scope" and "scope \<noteq> Undef"
  shows "\<exists>k t st'. session E scope st = (Inr (Str k), st') \<and> key_ok k \<and> live st' \<and> frame st st' \<and> agent st' = agent st
    \<and> json_text scope = Some t \<and> stored st' = (stored st)(scope_key (e_b4a E) (Str k) \<mapsto> Buf (b4a_from (e_b4a E) t))"
proof -
  obtain k w' where k: "sessionCreate (e_c E) (e_rpc E) scope (cl_world st) = (Inr (key_msg k), w')"
    "key_ok k" "up w'" "dump w' = agent st"
    using create [OF _ assms(2)] assms(1) unfolding claw_live_def by blast
  obtain t where t: "JSON_stringify scope = Str t" "json_text scope = Some t"
    using json_text_some [OF assms(3)] by blast
  let ?st1 = "st\<lparr>cl_world := w'\<rparr>"
  have "live ?st1"
    using assms(1) k(3) by (simp add: claw_live_def)
  then obtain st' where st': "put_one E (scope_key (e_b4a E) (Str k)) (Buf (b4a_from (e_b4a E) t)) ?st1 = (Inr (), st')"
    "live st'" "frame ?st1 st'" "cl_world st' = w'"
    "stored st' = (stored ?st1)(scope_key (e_b4a E) (Str k) \<mapsto> Buf (b4a_from (e_b4a E) t))"
    using put_live [of ?st1] by fastforce
  have "session E scope st = (Inr (Str k), st')"
    using k(1) st'(1) t(1) assms(1,4)
    by (simp add: session_def andthen_def ensure_open_live act_simps claw_live_def key_msg_def)
  moreover have "frame st st'"
    using st'(3) by (simp add: frame_def)
  ultimately show ?thesis
    using k st' t by auto
qed

lemma import_running:
  assumes "running st" and "key_ok k" and "dumped d"
  shows "\<exists>v st'. rpc_do (sessionImport (e_c E) (e_rpc E) (blob_msg k d)) st = (Inr v, st') \<and> running st' \<and> frame st st'
    \<and> cl_opened st' = cl_opened st \<and> cl_store st' = cl_store st \<and> agent st' = (agent st)(k := d)"
proof -
  obtain v w' where "sessionImport (e_c E) (e_rpc E) (blob_msg k d) (cl_world st) = (Inr v, w')" "up w'"
    "dump w' = (agent st)(k := d)"
    using "import" [OF _ assms(2,3)] assms(1) unfolding claw_running_def by blast
  then show ?thesis
    using assms(1) by (auto simp: rpc_do_def claw_running_def frame_def)
qed

section \<open>Loading\<close>

lemma load_one_running:
  assumes "running st" and "key_ok k" and "\<forall>d. on_record st k = Some d \<longrightarrow> dumped d"
  shows "\<exists>st'. load_one E k st = (Inr (), st') \<and> running st' \<and> frame st st' \<and> cl_opened st' = cl_opened st
    \<and> contents (cl_store st') = contents (cl_store st)
    \<and> agent st' = (case on_record st k of None \<Rightarrow> agent st | Some d \<Rightarrow> (agent st)(k := d))"
proof -
  let ?key = "data_key (e_b4a E) (Str k)"
  obtain b' where b': "bee_get (e_bee E) ?key (cl_store st) = (Inr (stored st ?key), b')" "usable b'"
    "contents b' = contents (cl_store st)"
    using get assms(1) unfolding claw_running_def claw_stored_def by blast
  let ?st1 = "st\<lparr>cl_store := b'\<rparr>"
  have got: "bee_do (bee_get (e_bee E) ?key) st = (Inr (stored st ?key), ?st1)" and run1: "running ?st1"
    using b' assms(1) by (simp_all add: bee_do_def claw_running_def)
  show ?thesis
  proof (cases "on_record st k")
    case None
    have "load_one E k st = (Inr (), ?st1)"
      using got None
      by (auto simp: load_one_def andthen_def ret_def claw_on_record_def split: option.splits jsval.splits if_splits)
    then show ?thesis
      using None run1 b'(3) by (simp add: frame_def)
  next
    case (Some d)
    obtain v st' where st': "rpc_do (sessionImport (e_c E) (e_rpc E) (blob_msg k d)) ?st1 = (Inr v, st')"
      "running st'" "frame ?st1 st'" "cl_opened st' = cl_opened st" "cl_store st' = b'" "agent st' = (agent st)(k := d)"
      using import_running [OF run1 assms(2)] assms(3) Some by fastforce
    have "load_one E k st = (Inr (), st')"
      using got Some st'(1)
      by (auto simp: load_one_def andthen_def ret_def claw_on_record_def blob_msg_def split: option.splits jsval.splits if_splits)
    then show ?thesis
      using Some st' b'(3) by (simp add: frame_def)
  qed
qed

lemma load_each_running:
  assumes "running st" and "\<forall>k \<in> set ks. key_ok k" and "\<forall>k \<in> set ks. \<forall>d. on_record st k = Some d \<longrightarrow> dumped d"
  shows "\<exists>st'. for_each (load_one E) ks st = (Inr (), st') \<and> running st' \<and> frame st st' \<and> cl_opened st' = cl_opened st
    \<and> contents (cl_store st') = contents (cl_store st)
    \<and> agent st' = (\<lambda>k. if k \<in> set ks then (case on_record st k of None \<Rightarrow> agent st k | Some d \<Rightarrow> d) else agent st k)"
  using assms
proof (induction ks arbitrary: st)
  case Nil
  then show ?case
    using frame_refl by (auto simp: ret_def)
next
  case (Cons k ks)
  obtain st1 where st1: "load_one E k st = (Inr (), st1)" "running st1" "frame st st1" "cl_opened st1 = cl_opened st"
    "contents (cl_store st1) = contents (cl_store st)"
    "agent st1 = (case on_record st k of None \<Rightarrow> agent st | Some d \<Rightarrow> (agent st)(k := d))"
    using load_one_running [OF Cons.prems(1), of k] Cons.prems(2,3) unfolding list.set by blast
  have same: "on_record st1 = on_record st"
    using st1(5) by (simp add: claw_on_record_def claw_stored_def fun_eq_iff)
  obtain st' where st': "for_each (load_one E) ks st1 = (Inr (), st')" "running st'" "frame st1 st'"
    "cl_opened st' = cl_opened st1" "contents (cl_store st') = contents (cl_store st1)"
    "agent st' = (\<lambda>k. if k \<in> set ks then (case on_record st1 k of None \<Rightarrow> agent st1 k | Some d \<Rightarrow> d) else agent st1 k)"
    using Cons.IH [OF st1(2)] Cons.prems(2,3) unfolding same list.set by blast
  have "for_each (load_one E) (k # ks) st = (Inr (), st')"
    using st1(1) st'(1) by (simp add: andthen_def)
  moreover have "agent st' j = (if j \<in> set (k # ks)
      then (case on_record st j of None \<Rightarrow> agent st j | Some d \<Rightarrow> d) else agent st j)" for j
    unfolding st'(6) same st1(6) by (cases "on_record st k"; cases "on_record st j") auto
  moreover have "frame st st'"
    using frame_trans st1(3) st'(3) by blast
  ultimately show ?case
    using st'(2,4,5) st1(4,5) by (intro exI [of _ st'] conjI ext) simp_all
qed

section \<open>Opening and closing\<close>

lemma listed_key_ok:
  assumes "sound st" and "running st" and "listStoreKeys E sessions_prefix st = (Inr ks, st')" and "k \<in> set ks"
  shows "key_ok k"
proof -
  let ?b = "e_b4a E"
  let ?found = "filter (\<lambda>(k, v). \<not> bytes_less k prefix_bytes \<and> bytes_less k (b4a_from ?b (sessions_prefix @ [255])))
    (contents (cl_store st))"
  obtain b' where "bee_range (e_bee E) prefix_bytes (b4a_from ?b (sessions_prefix @ [255])) (cl_store st) = (Inr ?found, b')"
    using range assms(2) unfolding claw_running_def by blast
  then have "ks = listed_keys ?b sessions_prefix ?found"
    using assms(2,3) by (simp add: listStoreKeys_def act_simps andthen_def claw_running_def)
  then obtain key where key: "key \<in> fst ` set ?found" "k = entry_session ?b sessions_prefix key"
    using assms(4) listed_keys_set [of ?b sessions_prefix ?found] by auto
  from key(1) have "key \<in> dom (stored st)" "in_range key"
    by (auto simp: in_sessions_range_def claw_stored_def dom_map_of_conv_image_fst)
  then obtain j where j: "key_ok j" "key \<in> {data_key ?b (Str j), scope_key ?b (Str j)}"
    using assms(1) unfolding claw_sound_def by blast
  have "b4a_toString ?b (data_key ?b (Str j)) = sessions_prefix @ j @ js ''/data''"
    "b4a_toString ?b (scope_key ?b (Str j)) = sessions_prefix @ j @ js ''/scope''"
    using j(1) by (simp_all add: data_key_def scope_key_def toString_from wf16_append key_ok_def)
  then have "k = takeWhile (\<lambda>c. c \<noteq> 47) j"
    using key(2) j(2) by (auto simp: entry_session_def first_segment_def js_def takeWhile_tail)
  then show ?thesis
    using j(1) wf16_takeWhile length_takeWhile_le [of "\<lambda>c. c \<noteq> 47" j] by (auto simp: key_ok_def)
qed

lemma open_loads:
  assumes "usable (cl_store st)" and "sound st" and "opts = Undef \<or> is_obj opts"
  shows "\<exists>ks st'. claw_open E (reopened opts w st) = (Inr (), st') \<and> running st'
    \<and> cl_opts st' = (if opts = Undef then Obj [] else opts) \<and> contents (cl_store st') = contents (cl_store st)
    \<and> registered st \<subseteq> set ks \<and> (\<forall>k \<in> set ks. 47 \<notin> set k) \<and> (tidy st \<longrightarrow> set ks = registered st)
    \<and> agent st' = (\<lambda>k. if k \<in> set ks then (case on_record st k of None \<Rightarrow> blank k | Some d \<Rightarrow> d) else blank k)"
proof -
  let ?st0 = "reopened opts w st"
  obtain b1 where b1: "e_bee_ready E (cl_store st) = (Inr (), b1)" "usable b1" "contents b1 = contents (cl_store st)"
    using bee_ready assms(1) by blast
  let ?opts = "if opts = Undef then Obj [] else opts"
  have opts: "is_obj ?opts" "?opts \<noteq> Undef"
    using assms(3) by auto
  obtain w1 where w1: "e_start E (spawn_args ?opts) w = (Inr (), w1)" "up w1" "dump w1 = blank"
    using start_up by blast
  let ?st1 = "?st0\<lparr>cl_store := b1, cl_world := w1, cl_rpc := True,
     cl_handlers := [js ''@bareclaw/tool-exec'', js ''@bareclaw/state-changed'']\<rparr>"
  have run1: "running ?st1"
    using b1(2) w1(2) by (simp add: claw_running_def reopened_def claw_new_def)
  have opened: "claw_open E ?st0 = loadFromStore E ?st1"
    using b1(1) w1(1) opts is_obj_getp [OF opts(1)]
    by (simp add: claw_open_def andthen_def act_simps spawnRPC_def reopened_def claw_new_def)
  have same: "contents (cl_store ?st1) = contents (cl_store st)"
    by (simp add: b1(3))
  then have recs: "on_record ?st1 = on_record st" "sound ?st1 = sound st" "tidy ?st1 = tidy st" "registered ?st1 = registered st"
    by (simp_all add: claw_on_record_def claw_sound_def claw_tidy_def claw_registered_def claw_stored_def fun_eq_iff)
  obtain ks st2 where st2: "listStoreKeys E sessions_prefix ?st1 = (Inr ks, st2)" "running st2" "frame ?st1 st2"
    "cl_world st2 = cl_world ?st1" "contents (cl_store st2) = contents (cl_store ?st1)"
    "registered ?st1 \<subseteq> set ks" "\<forall>k \<in> set ks. 47 \<notin> set k" "tidy ?st1 \<longrightarrow> set ks = registered ?st1"
    using list_running [OF run1] by blast
  have keys: "\<forall>k \<in> set ks. key_ok k"
    using listed_key_ok [OF _ run1 st2(1)] assms(2) recs(2) by blast
  have record2: "on_record st2 = on_record st"
    using st2(5) same by (simp add: claw_on_record_def claw_stored_def fun_eq_iff)
  have dumps: "\<forall>k \<in> set ks. \<forall>d. on_record st2 k = Some d \<longrightarrow> dumped d"
    using keys assms(2) unfolding record2 claw_sound_def by blast
  obtain st' where st': "for_each (load_one E) ks st2 = (Inr (), st')" "running st'" "frame st2 st'"
    "contents (cl_store st') = contents (cl_store st2)"
    "agent st' = (\<lambda>k. if k \<in> set ks then (case on_record st2 k of None \<Rightarrow> agent st2 k | Some d \<Rightarrow> d) else agent st2 k)"
    using load_each_running [OF st2(2) keys dumps] by blast
  have "claw_open E ?st0 = (Inr (), st')"
    using opened st2(1) st'(1) by (simp add: loadFromStore_def andthen_def)
  moreover have "agent st2 = blank"
    using st2(4) w1(3) by simp
  then have "agent st' = (\<lambda>k. if k \<in> set ks then (case on_record st k of None \<Rightarrow> blank k | Some d \<Rightarrow> d) else blank k)"
    by (simp only: st'(5) record2)
  moreover have "cl_opts st' = ?opts"
    using st2(3) st'(3) by (simp add: frame_def reopened_def claw_new_def)
  ultimately show ?thesis
    using st'(2,4) st2(5-8) same unfolding recs record2 by (intro exI [of _ ks] exI [of _ st']) simp
qed

lemma persist_each:
  assumes "live st" and "\<forall>k \<in> set ks. key_ok k"
  shows "\<exists>st'. for_each (\<lambda>k. persistSession E (Str k)) ks st = (Inr (), st') \<and> live st' \<and> frame st st'
    \<and> agent st' = agent st
    \<and> (\<forall>k \<in> set ks. stored st' (data_key (e_b4a E) (Str k)) = Some (Buf (agent st k)))
    \<and> (\<forall>key. key \<notin> (\<lambda>k. data_key (e_b4a E) (Str k)) ` set ks \<longrightarrow> stored st' key = stored st key)"
  using assms
proof (induction ks arbitrary: st)
  case Nil
  then show ?case
    using frame_refl by (auto simp: ret_def)
next
  case (Cons k ks)
  let ?key = "\<lambda>k. data_key (e_b4a E) (Str k)"
  obtain st1 where st1: "persistSession E (Str k) st = (Inr (), st1)" "live st1" "frame st st1" "agent st1 = agent st"
    "stored st1 = (stored st)(?key k \<mapsto> Buf (agent st k))"
    using persist_live [OF Cons.prems(1), of k] Cons.prems(2) by auto
  obtain st' where st': "for_each (\<lambda>k. persistSession E (Str k)) ks st1 = (Inr (), st')" "live st'" "frame st1 st'"
    "agent st' = agent st1" "\<forall>k \<in> set ks. stored st' (?key k) = Some (Buf (agent st1 k))"
    "\<forall>key. key \<notin> ?key ` set ks \<longrightarrow> stored st' key = stored st1 key"
    using Cons.IH [OF st1(2)] Cons.prems(2) unfolding list.set by blast
  have "stored st' (?key k) = Some (Buf (agent st k))"
  proof (cases "?key k \<in> ?key ` set ks")
    case True
    then obtain j where j: "j \<in> set ks" "?key k = ?key j"
      by blast
    then have "k = j"
      using data_key_inj [of k j] Cons.prems(2) by (simp add: key_ok_def)
    then show ?thesis
      using j st'(5) st1(4) by simp
  next
    case False
    then show ?thesis
      using st'(6) st1(5) by simp
  qed
  then show ?case
    using st'(1-6) st1 frame_trans by (intro exI [of _ st']) (auto simp: andthen_def)
qed

lemma close_live:
  assumes "live st" and "tidy st" and "claw_close E st = (res, st')"
  shows "usable (cl_store st') \<and> cl_opts st' = cl_opts st \<and> (res = None \<or> res = Some (Inr ()) \<and> \<not> cl_rpc st' \<and> \<not> cl_bee st')
    \<and> (\<forall>k \<in> registered st. stored st' (data_key (e_b4a E) (Str k)) = Some (Buf (agent st k)))
    \<and> (\<forall>key. key \<notin> (\<lambda>k. data_key (e_b4a E) (Str k)) ` registered st \<longrightarrow> stored st' key = stored st key)"
proof -
  obtain ks st1 where st1: "listStoreKeys E sessions_prefix st = (Inr ks, st1)" "running st1"
    "frame st st1" "cl_opened st1 = cl_opened st" "cl_world st1 = cl_world st" "contents (cl_store st1) = contents (cl_store st)"
    "set ks = registered st"
    using list_running [of st] assms(1,2) live_running by blast
  have live1: "live st1"
    using st1(2,4) assms(1) by (simp add: live_running)
  have "\<forall>k \<in> set ks. key_ok k"
    using st1(7) by (simp add: claw_registered_def listable_def)
  then obtain st2 where st2: "for_each (\<lambda>k. persistSession E (Str k)) ks st1 = (Inr (), st2)" "live st2" "frame st1 st2"
    "\<forall>k \<in> set ks. stored st2 (data_key (e_b4a E) (Str k)) = Some (Buf (agent st1 k))"
    "\<forall>key. key \<notin> (\<lambda>k. data_key (e_b4a E) (Str k)) ` set ks \<longrightarrow> stored st2 key = stored st1 key"
    using persist_each [OF live1] by blast
  obtain b3 where b3: "e_bee_close E (cl_store st2) = (Inr (), b3)" "usable b3" "contents b3 = contents (cl_store st2)"
    using bee_close st2(2) unfolding claw_live_def by blast
  let ?st3 = "st2\<lparr>cl_store := b3\<rparr>"
  have rest: "claw_close E st = (case shutdownProc E ?st3 of (None, st) \<Rightarrow> (None, st)
      | (Some _, st) \<Rightarrow> (Some (Inr ()), st\<lparr>cl_rpc := False, cl_bee := False\<rparr>))"
    using st1(1) st2(1,2) b3(1) assms(1)
    by (simp add: claw_close_def andthen_def bee_do_def claw_live_def)
  have "stored ?st3 = stored st2" "stored st1 = stored st"
    using b3(3) st1(6) by (auto simp: claw_stored_def)
  then show ?thesis
    using assms(3) st1(3,5,7) st2(3-5) b3(2)
    by (auto simp: rest shutdownProc_def claw_stored_def frame_def split: prod.splits option.splits if_splits)
qed

lemma closed_store:
  assumes "live st" and "tidy st" and "sound st"
    and "\<forall>k \<in> registered st. stored st' (data_key (e_b4a E) (Str k)) = Some (Buf (agent st k))"
    and "\<forall>key. key \<notin> (\<lambda>k. data_key (e_b4a E) (Str k)) ` registered st \<longrightarrow> stored st' key = stored st key"
  shows "registered st' = registered st" and "tidy st'" and "sound st'"
    and "k \<in> registered st \<Longrightarrow> on_record st' k = Some (agent st k)"
proof -
  let ?key = "\<lambda>k. data_key (e_b4a E) (Str k)"
  have dumps: "dumped (agent st k) \<and> agent st k \<noteq> []" if "k \<in> registered st" for k
    using that assms(1) dump_dumped dumped_nonempty
    by (auto simp: claw_registered_def listable_def claw_live_def)
  have dom: "dom (stored st') = dom (stored st) \<union> ?key ` registered st"
  proof (rule set_eqI)
    fix key
    show "key \<in> dom (stored st') \<longleftrightarrow> key \<in> dom (stored st) \<union> ?key ` registered st"
      using assms(4,5) by (cases "key \<in> ?key ` registered st") auto
  qed
  show same: "registered st' = registered st"
  proof -
    have "?key j \<in> ?key ` registered st \<Longrightarrow> listable j \<Longrightarrow> j \<in> registered st" for j
      using data_key_inj by (auto simp: claw_registered_def listable_def key_ok_def)
    moreover have "scope_key (e_b4a E) (Str j) \<notin> ?key ` registered st" if "listable j" for j
      using that not_sym [OF data_scope_differ [of _ j]] by (auto simp: claw_registered_def listable_def key_ok_def)
    moreover have mem: "j \<in> registered s \<longleftrightarrow> listable j
        \<and> (?key j \<in> dom (stored s) \<or> scope_key (e_b4a E) (Str j) \<in> dom (stored s))" for j s
      by (simp only: claw_registered_def mem_Collect_eq)
    ultimately have "j \<in> registered st' \<longleftrightarrow> j \<in> registered st" for j
      unfolding mem [of j st'] dom Un_iff by blast
    then show ?thesis
      by blast
  qed
  show "tidy st'"
    using assms(2) unfolding claw_tidy_def dom by (auto simp: claw_registered_def)
  show on_record: "on_record st' k = Some (agent st k)" if "k \<in> registered st" for k
    using assms(4) that dumps [OF that] by (simp add: claw_on_record_def)
  have "dumped d" if "key_ok j" "on_record st' j = Some d" for j d
  proof (cases "j \<in> registered st")
    case True
    then show ?thesis
      using on_record dumps that(2) by fastforce
  next
    case False
    then have "?key j \<notin> ?key ` registered st"
      using data_key_inj that(1) by (auto simp: claw_registered_def listable_def key_ok_def)
    then have "on_record st' j = on_record st j"
      using assms(5) by (simp add: claw_on_record_def)
    then show ?thesis
      using assms(3) that unfolding claw_sound_def by metis
  qed
  then show "sound st'"
    using \<open>tidy st'\<close> unfolding claw_sound_def claw_tidy_def listable_def by blast
qed

lemma reopen:
  assumes "live st" and "tidy st" and "sound st" and "claw_close E st = (res, st')" and "opts = Undef \<or> is_obj opts"
  shows "(res = None \<or> res = Some (Inr ()))
    \<and> (\<exists>st2. claw_open E (reopened opts w st') = (Inr (), st2) \<and> running st2 \<and> registered st2 = registered st
       \<and> cl_opts st2 = (if opts = Undef then Obj [] else opts) \<and> contents (cl_store st2) = contents (cl_store st')
       \<and> agent st2 = (\<lambda>k. if k \<in> registered st then agent st k else blank k))"
proof -
  note closed = close_live [OF assms(1,2,4)]
  note store = closed_store [OF assms(1-3), of st']
  have st': "registered st' = registered st" "tidy st'" "sound st'"
    and kept: "\<And>k. k \<in> registered st \<Longrightarrow> on_record st' k = Some (agent st k)"
    using store closed by blast+
  obtain ks st2 where st2: "claw_open E (reopened opts w st') = (Inr (), st2)" "running st2"
    "cl_opts st2 = (if opts = Undef then Obj [] else opts)" "contents (cl_store st2) = contents (cl_store st')" "set ks = registered st'"
    "agent st2 = (\<lambda>k. if k \<in> set ks then (case on_record st' k of None \<Rightarrow> blank k | Some d \<Rightarrow> d) else blank k)"
    using open_loads [OF _ st'(3) assms(5), of w] closed st'(2) by blast
  have "registered st2 = registered st"
    using st2(4) st'(1) by (simp add: claw_registered_def claw_stored_def)
  moreover have "agent st2 = (\<lambda>k. if k \<in> registered st then agent st k else blank k)"
    unfolding st2(5,6) st'(1) by (rule ext) (simp add: kept)
  ultimately show ?thesis
    using closed st2(1-4) by blast
qed

end

end
