(* ===== verification/Json_Reader.thy ===== *)
theory Json_Reader
  imports Json
begin

text \<open>
  Two facts about the reader of Json: the fuel \<open>JSON_parse\<close> gives it is enough, so a text is
  refused only because it is not JSON; and the text Go's encoder writes, which escapes a few
  characters more than JavaScript's, reads as the same value.
\<close>

section \<open>The fuel is enough\<close>

lemma skip_ws_length: "length (skip_ws s) \<le> length s"
  by (induction s) auto

lemma skip_ws_shorter: "skip_ws s = c # r \<Longrightarrow> length r < length s"
  using skip_ws_length [of s] by simp

lemma read_chars_shorter: "read_chars s = Some (x, r) \<Longrightarrow> length r < length s"
proof (induction s arbitrary: x r rule: read_chars.induct)
  case (2 c s)
  then show ?case
    by (fastforce split: if_splits list.splits option.splits dest: read_hex4_length)
qed simp

lemma read_number_shorter: "read_number s = Some (v, r) \<Longrightarrow> length r < length s"
proof -
  assume "read_number s = Some (v, r)"
  then have "takeWhile num_char s \<noteq> []" "r = dropWhile num_char s"
    by (auto simp: read_number_def Let_def number_literal_def split: if_splits)
  moreover have "length s = length (takeWhile num_char s) + length (dropWhile num_char s)"
    by (metis length_append takeWhile_dropWhile_id)
  ultimately show ?thesis
    by simp
qed

lemma read_word_shorter: "w \<noteq> [] \<Longrightarrow> read_word w v s = Some (v', r) \<Longrightarrow> length r < length s"
  by (cases s) (auto simp: read_word_def js_def split: if_splits)

lemmas shorter = read_chars_shorter read_number_shorter read_word_shorter skip_ws_shorter

lemma tl_skip_ws_shorter: "next_is c (skip_ws r) \<Longrightarrow> length (tl (skip_ws r)) \<le> length r"
  using skip_ws_length [of r] by simp

lemma readers_consume:
  "read_value n s = Some (v, r) \<Longrightarrow> length r < length s"
  "read_elems n s = Some (vs, r) \<Longrightarrow> length r < length s"
  "read_members n ps s = Some (v, r) \<Longrightarrow> length r < length s"
proof (induction n s and n s and n ps s arbitrary: v r and vs r and v r rule: read_value_read_elems_read_members.induct)
  case (2 n s)
  obtain c t where s: "skip_ws s = c # t"
    using 2(3) by (auto split: list.splits)
  have "length r < length (c # t)"
    using 2(3) 2(1,2) [OF s] tl_skip_ws_shorter [of _ t] shorter(1) [of t] shorter(2) [of "c # t"]
      shorter(3) [of _ _ "c # t"]
    by (fastforce simp: s split: if_splits simp del: length_Cons length_tl)
  then show ?case
    using skip_ws_length [of s] by (simp add: s)
next
  case (4 n s)
  obtain v c t r' where v: "read_value n s = Some (v, t)" "skip_ws t = c # r'"
    using 4(3) by (auto split: option.splits list.splits)
  then have "length r' < length s"
    using 4(1) skip_ws_shorter by fastforce
  then show ?case
    using 4(3) 4(2) [OF v(1) refl v(2)] v by (fastforce split: if_splits)
next
  case (6 n ps s)
  obtain q t where s: "skip_ws s = q # t" "q = 34"
    using 6(3) by (auto split: list.splits if_splits)
  obtain k t1 where k: "read_chars t = Some (k, t1)"
    using 6(3) s by (auto split: option.splits)
  obtain e t2 where e: "skip_ws t1 = e # t2" "e = 58"
    using 6(3) s k by (auto split: list.splits if_splits)
  obtain v' t3 where v: "read_value n t2 = Some (v', t3)"
    using 6(3) s k e by (auto split: option.splits)
  obtain d t4 where d: "skip_ws t3 = d # t4"
    using 6(3) s k e v by (auto split: list.splits)
  have "length t4 < length s"
    using shorter(4) [OF s(1)] shorter(1) [OF k] shorter(4) [OF e(1)] shorter(4) [OF d] 6(1) s k e v by fastforce
  then show ?case
    using 6 s k e v d by (fastforce split: if_splits)
qed simp_all

text \<open>What is read with some fuel is read with any fuel above twice the length of the text.\<close>

lemma fuel_enough:
  "read_value n s = Some x \<Longrightarrow> 2 * length s + 1 \<le> m \<Longrightarrow> read_value m s = Some x"
  "read_elems n s = Some y \<Longrightarrow> 2 * length s + 2 \<le> m \<Longrightarrow> read_elems m s = Some y"
  "read_members n ps s = Some x \<Longrightarrow> 2 * length s + 2 \<le> m \<Longrightarrow> read_members m ps s = Some x"
proof (induction n s and n s and n ps s arbitrary: x m and y m and x m rule: read_value_read_elems_read_members.induct)
  case (2 n s)
  obtain c t where s: "skip_ws s = c # t"
    using 2(3) by (auto split: list.splits)
  obtain m' where m: "m = Suc m'" "2 * length t + 2 \<le> m'"
    using 2(4) shorter(4) [OF s] by (cases m) auto
  show ?case
    using 2(3) 2(1) [OF s _ _ _ _ m(2)] 2(2) [OF s _ _ _ _ _ m(2)] by (auto simp: s m(1) split: if_splits)
next
  case (4 n s)
  obtain v c t r' where v: "read_value n s = Some (v, t)" "skip_ws t = c # r'"
    using 4(3) by (auto split: option.splits list.splits)
  obtain m' where m: "m = Suc m'" "2 * length s + 1 \<le> m'"
    using 4(4) by (cases m) auto
  have more: "2 * length r' + 2 \<le> m'"
    using readers_consume(1) [OF v(1)] shorter(4) [OF v(2)] m(2) by simp
  have first: "read_value m' s = Some (v, t)"
    by (rule 4(1) [OF v(1) m(2)])
  have y: "Some y = (if c = 44 then map_option (apfst (Cons v)) (read_elems n r') else if c = 93 then Some ([v], r') else None)"
    using 4(3) by (simp add: v)
  show ?case
  proof (cases "c = 44")
    case True
    then obtain z where z: "read_elems n r' = Some z"
      using y by (cases "read_elems n r'") simp_all
    have "read_elems m' r' = Some z"
      by (rule 4(2) [OF v(1) refl v(2) True z more])
    then show ?thesis
      using y True by (simp add: m(1) first v(2) z)
  next
    case False
    then show ?thesis
      using y by (simp add: m(1) first v(2))
  qed
next
  case (6 n ps s)
  obtain q t where s: "skip_ws s = q # t" "q = 34"
    using 6(3) by (auto split: list.splits if_splits)
  obtain k t1 where k: "read_chars t = Some (k, t1)"
    using 6(3) s by (auto split: option.splits)
  obtain e t2 where e: "skip_ws t1 = e # t2" "e = 58"
    using 6(3) s k by (auto split: list.splits if_splits)
  obtain v t3 where v: "read_value n t2 = Some (v, t3)"
    using 6(3) s k e by (auto split: option.splits)
  obtain d t4 where d: "skip_ws t3 = d # t4"
    using 6(3) s k e v by (auto split: list.splits)
  obtain m' where m: "m = Suc m'"
    using 6(4) by (cases m) auto
  have le: "2 * length t2 + 1 \<le> m'" "2 * length t4 + 2 \<le> m'"
    using shorter(4) [OF s(1)] shorter(1) [OF k] shorter(4) [OF e(1)] shorter(4) [OF d] readers_consume(1) [OF v] 6(4) m
    by simp_all
  have first: "read_value m' t2 = Some (v, t3)"
    by (rule 6(1) [OF s(1) _ k refl e(1) _ v le(1)]) (simp_all add: s e)
  have x: "Some x = (if d = 44 then read_members n (put_prop k v ps) t4
      else if d = 125 then Some (Obj (put_prop k v ps), t4) else None)"
    using 6(3) by (simp add: s k e v d)
  have more: "read_members m' (put_prop k v ps) t4 = Some x" if "d = 44"
    by (rule 6(2) [OF s(1) _ k refl e(1) _ v refl d that _ le(2)]) (use s e x that in simp_all)
  then show ?case
    using x by (simp add: s k e first d m split: if_splits)
qed simp_all

text \<open>A text is accepted exactly if some amount of fuel reads it to its end.\<close>

lemma JSON_parse_accepts:
  "JSON_parse message t = Inr v \<longleftrightarrow> (\<exists>n r. read_value n t = Some (v, r) \<and> skip_ws r = [])"
proof -
  define n0 where "n0 = 2 * length t + 2"
  have "read_value n t = Some (v, r) \<Longrightarrow> read_value n0 t = Some (v, r)" for n r
    by (rule fuel_enough) (simp_all add: n0_def)
  moreover have "JSON_parse message t = Inr v \<longleftrightarrow> (\<exists>r. read_value n0 t = Some (v, r) \<and> skip_ws r = [])"
    unfolding JSON_parse_def n0_def [symmetric] by (auto split: option.splits)
  ultimately show ?thesis
    by blast
qed

section \<open>Go's texts\<close>

text \<open>
  \<open>encoding/json\<close> writes less-than, greater-than, ampersand and the two Unicode line separators
  as escapes, wherever they stand in the text it produces.
\<close>

definition html_unit :: "16 word \<Rightarrow> jsstring" where
  "html_unit c = (if c \<in> {60, 62, 38, 8232, 8233} then u_escape c else [c])"

definition html_escape :: "jsstring \<Rightarrow> jsstring" where
  "html_escape t = concat (map html_unit t)"

lemma html_escape_simps [simp]:
  "html_escape [] = []" "html_escape (c # t) = html_unit c @ html_escape t"
  "html_escape (s @ t) = html_escape s @ html_escape t"
  by (simp_all add: html_escape_def)

lemma length_html_escape: "length (html_escape t) \<le> 6 * length t"
  by (induction t) (simp_all add: html_unit_def u_escape_def)

text \<open>Outside strings none of them occurs, so the reader takes the same branches.\<close>

lemma html_plain [simp]: "c \<notin> {60, 62, 38, 8232, 8233} \<Longrightarrow> html_unit c = [c]"
  by (simp add: html_unit_def)

lemma html_head: "html_unit c = [c] \<or> html_unit c = u_escape c \<and> c \<in> {60, 62, 38, 8232, 8233}"
  by (simp add: html_unit_def)

lemma skip_ws_html: "skip_ws (html_escape s) = html_escape (skip_ws s)"
proof (induction s)
  case (Cons c s)
  then show ?case
    using html_head [of c] by (auto simp: u_escape_def)
qed simp

lemma html_Nil [simp]: "html_escape t = [] \<longleftrightarrow> t = []" "[] = html_escape t \<longleftrightarrow> t = []"
  by (cases t; auto simp: html_unit_def u_escape_def)+

lemma hex_value_plain: "hex_value c = Some n \<Longrightarrow> html_unit c = [c]"
  by (rule html_plain) (auto simp: hex_value_def)

lemma read_hex4_html: "read_hex4 s = Some (x, r) \<Longrightarrow> read_hex4 (html_escape s) = Some (x, html_escape r)"
  by (auto simp: read_hex4_def hex_value_plain split: list.splits option.splits)

lemma simple_escape_plain: "simple_escape e = Some x \<Longrightarrow> html_unit e = [e]"
  by (rule html_plain) (auto simp: simple_escape_def split: if_splits)

lemma read_chars_html: "read_chars s = Some (x, r) \<Longrightarrow> read_chars (html_escape s) = Some (x, html_escape r)"
proof (induction s arbitrary: x r rule: read_chars.induct)
  case (2 c s)
  consider "c = 34" | "c = 92" | "c \<noteq> 34" "c \<noteq> 92" "\<not> c < 32"
    using 2(4) by (auto split: if_splits)
  then show ?case
  proof cases
    case 1
    then show ?thesis
      using 2(4) by simp
  next
    case 2
    then obtain e s' where s: "s = e # s'"
      using "2.prems" by (cases s) auto
    show ?thesis
    proof (cases "e = 117")
      case True
      then obtain z s'' x' where z: "read_hex4 s' = Some (z, s'')" "read_chars s'' = Some (x', r)" "x = z # x'"
        using "2.prems" 2 s by (auto split: option.splits)
      then have "read_chars (html_escape s'') = Some (x', html_escape r)"
        by (intro "2.IH"(1) [OF _ 2 s True z(1) refl]) (use 2 in simp_all)
      then show ?thesis
        using 2 s True z read_hex4_html [OF z(1)] by simp
    next
      case False
      then obtain z x' where z: "simple_escape e = Some z" "read_chars s' = Some (x', r)" "x = z # x'"
        using "2.prems" 2 s by (auto split: option.splits)
      then have "read_chars (html_escape s') = Some (x', html_escape r)"
        by (intro "2.IH"(2) [OF _ 2 s False z(1)]) (use 2 in simp_all)
      then show ?thesis
        using 2 s False z simple_escape_plain [OF z(1)] by simp
    qed
  next
    case 3
    then obtain x' where x: "x = c # x'" "read_chars s = Some (x', r)"
      using 2(4) by auto
    then have "read_chars (html_escape s) = Some (x', html_escape r)"
      using "2.IH"(3) 3 by blast
    then show ?thesis
      using x(1) 3 html_head [of c] by (elim disjE) (simp_all add: read_chars_u_escape)
  qed
qed simp

lemma takeWhile_html: "takeWhile num_char (html_escape s) = takeWhile num_char s"
  and dropWhile_html: "dropWhile num_char (html_escape s) = html_escape (dropWhile num_char s)"
proof (induction s)
  case (Cons c s)
  have special: "c \<in> {60, 62, 38, 8232, 8233} \<Longrightarrow> \<not> num_char c" "\<not> num_char 92"
    by (auto simp: num_char_def is_digit16_def)
  {
    case 1
    show ?case
      using Cons html_head [of c] special by (auto simp: u_escape_def)
  next
    case 2
    show ?case
      using Cons html_head [of c] special by (auto simp: u_escape_def)
  }
qed simp_all

lemma read_number_html: "read_number s = Some (v, r) \<Longrightarrow> read_number (html_escape s) = Some (v, html_escape r)"
  by (auto simp: read_number_def takeWhile_html dropWhile_html Let_def split: if_splits)

lemma html_escape_id: "list_all (\<lambda>c. c \<notin> {60, 62, 38, 8232, 8233}) t \<Longrightarrow> html_escape t = t"
  by (induction t) simp_all

lemma read_word_html:
  assumes "read_word w v s = Some (v', r)" and "html_escape (js w) = js w"
  shows "read_word w v (html_escape s) = Some (v', html_escape r)"
proof -
  have w: "take (length w) s = js w" "r = drop (length w) s" "v' = v"
    using assms(1) by (simp_all add: read_word_def split: if_splits)
  then have "s = js w @ r"
    by (metis append_take_drop_id)
  then have s: "s = js w @ r" "v' = v" "length (js w) = length w"
    using w(3) by (simp_all add: js_def)
  then show ?thesis
    using assms(2) by (simp add: read_word_def)
qed

lemma html_words: "html_escape (js ''null'') = js ''null''" "html_escape (js ''true'') = js ''true''"
  "html_escape (js ''false'') = js ''false''"
  by (rule html_escape_id; simp add: js_def)+

lemma next_is_html: "c \<notin> {60, 62, 38, 92, 8232, 8233} \<Longrightarrow> next_is c (html_escape s) \<longleftrightarrow> next_is c s"
  by (cases s) (use html_head [of "hd s"] in \<open>auto simp: u_escape_def html_unit_def\<close>)

lemma tl_html: "next_is c s \<Longrightarrow> c \<notin> {60, 62, 38, 8232, 8233} \<Longrightarrow> tl (html_escape s) = html_escape (tl s)"
  by (cases s) auto

lemma html_Cons: "c \<notin> {60, 62, 38, 8232, 8233} \<Longrightarrow> html_escape (c # s) = c # html_escape s"
  by simp

text \<open>What a value starts with is none of the escaped characters.\<close>

lemma value_head:
  assumes "read_value n s = Some x" and "skip_ws s = c # t"
  shows "c \<notin> {60, 62, 38, 8232, 8233}"
proof
  assume c: "c \<in> {60, 62, 38, 8232, 8233}"
  then have "\<not> num_char c"
    by (auto simp: num_char_def is_digit16_def)
  then have "read_number (c # t) = None"
    by (simp add: read_number_def number_literal_def)
  then show False
    using assms c by (cases n) auto
qed

lemma readers_html:
  "read_value n s = Some (v, r) \<Longrightarrow> read_value n (html_escape s) = Some (v, html_escape r)"
  "read_elems n s = Some (vs, r) \<Longrightarrow> read_elems n (html_escape s) = Some (vs, html_escape r)"
  "read_members n ps s = Some (v, r) \<Longrightarrow> read_members n ps (html_escape s) = Some (v, html_escape r)"
proof (induction n s and n s and n ps s arbitrary: v r and vs r and v r rule: read_value_read_elems_read_members.induct)
  case (2 n s)
  obtain c t where s: "skip_ws s = c # t"
    using 2(3) by (auto split: list.splits)
  have c: "c \<notin> {60, 62, 38, 8232, 8233}"
    by (rule value_head [OF 2(3) s])
  then have hs: "skip_ws (html_escape s) = c # html_escape t"
    by (simp add: skip_ws_html s)
  have skips: "skip_ws (html_escape t) = html_escape (skip_ws t)"
    by (rule skip_ws_html)
  consider "c = 34" | "c = 91" | "c = 123" | "c \<notin> {34, 91, 123}"
    by auto
  then show ?case
  proof cases
    case 1
    then show ?thesis
      using 2(3) s hs by (auto dest: read_chars_html)
  next
    case arr: 2
    show ?thesis
    proof (cases "next_is 93 (skip_ws t)")
      case True
      then show ?thesis
        using 2(3) s hs arr by (auto simp: skips next_is_html tl_html)
    next
      case False
      then obtain xs where "read_elems n t = Some (xs, r)" "v = Arr xs"
        using 2(3) s arr by auto
      then show ?thesis
        using 2(1) [OF s, of xs r] False arr hs by (simp add: skips next_is_html)
    qed
  next
    case obj: 3
    show ?thesis
    proof (cases "next_is 125 (skip_ws t)")
      case True
      then show ?thesis
        using 2(3) s hs obj by (auto simp: skips next_is_html tl_html)
    next
      case False
      then show ?thesis
        using 2(2) [OF s, of v r] 2(3) s obj hs by (simp add: skips next_is_html)
    qed
  next
    case 4
    then show ?thesis
      using 2(3) s hs c read_word_html [of _ _ "c # t" v r] read_number_html [of "c # t" v r] html_words
      by (auto split: if_splits)
  qed
next
  case (4 n s)
  obtain v c t r' where v: "read_value n s = Some (v, t)" "skip_ws t = c # r'"
    using 4(3) by (auto split: option.splits list.splits)
  have c: "c = 44 \<or> c = 93"
    using 4(3) v by (auto split: if_splits)
  then have hs: "skip_ws (html_escape t) = c # html_escape r'"
    by (auto simp: skip_ws_html v)
  have first: "read_value n (html_escape s) = Some (v, html_escape t)"
    by (rule 4(1) [OF v(1)])
  show ?case
  proof (cases "c = 44")
    case True
    then obtain ws where "read_elems n r' = Some (ws, r)" "vs = v # ws"
      using 4(3) v by auto
    then show ?thesis
      using 4(2) [OF v(1) refl v(2) True, of ws r] first hs True by simp
  next
    case False
    then show ?thesis
      using 4(3) v c first hs by simp
  qed
next
  case (6 n ps s)
  obtain q t where s: "skip_ws s = q # t" "q = 34"
    using 6(3) by (auto split: list.splits if_splits)
  obtain k t1 where k: "read_chars t = Some (k, t1)"
    using 6(3) s by (auto split: option.splits)
  obtain e t2 where e: "skip_ws t1 = e # t2" "e = 58"
    using 6(3) s k by (auto split: list.splits if_splits)
  obtain w t3 where w: "read_value n t2 = Some (w, t3)"
    using 6(3) s k e by (auto split: option.splits)
  obtain d t4 where d: "skip_ws t3 = d # t4"
    using 6(3) s k e w by (auto split: list.splits)
  have dd: "d = 44 \<or> d = 125"
    using 6(3) s k e w d by (auto split: if_splits)
  have first: "read_value n (html_escape t2) = Some (w, html_escape t3)"
    by (rule 6(1) [OF s(1) _ k refl e(1) _ w]) (simp_all add: s e)
  have hs: "skip_ws (html_escape s) = 34 # html_escape t" "skip_ws (html_escape t1) = 58 # html_escape t2"
    "skip_ws (html_escape t3) = d # html_escape t4"
    using dd by (auto simp: skip_ws_html s e d)
  have more: "read_members n (put_prop k w ps) (html_escape t4) = Some (v, html_escape r)" if "d = 44"
    by (rule 6(2) [OF s(1) _ k refl e(1) _ w refl d that]) (use 6(3) s k e w d that in simp_all)
  show ?case
    using 6(3) s k e w d dd first hs read_chars_html [OF k] more by (auto split: if_splits)
qed simp_all

lemma JSON_parse_html:
  assumes "JSON_parse message t = Inr v"
  shows "JSON_parse message' (html_escape t) = Inr v"
proof -
  obtain n r where r: "read_value n t = Some (v, r)" "skip_ws r = []"
    using assms unfolding JSON_parse_accepts by blast
  then have "skip_ws (html_escape r) = []"
    by (simp add: skip_ws_html)
  with readers_html(1) [OF r(1)] show ?thesis
    unfolding JSON_parse_accepts by blast
qed

end
