(* ===== verification/Go_Server.thy ===== *)
theory Go_Server
  imports Bareclaw_Spec Reference_Encoding Json_Reader
begin

text \<open>
  The agent process: the handlers of src/go/pkg/server/server.go and the session dump of
  src/go/pkg/server/state.go, as far as src/index.js relies on them.  The agent loop, its
  message type and the key builder are picoclaw's: the loop and the builder are arguments, a
  message is any JSON value.
\<close>

section \<open>Session dumps\<close>

text \<open>\<open>sessionDump\<close>: the summary is left out when it is empty.  The text is Go's, not JavaScript's.\<close>

definition session_dump :: "jsval list \<Rightarrow> jsstring \<Rightarrow> jsval" where
  "session_dump history summary =
     Obj ((js ''h'', Arr history) # (if summary = [] then [] else [(js ''s'', Str summary)]))"

definition marshalSession :: "b4a \<Rightarrow> jsval list \<Rightarrow> jsstring \<Rightarrow> bytes" where
  "marshalSession b history summary =
     (case json_text (session_dump history summary) of None \<Rightarrow> [] | Some t \<Rightarrow> b4a_from b (html_escape t))"

text \<open>
  A missing or null history is empty, a missing or null summary is the empty string, and the JSON
  \<open>null\<close> is an empty dump.  Names are matched exactly.
\<close>

definition unmarshalSession :: "b4a \<Rightarrow> bytes \<Rightarrow> (jsval list \<times> jsstring) result" where
  "unmarshalSession b data =
     rbind (JSON_parse id (b4a_toString b data)) (\<lambda>dump.
       case (dump, field dump (js ''h''), field dump (js ''s'')) of
         (Obj ps, h, s) \<Rightarrow>
           (case (h, s) of
              (Arr xs, Str t) \<Rightarrow> Inr (xs, t)
            | (Arr xs, Undef) \<Rightarrow> Inr (xs, [])
            | (Arr xs, Null) \<Rightarrow> Inr (xs, [])
            | (Undef, Str t) \<Rightarrow> Inr ([], t)
            | (Undef, Undef) \<Rightarrow> Inr ([], [])
            | (Undef, Null) \<Rightarrow> Inr ([], [])
            | (Null, Str t) \<Rightarrow> Inr ([], t)
            | (Null, Undef) \<Rightarrow> Inr ([], [])
            | (Null, Null) \<Rightarrow> Inr ([], [])
            | _ \<Rightarrow> Inl (ErrorObj (js ''json: cannot unmarshal'')))
       | (Null, _, _) \<Rightarrow> Inr ([], [])
       | _ \<Rightarrow> Inl (ErrorObj (js ''json: cannot unmarshal'')))"

section \<open>The server\<close>

text \<open>
  A tool registered from JavaScript (\<open>jsTool\<close>; its \<open>server\<close> is the state it is called in).  The
  server: the sessions of the default agent (an unknown one is empty), the keys that have been
  saved, the tools handed to the loop in order, the counter of call ids, and the chunks sent on
  the open response stream and not yet read.
\<close>

record jstool =
  jt_name :: jsstring
  jt_description :: jsstring
  jt_params :: jsval

record goserver =
  gs_agent :: bool
  gs_sessions :: "jsstring \<Rightarrow> jsval list \<times> jsstring"
  gs_keys :: "jsstring list"
  gs_tools :: "jstool list"
  gs_calls :: "64 word"
  gs_sent :: "bytes list"

text \<open>
  What the server is built over: the key builder, a turn of the agent loop (its answer or error,
  what it streamed, and the session it leaves), and the error of the model provider.
\<close>

record picoclaw =
  pc_key :: "jsstring \<Rightarrow> jsstring \<Rightarrow> jsstring \<Rightarrow> jsstring \<Rightarrow> jsstring"
  pc_turn :: "jsstring \<Rightarrow> jsval list \<times> jsstring \<Rightarrow> (jsstring, jsstring) sum \<times> jsstring list \<times> (jsval list \<times> jsstring)"
  pc_provider_error :: "jsstring option"

text \<open>An optional string field that was not sent is Go's empty string.\<close>

fun go_string :: "jsval \<Rightarrow> jsstring" where
  "go_string (Str s) = s"
| "go_string _ = []"

definition go_SessionCreate :: "picoclaw \<Rightarrow> goserver handler" where
  "go_SessionCreate pc arg s =
     (let scope = request_arg arg
      in (Inr (key_msg (pc_key pc (go_string (field scope (js ''agentId''))) (go_string (field scope (js ''channel'')))
            (go_string (field scope (js ''account''))) (go_string (field scope (js ''peer''))))), s))"

definition no_agent :: "goserver \<Rightarrow> jsval result \<times> goserver" where
  "no_agent s = (Inl (ErrorObj (js ''no default agent'')), s)"

definition go_SessionList :: "goserver handler" where
  "go_SessionList arg s =
     (if gs_agent s then (Inr (Obj [(js ''keys'', Arr (map Str (gs_keys s)))]), s) else no_agent s)"

definition go_SessionExport :: "b4a \<Rightarrow> goserver handler" where
  "go_SessionExport b arg s =
     (if gs_agent s
      then let key = go_string (field (request_arg arg) (js ''key'')); (history, summary) = gs_sessions s key
           in (Inr (blob_msg key (marshalSession b history summary)), s)
      else no_agent s)"

text \<open>The text of an error of Go's library, where the model has one.\<close>

fun go_err :: "thrown \<Rightarrow> jsstring" where
  "go_err (ErrorObj m) = m"
| "go_err (SyntaxError m) = m"
| "go_err _ = []"

text \<open>\<open>restore\<close>: unmarshal, then set history and summary and save.\<close>

definition go_restore :: "b4a \<Rightarrow> jsval \<Rightarrow> goserver \<Rightarrow> jsval result \<times> goserver" where
  "go_restore b blob s =
     (let key = go_string (field blob (js ''key''))
      in case unmarshalSession b (buf_of (field blob (js ''data''))) of
           Inl e \<Rightarrow> (Inl (ErrorObj (js ''session '' @ key @ js '': '' @ go_err e)), s)
         | Inr (history, summary) \<Rightarrow>
             (Inr (Obj []), s\<lparr>gs_sessions := (gs_sessions s)(key := (history, summary)),
                gs_keys := set_add key (gs_keys s)\<rparr>))"

definition go_SessionImport :: "b4a \<Rightarrow> goserver handler" where
  "go_SessionImport b arg s = (if gs_agent s then go_restore b (request_arg arg) s else no_agent s)"

definition go_StateExport :: "b4a \<Rightarrow> goserver handler" where
  "go_StateExport b arg s =
     (if gs_agent s
      then (Inr (Obj [(js ''sessions'', Arr (map (\<lambda>key. case gs_sessions s key of (history, summary) \<Rightarrow>
              blob_msg key (marshalSession b history summary)) (gs_keys s)))]), s)
      else no_agent s)"

definition go_StateImport :: "b4a \<Rightarrow> goserver handler" where
  "go_StateImport b arg s =
     (if gs_agent s
      then (case for_each (\<lambda>blob. andthen (go_restore b blob) (\<lambda>_. ret ()))
              (arr_of (field (request_arg arg) (js ''sessions''))) s of
              (Inl e, s) \<Rightarrow> (Inl e, s)
            | (Inr _, s) \<Rightarrow> (Inr (Obj []), s))
      else no_agent s)"

text \<open>
  \<open>Chat\<close>: the chunks of a turn.  Without a model, one error chunk; an error of the turn is an
  error chunk after what was streamed; a turn that streamed nothing delivers its text once; a
  turn that succeeds ends with a done chunk.
\<close>

definition chunk :: "string \<Rightarrow> jsstring \<Rightarrow> jsval" where
  "chunk type content = Obj [(js ''type'', Str (js type)), (js ''content'', Str content)]"

definition go_chunks :: "(jsstring, jsstring) sum \<Rightarrow> jsstring list \<Rightarrow> jsval list" where
  "go_chunks r streamed =
     map (chunk ''content'') streamed @
     (case r of
        Inl err \<Rightarrow> [chunk ''error'' err]
      | Inr response \<Rightarrow>
          (if streamed = [] then [chunk ''content'' response] else []) @ [chunk ''done'' []])"

definition go_Chat :: "picoclaw \<Rightarrow> (jsval \<Rightarrow> bytes) \<Rightarrow> goserver handler" where
  "go_Chat pc enc arg s =
     (let request = (case arg of HStream p v \<Rightarrow> v | _ \<Rightarrow> Undef);
          key = go_string (field request (js ''sessionId''))
      in case pc_provider_error pc of
           Some e \<Rightarrow> (Inr Undef, s\<lparr>gs_sent := map enc [chunk ''error'' (js ''no model: '' @ e)]\<rparr>)
         | None \<Rightarrow>
             (case pc_turn pc (go_string (field request (js ''message''))) (gs_sessions s key) of
                (r, streamed, left) \<Rightarrow>
                  (Inr Undef, s\<lparr>gs_sent := map enc (go_chunks r streamed),
                     gs_sessions := (gs_sessions s)(key := left), gs_keys := set_add key (gs_keys s),
                     gs_calls := gs_calls s + 1\<rparr>)))"

text \<open>
  \<open>ToolRegister\<close>: a schema that was not sent leaves the parameters a nil map, and so does the JSON
  \<open>null\<close>; JSON other than an object is refused.
\<close>

definition go_params :: "b4a \<Rightarrow> bytes \<Rightarrow> jsval result" where
  "go_params b inputSchema =
     (if inputSchema = [] then Inr Null
      else rbind (JSON_parse id (b4a_toString b inputSchema)) (\<lambda>v.
        case v of Obj ps \<Rightarrow> Inr v | Null \<Rightarrow> Inr v | _ \<Rightarrow> Inl (ErrorObj (js ''json: cannot unmarshal''))))"

definition go_ToolRegister :: "b4a \<Rightarrow> goserver handler" where
  "go_ToolRegister b arg s =
     (let def = request_arg arg
      in case go_params b (buf_of (field def (js ''inputSchema''))) of
           Inl e \<Rightarrow> (Inl (ErrorObj (js ''bad inputSchema JSON: '' @ go_err e)), s)
         | Inr params \<Rightarrow>
             (Inr (Obj []), s\<lparr>gs_tools := gs_tools s @ [\<lparr>jt_name = go_string (field def (js ''name'')),
                jt_description = go_string (field def (js ''description'')), jt_params = params\<rparr>]\<rparr>))"

definition go_handlers :: "picoclaw \<Rightarrow> b4a \<Rightarrow> (jsval \<Rightarrow> bytes) \<Rightarrow> goserver handlers" where
  "go_handlers pc b enc =
     onChat (go_Chat pc enc) (onSessionCreate (go_SessionCreate pc) (onSessionList go_SessionList
     (onSessionExport (go_SessionExport b) (onSessionImport (go_SessionImport b)
     (onStateExport (go_StateExport b) (onStateImport (go_StateImport b)
     (onToolRegister (go_ToolRegister b) no_handlers)))))))"

end
