(* ===== verification/Go_World.thy ===== *)
theory Go_World
  imports Go_Server
begin

text \<open>
  The environment of src/index.js put together from models: the agent of Go_Server behind the
  generated RPC classes of both sides (over a link, with the real wire format and UTF-8) and
  the ordered list as a store.  It interprets \<open>claw_env\<close>.
\<close>

section \<open>Texts of values are well formed\<close>

lemma hex_digit_small: "n < 16 \<Longrightarrow> hex_digit n < 255"
  by (rule below16) (simp add: hex_digit_def)

lemma wf16_u_escape: "wf16 (u_escape c)"
  using u16_top_digit [of c] by (intro wf16_small) (simp add: u_escape_def hex_digit_small)

lemma wf16_escape: "\<not> is_high c \<Longrightarrow> \<not> is_low c \<Longrightarrow> wf16 (escape_unit c)"
  using wf16_u_escape [of c] by (auto simp: escape_unit_def is_high_def is_low_def)

lemma wf16_Cons: "\<not> is_high c \<Longrightarrow> \<not> is_low c \<Longrightarrow> wf16 s \<Longrightarrow> wf16 (c # s)"
  by (cases s) auto

lemma wf16_quote_chars: "wf16 (quote_chars s)"
  by (induction s rule: quote_chars.induct)
    (auto simp: wf16_u_escape wf16_escape intro!: wf16_append)

lemma ascii_not_surrogate: "u < 255 \<Longrightarrow> wf16 s \<Longrightarrow> wf16 ((u :: 16 word) # s)"
  using small_not_surrogate wf16_Cons by blast

lemma wf16_quote_string: "wf16 (quote_string s)"
  by (simp add: quote_string_def ascii_not_surrogate wf16_append wf16_quote_chars is_high_def is_low_def)

lemma wf16_commas: "\<forall>t \<in> set ts. wf16 t \<Longrightarrow> wf16 (commas ts)"
  by (induction ts rule: commas.induct) (auto intro!: wf16_append ascii_not_surrogate)

lemma num_char_small: "num_char u \<Longrightarrow> u < 255"
  by (auto simp: num_char_def is_digit16_def word_le_nat_alt word_less_nat_alt)

lemma wf16_numeric: "list_all num_char t \<Longrightarrow> wf16 t"
  by (rule wf16_small) (auto simp: list_all_iff num_char_small)

lemma wf16_words: "wf16 (js ''null'')" "wf16 (js ''true'')" "wf16 (js ''false'')"
  by (rule wf16_small; simp add: js_def)+

lemma json_text_wf16: "json_ok v \<Longrightarrow> json_text v = Some t \<Longrightarrow> wf16 t"
proof (induction v arbitrary: t rule: json_ok.induct)
  case (2 i)
  then show ?case
    using int_text_literal [of i] wf16_numeric by auto
next
  case (3 t)
  then show ?case
    using read_number_whole [of t "Dbl t"] wf16_numeric by auto
next
  case (5 xs)
  have "wf16 (the (json_text v))" if "v \<in> set xs" for v
    using that 5 json_ok_text [of v] by fastforce
  then have "wf16 (commas (map (\<lambda>v. the (json_text v)) xs))"
    by (intro wf16_commas) auto
  then show ?case
    using 5 json_elems_text [of xs] by (auto intro!: ascii_not_surrogate wf16_append simp: is_high_def is_low_def simp del: map_eq_conv)
next
  case (6 ps)
  then have ok: "\<forall>p \<in> set ps. json_ok (snd p)"
    by simp
  have "wf16 (member_text p)" if "p \<in> set ps" for p
    using 6(1) [of p] that ok json_ok_text [of "snd p"]
    by (auto simp: member_text_def intro!: wf16_append wf16_quote_string ascii_not_surrogate)
  then have "wf16 (commas (map member_text ps))"
    by (intro wf16_commas) auto
  then show ?case
    using 6 json_members_text [OF ok] by (auto intro!: ascii_not_surrogate wf16_append simp: is_high_def is_low_def)
qed (auto simp: wf16_quote_string wf16_words)

section \<open>Dumps\<close>

lemma html_surrogate: "is_high c \<or> is_low c \<Longrightarrow> html_unit c = [c]"
  by (rule html_plain) (auto simp: is_high_def is_low_def)

lemma wf16_html: "wf16 s \<Longrightarrow> wf16 (html_escape s)"
proof (induction s rule: wf16.induct)
  case (2 c)
  then show ?case
    by (simp add: html_unit_def wf16_u_escape)
next
  case (3 c d s)
  show ?case
  proof (cases "is_high c")
    case True
    then show ?thesis
      using 3 by (simp add: html_surrogate)
  next
    case False
    then show ?thesis
      using 3 wf16_u_escape by (simp add: wf16_append html_unit_def)
  qed
qed simp

text \<open>The length of a dump, from that of its text.\<close>

lemma marshal_length:
  assumes "json_text (session_dump h s) = Some t"
  shows "length (marshalSession utf8_b4a h s) \<le> 24 * length t"
  using length_utf8 [of "html_escape t"] length_html_escape [of t] assms by (simp add: marshalSession_def utf8_b4a_def)

lemma json_ok_session_dump: "json_ok (session_dump h s) \<longleftrightarrow> (\<forall>m \<in> set h. json_ok m)"
  by (auto simp: session_dump_def props_ok_def is_index_def js_def is_digit16_def)

text \<open>A session whose dump fits a frame of the wire.\<close>

definition session_fits :: "b4a \<Rightarrow> jsval list \<times> jsstring \<Rightarrow> bool" where
  "session_fits b ses \<longleftrightarrow> (\<forall>m \<in> set (fst ses). json_ok m) \<and> length (marshalSession b (fst ses) (snd ses)) < 2 ^ 32"

definition is_dump :: "b4a \<Rightarrow> bytes \<Rightarrow> bool" where
  "is_dump b d \<longleftrightarrow> (\<exists>ses. session_fits b ses \<and> d = marshalSession b (fst ses) (snd ses))"

context text_encoding
begin

lemma unmarshal_marshal:
  assumes "\<forall>m \<in> set h. json_ok m"
  shows "unmarshalSession b (marshalSession b h s) = Inr (h, s)" and "marshalSession b h s \<noteq> []"
proof -
  have ok: "json_ok (session_dump h s)"
    using assms json_ok_session_dump by blast
  obtain t where t: "json_text (session_dump h s) = Some t" "starts t"
    using json_ok_text [OF ok] by blast
  have read: "b4a_toString b (b4a_from b (html_escape t)) = html_escape t"
    using json_text_wf16 [OF ok t(1)] by (intro toString_from wf16_html)
  show "unmarshalSession b (marshalSession b h s) = Inr (h, s)"
    using JSON_parse_html [OF JSON_parse_text [OF ok t(1)]] by (simp add: unmarshalSession_def marshalSession_def t(1) read)
      (simp add: session_dump_def)
  show "marshalSession b h s \<noteq> []"
    using read t(2) from_Nil toString_from [of "[]"] by (auto simp: marshalSession_def t(1) starts_def)
qed

end

section \<open>The agent behind the generated RPC classes\<close>

definition go_encode :: "jsval \<Rightarrow> bytes" where
  "go_encode v = (case c_encode ref_cenc (encoding3 ref_cenc) v of Inl e \<Rightarrow> [] | Inr bs \<Rightarrow> bs)"

definition go_fresh :: goserver where
  "go_fresh = \<lparr>gs_agent = True, gs_sessions = (\<lambda>_. ([], [])), gs_keys = [], gs_tools = [], gs_calls = 0,
     gs_sent = []\<rparr>"

abbreviation go_hs :: "picoclaw \<Rightarrow> goserver handlers" where
  "go_hs pc \<equiv> go_handlers pc utf8_b4a go_encode"

text \<open>Reading the response stream takes the chunks in the order they were sent.\<close>

definition go_next :: "nat \<Rightarrow> goserver link \<Rightarrow> (jsval option) result \<times> goserver link" where
  "go_next s w =
     (case gs_sent (lk_peer w) of
        [] \<Rightarrow> (Inr None, w)
      | bs # rest \<Rightarrow>
          (map_sum id Some (c_decode ref_cenc (encoding3 ref_cenc) bs),
           w\<lparr>lk_peer := (lk_peer w)\<lparr>gs_sent := rest\<rparr>\<rparr>))"

definition go_env_closed :: "picoclaw \<Rightarrow> (goserver link, entries, 'a) env" where
  "go_env_closed pc = \<lparr>e_c = ref_cenc, e_rpc = link_lib (on_request ref_cenc (go_hs pc)), e_next = go_next,
     e_end = (\<lambda>s w. w\<lparr>lk_peer := (lk_peer w)\<lparr>gs_sent := []\<rparr>\<rparr>),
     e_start = (\<lambda>args w. (Inr (), link_start go_fresh)), e_pipe_end = (\<lambda>w. ([ProcExit], w)),
     e_bee = list_bee, e_bee_ready = Pair (Inr ()), e_bee_close = Pair (Inr ()), e_b4a = utf8_b4a,
     e_ready = (\<lambda>st. (Inl TypeError, st)), e_syntax = id, e_type = js ''TypeError''\<rparr>"

text \<open>\<open>ready\<close> runs \<open>_open\<close> and then marks the instance open.\<close>

definition go_env :: "picoclaw \<Rightarrow> (goserver link, entries, 'a) env" where
  "go_env pc = (go_env_closed pc)\<lparr>e_ready := (\<lambda>st. case claw_open (go_env_closed pc) st of
       (Inl e, st) \<Rightarrow> (Inl e, st) | (Inr _, st) \<Rightarrow> (Inr (), st\<lparr>cl_opened := True\<rparr>))\<rparr>"

lemma go_env_simps [simp]:
  "e_c (go_env pc) = ref_cenc" "e_rpc (go_env pc) = link_lib (on_request ref_cenc (go_hs pc))"
  "e_next (go_env pc) = go_next" "e_end (go_env pc) s w = w\<lparr>lk_peer := (lk_peer w)\<lparr>gs_sent := []\<rparr>\<rparr>"
  "e_start (go_env pc) args w = (Inr (), link_start go_fresh)" "e_pipe_end (go_env pc) w = ([ProcExit], w)"
  "e_bee (go_env pc) = list_bee" "e_bee_ready (go_env pc) b = (Inr (), b)" "e_bee_close (go_env pc) b = (Inr (), b)"
  "e_b4a (go_env pc) = utf8_b4a" "e_syntax (go_env pc) = id" "e_type (go_env pc) = js ''TypeError''"
  by (simp_all add: go_env_def go_env_closed_def)

text \<open>The agent is there and every session's dump fits the wire.\<close>

definition go_up :: "goserver link \<Rightarrow> bool" where
  "go_up w \<longleftrightarrow> gs_agent (lk_peer w) \<and> (\<forall>k. session_fits utf8_b4a (gs_sessions (lk_peer w) k))"

definition go_dump :: "goserver link \<Rightarrow> jsstring \<Rightarrow> bytes" where
  "go_dump w k = marshalSession utf8_b4a (fst (gs_sessions (lk_peer w) k)) (snd (gs_sessions (lk_peer w) k))"

text \<open>What the server relies on: keys that can be sent, turns that keep sessions sendable.\<close>

definition picoclaw_ok :: "picoclaw \<Rightarrow> bool" where
  "picoclaw_ok pc \<longleftrightarrow> (\<forall>a b c d. key_ok (pc_key pc a b c d)) \<and>
     (\<forall>m ses. session_fits utf8_b4a ses \<longrightarrow> session_fits utf8_b4a (snd (snd (pc_turn pc m ses))))"

lemma go_handlers_at:
  "go_hs pc (Str (js ''@bareclaw/chat'')) = Some (go_Chat pc go_encode)"
  "go_hs pc (Str (js ''@bareclaw/session-create'')) = Some (go_SessionCreate pc)"
  "go_hs pc (Str (js ''@bareclaw/session-list'')) = Some go_SessionList"
  "go_hs pc (Str (js ''@bareclaw/session-export'')) = Some (go_SessionExport utf8_b4a)"
  "go_hs pc (Str (js ''@bareclaw/session-import'')) = Some (go_SessionImport utf8_b4a)"
  "go_hs pc (Str (js ''@bareclaw/tool-register'')) = Some (go_ToolRegister utf8_b4a)"
  by (simp_all add: go_handlers_def onChat_def onSessionCreate_def onSessionList_def onSessionExport_def
    onSessionImport_def onStateExport_def onStateImport_def onToolRegister_def set_handler_def)

lemma handed_session:
  "handed ref_fmt (js ''@bareclaw/session-key'') (key_msg k) = key_msg k"
  "d \<noteq> [] \<Longrightarrow> handed ref_fmt (js ''@bareclaw/session-blob'') (blob_msg k d) = blob_msg k d"
  by (simp_all add: handed_def schema_session_key schema_session_blob key_msg_def blob_msg_def ref_fmt_def
    lengthed_def ref_uint_def)

lemma session_messages_ok:
  "key_ok k \<Longrightarrow> ty_ok schema_depth ref_fmt (js ''@bareclaw/session-key'') (key_msg k)"
  "key_ok k \<Longrightarrow> d \<noteq> [] \<Longrightarrow> length d < 2 ^ 32 \<Longrightarrow>
    ty_ok schema_depth ref_fmt (js ''@bareclaw/session-blob'') (blob_msg k d)"
  by (simp_all add: schema_session_key schema_session_blob key_msg_def blob_msg_def key_ok_def)

lemma session_messages_got:
  "ty_got schema_depth (js ''@bareclaw/session-key'') (key_msg k) = key_msg k"
  "d \<noteq> [] \<Longrightarrow> ty_got schema_depth (js ''@bareclaw/session-blob'') (blob_msg k d) = blob_msg k d"
  by (simp_all add: schema_session_key schema_session_blob key_msg_def blob_msg_def)

lemma rpc_at:
  "rpc_unary (build_rpcs ! 1)" "rpc_unary (build_rpcs ! 2)" "rpc_unary (build_rpcs ! 3)" "rpc_unary (build_rpcs ! 4)"
  by (simp_all add: rpc_unary_def build_rpcs_def unary_rpc_def)

lemma go_export:
  assumes "go_up w" and "key_ok k"
  shows "\<exists>w'. sessionExport ref_cenc (link_lib (on_request ref_cenc (go_hs pc))) (key_msg k) w
      = (Inr (blob_msg k (go_dump w k)), w') \<and> lk_peer w' = lk_peer w"
proof -
  have fits: "session_fits utf8_b4a (gs_sessions (lk_peer w) k)"
    using assms(1) by (simp add: go_up_def)
  then have dump: "go_dump w k \<noteq> []" "length (go_dump w k) < 2 ^ 32"
    using utf8_text.unmarshal_marshal(2) by (simp_all add: session_fits_def go_dump_def)
  have served: "go_SessionExport utf8_b4a (HRequest (handed ref_fmt (rpc_request (build_rpcs ! 3)) (key_msg k))) (lk_peer w)
      = (Inr (blob_msg k (go_dump w k)), lk_peer w)"
    using assms(1) handed_session(1)
    by (simp add: go_SessionExport_def go_up_def go_dump_def build_rpcs_def unary_rpc_def key_msg_def case_prod_beta Let_def)
  show ?thesis
    using link_pair.call_returns_answer [of "build_rpcs ! 3" "js ''@bareclaw/session-blob''"
        "''@bareclaw/session-export''" "key_msg k" "go_hs pc" "go_SessionExport utf8_b4a" w, OF rpc_at(3) _ _ _ _ served]
      session_messages_ok(1) [OF assms(2)] session_messages_ok(2) [OF assms(2) dump] session_messages_got(2) [OF dump(1)]
    by (simp add: sessionExport_def build_rpcs_def unary_rpc_def go_handlers_at)
qed

lemma go_import:
  assumes "go_up w" and "key_ok k" and "session_fits utf8_b4a ses"
    and d: "d = marshalSession utf8_b4a (fst ses) (snd ses)"
  shows "\<exists>w'. sessionImport ref_cenc (link_lib (on_request ref_cenc (go_hs pc))) (blob_msg k d) w = (Inr (Obj []), w')
      \<and> gs_agent (lk_peer w') \<and> gs_sessions (lk_peer w') = (gs_sessions (lk_peer w))(k := ses)"
proof -
  have ok: "\<forall>m \<in> set (fst ses). json_ok m" "length d < 2 ^ 32"
    using assms(3) d by (simp_all add: session_fits_def)
  then have dump: "d \<noteq> []" "unmarshalSession utf8_b4a d = Inr ses"
    using utf8_text.unmarshal_marshal [OF ok(1), of "snd ses"] d by simp_all
  let ?p = "(lk_peer w)\<lparr>gs_sessions := (gs_sessions (lk_peer w))(k := ses), gs_keys := set_add k (gs_keys (lk_peer w))\<rparr>"
  have served: "go_SessionImport utf8_b4a (HRequest (handed ref_fmt (rpc_request (build_rpcs ! 4)) (blob_msg k d))) (lk_peer w)
      = (Inr (Obj []), ?p)"
    using assms(1) handed_session(2) [OF dump(1), of k] dump(2)
    by (cases ses) (simp add: go_SessionImport_def go_restore_def go_up_def build_rpcs_def unary_rpc_def blob_msg_def)
  show ?thesis
    using link_pair.call_returns_answer [of "build_rpcs ! 4" "js ''@bareclaw/empty''"
        "''@bareclaw/session-import''" "blob_msg k d" "go_hs pc" "go_SessionImport utf8_b4a" w, OF rpc_at(4) _ _ _ _ served]
      session_messages_ok(2) [OF assms(2) dump(1) ok(2)] assms(1)
    by (force simp: sessionImport_def build_rpcs_def unary_rpc_def go_handlers_at schema_empty go_up_def)
qed

text \<open>The key \<open>SessionCreate\<close> builds from a scope.\<close>

definition scope_session :: "picoclaw \<Rightarrow> jsval \<Rightarrow> jsstring" where
  "scope_session pc scope = pc_key pc (go_string (field scope (js ''agentId''))) (go_string (field scope (js ''channel'')))
     (go_string (field scope (js ''account''))) (go_string (field scope (js ''peer'')))"

lemma go_create:
  assumes "picoclaw_ok pc" and ok: "ty_ok schema_depth f (js ''@bareclaw/session-scope'') scope"
  shows "\<exists>w'. sessionCreate ref_cenc (link_lib (on_request ref_cenc (go_hs pc))) scope w
      = (Inr (key_msg (scope_session pc scope)), w')
    \<and> key_ok (scope_session pc scope) \<and> lk_peer w' = lk_peer w"
proof -
  let ?v = "handed ref_fmt (rpc_request (build_rpcs ! 1)) scope" and ?k = "scope_session pc scope"
  have k: "key_ok ?k"
    using assms(1) by (simp add: picoclaw_ok_def scope_session_def)
  have untold: "\<not> truthy v \<Longrightarrow> go_string v = []" for v
    by (cases v) auto
  have "?v = ty_got schema_depth (js ''@bareclaw/session-scope'') scope"
    by (simp add: build_rpcs_def unary_rpc_def handed_def schema_session_scope ref_fmt_def ref_uint_def)
  then have "scope_session pc ?v = ?k"
    using untold by (simp add: scope_session_def schema_session_scope)
  then have served: "go_SessionCreate pc (HRequest ?v) (lk_peer w) = (Inr (key_msg ?k), lk_peer w)"
    by (simp add: go_SessionCreate_def scope_session_def Let_def)
  have "ty_ok schema_depth ref_fmt (rpc_request (build_rpcs ! 1)) scope"
    using ok by (simp add: build_rpcs_def unary_rpc_def schema_session_scope)
  from link_pair.call_returns_answer [of "build_rpcs ! 1" "js ''@bareclaw/session-key''"
        "''@bareclaw/session-create''" scope "go_hs pc" "go_SessionCreate pc" w, OF rpc_at(1) _ _ this _ served]
  show ?thesis
    using session_messages_ok(1) [OF k] session_messages_got(1) k
    by (simp add: sessionCreate_def build_rpcs_def unary_rpc_def go_handlers_at)
qed

lemma go_chat_up:
  assumes "picoclaw_ok pc" and "go_up w" and "hrpc_chat ref_cenc (link_lib (on_request ref_cenc (go_hs pc))) v w = (r, w')"
  shows "go_up w'"
proof -
  have fits: "session_fits utf8_b4a (snd (snd (pc_turn pc m (gs_sessions (lk_peer w) k))))" for m k
    using assms(1,2) unfolding picoclaw_ok_def go_up_def by blast
  let ?ok = "\<lambda>p. gs_agent p \<and> (\<forall>k. session_fits utf8_b4a (gs_sessions p k))"
  have peer: "?ok (lk_peer w)"
    using assms(2) by (simp add: go_up_def)
  have turn: "?ok (snd (go_Chat pc go_encode arg (lk_peer w)))" for arg
    using peer fits by (cases "pc_provider_error pc") (auto simp: go_Chat_def Let_def case_prod_beta)
  have served: "?ok (snd (on_request ref_cenc (go_hs pc) (Num 0) data (lk_peer w)))" for data
    using peer turn
    by (cases "request_of ref_cenc (requestEncodings ref_cenc (Str (js ''@bareclaw/chat''))) data")
      (simp_all add: on_request_def Let_def methods_get_number call_handler_def go_handlers_at complete_def)
  show ?thesis
    using assms(3) served peer
    by (auto simp: hrpc_chat_def hrpc_callSync_def methods_get_name link_simps Let_def go_up_def case_prod_beta
      split: sum.splits)
qed

lemma session_fits_empty: "session_fits utf8_b4a ([], [])"
proof -
  have "json_text (session_dump [] []) = Some (js ''{\"h\":[]}'')"
    by (simp add: session_dump_def quote_string_def js_def escape_unit_def is_high_def is_low_def)
  from marshal_length [OF this] show ?thesis
    by (simp add: session_fits_def js_def)
qed

lemma go_session_agent:
  assumes "picoclaw_ok pc"
  shows "session_agent ref_cenc (link_lib (on_request ref_cenc (go_hs pc))) go_up go_dump (is_dump utf8_b4a)"
proof (unfold_locales, goal_cases)
  case (1 w k)
  then show ?case
    using go_export [of w k pc] by (fastforce simp: go_up_def go_dump_def fun_eq_iff)
next
  case (2 w k d)
  then obtain ses where ses: "session_fits utf8_b4a ses" "d = marshalSession utf8_b4a (fst ses) (snd ses)"
    unfolding is_dump_def by blast
  obtain w' where "sessionImport ref_cenc (link_lib (on_request ref_cenc (go_hs pc))) (blob_msg k d) w = (Inr (Obj []), w')"
    "gs_agent (lk_peer w')" "gs_sessions (lk_peer w') = (gs_sessions (lk_peer w))(k := ses)"
    using go_import [OF 2(1,2) ses] by blast
  then show ?case
    using 2(1) ses by (auto simp: go_up_def go_dump_def fun_eq_iff)
next
  case (3 w f scope)
  then show ?case
    using go_create [OF assms 3(2), of w] by (fastforce simp: go_up_def go_dump_def fun_eq_iff)
next
  case (4 w k)
  then show ?case
    unfolding is_dump_def go_up_def go_dump_def by blast
next
  case (5 d)
  then show ?case
    using utf8_text.unmarshal_marshal(2) by (auto simp: is_dump_def session_fits_def)
qed

lemma go_claw_env:
  assumes "picoclaw_ok pc"
  shows "claw_env (go_env pc) go_up go_dump (is_dump utf8_b4a) (\<lambda>es. es) ordered
    (\<lambda>_. marshalSession utf8_b4a [] [])"
proof (rule claw_env.intro)
  show "session_agent (e_c (go_env pc)) (e_rpc (go_env pc)) go_up go_dump (is_dump utf8_b4a)"
    using go_session_agent [OF assms] by simp
  show "bee_store (e_bee (go_env pc)) (\<lambda>es. es) ordered"
    using list_bee.bee_store_axioms by simp
  show "text_encoding (e_b4a (go_env pc))"
    using utf8_text.text_encoding_axioms by simp
  show "claw_env_axioms (go_env pc) go_up go_dump (\<lambda>es. es) ordered (\<lambda>_. marshalSession utf8_b4a [] [])"
  proof (unfold_locales, goal_cases)
    case (1 w v r w')
    then show ?case
      using go_chat_up [OF assms] by simp
  next
    case (2 w s r' w')
    then show ?case
      by (auto simp: go_next_def go_up_def split: list.splits)
  next
    case (4 args w)
    then show ?case
      using session_fits_empty by (simp add: link_start_def go_fresh_def go_up_def go_dump_def fun_eq_iff)
  qed (auto simp: go_up_def)
qed

text \<open>
  An agent to evaluate with: it keeps the last message (cut to a size that fits) as the history
  and answers ok; its keys keep the plain characters of the peer.
\<close>

definition echo_key :: "jsstring \<Rightarrow> jsstring \<Rightarrow> jsstring \<Rightarrow> jsstring \<Rightarrow> jsstring" where
  "echo_key agentId channel account peer = js ''agent:'' @ take 64 (filter (\<lambda>u. u < 128 \<and> u \<noteq> 47) peer)"

definition echo_picoclaw :: picoclaw where
  "echo_picoclaw = \<lparr>pc_key = echo_key,
     pc_turn = (\<lambda>m ses. (Inr (js ''ok''), [], ([Str (take 1000 m)], []))),
     pc_provider_error = None\<rparr>"

lemma length_quote_chars: "length (quote_chars s) \<le> 6 * length s"
proof (induction s rule: quote_chars.induct)
  case (3 c d s)
  have "length (escape_unit c) \<le> 6" "length (u_escape c) = 6"
    by (simp_all add: escape_unit_def u_escape_def)
  with 3 show ?case
    by (cases "is_high c \<and> is_low d") auto
qed (simp_all add: escape_unit_def u_escape_def)

lemma echo_ok: "picoclaw_ok echo_picoclaw"
proof -
  have "wf16 (js ''agent:'' @ take 64 (filter (\<lambda>u. u < 128 \<and> u \<noteq> 47) peer))" for peer
    by (rule wf16_small) (auto simp: js_def list_all_iff dest!: in_set_takeD intro: less_trans)
  then have key: "key_ok (echo_key a b c d)" for a b c d
    by (simp add: key_ok_def echo_key_def)
  have fits: "session_fits utf8_b4a ([Str (take 1000 m)], [])" for m
  proof -
    let ?t = "js ''{\"h\":['' @ quote_string (take 1000 m) @ js '']}''"
    have "quote_string (js ''h'') = js ''\"h\"''"
      by (simp add: quote_string_def js_def escape_unit_def is_high_def is_low_def)
    then have "json_text (session_dump [Str (take 1000 m)] []) = Some ?t"
      by (simp add: session_dump_def) (simp add: js_def)
    moreover have "length ?t \<le> 6100"
      using length_quote_chars [of "take 1000 m"] by (simp add: quote_string_def)
    ultimately show ?thesis
      using marshal_length [of "[Str (take 1000 m)]" "[]" ?t] by (simp add: session_fits_def)
  qed
  show ?thesis
    using key fits by (simp add: picoclaw_ok_def echo_picoclaw_def)
qed

interpretation go: claw_env "go_env echo_picoclaw" go_up go_dump "is_dump utf8_b4a" "\<lambda>es. es" ordered
    "\<lambda>_. marshalSession utf8_b4a [] []"
  using echo_ok by (rule go_claw_env)

end
