(* ===== verification/Go_Turn.thy ===== *)
theory Go_Turn
  imports Go_World
begin

text \<open>
  A chat turn of src/index.js on the Go server of Go_World, read to its end: the chunks the
  server sends, how they reach the caller, and what the turn leaves in the agent and in the
  store.  An instance and a server to evaluate with.
\<close>

section \<open>An instance to evaluate with\<close>

definition go_claw :: "(goserver link, entries, nat) claw" where
  "go_claw = (claw_new (Obj []) (link_start go_fresh) [])\<lparr>cl_opened := True, cl_rpc := True\<rparr>"

abbreviation echo_env :: "(goserver link, entries, nat) env" where
  "echo_env \<equiv> go_env echo_picoclaw"

lemma go_claw_live: "claw_live go_up ordered go_claw"
  using session_fits_empty
  by (simp add: claw_live_def go_claw_def claw_new_def go_up_def link_start_def go_fresh_def ordered_def)

lemma go_claw_tidy: "claw_tidy utf8_b4a (\<lambda>es. es) go_claw" "claw_sound utf8_b4a (\<lambda>es. es) P go_claw"
  by (simp_all add: claw_tidy_def claw_sound_def claw_on_record_def claw_stored_def go_claw_def claw_new_def)

lemma small_key: "list_all (\<lambda>u. u < 255) k \<Longrightarrow> length k < 2 ^ 32 \<Longrightarrow> key_ok k"
  by (simp add: key_ok_def wf16_small)

section \<open>A turn of the Go server, read to its end\<close>

text \<open>How a chunk of the server reaches the caller: an empty content arrives as \<open>null\<close>.\<close>

definition shown :: "jsval \<Rightarrow> jsval" where
  "shown c = chat_value (field c (js ''type''))
     (if truthy (field c (js ''content'')) then field c (js ''content'') else Null) (is_final (field c (js ''type'')))"

definition chunk_ok :: "jsval \<Rightarrow> bool" where
  "chunk_ok c \<longleftrightarrow> (\<exists>type content. c = chunk type content \<and> key_ok content
     \<and> type \<in> {''content'', ''thinking'', ''done'', ''error''})"

lemma go_encode_decode:
  assumes "chunk_ok c"
  shows "c_decode ref_cenc (encoding3 ref_cenc) (go_encode c) = Inr (Obj [(js ''type'', field c (js ''type'')),
    (js ''content'', if truthy (field c (js ''content'')) then field c (js ''content'') else Null)])"
proof -
  have ok: "ty_ok schema_depth ref_fmt (js ''@bareclaw/chat-chunk'') c"
    using assms by (auto simp: chunk_ok_def chunk_def schema_chat_chunk schema_chunk_type key_ok_def)
  show ?thesis
    using ref.c_encode_ok [OF ref.chat_chunk.wire_codec_axioms ok] ref.c_decode_ok [OF ref.chat_chunk.wire_codec_axioms ok]
    by (simp add: go_encode_def schema_chat_chunk schema_chunk_type)
qed

lemma chunk_final: "chunk_ok c \<Longrightarrow> is_final (field c (js ''type'')) \<longleftrightarrow>
    field c (js ''type'') = Str (js ''done'') \<or> field c (js ''type'') = Str (js ''error'')"
  by (simp add: is_final_def)

lemma go_pull:
  assumes "chunk_ok c" and "gs_sent (lk_peer (cl_world st)) = go_encode c # rest"
  shows "chat_pull (go_env pc) s k st = ((Inr (Yields (shown c)),
      if is_final (field c (js ''type'')) then GenLast s k else GenChunk s k),
    st\<lparr>cl_world := (cl_world st)\<lparr>lk_peer := (lk_peer (cl_world st))\<lparr>gs_sent := rest\<rparr>\<rparr>\<rparr>)"
  using go_encode_decode [OF assms(1)] assms(2)
  by (simp add: chat_pull_def go_next_def shown_def)

text \<open>Chunks that are not final, and then a final one.\<close>

fun turn_ok :: "jsval list \<Rightarrow> bool" where
  "turn_ok [] = False"
| "turn_ok [c] = (chunk_ok c \<and> is_final (field c (js ''type'')))"
| "turn_ok (c # cs) = (chunk_ok c \<and> \<not> is_final (field c (js ''type'')) \<and> turn_ok cs)"

text \<open>What a turn does to an instance: the agent's and the store's state of its session, and nothing else.\<close>

definition turn_done ::
    "jsstring \<Rightarrow> bytes \<Rightarrow> (goserver link, entries, 'a) claw \<Rightarrow> (goserver link, entries, 'a) claw \<Rightarrow> bool" where
  "turn_done k d st st' \<longleftrightarrow> claw_live go_up ordered st' \<and> frame st st'
     \<and> go_dump (cl_world st') = (go_dump (cl_world st))(k := d)
     \<and> claw_stored (\<lambda>es. es) st' = (claw_stored (\<lambda>es. es) st)(data_key utf8_b4a (Str k) \<mapsto> Buf d)"

lemma turn_doneD:
  assumes "turn_done k d st st'"
  shows "claw_live go_up ordered st'" and "frame st st'" and "go_dump (cl_world st') = (go_dump (cl_world st))(k := d)"
    and "claw_stored (\<lambda>es. es) st' = (claw_stored (\<lambda>es. es) st)(data_key utf8_b4a (Str k) \<mapsto> Buf d)"
    and "go_dump (cl_world st') k = d" and "claw_stored (\<lambda>es. es) st' (data_key utf8_b4a (Str k)) = Some (Buf d)"
  using assms by (simp_all add: turn_done_def)

text \<open>Taking chunks off the stream is not seen in any of it.\<close>

lemma sent_unseen:
  "claw_live go_up ordered (st\<lparr>cl_world := (cl_world st)\<lparr>lk_peer := (lk_peer (cl_world st))\<lparr>gs_sent := cs\<rparr>\<rparr>\<rparr>) \<longleftrightarrow> claw_live go_up ordered st"
  "go_dump (w\<lparr>lk_peer := (lk_peer w)\<lparr>gs_sent := cs\<rparr>\<rparr>) = go_dump w"
  "frame (st\<lparr>cl_world := w'\<rparr>) st' \<longleftrightarrow> frame st st'"
  by (simp_all add: claw_live_def go_up_def go_dump_def fun_eq_iff frame_def)

lemma go_leave:
  assumes pc: "picoclaw_ok pc" and live: "claw_live go_up ordered st" and k: "key_ok k"
  shows "\<exists>st'. leave_loop (go_env pc) s (Str k) r st = (r, st') \<and> turn_done k (go_dump (cl_world st) k) st st'"
proof -
  let ?st1 = "st\<lparr>cl_world := (cl_world st)\<lparr>lk_peer := (lk_peer (cl_world st))\<lparr>gs_sent := []\<rparr>\<rparr>\<rparr>"
  have "claw_live go_up ordered ?st1"
    using live by (simp only: sent_unseen)
  from claw_env.persist_live [OF go_claw_env [OF pc] this k] obtain st' where
    "persistSession (go_env pc) (Str k) ?st1 = (Inr (), st')" "claw_live go_up ordered st'" "frame ?st1 st'"
    "go_dump (cl_world st') = go_dump (cl_world ?st1)"
    "claw_stored (\<lambda>es. es) st' = (claw_stored (\<lambda>es. es) ?st1)(data_key utf8_b4a (Str k) \<mapsto> Buf (go_dump (cl_world ?st1) k))"
    by auto
  then show ?thesis
    by (simp add: leave_loop_def chat_finally_def andthen_def turn_done_def sent_unseen)
qed

lemma go_consume:
  assumes "picoclaw_ok pc" and "claw_live go_up ordered st" and "key_ok k" and "turn_ok cs"
    and "gs_sent (lk_peer (cl_world st)) = map go_encode cs" and "length cs < n"
  shows "\<exists>st'. consume (go_env pc) n (GenChunk s (Str k)) st = ((map shown cs, Inr ()), st')
    \<and> turn_done k (go_dump (cl_world st) k) st st'"
  using assms(2,4-6)
proof (induction cs arbitrary: n st rule: turn_ok.induct)
  case (2 c)
  then obtain m where n: "n = Suc (Suc m)"
    by (cases n; cases "n - 1") auto
  let ?st1 = "st\<lparr>cl_world := (cl_world st)\<lparr>lk_peer := (lk_peer (cl_world st))\<lparr>gs_sent := []\<rparr>\<rparr>\<rparr>"
  have "claw_live go_up ordered ?st1"
    using 2(1) by (simp only: sent_unseen)
  from go_leave [OF assms(1) this assms(3), of s "Inr Finished"] obtain st' where
    "leave_loop (go_env pc) s (Str k) (Inr Finished) ?st1 = (Inr Finished, st')" "turn_done k (go_dump (cl_world ?st1) k) ?st1 st'"
    by blast
  then show ?case
    using 2 by (auto simp: n chat_next_def go_pull turn_done_def sent_unseen)
next
  case (3 c d cs)
  then obtain m where n: "n = Suc m" "length (d # cs) < m"
    by (cases n) auto
  let ?st1 = "st\<lparr>cl_world := (cl_world st)\<lparr>lk_peer := (lk_peer (cl_world st))\<lparr>gs_sent := map go_encode (d # cs)\<rparr>\<rparr>\<rparr>"
  have live: "claw_live go_up ordered ?st1"
    using 3(2) by (simp only: sent_unseen)
  have pull: "chat_pull (go_env pc) s (Str k) st = ((Inr (Yields (shown c)), GenChunk s (Str k)), ?st1)"
    using go_pull [of c st "map go_encode (d # cs)" pc s "Str k"] 3(3,4) by simp
  have "turn_ok (d # cs)"
    using 3(3) by simp
  from 3(1) [OF live this _ n(2)] obtain st' where
    "consume (go_env pc) m (GenChunk s (Str k)) ?st1 = ((map shown (d # cs), Inr ()), st')" "turn_done k (go_dump (cl_world ?st1) k) ?st1 st'"
    by auto
  then show ?case
    using pull by (auto simp: n(1) chat_next_def turn_done_def sent_unseen)
qed simp

lemma go_chat_sent:
  assumes v: "ty_ok schema_depth ref_fmt (js ''@bareclaw/chat-request'') v"
  shows "\<exists>s w'. hrpc_chat ref_cenc (link_lib (on_request ref_cenc (go_hs pc))) v w
      = (Inr (ResponseStream s (Some (encoding3 ref_cenc))), w')
    \<and> lk_peer w' = snd (go_Chat pc go_encode (HStream (Some (encoding3 ref_cenc))
        (ty_got schema_depth (js ''@bareclaw/chat-request'') v)) (lk_peer w))"
proof -
  let ?k = "Str (js ''@bareclaw/chat'')" and ?t = "js ''@bareclaw/chat-request''"
  have req: "map_of request_types ?k = Some ?t" and t: "?t \<in> set type_names"
    and resp: "responseEncodings ref_cenc ?k = Some (encoding3 ref_cenc)"
    by (simp_all add: request_types_def type_names_eq responseEncodings_def encoding_in_def response_types_def
      getEncoding_known)
  have handed: "handed ref_fmt ?t v = ty_got schema_depth ?t v"
    by (simp add: handed_def schema_chat_request ref_fmt_def lengthed_def ref_uint_def)
  show ?thesis
    using ref.encode_with_known [OF t v req] ref.request_of_conforming [OF t v req] resp handed
    by (cases "go_Chat pc go_encode (HStream (Some (encoding3 ref_cenc)) (ty_got schema_depth ?t v)) (lk_peer w)")
      (simp add: hrpc_chat_def hrpc_callSync_def methods_get_name methods_get_number on_request_def
        requestEncodings_def call_handler_def go_handlers_at complete_def link_simps)
qed

lemma turn_ok_append: "\<forall>c \<in> set cs. chunk_ok c \<and> \<not> is_final (field c (js ''type'')) \<Longrightarrow> turn_ok ds \<Longrightarrow> turn_ok (cs @ ds)"
proof (induction cs)
  case (Cons c cs)
  then show ?case
    by (cases "cs @ ds") auto
qed simp

lemma chunk_type [simp]: "field (chunk type content) (js ''type'') = Str (js type)"
  by (simp add: chunk_def)

lemma go_chunks_turn:
  assumes "\<forall>t \<in> set streamed. key_ok t" and "case r of Inl e \<Rightarrow> key_ok e | Inr t \<Rightarrow> key_ok t"
  shows "turn_ok (go_chunks r streamed)"
proof -
  have made: "chunk_ok (chunk type t)" if "key_ok t" "type \<in> {''content'', ''done'', ''error''}" for type t
    using that unfolding chunk_ok_def by blast
  have "key_ok []"
    by (simp add: key_ok_def)
  then have content: "chunk_ok (chunk ''content'' t) \<and> \<not> is_final (Str (js ''content''))"
    and final: "turn_ok [chunk ''error'' t]" "turn_ok [chunk ''done'' []]" if "key_ok t" for t
    using that made by (auto simp: is_final_def)
  show ?thesis
    using assms content final
    by (cases r; cases "streamed = []") (auto simp: go_chunks_def intro!: turn_ok_append)
qed

text \<open>Options whose model, if they name one, can be sent.\<close>

definition opts_ok :: "jsval \<Rightarrow> bool" where
  "opts_ok opts \<longleftrightarrow> is_obj opts \<and> (\<exists>s. js_or (field opts (js ''model'')) (Str []) = Str s \<and> key_ok s)"

lemma go_claw_opts: "opts_ok (cl_opts go_claw)"
  by (simp add: opts_ok_def go_claw_def claw_new_def js_or_def key_ok_def)

text \<open>
  What \<open>Chat\<close> answers a message with: its chunks, and the session they leave.  Without a model the
  session is left alone.
\<close>

definition go_reply :: "picoclaw \<Rightarrow> jsstring \<Rightarrow> jsval list \<times> jsstring \<Rightarrow> jsval list \<times> (jsval list \<times> jsstring)" where
  "go_reply pc m ses =
     (case pc_provider_error pc of
        Some e \<Rightarrow> ([chunk ''error'' (js ''no model: '' @ e)], ses)
      | None \<Rightarrow> (case pc_turn pc m ses of (r, streamed, left) \<Rightarrow> (go_chunks r streamed, left)))"

lemma go_Chat_reply:
  "go_Chat pc enc (HStream p v) s = (Inr Undef, s') \<Longrightarrow>
     go_reply pc (go_string (field v (js ''message''))) (gs_sessions s (go_string (field v (js ''sessionId'')))) = (cs, left) \<Longrightarrow>
     gs_sent s' = map enc cs \<and> gs_sessions s' = (gs_sessions s)(go_string (field v (js ''sessionId'')) := left)"
  by (auto simp: go_Chat_def go_reply_def Let_def split: option.splits prod.splits)

lemma go_Chat_answers: "fst (go_Chat pc enc arg s) = Inr Undef"
  by (simp add: go_Chat_def Let_def split: option.splits prod.splits)

lemma go_request_turn:
  assumes pc: "picoclaw_ok pc" and live: "claw_live go_up ordered st"
    and k: "key_ok k" and m: "key_ok m" and model: "key_ok model"
    and request: "chat_request st (Str k) (Str m) (if opts = Undef then Obj [] else opts)
      = Inr (Obj [(js ''sessionId'', Str k), (js ''message'', Str m), (js ''model'', Str model)])"
    and reply: "go_reply pc m (gs_sessions (lk_peer (cl_world st)) k) = (cs, left)"
    and cs: "turn_ok cs" "length cs < n"
  shows "\<exists>st'. consume (go_env pc) n (chat (Str k) (Str m) opts) st = ((map shown cs, Inr ()), st')
    \<and> turn_done k (marshalSession utf8_b4a (fst left) (snd left)) st st'"
proof -
  let ?v = "Obj [(js ''sessionId'', Str k), (js ''message'', Str m), (js ''model'', Str model)]"
  let ?got = "ty_got schema_depth (js ''@bareclaw/chat-request'') ?v"
  have v: "ty_ok schema_depth ref_fmt (js ''@bareclaw/chat-request'') ?v"
    "field ?got (js ''sessionId'') = Str k" "field ?got (js ''message'') = Str m"
    using k m model by (simp_all add: schema_chat_request key_ok_def)
  from go_chat_sent [OF v(1), of pc "cl_world st"] obtain s w' where sent:
    "hrpc_chat ref_cenc (link_lib (on_request ref_cenc (go_hs pc))) ?v (cl_world st)
      = (Inr (ResponseStream s (Some (encoding3 ref_cenc))), w')"
    "lk_peer w' = snd (go_Chat pc go_encode (HStream (Some (encoding3 ref_cenc)) ?got) (lk_peer (cl_world st)))"
    by blast
  have "go_Chat pc go_encode (HStream (Some (encoding3 ref_cenc)) ?got) (lk_peer (cl_world st)) = (Inr Undef, lk_peer w')"
    using go_Chat_answers sent(2) by (intro prod_eqI) simp_all
  from go_Chat_reply [OF this] have served: "gs_sent (lk_peer w') = map go_encode cs"
    "gs_sessions (lk_peer w') = (gs_sessions (lk_peer (cl_world st)))(k := left)"
    using reply v(2,3) by simp_all
  let ?st1 = "st\<lparr>cl_world := w'\<rparr>"
  have live1: "claw_live go_up ordered ?st1"
    using live go_chat_up [OF pc _ sent(1)] by (simp add: claw_live_def)
  have dump: "go_dump w' = (go_dump (cl_world st))(k := marshalSession utf8_b4a (fst left) (snd left))"
    using served(2) by (simp add: go_dump_def fun_eq_iff)
  have "consume (go_env pc) n (chat (Str k) (Str m) opts) st = consume (go_env pc) n (GenChunk s (Str k)) ?st1"
    using cs(2) live sent(1) request
    by (cases n) (auto simp: chat_def chat_next_def andthen_def ensure_open_def ret_def rpc_do_def claw_live_def)
  moreover have "gs_sent (lk_peer (cl_world ?st1)) = map go_encode cs"
    using served(1) by simp
  from go_consume [OF pc live1 k cs(1) this cs(2), of s] obtain st' where
    "consume (go_env pc) n (GenChunk s (Str k)) ?st1 = ((map shown cs, Inr ()), st')"
    "turn_done k (go_dump w' k) ?st1 st'"
    by auto
  ultimately show ?thesis
    by (auto simp: turn_done_def sent_unseen dump)
qed

lemma go_reply_turn:
  assumes pc: "picoclaw_ok pc" and live: "claw_live go_up ordered st"
    and k: "key_ok k" and m: "key_ok m" and opts: "opts_ok (cl_opts st)"
    and reply: "go_reply pc m (gs_sessions (lk_peer (cl_world st)) k) = (cs, left)"
    and cs: "turn_ok cs" "length cs < n"
  shows "\<exists>st'. consume (go_env pc) n (chat (Str k) (Str m) Undef) st = ((map shown cs, Inr ()), st')
    \<and> turn_done k (marshalSession utf8_b4a (fst left) (snd left)) st st'"
proof -
  obtain model where model: "is_obj (cl_opts st)" "js_or (field (cl_opts st) (js ''model'')) (Str []) = Str model" "key_ok model"
    using opts by (auto simp: opts_ok_def)
  then have "chat_request st (Str k) (Str m) (Obj [])
      = Inr (Obj [(js ''sessionId'', Str k), (js ''message'', Str m), (js ''model'', Str model)])"
    by (simp add: chat_request_def is_obj_getp)
  then show ?thesis
    using go_request_turn [OF pc live k m model(3) _ reply cs, of Undef] by simp
qed

text \<open>A turn that names a model of its own is the same turn.\<close>

lemma go_model_turn:
  assumes "picoclaw_ok pc" and "claw_live go_up ordered st" and "key_ok k" and "key_ok m"
    and "key_ok x" "x \<noteq> []"
    and "go_reply pc m (gs_sessions (lk_peer (cl_world st)) k) = (cs, left)" and "turn_ok cs" "length cs < n"
  shows "\<exists>st'. consume (go_env pc) n (chat (Str k) (Str m) (Obj [(js ''model'', Str x)])) st = ((map shown cs, Inr ()), st')
    \<and> turn_done k (marshalSession utf8_b4a (fst left) (snd left)) st st'"
proof -
  have "chat_request st (Str k) (Str m) (Obj [(js ''model'', Str x)])
      = Inr (Obj [(js ''sessionId'', Str k), (js ''message'', Str m), (js ''model'', Str x)])"
    using assms(6) by (simp add: chat_request_def)
  then show ?thesis
    using go_request_turn [OF assms(1-5) _ assms(7-9), of "Obj [(js ''model'', Str x)]"] by simp
qed

lemma go_chat_turn:
  assumes "picoclaw_ok pc" "pc_provider_error pc = None" and "claw_live go_up ordered st"
    and "key_ok k" and "key_ok m" and "opts_ok (cl_opts st)"
    and "pc_turn pc m (gs_sessions (lk_peer (cl_world st)) k) = (r, streamed, left)"
    and "turn_ok (go_chunks r streamed)" and "length (go_chunks r streamed) < n"
  shows "\<exists>st'. consume (go_env pc) n (chat (Str k) (Str m) Undef) st = ((map shown (go_chunks r streamed), Inr ()), st')
    \<and> turn_done k (marshalSession utf8_b4a (fst left) (snd left)) st st'"
  using go_reply_turn [OF assms(1,3-6) _ assms(8,9), of left] assms(2,7) by (simp add: go_reply_def)

end
