(* ===== verification/Bareclaw_Props.thy ===== *)
theory Bareclaw_Props
  imports Go_Turn
begin

text \<open>
  The properties of src/index.js, over any environment that meets the contracts
  (\<open>claw_env\<close>), each with an application to the environment of Go_World.
\<close>

section \<open>The shape of a chat\<close>

lemma finally_result: "chat_finally E sessionId r st = (r', st') \<Longrightarrow> r' = r \<or> (\<exists>e. r' = Inl e)"
  by (auto simp: chat_finally_def andthen_def split: sum.splits prod.splits)

lemma pull_shape:
  assumes "chat_pull E s sessionId st = ((Inr (Yields v), g), st')"
  shows "\<exists>type content. v = chat_value type content (is_final type)
    \<and> g = (if is_final type then GenLast s sessionId else GenChunk s sessionId)"
  using assms
  by (auto simp: chat_pull_def leave_loop_def apfst_def map_prod_def split: sum.splits prod.splits option.splits
    dest!: finally_result) blast+

lemma next_shape:
  assumes "chat_next E g st = ((Inr (Yields v), g'), st')"
  shows "\<exists>type content s sessionId. v = chat_value type content (is_final type)
    \<and> g' = (if is_final type then GenLast s sessionId else GenChunk s sessionId)"
  using assms
  by (auto simp: chat_next_def leave_loop_def apfst_def map_prod_def
    split: gen.splits sum.splits prod.splits sync_result.splits dest!: pull_shape finally_result)

lemma chat_value_done: "field (chat_value type content done) (js ''done'') = Bool done"
  by (simp add: chat_value_def)

lemma consume_last: "consume E n (GenLast s sessionId) st = ((vs, r), st') \<Longrightarrow> vs = []"
  by (cases n) (auto simp: chat_next_def leave_loop_def chat_return_def apfst_def map_prod_def
    split: sum.splits prod.splits iter.splits dest!: finally_result)

lemma consume_shape:
  "consume E n g st = ((vs, r), st') \<Longrightarrow> length vs \<le> n
   \<and> list_all (\<lambda>v. field v (js ''done'') = Bool False) (butlast vs)
   \<and> list_all (\<lambda>v. \<exists>type content. v = chat_value type content (is_final type)) vs"
proof (induction n arbitrary: g st vs)
  case (Suc n)
  obtain x g1 st1 where step: "chat_next E g st = ((x, g1), st1)"
    by (metis surj_pair)
  show ?case
  proof (cases "\<exists>v. x = Inr (Yields v)")
    case True
    then obtain v ws where v: "x = Inr (Yields v)" "vs = v # ws" "consume E n g1 st1 = ((ws, r), st')"
      using Suc.prems step by (auto split: prod.splits)
    obtain type content s sessionId where shape: "v = chat_value type content (is_final type)"
      "g1 = (if is_final type then GenLast s sessionId else GenChunk s sessionId)"
      using next_shape step v(1) by metis
    have "ws = [] \<or> \<not> is_final type"
      using shape(2) v(3) consume_last by (auto split: if_splits)
    then show ?thesis
      using Suc.IH [OF v(3)] v(2) shape(1) chat_value_done by auto
  next
    case False
    then show ?thesis
      using Suc.prems step by (auto split: sum.splits iter.splits)
  qed
qed (auto split: prod.splits)

section \<open>Chat\<close>

text \<open>
  C3. A chat turn is always persisted.  Whatever the agent streams and however the consumer
  leaves the loop (the stream ends, a final chunk, an early break after any number of chunks, an
  error of the stream after a first chunk), when the loop is left the store holds, under the
  session's data key, exactly the state the agent exports for that session; the only way out
  without it is an error before the first chunk.
\<close>

theorem chat_turn_is_persisted:
  assumes "claw_env E up dump dumped contents usable blank"
    and "claw_live up usable st" and "key_ok k"
    and "consume E (Suc n) (chat (Str k) msg opts) st = ((vs, r), st')"
    and "vs \<noteq> [] \<or> r = Inr ()"
  shows "claw_stored contents st' (data_key (e_b4a E) (Str k)) = Some (Buf (dump (cl_world st') k))"
  using claw_env.chat_saved [OF assms(1-4)] assms(5) by blast

definition echo_turn :: "jsval list" where
  "echo_turn = go_chunks (Inr (js ''ok'')) []"

lemma echo_key_s: "key_ok (js ''s'')"
  by (simp add: small_key js_def)

lemma echo_chat:
  "\<exists>st'. consume echo_env 3 (chat (Str (js ''s'')) (Str (js ''hi'')) Undef) go_claw = ((map shown echo_turn, Inr ()), st')"
proof -
  have ok: "turn_ok echo_turn" and len: "length echo_turn < 3"
    unfolding echo_turn_def by (rule go_chunks_turn; simp add: small_key js_def) (simp add: go_chunks_def)
  have turn: "pc_turn echo_picoclaw (js ''hi'') ses = (Inr (js ''ok''), [], ([Str (take 1000 (js ''hi''))], []))" for ses
    by (simp add: echo_picoclaw_def)
  have keys: "key_ok (js ''hi'')" and pc: "pc_provider_error echo_picoclaw = None"
    by (simp_all add: small_key js_def echo_picoclaw_def go_claw_def claw_new_def)
  from go_chat_turn [OF echo_ok pc go_claw_live echo_key_s keys go_claw_opts turn ok [unfolded echo_turn_def] len [unfolded echo_turn_def]]
  show ?thesis
    unfolding echo_turn_def by blast
qed

theorem chat_turn_is_persisted_witness:
  "\<exists>st'. consume echo_env 3 (chat (Str (js ''s'')) (Str (js ''hi'')) Undef) go_claw
      = (([Obj [(js ''type'', Str (js ''content'')), (js ''content'', Str (js ''ok'')), (js ''done'', Bool False)],
           Obj [(js ''type'', Str (js ''done'')), (js ''done'', Bool True)]], Inr ()), st')
    \<and> claw_stored (\<lambda>es. es) st' (data_key utf8_b4a (Str (js ''s''))) = Some (Buf (go_dump (cl_world st') (js ''s'')))"
proof -
  obtain st' where run: "consume echo_env 3 (chat (Str (js ''s'')) (Str (js ''hi'')) Undef) go_claw
      = ((map shown echo_turn, Inr ()), st')"
    using echo_chat by blast
  then have "consume echo_env (Suc 2) (chat (Str (js ''s'')) (Str (js ''hi'')) Undef) go_claw
      = ((map shown echo_turn, Inr ()), st')"
    by (simp add: numeral_3_eq_3 numeral_2_eq_2)
  note kept = chat_turn_is_persisted [OF go.claw_env_axioms go_claw_live echo_key_s this]
  have "map shown echo_turn = [Obj [(js ''type'', Str (js ''content'')), (js ''content'', Str (js ''ok'')), (js ''done'', Bool False)],
           Obj [(js ''type'', Str (js ''done'')), (js ''done'', Bool True)]]"
    by (simp add: echo_turn_def go_chunks_def shown_def chat_value_def is_final_def chunk_def)
  then show ?thesis
    using kept run by (intro exI [of _ st']) simp
qed

text \<open>
  The chunks of a turn.  A consumer that takes at most \<open>n\<close> chunks sees at most \<open>n\<close>; every
  chunk before the last has \<open>done\<close> false, so nothing follows a \<open>done\<close> or \<open>error\<close> chunk; a done
  chunk carries no content, every other one carries the content it arrived with.
\<close>

theorem nothing_follows_a_final_chunk:
  "case consume E n (chat sessionId msg opts) st of ((vs, r), st') \<Rightarrow>
     length vs \<le> n \<and> list_all (\<lambda>v. field v (js ''done'') = Bool False) (butlast vs)
     \<and> list_all (\<lambda>v. \<exists>type content. v = chat_value type content (is_final type)) vs"
  using consume_shape [of E n "chat sessionId msg opts" st] by (auto split: prod.splits)

text \<open>
  C13. A turn of the Go server reaches the caller complete.  For an open instance on an agent with
  a model, a consumer that does not stop early sees the server's chunks in order, each as it
  arrives (an empty content as \<open>null\<close>), exactly one of them final and that one last; then the
  loop ends without error, the agent has the session the turn left and the store has its dump.
\<close>

theorem server_turn_reaches_the_caller:
  assumes "picoclaw_ok pc" and "pc_provider_error pc = None" and "claw_live go_up ordered st"
    and "key_ok k" and "key_ok m" and "opts_ok (cl_opts st)"
    and "pc_turn pc m (gs_sessions (lk_peer (cl_world st)) k) = (r, streamed, left)"
    and "\<forall>t \<in> set streamed. key_ok t" and "case r of Inl e \<Rightarrow> key_ok e | Inr t \<Rightarrow> key_ok t"
    and "length (go_chunks r streamed) < n"
  shows "\<exists>st'. consume (go_env pc) n (chat (Str k) (Str m) Undef) st = ((map shown (go_chunks r streamed), Inr ()), st')
    \<and> filter (\<lambda>c. is_final (field c (js ''type''))) (go_chunks r streamed) = [last (go_chunks r streamed)]
    \<and> go_dump (cl_world st') k = marshalSession utf8_b4a (fst left) (snd left)
    \<and> claw_stored (\<lambda>es. es) st' (data_key utf8_b4a (Str k)) = Some (Buf (marshalSession utf8_b4a (fst left) (snd left)))"
proof -
  have ok: "turn_ok (go_chunks r streamed)"
    using go_chunks_turn assms(8,9) by blast
  have "turn_ok cs \<Longrightarrow> filter (\<lambda>c. is_final (field c (js ''type''))) cs = [last cs]" for cs
    by (induction cs rule: turn_ok.induct) auto
  then show ?thesis
    using go_chat_turn [OF assms(1-7) ok assms(10)] ok by (auto simp: turn_done_def)
qed

theorem server_turn_reaches_the_caller_witness:
  "\<exists>st'. consume echo_env 3 (chat (Str (js ''s'')) (Str (js ''hi'')) Undef) go_claw = ((map shown echo_turn, Inr ()), st')
    \<and> go_dump (cl_world st') (js ''s'') = marshalSession utf8_b4a [Str (js ''hi'')] []"
proof -
  have turn: "pc_turn echo_picoclaw (js ''hi'') ses = (Inr (js ''ok''), [], ([Str (js ''hi'')], []))" for ses
    by (simp add: echo_picoclaw_def)
  have keys: "key_ok (js ''hi'')" "key_ok (js ''ok'')" and pc: "pc_provider_error echo_picoclaw = None"
   
    by (simp_all add: small_key js_def echo_picoclaw_def go_claw_def claw_new_def)
  have "length (go_chunks (Inr (js ''ok'')) []) < 3"
    by (simp add: go_chunks_def)
  from server_turn_reaches_the_caller [OF echo_ok pc go_claw_live echo_key_s keys(1) go_claw_opts turn _ _ this] keys(2)
  show ?thesis
    by (auto simp: echo_turn_def)
qed

text \<open>
  C32. The model asked for a turn changes nothing: \<open>opts.model\<close> is put into the request and
  reaches the Go server, but \<open>Chat\<close> reads the message and the session only, so the caller sees the
  same chunks as without it and the agent and the store end with the same session.
\<close>

theorem model_of_a_turn_is_ignored:
  assumes "picoclaw_ok pc" and "claw_live go_up ordered st"
    and "key_ok k" and "key_ok m" and "opts_ok (cl_opts st)" and "key_ok x" and "x \<noteq> []"
    and "go_reply pc m (gs_sessions (lk_peer (cl_world st)) k) = (cs, left)" and "turn_ok cs" and "length cs < n"
  shows "\<exists>st1 st2. consume (go_env pc) n (chat (Str k) (Str m) Undef) st = ((map shown cs, Inr ()), st1)
    \<and> consume (go_env pc) n (chat (Str k) (Str m) (Obj [(js ''model'', Str x)])) st = ((map shown cs, Inr ()), st2)
    \<and> go_dump (cl_world st1) = go_dump (cl_world st2) \<and> claw_stored (\<lambda>es. es) st1 = claw_stored (\<lambda>es. es) st2
    \<and> go_dump (cl_world st2) k = marshalSession utf8_b4a (fst left) (snd left)"
  using go_reply_turn [OF assms(1-5,8-10)] go_model_turn [OF assms(1-4,6-10)] by (auto simp: turn_done_def)

theorem model_of_a_turn_is_ignored_witness:
  "\<exists>st1 st2. consume echo_env 3 (chat (Str (js ''s'')) (Str (js ''hi'')) Undef) go_claw = ((map shown echo_turn, Inr ()), st1)
    \<and> consume echo_env 3 (chat (Str (js ''s'')) (Str (js ''hi'')) (Obj [(js ''model'', Str (js ''big''))])) go_claw
      = ((map shown echo_turn, Inr ()), st2)
    \<and> claw_stored (\<lambda>es. es) st1 = claw_stored (\<lambda>es. es) st2"
proof -
  have keys: "key_ok (js ''hi'')" "key_ok (js ''ok'')" "key_ok (js ''big'')" "js ''big'' \<noteq> []"
    by (simp_all add: small_key js_def)
  have reply: "go_reply echo_picoclaw (js ''hi'') ses = (echo_turn, [Str (js ''hi'')], [])" for ses
    by (simp add: go_reply_def echo_picoclaw_def echo_turn_def js_def)
  have "turn_ok echo_turn" "length echo_turn < 3"
    using go_chunks_turn [of "[]" "Inr (js ''ok'')"] keys(2) by (simp_all add: echo_turn_def go_chunks_def)
  from model_of_a_turn_is_ignored [OF echo_ok go_claw_live echo_key_s keys(1) go_claw_opts keys(3,4) reply this]
  show ?thesis
    by blast
qed

section \<open>Sessions\<close>



text \<open>An instance with the state of one session in its store.\<close>

definition holding :: "jsstring \<Rightarrow> (goserver link, entries, nat) claw" where
  "holding k = go_claw\<lparr>cl_store := [(data_key utf8_b4a (Str k), Buf (marshalSession utf8_b4a [] (js ''old'')))]\<rparr>"

lemma marshal_small: "length s \<le> 1000 \<Longrightarrow> session_fits utf8_b4a ([], s)"
proof -
  assume "length s \<le> 1000"
  obtain t where t: "json_text (session_dump [] s) = Some t"
    using json_ok_text [of "session_dump [] s"] by (auto simp: json_ok_session_dump)
  then have "length t \<le> 6100"
    using length_quote_chars [of s] \<open>length s \<le> 1000\<close> length_quote_chars [of "js ''h''"] length_quote_chars [of "js ''s''"]
    by (auto simp: session_dump_def quote_string_def split: if_splits)
  then show ?thesis
    using marshal_length [OF t] by (simp add: session_fits_def)
qed

lemma listable_s: "listable (js ''s'')"
  using echo_key_s by (simp add: listable_def) (simp add: js_def)

lemma holding_live: "claw_live go_up ordered (holding k)"
  using go_claw_live by (simp add: holding_def claw_live_def ordered_def)

lemma holding_stored: "claw_stored (\<lambda>es. es) (holding k)
    = [data_key utf8_b4a (Str k) \<mapsto> Buf (marshalSession utf8_b4a [] (js ''old''))]"
  by (simp add: claw_stored_def holding_def)

lemma holding_sound: "key_ok k \<Longrightarrow> claw_sound utf8_b4a (\<lambda>es. es) (is_dump utf8_b4a) (holding k)"
proof -
  assume "key_ok k"
  moreover have "is_dump utf8_b4a (marshalSession utf8_b4a [] (js ''old''))"
    using marshal_small [of "js ''old''"] unfolding is_dump_def by force
  ultimately show ?thesis
    by (auto simp: claw_sound_def claw_on_record_def holding_stored split: if_splits)
qed

lemma holding_tidy: "listable k \<Longrightarrow> claw_tidy utf8_b4a (\<lambda>es. es) (holding k)"
  by (auto simp: claw_tidy_def holding_stored)

lemma holding_registered: "listable k \<Longrightarrow> claw_registered utf8_b4a (\<lambda>es. es) (holding k) = {k}"
  using utf8_text.data_key_inj [of _ k] not_sym [OF utf8_text.data_scope_differ [of k]]
  by (auto simp: claw_registered_def holding_stored listable_def key_ok_def)





end
