(* ===== verification/Bareclaw_Tools.thy ===== *)
theory Bareclaw_Tools
  imports Bareclaw_Props
begin

text \<open>
  Tool calls of src/index.js, from the agent's request over the RPC dispatcher to the handler
  and back; the shutdown of the agent process; and \<open>close\<close> when an export fails.
\<close>

section \<open>Tool calls\<close>

lemma run_tool_error:
  assumes "run_tool E handler call a = (Inl err, a')"
  shows "err = TypeError \<or> (\<exists>m. err = SyntaxError m)
    \<or> (\<exists>h input. handler = Some h \<and> fst (h input a) = Inl err)"
proof (cases "field call (js ''input'')")
  case (Buf x)
  have parse: "JSON_parse m t = Inl e \<Longrightarrow> \<exists>m. e = SyntaxError m" for m t e
    by (auto simp: JSON_parse_def split: option.splits prod.splits if_splits)
  show ?thesis
  proof (cases "JSON_parse (e_syntax E) (b4a_toString (e_b4a E) x)")
    case (Inl e)
    then show ?thesis
      using assms parse Buf by (auto simp: run_tool_def)
  next
    case (Inr input)
    then show ?thesis
      using assms Buf
      by (auto simp: run_tool_def JSON_stringify_def split: option.splits sum.splits prod.splits if_splits jsval.splits)
        (metis fst_conv)+
  qed
qed (use assms in \<open>auto simp: run_tool_def\<close>)

text \<open>What has no message to read: \<open>throw null\<close> and \<open>throw undefined\<close>.\<close>

definition null_thrown :: "thrown \<Rightarrow> bool" where
  "null_thrown err \<longleftrightarrow> err = ThrownVal Null \<or> err = ThrownVal Undef"

lemma err_text_throws: "err_text E err = Inl e \<Longrightarrow> e = TypeError \<and> null_thrown err"
proof -
  assume "err_text E err = Inl e"
  then obtain v where "err = ThrownVal v" "getp v (js ''message'') = Inl e"
    by (auto simp: err_text_def rbind_eq_Inl split: thrown.splits)
  then show ?thesis
    by (cases v) (auto simp: null_thrown_def)
qed

lemma err_text_truthy:
  "err_text E err = Inr m \<Longrightarrow> \<not> truthy m \<Longrightarrow> \<exists>v. err = ThrownVal v \<and> to_text (e_b4a E) v = []"
  by (auto simp: err_text_def js_or_def rbind_eq_Inr split: thrown.splits if_splits)


definition refusing_tools :: "jsval \<Rightarrow> nat tool option" where
  "refusing_tools name = (if name = Str (js ''t'') then Some (\<lambda>_ n. (Inl (ErrorObj (js ''no'')), Suc n)) else None)"


context compact_encoding
begin

lemma tool_call_wire_nonempty:
  assumes "ty_ok schema_depth f (js ''@bareclaw/tool-call'') v"
  shows "ty_wire schema_depth f (js ''@bareclaw/tool-call'') v \<noteq> []"
proof
  assume empty: "ty_wire schema_depth f (js ''@bareclaw/tool-call'') v = []"
  let ?u = "\<lambda>s. Obj [(js ''callId'', Str s), (js ''name'', Str []), (js ''input'', Buf [0])]"
  have ok: "ty_ok schema_depth f (js ''@bareclaw/tool-call'') (?u s)" if "s \<in> {[], [65]}" for s
    using that by (auto simp: schema_tool_call is_high_def is_low_def)
  have "ty_wire schema_depth f (js ''@bareclaw/tool-call'') (?u s) = []" if "s \<in> {[], [65]}" for s
    using tool_call.wire_prefix_free [OF assms ok [OF that]] empty by simp
  then have "ty_got schema_depth (js ''@bareclaw/tool-call'') (?u []) = ty_got schema_depth (js ''@bareclaw/tool-call'') (?u [65])"
    by (intro tool_call.wire_inj ok) simp_all
  then show False
    by (simp add: schema_tool_call)
qed

end

lemma claw_tool_handler:
  "claw_handlers E (Str (js ''@bareclaw/tool-exec''))
   = Some (\<lambda>arg (st, a). case onToolExec_claw E (cl_tools st) (request_arg arg) a of (r, a) \<Rightarrow> (r, (st, a)))"
  by (simp add: claw_handlers_def onStateChanged_def onToolExec_def set_handler_def)

definition tool_call :: "jsstring \<Rightarrow> jsstring \<Rightarrow> bytes \<Rightarrow> jsval" where
  "tool_call callId name input = Obj [(js ''callId'', Str callId), (js ''name'', Str name), (js ''input'', Buf input)]"

lemma tool_exec_wire:
  assumes pair: "hrpc_pair c f alloc rpc (claw_handlers E) peer" and peer: "peer w = (st, a)"
    and call: "key_ok callId" "key_ok name" "input \<noteq> []" "length input < 2 ^ 32"
    and answer: "onToolExec_claw E (cl_tools st) (tool_call callId name input) a = (Inr result, a')"
      "ty_ok schema_depth f (js ''@bareclaw/tool-result'') result"
  shows "\<exists>w'. toolExec c rpc (tool_call callId name input) w
      = (Inr (ty_got schema_depth (js ''@bareclaw/tool-result'') result), w') \<and> peer w' = (st, a')"
proof -
  let ?call = "tool_call callId name input"
  have cenc: "compact_encoding c f alloc"
    using pair by (simp add: hrpc_pair_def)
  have d: "rpc_unary (build_rpcs ! 8)" "rpc_response (build_rpcs ! 8) = Some (js ''@bareclaw/tool-result'')"
    "rpc_name (build_rpcs ! 8) = js ''@bareclaw/tool-exec''" "rpc_request (build_rpcs ! 8) = js ''@bareclaw/tool-call''"
    by (simp_all add: rpc_unary_def build_rpcs_def unary_rpc_def)
  have v: "ty_ok schema_depth f (js ''@bareclaw/tool-call'') ?call"
    using call by (simp add: schema_tool_call tool_call_def key_ok_def)
  have "handed f (js ''@bareclaw/tool-call'') ?call = ?call"
    using compact_encoding.tool_call_wire_nonempty [OF cenc v] by (simp add: handed_def schema_tool_call tool_call_def)
  then have "(\<lambda>arg (st, a). case onToolExec_claw E (cl_tools st) (request_arg arg) a of (r, a) \<Rightarrow> (r, (st, a)))
      (HRequest (handed f (rpc_request (build_rpcs ! 8)) ?call)) (peer w) = (Inr result, (st, a'))"
    using answer(1) by (simp add: peer d(4))
  from hrpc_pair.call_returns_answer [OF pair d(1-3) v [folded d(4)] claw_tool_handler this answer(2)] show ?thesis
    by (simp add: toolExec_def)
qed

text \<open>The JSON of a value survives the way through the buffer library, and is not empty.\<close>

lemma json_sent:
  assumes "text_encoding b" and "json_ok v" and "json_text v = Some s"
  shows "b4a_toString b (b4a_from b s) = s" and "b4a_from b s \<noteq> []"
proof -
  show "b4a_toString b (b4a_from b s) = s"
    using text_encoding.toString_from [OF assms(1)] json_text_wf16 [OF assms(2,3)] by blast
  moreover have "b4a_toString b [] = []"
    using text_encoding.toString_from [OF assms(1), of "[]"] text_encoding.from_Nil [OF assms(1)] by simp
  ultimately show "b4a_from b s \<noteq> []"
    using json_ok_text [OF assms(2)] assms(3) by (auto simp: starts_def)
qed

text \<open>
  C8. A tool call round trip.  The agent calls \<open>toolExec\<close> over any transport to an open
  instance: the handler registered under the name runs once, on the value whose JSON was sent,
  and the agent receives its own call id, bytes that parse to what the handler returned, and no
  error message; the instance is unchanged.
\<close>

theorem tool_call_round_trip:
  assumes pair: "hrpc_pair c f alloc rpc (claw_handlers E) peer" and b4a: "text_encoding (e_b4a E)"
    and peer: "peer w = (st, a)" and tool: "cl_tools st (Str name) = Some h" "h input a = (Inr output, a')"
    and call: "key_ok callId" "key_ok name" "json_ok input" "json_text input = Some t" "length (b4a_from (e_b4a E) t) < 2 ^ 32"
    and answer: "json_ok output" "output \<noteq> Null" "json_text output = Some u" "length (b4a_from (e_b4a E) u) < 2 ^ 32"
  shows "\<exists>w'. toolExec c rpc (tool_call callId name (b4a_from (e_b4a E) t)) w
      = (Inr (tool_result (Str callId) (Buf (b4a_from (e_b4a E) u)) Null), w')
    \<and> peer w' = (st, a')
    \<and> JSON_parse message (b4a_toString (e_b4a E) (b4a_from (e_b4a E) u)) = Inr output"
proof -
  let ?b = "e_b4a E" and ?call = "tool_call callId name (b4a_from (e_b4a E) t)"
  let ?result = "tool_result (Str callId) (Buf (b4a_from ?b u)) (Str [])"
  note given = json_sent [OF b4a call(3,4)] and returned = json_sent [OF b4a answer(1,3)]
  have made: "JSON_stringify output = Str u" "output \<noteq> Undef"
    using answer(1,3) by (auto simp: JSON_stringify_def)
  have "onToolExec_claw E (cl_tools st) ?call a = (Inr ?result, a')"
    using tool given(1) JSON_parse_text [OF call(3,4)] answer(2) made
    by (simp add: onToolExec_claw_def run_tool_def tool_call_def)
  moreover have "ty_ok schema_depth f (js ''@bareclaw/tool-result'') ?result"
    using call(1) answer(4) returned(2) by (simp add: schema_tool_result tool_result_def key_ok_def)
  ultimately show ?thesis
    using tool_exec_wire [OF pair peer call(1,2) given(2) call(5), of ?result a'] JSON_parse_text [OF answer(1,3)] returned
    by (simp add: schema_tool_result tool_result_def)
qed

definition adder :: "nat tool" where
  "adder input n = (Inr (Obj [(js ''got'', input)]), Suc n)"

theorem tool_call_round_trip_witness:
  "\<exists>w'. toolExec ref_cenc (link_lib (on_request ref_cenc (claw_handlers echo_env)))
        (tool_call (js ''1'') (js ''add'') (utf8 (js ''7'')))
        (link_start (go_claw\<lparr>cl_tools := [Str (js ''add'') \<mapsto> adder]\<rparr>, 4))
      = (Inr (tool_result (Str (js ''1'')) (Buf (utf8 (js ''{\"got\":7}''))) Null), w')
    \<and> lk_peer w' = (go_claw\<lparr>cl_tools := [Str (js ''add'') \<mapsto> adder]\<rparr>, 5)
    \<and> JSON_parse id (utf8_dec (utf8 (js ''{\"got\":7}''))) = Inr (Obj [(js ''got'', Num 7)])"
proof -
  let ?st = "go_claw\<lparr>cl_tools := [Str (js ''add'') \<mapsto> adder]\<rparr>"
  have keys: "key_ok (js ''1'')" "key_ok (js ''add'')"
    by (simp_all add: small_key js_def)
  have given: "json_ok (Num 7)" "json_text (Num 7) = Some (js ''7'')"
    by (simp_all add: safe_int_def int_text_def dec_nat_step js_def)
  have returned: "json_ok (Obj [(js ''got'', Num 7)])" "json_text (Obj [(js ''got'', Num 7)]) = Some (js ''{\"got\":7}'')"
    by (simp_all add: safe_int_def props_ok_def int_text_def dec_nat_step quote_string_def js_def escape_unit_def
      is_high_def is_low_def)
  have size: "length (utf8 (js ''7'')) < 2 ^ 32" "length (utf8 (js ''{\"got\":7}'')) < 2 ^ 32"
    using length_utf8 [of "js ''7''"] length_utf8 [of "js ''{\"got\":7}''"] by simp_all
  show ?thesis
    using tool_call_round_trip [OF link_pair.hrpc_pair_axioms, of echo_env "link_start (?st, 4)" ?st 4 "js ''add''" adder
        "Num 7" "Obj [(js ''got'', Num 7)]" 5 "js ''1''" "js ''7''" "js ''{\"got\":7}''" id]
      keys given returned size utf8_text.text_encoding_axioms
    by (simp add: link_start_def adder_def utf8_b4a_def)
qed

section \<open>Shutdown\<close>

lemma shutdown_after_exit:
  "\<not> sd_armed s \<Longrightarrow> \<not> sd_waiting s \<Longrightarrow> foldl shutdown_step s es = s"
proof (induction es)
  case (Cons e es)
  then show ?case
    by (cases e) simp_all
qed simp

lemma shutdown_waiting:
  assumes "sd_waiting s" and "\<not> sd_resolved s" and "sd_kills s = (if sd_armed s then 0 else 1)"
  shows "sd_resolved (foldl shutdown_step s es) = (ProcExit \<in> set es)
    \<and> sd_kills (foldl shutdown_step s es)
        = (if \<not> sd_armed s \<or> TimerFires \<in> set (takeWhile (\<lambda>e. e \<noteq> ProcExit) es) then 1 else 0)
    \<and> (ProcExit \<in> set es \<longrightarrow> \<not> sd_armed (foldl shutdown_step s es))"
  using assms
proof (induction es arbitrary: s)
  case (Cons e es)
  show ?case
  proof (cases e)
    case ProcExit
    have "foldl shutdown_step (shutdown_step s ProcExit) es = shutdown_step s ProcExit"
      using Cons.prems by (intro shutdown_after_exit) simp_all
    then show ?thesis
      using Cons.prems ProcExit by simp
  next
    case TimerFires
    then show ?thesis
      using Cons.IH [of "shutdown_step s TimerFires"] Cons.prems by auto
  qed
qed simp

text \<open>
  C29. Shutting the agent down.  For every sequence of exits and timer ticks after the pipe has
  been ended: the promise resolves exactly if the process exits; the process is killed at most
  once, and exactly if the timer fires before the exit; once resolved, no timer is left armed.
\<close>

theorem shutdown_resolves_on_exit_and_kills_once:
  "let s = foldl shutdown_step shutdown_start events in
     sd_resolved s = (ProcExit \<in> set events)
     \<and> sd_kills s = (if TimerFires \<in> set (takeWhile (\<lambda>e. e \<noteq> ProcExit) events) then 1 else 0)
     \<and> (sd_resolved s \<longrightarrow> \<not> sd_armed s)"
  using shutdown_waiting [of shutdown_start events] by (auto simp: shutdown_start_def Let_def)

theorem shutdown_resolves_on_exit_and_kills_once_witness:
  "foldl shutdown_step shutdown_start [TimerFires, TimerFires, ProcExit, TimerFires]
    = \<lparr>sd_armed = False, sd_waiting = False, sd_resolved = True, sd_kills = 1\<rparr>"
proof -
  let ?s = "foldl shutdown_step shutdown_start [TimerFires, TimerFires, ProcExit, TimerFires]"
  have "sd_resolved ?s \<and> sd_kills ?s = 1 \<and> \<not> sd_armed ?s"
    using shutdown_resolves_on_exit_and_kills_once [of "[TimerFires, TimerFires, ProcExit, TimerFires]"]
    by (simp add: Let_def)
  then show ?thesis
    by (simp add: shutdown_start_def)
qed

section \<open>A close that fails\<close>

text \<open>What a step on an open instance leaves alone.\<close>

definition keeps :: "('w, 'b, 'a, 'x) act \<Rightarrow> bool" where
  "keeps m \<longleftrightarrow> (\<forall>st. cl_opened st \<longrightarrow> cl_opened (snd (m st)) \<and> cl_rpc (snd (m st)) = cl_rpc st)"

lemma keeps_andthen: "keeps m \<Longrightarrow> (\<And>x. keeps (f x)) \<Longrightarrow> keeps (andthen m f)"
  unfolding keeps_def andthen_def by (auto split: prod.splits sum.splits)

lemma keeps_calls: "keeps (rpc_do g)" "keeps (bee_do h)" "keeps (ret x)" "keeps (prop_of v k)" "keeps (ensure_open E)"
  by (auto simp: keeps_def rpc_do_def bee_do_def ret_def prop_of_def ensure_open_def split: prod.splits)

lemma keeps_for_each: "(\<And>x. keeps (f x)) \<Longrightarrow> keeps (for_each f xs)"
  by (induction xs) (auto intro: keeps_calls keeps_andthen)

lemma keeps_persist: "keeps (persistSession E key)"
proof -
  have "keeps (andthen (exportSession E key) (\<lambda>blob. put_one E (data_key (e_b4a E) key) blob))"
    unfolding exportSession_def put_one_def by (intro keeps_andthen keeps_calls)
  then show ?thesis
    by (auto simp: keeps_def persistSession_def ret_def)
qed

lemma keeps_list: "keeps (listStoreKeys E prefix)"
  unfolding listStoreKeys_def by (intro keeps_andthen keeps_calls)

text \<open>None of the flushing looks at what ending the pipe would do.\<close>

lemma pipe_end_open: "ensure_open (E\<lparr>e_pipe_end := pe\<rparr>) = ensure_open E"
  by (simp add: fun_eq_iff ensure_open_def cong: if_cong)

lemma pipe_end_export: "exportSession (E\<lparr>e_pipe_end := pe\<rparr>) = exportSession E"
  unfolding exportSession_def by (simp add: fun_eq_iff pipe_end_open)

lemma pipe_end_put: "put_one (E\<lparr>e_pipe_end := pe\<rparr>) = put_one E"
  by (simp add: fun_eq_iff put_one_def)

lemma pipe_end_unused:
  "listStoreKeys (E\<lparr>e_pipe_end := pe\<rparr>) = listStoreKeys E"
  "persistSession (E\<lparr>e_pipe_end := pe\<rparr>) = persistSession E"
  by (simp_all add: fun_eq_iff listStoreKeys_def persistSession_def pipe_end_export pipe_end_put)

text \<open>
  C35. When \<open>close\<close> rejects (an export or the store fails), the agent process is left running: the
  rejection comes before the pipe is ended, whatever ending it would have done, and the
  instance keeps its RPC object.
\<close>

theorem failed_close_leaves_the_agent_running:
  assumes "cl_opened st" and "claw_close E st = (Some (Inl e), st')"
  shows "cl_rpc st' \<and> (\<forall>pe. claw_close (E\<lparr>e_pipe_end := pe\<rparr>) st = (Some (Inl e), st'))"
proof -
  let ?flush = "andthen (listStoreKeys E sessions_prefix) (\<lambda>keys.
                andthen (for_each (\<lambda>key. persistSession E (Str key)) keys) (\<lambda>_.
                bee_do (e_bee_close E)))"
  have rpc: "cl_rpc st"
    using assms(2) by (auto simp: claw_close_def split: if_splits)
  have failed: "?flush st = (Inl e, st')"
    using assms(2) rpc by (auto simp: claw_close_def shutdownProc_def split: prod.splits sum.splits option.splits if_splits)
  have "keeps ?flush"
    by (intro keeps_andthen keeps_list keeps_for_each keeps_persist keeps_calls)
  then have "cl_rpc st'"
    using failed assms(1) rpc unfolding keeps_def by (metis snd_conv)
  then show ?thesis
    using failed rpc by (simp add: claw_close_def pipe_end_unused)
qed

text \<open>A store whose \<open>close\<close> fails.\<close>

definition unclosable_env :: "(goserver link, entries, nat) env" where
  "unclosable_env = echo_env\<lparr>e_bee_close := (\<lambda>es. (Inl (ErrorObj (js ''disk'')), es))\<rparr>"

theorem failed_close_leaves_the_agent_running_witness:
  "claw_close unclosable_env go_claw = (Some (Inl (ErrorObj (js ''disk''))), go_claw)
    \<and> cl_rpc go_claw \<and> (\<forall>pe. claw_close (unclosable_env\<lparr>e_pipe_end := pe\<rparr>) go_claw
        = (Some (Inl (ErrorObj (js ''disk''))), go_claw))"
proof -
  have "listStoreKeys unclosable_env sessions_prefix go_claw = (Inr [], go_claw)"
    by (simp add: go_claw_def claw_new_def unclosable_env_def listStoreKeys_def listed_keys_def andthen_def bee_do_def
      ret_def list_bee_def)
  then have "cl_opened go_claw" "claw_close unclosable_env go_claw = (Some (Inl (ErrorObj (js ''disk''))), go_claw)"
    by (simp_all add: claw_close_def andthen_def ret_def bee_do_def go_claw_def claw_new_def unclosable_env_def)
  from failed_close_leaves_the_agent_running [OF this] this(2) show ?thesis
    by simp
qed

end
