(* ===== verification/Js_Text.thy ===== *)
theory Js_Text
  imports Prelude
begin

text \<open>
  The string methods of the language the examples use, on UTF-16 code units: \<open>split\<close> and \<open>join\<close>,
  \<open>trim\<close>, \<open>padEnd\<close>, \<open>slice\<close>, and replacing the runs of a character class; and the facts about
  them the reviews and the renderings rest on.
\<close>

section \<open>Definitions\<close>

text \<open>White space and line terminators: what \<open>\s\<close> matches and \<open>trim\<close> strips.\<close>

definition is_space :: "16 word \<Rightarrow> bool" where
  "is_space u \<longleftrightarrow> 9 \<le> u \<and> u \<le> 13 \<or> 0x2000 \<le> u \<and> u \<le> 0x200A
     \<or> u \<in> {32, 0xA0, 0x1680, 0x2028, 0x2029, 0x202F, 0x205F, 0x3000, 0xFEFF}"

definition trim_start :: "jsstring \<Rightarrow> jsstring" where
  "trim_start s = dropWhile is_space s"

definition trim :: "jsstring \<Rightarrow> jsstring" where
  "trim s = rev (trim_start (rev (trim_start s)))"

text \<open>\<open>s.split(c)\<close> at one code unit.\<close>

fun split_on :: "16 word \<Rightarrow> jsstring \<Rightarrow> jsstring list" where
  "split_on c [] = [[]]"
| "split_on c (x # s) =
     (if x = c then [] # split_on c s
      else case split_on c s of [] \<Rightarrow> [[x]] | l # ls \<Rightarrow> (x # l) # ls)"

fun join :: "jsstring \<Rightarrow> jsstring list \<Rightarrow> jsstring" where
  "join sep [] = []"
| "join sep [t] = t"
| "join sep (t # u # ts) = t @ sep @ join sep (u # ts)"

definition padEnd :: "nat \<Rightarrow> jsstring \<Rightarrow> jsstring" where
  "padEnd n s = s @ replicate (n - length s) 32"

text \<open>\<open>s.replace(/P+/g, ' ')\<close> for a class \<open>P\<close>.\<close>

function collapse :: "(16 word \<Rightarrow> bool) \<Rightarrow> jsstring \<Rightarrow> jsstring" where
  "collapse P [] = []"
| "collapse P (c # s) = (if P c then 32 # collapse P (dropWhile P s) else c # collapse P s)"
  by pat_completeness auto
termination
  by (relation "measure (\<lambda>(_, s). length s)") (auto simp: less_Suc_eq_le length_dropWhile_le)

text \<open>Throwing functions over a list, in order.\<close>

primrec traverse :: "('x \<Rightarrow> 'y result) \<Rightarrow> 'x list \<Rightarrow> 'y list result" where
  "traverse f [] = Inr []"
| "traverse f (x # xs) = rbind (f x) (\<lambda>y. rbind (traverse f xs) (\<lambda>ys. Inr (y # ys)))"

section \<open>Trimming\<close>

lemma is_space_ascii [simp]: "is_space 32" "is_space 10" "is_space 9"
  by (simp_all add: is_space_def)

text \<open>A text with nothing to trim.\<close>

definition trimmed :: "jsstring \<Rightarrow> bool" where
  "trimmed s \<longleftrightarrow> (s \<noteq> [] \<longrightarrow> \<not> is_space (hd s) \<and> \<not> is_space (last s))"

lemma trim_start_hd: "trim_start s \<noteq> [] \<Longrightarrow> \<not> is_space (hd (trim_start s))"
  unfolding trim_start_def by (rule hd_dropWhile)

lemma trim_start_last: "trim_start s \<noteq> [] \<Longrightarrow> last (trim_start s) = last s"
  by (metis last_appendR takeWhile_dropWhile_id trim_start_def)

lemma trimmed_trim: "trimmed (trim s)"
proof -
  let ?a = "trim_start s" and ?b = "trim_start (rev (trim_start s))"
  have "\<not> is_space (hd ?b) \<and> \<not> is_space (last ?b)" if "?b \<noteq> []"
  proof -
    have "?a \<noteq> []"
      using that by (metis dropWhile.simps(1) rev.simps(1) trim_start_def)
    then show ?thesis
      using trim_start_hd [OF that] trim_start_last [OF that] trim_start_hd [of s] by (simp add: last_rev)
  qed
  then show ?thesis
    by (auto simp: trimmed_def trim_def hd_rev last_rev)
qed

lemma trim_trimmed: "trimmed s \<Longrightarrow> trim s = s"
proof -
  have id: "s = [] \<or> \<not> is_space (hd s) \<Longrightarrow> trim_start s = s" for s
    by (cases s) (simp_all add: trim_start_def)
  then show "trimmed s \<Longrightarrow> ?thesis"
    by (auto simp: trim_def trimmed_def hd_rev id)
qed

lemma trim_trim [simp]: "trim (trim s) = trim s"
  by (simp add: trim_trimmed trimmed_trim)

lemma set_trim: "set (trim s) \<subseteq> set s"
  by (auto simp: trim_def trim_start_def dest!: set_dropWhileD)

lemma length_trim: "length (trim s) \<le> length s"
  using length_dropWhile_le [of is_space "rev (dropWhile is_space s)"] length_dropWhile_le [of is_space s]
  by (simp add: trim_def trim_start_def)

text \<open>Trimming keeps a text that starts and ends with something else whole.\<close>

lemma trimmed_append: "trimmed s \<Longrightarrow> trimmed t \<Longrightarrow> s \<noteq> [] \<Longrightarrow> t \<noteq> [] \<Longrightarrow> trimmed (s @ m @ t)"
  by (simp add: trimmed_def)

section \<open>Splitting and joining\<close>

lemma split_on_not_Nil [simp]: "split_on c s \<noteq> []"
  by (cases s) (auto split: list.splits)

lemma split_on_fresh: "l \<in> set (split_on c s) \<Longrightarrow> c \<notin> set l"
  by (induction s arbitrary: l) (auto split: list.splits if_splits)

lemma split_on_sub: "l \<in> set (split_on c s) \<Longrightarrow> set l \<subseteq> set s"
  by (induction s arbitrary: l) (fastforce split: list.splits if_splits)+

lemma split_on_single: "c \<notin> set s \<Longrightarrow> split_on c s = [s]"
  by (induction s) auto

lemma split_on_Cons: "c \<notin> set l \<Longrightarrow> split_on c (l @ c # s) = l # split_on c s"
  by (induction l) auto

lemma split_join: "ls \<noteq> [] \<Longrightarrow> \<forall>l \<in> set ls. c \<notin> set l \<Longrightarrow> split_on c (join [c] ls) = ls"
  by (induction "[c]" ls rule: join.induct) (simp_all add: split_on_single split_on_Cons)

lemma join_eq_Nil: "\<forall>l \<in> set ls. l \<noteq> [] \<Longrightarrow> join sep ls = [] \<longleftrightarrow> ls = []"
  by (induction sep ls rule: join.induct) auto

lemma set_join: "set (join sep ls) \<subseteq> set sep \<union> \<Union> (set ` set ls)"
  by (induction sep ls rule: join.induct) auto

text \<open>Joining trimmed lines leaves nothing to trim.\<close>

lemma trimmed_join: "\<forall>l \<in> set ls. trimmed l \<and> l \<noteq> [] \<Longrightarrow> trimmed (join sep ls)"
proof (induction sep ls rule: join.induct)
  case (3 sep t u ts)
  then have "join sep (u # ts) \<noteq> []"
    using join_eq_Nil [of "u # ts" sep] by simp
  then show ?case
    using 3 by (simp add: trimmed_append)
qed (simp_all add: trimmed_def)

lemma length_padEnd: "length (padEnd n s) = max n (length s)"
  by (simp add: padEnd_def)

section \<open>Collapsing runs\<close>

lemma collapse_free: "\<not> P 32 \<Longrightarrow> x \<in> set (collapse P s) \<Longrightarrow> \<not> P x"
  by (induction P s rule: collapse.induct) (auto split: if_splits)

lemma set_collapse: "set (collapse P s) \<subseteq> insert 32 (set s)"
  by (induction P s rule: collapse.induct) (auto dest: set_dropWhileD split: if_splits)

lemma collapse_only: "x \<in> set (collapse P s) \<Longrightarrow> P x \<Longrightarrow> x = 32"
  by (induction P s rule: collapse.induct) (auto split: if_splits)

text \<open>No two spaces in a row.\<close>

definition single_spaced :: "jsstring \<Rightarrow> bool" where
  "single_spaced s \<longleftrightarrow> successively (\<lambda>u v. \<not> (u = 32 \<and> v = 32)) s"

lemma single_spaced_append: "single_spaced (s @ t) \<Longrightarrow> single_spaced s \<and> single_spaced t"
  by (simp add: single_spaced_def successively_append_iff)

lemma single_spaced_rev: "single_spaced (rev s) = single_spaced s"
  unfolding single_spaced_def successively_rev by (subst conj_commute) (rule refl)

lemma single_spaced_trim_start: "single_spaced s \<Longrightarrow> single_spaced (trim_start s)"
  using single_spaced_append [of "takeWhile is_space s" "dropWhile is_space s"] by (simp add: trim_start_def)

lemma single_spaced_trim: "single_spaced s \<Longrightarrow> single_spaced (trim s)"
  unfolding trim_def by (simp add: single_spaced_rev single_spaced_trim_start)

lemma collapse_hd: "s \<noteq> [] \<Longrightarrow> \<not> P (hd s) \<Longrightarrow> hd (collapse P s) = hd s"
  by (cases s) simp_all

lemma single_spaced_collapse: "P 32 \<Longrightarrow> single_spaced (collapse P s)"
proof (induction P s rule: collapse.induct)
  case (2 P c s)
  have "collapse P (dropWhile P s) = [] \<or> hd (collapse P (dropWhile P s)) \<noteq> 32"
    using 2(3) by (metis collapse.simps(1) collapse_hd hd_dropWhile)
  then show ?case
    using 2 by (auto simp: single_spaced_def successively_Cons)
qed (simp add: single_spaced_def)

section \<open>Traversals\<close>

lemma traverse_Inr: "(\<And>x. x \<in> set xs \<Longrightarrow> f x = Inr (g x)) \<Longrightarrow> traverse f xs = Inr (map g xs)"
  by (induction xs) simp_all

lemma traverse_returns: "\<forall>x \<in> set xs. \<exists>y. f x = Inr y \<Longrightarrow> \<exists>ys. traverse f xs = Inr ys"
  by (induction xs) auto

lemma traverse_InrD: "traverse f xs = Inr ys \<Longrightarrow> list_all2 (\<lambda>x y. f x = Inr y) xs ys"
  by (induction xs arbitrary: ys) (auto simp: rbind_eq_Inr)

lemma traverse_append: "traverse f (xs @ ys) = rbind (traverse f xs) (\<lambda>us. rbind (traverse f ys) (\<lambda>vs. Inr (us @ vs)))"
proof (induction xs)
  case Nil
  show ?case
    by (cases "traverse f ys") simp_all
next
  case (Cons x xs)
  then show ?case
    by (cases "f x"; cases "traverse f xs"; cases "traverse f ys") simp_all
qed

end
