(* ===== verification/Ndjson.thy ===== *)
theory Ndjson
  imports Go_World
begin

text \<open>
  The line protocol of the examples: JSON messages, one per line, over a byte stream
  (\<open>writeJSON\<close> and \<open>readJSON\<close> of src/examples/swarm-code-review.js).  The reader keeps a text buffer between the
  chunks of the stream, decodes each chunk on its own and calls the message handler for every
  complete line.
\<close>

section \<open>The writer and the reader\<close>

definition writeJSON :: "b4a \<Rightarrow> jsval \<Rightarrow> bytes" where
  "writeJSON b obj = b4a_from b (to_text b (JSON_stringify obj) @ [10])"

text \<open>\<open>buf.indexOf('\n')\<close> with the two slices around it.\<close>

fun split_line :: "jsstring \<Rightarrow> (jsstring \<times> jsstring) option" where
  "split_line [] = None"
| "split_line (c # s) =
     (if c = 10 then Some ([], s) else case split_line s of None \<Rightarrow> None | Some (line, rest) \<Rightarrow> Some (c # line, rest))"

lemma split_line_length: "split_line s = Some (line, rest) \<Longrightarrow> length rest < length s"
  by (induction s arbitrary: line) (auto split: if_splits option.splits)

text \<open>
  The loop of the \<open>data\<close> listener, on the buffer and the state the handler works on.  A line that
  does not parse, and a handler that throws, leave the loop with the rest in the buffer.
\<close>

function readJSON_lines ::
    "(jsstring \<Rightarrow> jsstring) \<Rightarrow> (jsval \<Rightarrow> 's \<Rightarrow> unit result \<times> 's) \<Rightarrow> jsstring \<Rightarrow> 's \<Rightarrow> unit result \<times> jsstring \<times> 's" where
  "readJSON_lines message fn buf s =
     (case split_line buf of
        None \<Rightarrow> (Inr (), buf, s)
      | Some (line, rest) \<Rightarrow>
          if line = [] then readJSON_lines message fn rest s
          else (case JSON_parse message line of
                  Inl e \<Rightarrow> (Inl e, rest, s)
                | Inr v \<Rightarrow>
                    (case fn v s of
                       (Inl e, s') \<Rightarrow> (Inl e, rest, s')
                     | (Inr _, s') \<Rightarrow> readJSON_lines message fn rest s')))"
  by pat_completeness auto
termination
  by (relation "measure (\<lambda>(_, _, buf, _). length buf)") (auto dest: split_line_length)

declare readJSON_lines.simps [simp del]

text \<open>One \<open>data\<close> event; and a whole stream of them, up to the first uncaught exception.\<close>

definition readJSON ::
    "b4a \<Rightarrow> (jsstring \<Rightarrow> jsstring) \<Rightarrow> (jsval \<Rightarrow> 's \<Rightarrow> unit result \<times> 's) \<Rightarrow> bytes \<Rightarrow> jsstring \<times> 's
      \<Rightarrow> unit result \<times> jsstring \<times> 's" where
  "readJSON b message fn data st = (case st of (buf, s) \<Rightarrow> readJSON_lines message fn (buf @ b4a_toString b data) s)"

definition readJSON_stream ::
    "b4a \<Rightarrow> (jsstring \<Rightarrow> jsstring) \<Rightarrow> (jsval \<Rightarrow> 's \<Rightarrow> unit result \<times> 's) \<Rightarrow> bytes list \<Rightarrow> jsstring \<times> 's
      \<Rightarrow> unit result \<times> jsstring \<times> 's" where
  "readJSON_stream b message fn chunks = for_each (readJSON b message fn) chunks"

section \<open>Lines do not depend on the chunks\<close>

lemma split_line_append:
  "split_line (s @ t) = (case split_line s of Some (line, rest) \<Rightarrow> Some (line, rest @ t)
     | None \<Rightarrow> (case split_line t of None \<Rightarrow> None | Some (line, rest) \<Rightarrow> Some (s @ line, rest)))"
  by (induction s) (auto split: option.splits)

lemma split_line_fresh: "10 \<notin> set line \<Longrightarrow> split_line (line @ 10 # rest) = Some (line, rest)"
  by (induction line) simp_all

text \<open>Reading a text is reading its first part and going on with what that left.\<close>

lemma readJSON_lines_append:
  "readJSON_lines message fn (s @ t) x =
     (case readJSON_lines message fn s x of
        (Inl e, rest, x') \<Rightarrow> (Inl e, rest @ t, x')
      | (Inr _, rest, x') \<Rightarrow> readJSON_lines message fn (rest @ t) x')"
proof (induction "length s" arbitrary: s x rule: less_induct)
  case less
  show ?case
  proof (cases "split_line s")
    case None
    then show ?thesis
      by (subst (2) readJSON_lines.simps) simp
  next
    case (Some p)
    obtain line rest where p: "p = (line, rest)"
      by fastforce
    have step: "readJSON_lines message fn (rest @ t) y = (case readJSON_lines message fn rest y of
        (Inl e, rest, x') \<Rightarrow> (Inl e, rest @ t, x')
      | (Inr _, rest, x') \<Rightarrow> readJSON_lines message fn (rest @ t) x')" for y
      using less split_line_length Some p by blast
    have l: "readJSON_lines message fn (s @ t) x = (if line = [] then readJSON_lines message fn (rest @ t) x
          else (case JSON_parse message line of
                  Inl e \<Rightarrow> (Inl e, rest @ t, x)
                | Inr v \<Rightarrow>
                    (case fn v x of
                       (Inl e, s') \<Rightarrow> (Inl e, rest @ t, s')
                     | (Inr _, s') \<Rightarrow> readJSON_lines message fn (rest @ t) s')))"
      using Some p by (subst readJSON_lines.simps) (simp add: split_line_append)
    have r: "readJSON_lines message fn s x = (if line = [] then readJSON_lines message fn rest x
          else (case JSON_parse message line of
                  Inl e \<Rightarrow> (Inl e, rest, x)
                | Inr v \<Rightarrow>
                    (case fn v x of
                       (Inl e, s') \<Rightarrow> (Inl e, rest, s')
                     | (Inr _, s') \<Rightarrow> readJSON_lines message fn rest s')))"
      using Some p by (subst readJSON_lines.simps) simp
    show ?thesis
      unfolding l r by (simp add: step split: sum.splits prod.splits)
  qed
qed

lemma readJSON_lines_none: "10 \<notin> set s \<Longrightarrow> readJSON_lines message fn s x = (Inr (), s, x)"
proof -
  have "10 \<notin> set s \<Longrightarrow> split_line s = None" for s
    by (induction s) auto
  then show "10 \<notin> set s \<Longrightarrow> ?thesis"
    by (subst readJSON_lines.simps) simp
qed

text \<open>The handler's run over a list of messages: what \<open>for_each\<close> makes of it.\<close>

definition line_of :: "jsval \<Rightarrow> jsstring" where
  "line_of v = (case json_text v of None \<Rightarrow> [] | Some t \<Rightarrow> t) @ [10]"

lemma readJSON_lines_message:
  assumes "json_ok v"
  shows "readJSON_lines message fn (line_of v @ rest) x = (case fn v x of
      (Inl e, x') \<Rightarrow> (Inl e, rest, x') | (Inr _, x') \<Rightarrow> readJSON_lines message fn rest x')"
proof -
  obtain t where t: "json_text v = Some t" "starts t"
    using json_ok_text [OF assms] by blast
  have "t \<noteq> []" "10 \<notin> set t"
    using t json_text_no_newline [OF assms] by (auto simp: starts_def)
  then show ?thesis
    using JSON_parse_text [OF assms t(1)]
    by (subst readJSON_lines.simps) (simp add: line_of_def t(1) split_line_fresh)
qed

lemma readJSON_lines_messages:
  assumes "\<forall>v \<in> set vs. json_ok v"
  shows "case readJSON_lines message fn (concat (map line_of vs)) x of (r, rest, x') \<Rightarrow>
    (r, x') = for_each fn vs x \<and> (\<forall>u. r = Inr u \<longrightarrow> rest = [])"
  using assms
proof (induction vs arbitrary: x)
  case Nil
  show ?case
    by (simp add: readJSON_lines_none ret_def)
next
  case (Cons v vs)
  obtain r x1 where "fn v x = (r, x1)"
    by fastforce
  then show ?case
    using Cons.IH [of x1] Cons.prems by (cases r) (simp_all add: readJSON_lines_message andthen_def)
qed

text \<open>Between two events the buffer holds an unfinished line.\<close>

lemma readJSON_lines_rest: "readJSON_lines message fn s x = (Inr u, rest, x') \<Longrightarrow> 10 \<notin> set rest"
proof (induction "length s" arbitrary: s x rule: less_induct)
  case less
  have none: "split_line s = None \<Longrightarrow> 10 \<notin> set s" for s
    by (induction s) (auto split: if_splits option.splits)
  show ?case
  proof (cases "split_line s")
    case None
    then show ?thesis
      using less.prems none [of s] by (subst (asm) readJSON_lines.simps) simp
  next
    case (Some p)
    moreover obtain line r where "p = (line, r)"
      by fastforce
    moreover note less.hyps [OF split_line_length [of s line r]]
    ultimately show ?thesis
      using less.prems by (subst (asm) (2) readJSON_lines.simps) (auto split: if_splits sum.splits prod.splits)
  qed
qed

text \<open>A stream is read as the text its chunks decode to (what a failure leaves in the buffer apart).\<close>

lemma readJSON_stream_text:
  assumes "10 \<notin> set buf"
  shows "case readJSON_stream b message fn chunks (buf, x) of (r, rest, x') \<Rightarrow>
     (case readJSON_lines message fn (buf @ concat (map (b4a_toString b) chunks)) x of
        (r', rest', x'') \<Rightarrow> r = r' \<and> x' = x'' \<and> (r = Inr () \<longrightarrow> rest = rest'))"
  using assms
proof (induction chunks arbitrary: buf x)
  case Nil
  then show ?case
    by (simp add: readJSON_stream_def ret_def readJSON_lines_none)
next
  case (Cons d ds)
  obtain r rest x' where first: "readJSON_lines message fn (buf @ b4a_toString b d) x = (r, rest, x')"
    using prod_cases3 by blast
  have all: "readJSON_lines message fn (buf @ concat (map (b4a_toString b) (d # ds))) x =
      (case r of Inl e \<Rightarrow> (Inl e, rest @ concat (map (b4a_toString b) ds), x')
         | Inr _ \<Rightarrow> readJSON_lines message fn (rest @ concat (map (b4a_toString b) ds)) x')"
    using readJSON_lines_append [of message fn "buf @ b4a_toString b d" "concat (map (b4a_toString b) ds)" x]
    by (simp add: first split: sum.splits)
  show ?case
  proof (cases r)
    case (Inl e)
    then show ?thesis
      unfolding all by (simp add: readJSON_stream_def andthen_def readJSON_def first)
  next
    case (Inr u)
    then have "10 \<notin> set rest"
      using first by (metis readJSON_lines_rest)
    then show ?thesis
      unfolding all using Cons.IH [of rest x'] Inr by (simp add: readJSON_stream_def andthen_def readJSON_def first)
  qed
qed

text \<open>Chunks cut between characters decode to the text they carry.\<close>

lemma wf16_concat: "list_all wf16 ts \<Longrightarrow> wf16 (concat ts)"
  by (induction ts) (auto intro: wf16_append)

lemma wf16_line_of: "json_ok v \<Longrightarrow> wf16 (line_of v)"
  using json_text_wf16 [of v] json_ok_text [of v]
  by (auto simp: line_of_def is_high_def is_low_def intro!: wf16_append)

context text_encoding
begin

lemma from_concat: "list_all wf16 ts \<Longrightarrow> b4a_from b (concat ts) = concat (map (b4a_from b) ts)"
  by (induction ts) (simp_all add: from_append from_Nil)

lemma decoded_parts: "list_all wf16 ts \<Longrightarrow> concat (map (b4a_toString b) (map (b4a_from b) ts)) = concat ts"
  by (induction ts) (simp_all add: toString_from)

lemma writeJSON_line: "json_ok v \<Longrightarrow> writeJSON b v = b4a_from b (line_of v)"
  using json_text_some [of v] by (auto simp: writeJSON_def line_of_def)

lemma written_lines:
  assumes "\<forall>v \<in> set vs. json_ok v"
  shows "concat (map (writeJSON b) vs) = b4a_from b (concat (map line_of vs))" and "wf16 (concat (map line_of vs))"
proof -
  have "list_all wf16 (map line_of vs)"
    using assms wf16_line_of by (auto simp: list_all_iff)
  then show "concat (map (writeJSON b) vs) = b4a_from b (concat (map line_of vs))" "wf16 (concat (map line_of vs))"
    using assms writeJSON_line by (auto simp: from_concat wf16_concat comp_def intro!: arg_cong [of _ _ concat])
qed

text \<open>A reader of the bytes of some messages, cut between characters, runs the handler on the messages.\<close>

lemma stream_delivers:
  assumes "\<forall>v \<in> set vs. json_ok v" and "list_all wf16 parts" and "chunks = map (b4a_from b) parts"
    and "concat chunks = concat (map (writeJSON b) vs)"
  shows "case readJSON_stream b message fn chunks ([], x) of (r, rest, x') \<Rightarrow>
    (r, x') = for_each fn vs x \<and> (r = Inr () \<longrightarrow> rest = [])"
proof -
  have "b4a_from b (concat parts) = b4a_from b (concat (map line_of vs))"
    using assms written_lines(1) from_concat by metis
  then have "concat parts = concat (map line_of vs)"
    using written_lines(2) [OF assms(1)] wf16_concat [OF assms(2)] by (simp add: from_inj)
  then have "[] @ concat (map (b4a_toString b) chunks) = concat (map line_of vs)"
    using decoded_parts [OF assms(2)] assms(3) by simp
  then show ?thesis
    using readJSON_stream_text [where buf = "[]" and b = b and message = message and fn = fn and chunks = chunks and x = x]
      readJSON_lines_messages [where vs = vs and message = message and fn = fn and x = x] assms(1)
    by (auto split: prod.splits)
qed

lemma ascii_bytes: "list_all (\<lambda>x. x < 0x80) bs \<Longrightarrow> bs = b4a_from b (map ucast bs) \<and> wf16 (map ucast bs)"
proof (induction bs)
  case (Cons x bs)
  have "unat (ucast x :: 16 word) = unat x"
    using unsigned_less [of x, where 'a = nat] by (simp add: unsigned_ucast_eq take_bit_nat_eq_self)
  then have x: "(ucast x :: 16 word) < 0x80"
    using Cons.prems by (simp add: word_less_nat_alt)
  have again: "(ucast (ucast x :: 16 word) :: byte) = x"
    by transfer simp
  have "(ucast x :: 16 word) < 255"
    by (rule less_trans [OF x]) simp
  then have "wf16 [ucast x :: 16 word]" "wf16 (ucast x # map ucast bs)"
    using Cons by (simp_all add: ascii_not_surrogate del: wf16.simps(2,3))
  then show ?case
    using Cons from_ascii [OF x] from_append [of "[ucast x]" "map ucast bs"] again by simp
qed (simp add: from_Nil)

end

section \<open>Messages over the stream\<close>

text \<open>
  C23. Messages arrive whole and in order.  For messages of JSON values and any way of cutting
  the bytes that \<open>writeJSON\<close> wrote for them into chunks between two characters, the reader calls
  the handler on exactly these messages in order, up to the first exception of the handler; when there
  is none, nothing is left in the buffer.
\<close>

theorem messages_arrive_whole_and_in_order:
  assumes "text_encoding b" and "\<forall>v \<in> set vs. json_ok v" and "list_all wf16 parts"
    and "chunks = map (b4a_from b) parts" and "concat chunks = concat (map (writeJSON b) vs)"
  shows "case readJSON_stream b message fn chunks ([], x) of (r, rest, x') \<Rightarrow>
    (r, x') = for_each fn vs x \<and> (r = Inr () \<longrightarrow> rest = [])"
  using text_encoding.stream_delivers [OF assms] .

text \<open>
  Text in ASCII survives any chunking: when every byte written is below 0x80, the reader sees
  the same messages wherever the stream is cut.
\<close>

theorem ascii_messages_survive_any_chunking:
  assumes "text_encoding b" and "\<forall>v \<in> set vs. json_ok v"
    and "list_all (\<lambda>x. x < 0x80) (concat (map (writeJSON b) vs))" and "concat chunks = concat (map (writeJSON b) vs)"
  shows "case readJSON_stream b message fn chunks ([], x) of (r, rest, x') \<Rightarrow>
    (r, x') = for_each fn vs x \<and> (r = Inr () \<longrightarrow> rest = [])"
proof (rule text_encoding.stream_delivers [OF assms(1,2) _ _ assms(4)])
  have "list_all (\<lambda>x. x < 0x80) bs" if "bs \<in> set chunks" for bs
    using assms(3) [folded assms(4)] that by (auto simp: list_all_iff)
  then have ascii: "bs = b4a_from b (map ucast bs) \<and> wf16 (map ucast bs)" if "bs \<in> set chunks" for bs
    using text_encoding.ascii_bytes [OF assms(1)] that by blast
  then show "list_all wf16 (map (map ucast) chunks)"
    by (simp add: list_all_iff)
  have "map (b4a_from b) (map (map ucast) chunks) = map (\<lambda>bs. bs) chunks"
    unfolding map_map by (rule map_cong) (use ascii in auto)
  then show "chunks = map (b4a_from b) (map (map ucast) chunks)"
    by simp
qed

text \<open>A handler that collects what it is called with.\<close>

definition collect :: "jsval \<Rightarrow> jsval list \<Rightarrow> unit result \<times> jsval list" where
  "collect v seen = (Inr (), seen @ [v])"

theorem ascii_messages_survive_any_chunking_witness:
  "snd (snd (readJSON_stream utf8_b4a id collect [[0x31], [0x32, 0x0A, 0x33], [0x0A]] ([], []))) = [Num 12, Num 3]"
proof -
  have "writeJSON utf8_b4a (Num 12) = [0x31, 0x32, 0x0A]" "writeJSON utf8_b4a (Num 3) = [0x33, 0x0A]"
    by (simp_all add: writeJSON_def JSON_stringify_def int_text_def dec_nat_step utf8_b4a_def is_high_def is_low_def cp_bytes_def)
  then show ?thesis
    using ascii_messages_survive_any_chunking [OF utf8_text.text_encoding_axioms, where vs = "[Num 12, Num 3]"
      and chunks = "[[0x31], [0x32, 0x0A, 0x33], [0x0A]]" and message = id and fn = collect and x = "[]"]
    by (auto simp: safe_int_def andthen_def ret_def collect_def split: prod.splits)
qed

theorem messages_arrive_whole_and_in_order_witness:
  "snd (snd (readJSON_stream utf8_b4a id collect [utf8 [0x31, 0x32], utf8 [0x0A]] ([], []))) = [Num 12]"
proof -
  have "writeJSON utf8_b4a (Num 12) = [0x31, 0x32, 0x0A]"
    by (simp add: writeJSON_def JSON_stringify_def int_text_def dec_nat_step utf8_b4a_def is_high_def is_low_def cp_bytes_def)
  then show ?thesis
    using messages_arrive_whole_and_in_order [OF utf8_text.text_encoding_axioms, where vs = "[Num 12]"
      and parts = "[[0x31, 0x32], [0x0A]]" and chunks = "[utf8 [0x31, 0x32], utf8 [0x0A]]" and message = id
      and fn = collect and x = "[]"]
    by (auto simp: safe_int_def andthen_def ret_def collect_def utf8_b4a_def is_high_def is_low_def cp_bytes_def
      split: prod.splits)
qed


end
