(* ===== verification/Review.thy ===== *)
theory Review
  imports Js_Text Ndjson
begin

text \<open>
  The reviews of src/examples/swarm-code-review.js as data: the panel's configuration, what counts
  as a finding in a review, the consensus table, the action list, the report and the prompts.
  A review is a message another process sent, so its fields are arbitrary values; a method a value
  does not have throws.
\<close>

section \<open>Configuration\<close>

definition BASE :: jsstring where
  "BASE = js ''main''"

definition MAX_DIFF :: nat where
  "MAX_DIFF = 6000"

definition PER_CATEGORY :: nat where
  "PER_CATEGORY = 1"

record lens_category =
  cat_name :: jsstring
  cat_lens :: jsstring

definition CATEGORIES :: "lens_category list" where
  "CATEGORIES =
    [\<lparr>cat_name = js ''bugs'', cat_lens = js ''correctness & bugs: logic errors, edge cases, races, resource leaks''\<rparr>,
     \<lparr>cat_name = js ''security'', cat_lens = js ''security: unsafe input handling, injection, privilege, leaked secrets''\<rparr>,
     \<lparr>cat_name = js ''design'', cat_lens = js ''API design & readability: naming, public surface, maintainability''\<rparr>,
     \<lparr>cat_name = js ''quality'', cat_lens =
        js ''code quality, Unix philosophy: correct and clean structure, small single-purpose '' @
        js ''functions that do one thing well, composability, no dead code or needless complexity, '' @
        js ''consistent style '' @ [0x2014] @ js '' hold the change to a high craftsmanship bar''\<rparr>]"

record spec =
  sp_category :: jsstring
  sp_lens :: jsstring
  sp_from :: jsstring

definition SPECS :: "spec list" where
  "SPECS = concat (map (\<lambda>c. map (\<lambda>i.
      \<lparr>sp_category = cat_name c, sp_lens = cat_lens c, sp_from = cat_name c @ js ''#'' @ dec_nat (i + 1)\<rparr>)
      [0..<PER_CATEGORY]) CATEGORIES)"

section \<open>What a review says\<close>

text \<open>\<open>/^[-*\<bullet>\s]*[{[].*"\s*:/\<close>: a bullet or space prefix, a bracket, and a quote with a colon on the same line.\<close>

definition bullet :: "16 word \<Rightarrow> bool" where
  "bullet u \<longleftrightarrow> u \<in> {45, 42, 0x2022}"

definition line_terminator :: "16 word \<Rightarrow> bool" where
  "line_terminator u \<longleftrightarrow> u \<in> {10, 13, 0x2028, 0x2029}"

fun quote_colon :: "jsstring \<Rightarrow> bool" where
  "quote_colon [] = False"
| "quote_colon (c # s) =
     (c = 34 \<and> (case trim_start s of d # _ \<Rightarrow> d = 58 | [] \<Rightarrow> False) \<or> \<not> line_terminator c \<and> quote_colon s)"

definition tool_call_line :: "jsstring \<Rightarrow> bool" where
  "tool_call_line l =
     (case dropWhile (\<lambda>u. bullet u \<or> is_space u) l of
        c # s \<Rightarrow> (c = 123 \<or> c = 91) \<and> quote_colon s
      | [] \<Rightarrow> False)"

definition clean_text :: "jsstring \<Rightarrow> jsstring" where
  "clean_text text =
     trim (join [10] (filter (\<lambda>l. l \<noteq> [] \<and> \<not> tool_call_line l) (map trim (split_on 10 text))))"

text \<open>\<open>text.split\<close> is a method of strings only.\<close>

definition cleanReview :: "jsval \<Rightarrow> jsstring result" where
  "cleanReview v = (case v of Str text \<Rightarrow> Inr (clean_text text) | _ \<Rightarrow> Inl TypeError)"

text \<open>The alternatives of the pattern \<open>PASS\<close>, matched without regard to ASCII case between two word boundaries.\<close>

definition PASS :: "jsstring list" where
  "PASS = map js [''lgtm'', ''looks good'', ''no issues'', ''no findings'', ''no concerns'', ''no problems'',
     ''no changes needed'', ''none found'', ''none to report'', ''nothing to report'', ''nothing found'', ''nothing to flag'']"

definition lower :: "16 word \<Rightarrow> 16 word" where
  "lower u = (if 65 \<le> u \<and> u \<le> 90 then u + 32 else u)"

definition word_unit :: "16 word \<Rightarrow> bool" where
  "word_unit u \<longleftrightarrow> 48 \<le> u \<and> u \<le> 57 \<or> 65 \<le> u \<and> u \<le> 90 \<or> 97 \<le> u \<and> u \<le> 122 \<or> u = 95"

text \<open>\<open>\b\<close> between what was read last and the rest.\<close>

definition word_boundary :: "16 word option \<Rightarrow> jsstring \<Rightarrow> bool" where
  "word_boundary prev s \<longleftrightarrow>
     (case prev of None \<Rightarrow> False | Some u \<Rightarrow> word_unit u) \<noteq> (case s of [] \<Rightarrow> False | u # _ \<Rightarrow> word_unit u)"

definition starts_pass :: "jsstring \<Rightarrow> bool" where
  "starts_pass s \<longleftrightarrow> list_ex (\<lambda>p. map lower (take (length p) s) = p
     \<and> word_boundary (Some (last p)) (drop (length p) s)) PASS"

fun PASS_test :: "16 word option \<Rightarrow> jsstring \<Rightarrow> bool" where
  "PASS_test prev [] = False"
| "PASS_test prev (u # s) = (word_boundary prev (u # s) \<and> starts_pass (u # s) \<or> PASS_test (Some u) s)"

text \<open>\<open>/(^|\n)\s*[-*\<bullet>]/\<close>\<close>

definition starts_bullet :: "jsstring \<Rightarrow> bool" where
  "starts_bullet s = (case trim_start s of u # _ \<Rightarrow> bullet u | [] \<Rightarrow> False)"

fun bullet_after_newline :: "jsstring \<Rightarrow> bool" where
  "bullet_after_newline [] = False"
| "bullet_after_newline (u # s) = (u = 10 \<and> starts_bullet s \<or> bullet_after_newline s)"

definition has_bullets :: "jsstring \<Rightarrow> bool" where
  "has_bullets t \<longleftrightarrow> starts_bullet t \<or> bullet_after_newline t"

text \<open>\<open>None\<close> is the code's \<open>null\<close>: the reviewer passed.\<close>

definition findings :: "jsval \<Rightarrow> jsstring option result" where
  "findings review =
     rbind (cleanReview review) (\<lambda>t. Inr (
       if t = [] then None
       else if \<not> has_bullets t \<and> PASS_test None t then None
       else Some t))"

definition isClean :: "jsval \<Rightarrow> bool result" where
  "isClean review = rbind (findings review) (\<lambda>f. Inr (f = None))"

definition oneLine :: "jsstring \<Rightarrow> jsstring" where
  "oneLine text =
     (let s = trim (collapse is_space text)
      in if length s > 100 then take 100 s @ [0x2026] else s)"

section \<open>Action items and consensus\<close>

record action_item =
  it_category :: jsval
  it_from :: jsval
  it_text :: jsstring

definition item_of :: "jsval \<Rightarrow> action_item list result" where
  "item_of r =
     rbind (getp r (js ''review'')) (\<lambda>review.
     rbind (findings review) (\<lambda>found. Inr (
       case found of
         None \<Rightarrow> []
       | Some text \<Rightarrow> if text = [] then []
           else [\<lparr>it_category = field r (js ''category''), it_from = field r (js ''from''), it_text = text\<rparr>])))"

definition actionItems :: "jsval list \<Rightarrow> action_item list result" where
  "actionItems reviews = rbind (traverse item_of reviews) (\<lambda>itemss. Inr (concat itemss))"

record consensus =
  cn_category :: jsstring
  cn_clean :: nat
  cn_total :: nat
  cn_status :: jsstring
  cn_line :: jsstring

definition in_category :: "jsstring \<Rightarrow> jsval \<Rightarrow> bool" where
  "in_category name r \<longleftrightarrow> field r (js ''category'') = Str name"

definition summarize_category :: "jsval list \<Rightarrow> lens_category \<Rightarrow> consensus result" where
  "summarize_category reviews c =
     rbind (traverse (\<lambda>r. rbind (getp r (js ''category'')) (\<lambda>cat. Inr (cat = Str (cat_name c)))) reviews) (\<lambda>_.
     let rs = filter (in_category (cat_name c)) reviews
     in rbind (traverse (\<lambda>r. rbind (getp r (js ''review'')) isClean) rs) (\<lambda>cleans.
        let clean = length (filter (\<lambda>x. x) cleans);
            total = length rs;
            (icon, status) =
              (if total \<noteq> 0 \<and> clean = total then ([0x2713], js ''clean'')
               else if clean = 0 then ([0x26A0], js ''issues'')
               else ([126], js ''mixed''))
        in Inr \<lparr>cn_category = cat_name c, cn_clean = clean, cn_total = total, cn_status = status,
             cn_line = icon @ js '' '' @ padEnd 9 (cat_name c) @ js '' '' @ padEnd 7 status @ js '' ('' @
               dec_nat clean @ js ''/'' @ dec_nat total @ js '' agree clean)''\<rparr>))"

definition summarize :: "jsval list \<Rightarrow> consensus list result" where
  "summarize reviews = traverse (summarize_category reviews) CATEGORIES"

section \<open>The report\<close>

definition newline :: "16 word \<Rightarrow> bool" where
  "newline u \<longleftrightarrow> u = 10"

definition consensus_row :: "consensus \<Rightarrow> jsstring" where
  "consensus_row r = js ''| '' @ cn_category r @ js '' | '' @ cn_status r @ js '' | '' @ dec_nat (cn_clean r) @ js ''/'' @
     dec_nat (cn_total r) @ js '' clean |''"

definition action_row :: "b4a \<Rightarrow> action_item \<Rightarrow> jsstring" where
  "action_row b it = js ''- **['' @ to_text b (it_category it) @ js ''/'' @ to_text b (it_from it) @ js '']** '' @
     collapse newline (it_text it)"

definition panel_entry :: "b4a \<Rightarrow> jsval \<Rightarrow> jsstring result" where
  "panel_entry b r =
     rbind (getp r (js ''review'')) (\<lambda>review.
     rbind (cleanReview review) (\<lambda>t.
     Inr (js ''#### '' @ to_text b (field r (js ''from'')) @ [10, 10] @ (if t = [] then js ''_LGTM_'' else t))))"

definition panel_section :: "b4a \<Rightarrow> jsval list \<Rightarrow> lens_category \<Rightarrow> jsstring result" where
  "panel_section b reviews c =
     rbind (traverse (panel_entry b) (filter (in_category (cat_name c)) reviews)) (\<lambda>entries.
     Inr (js ''### '' @ cat_name c @ [10, 10] @ join [10, 10] entries))"

definition renderReport :: "b4a \<Rightarrow> jsstring \<Rightarrow> jsval list \<Rightarrow> jsval \<Rightarrow> action_item list \<Rightarrow> jsstring result" where
  "renderReport b diff reviews correlation items =
     rbind (summarize reviews) (\<lambda>rows.
     let consensus = join [10] (map consensus_row rows);
         actions = (if items \<noteq> [] then join [10] (map (action_row b) items)
                    else js ''_No action items '' @ [0x2014] @ js '' every lens came back clean._'')
     in rbind (traverse (panel_section b reviews) CATEGORIES) (\<lambda>sections.
        let panel = join [10, 10] sections
        in rbind (cleanReview correlation) (\<lambda>verdict. Inr (
             js ''# Code Review '' @ [0x2014] @ js '' `'' @ BASE @ js ''...HEAD`'' @ [10, 10] @
             js ''Produced by a bareclaw multi-agent panel ('' @ dec_nat (length CATEGORIES) @ js '' lenses '' @ [0xD7] @ js '' '' @
             dec_nat PER_CATEGORY @ js '' agents) with a correlator. Action the items below, most important first.'' @ [10, 10] @
             js ''## Action items'' @ [10, 10] @ actions @ [10, 10] @
             js ''## Consensus'' @ [10, 10] @ js ''| lens | status | agreement |'' @ [10] @ js ''| --- | --- | --- |'' @ [10] @
             consensus @ [10, 10] @
             (if verdict \<noteq> [] then js ''## Correlator notes'' @ [10, 10] @ verdict @ [10, 10] else []) @
             js ''## Panel findings'' @ [10, 10] @ panel @ [10, 10] @
             js ''## Reviewed diff'' @ [10, 10] @ js ''```diff'' @ [10] @ diff @ [10] @ js ''```'' @ [10]))))"

section \<open>Prompts\<close>

definition reviewPrompt :: "b4a \<Rightarrow> jsstring \<Rightarrow> jsval \<Rightarrow> jsstring" where
  "reviewPrompt b lens diff =
     js ''You are a code reviewer focused on '' @ lens @ js ''.'' @ [10] @
     js ''Review this diff and list the 1-3 most important findings as short bullets '' @
     js ''(file + issue). If you find nothing in your area, reply \"LGTM\".'' @ [10, 10] @
     js ''DIFF:'' @ [10] @ to_text b diff"

text \<open>
  The names every object inherits: \<open>byCat[name]\<close> is then a function or an object without \<open>push\<close>.
\<close>

definition inherited_names :: "jsstring list" where
  "inherited_names = map js [''constructor'', ''__defineGetter__'', ''__defineSetter__'', ''hasOwnProperty'',
     ''__lookupGetter__'', ''__lookupSetter__'', ''isPrototypeOf'', ''propertyIsEnumerable'', ''toString'', ''valueOf'',
     ''__proto__'', ''toLocaleString'']"

text \<open>\<open>(byCat[r.category] ||= []).push(r)\<close>, on an object whose values are arrays.\<close>

definition group_review :: "b4a \<Rightarrow> jsval \<Rightarrow> (jsstring \<times> jsval) list \<Rightarrow> (jsstring \<times> jsval) list result" where
  "group_review b r byCat =
     rbind (getp r (js ''category'')) (\<lambda>c.
     let cat = to_text b c
     in if cat \<in> set inherited_names then Inl TypeError
        else Inr (put_prop cat (Arr ((case map_of byCat cat of Some (Arr rs) \<Rightarrow> rs | _ \<Rightarrow> []) @ [r])) byCat))"

fun group_reviews :: "b4a \<Rightarrow> jsval list \<Rightarrow> (jsstring \<times> jsval) list \<Rightarrow> (jsstring \<times> jsval) list result" where
  "group_reviews b [] byCat = Inr byCat"
| "group_reviews b (r # rs) byCat = rbind (group_review b r byCat) (group_reviews b rs)"

definition review_line :: "b4a \<Rightarrow> jsval \<Rightarrow> jsstring" where
  "review_line b r =
     js ''['' @ to_text b (field r (js ''from'')) @ js ''] '' @ to_text b (field r (js ''review''))"

definition category_block :: "b4a \<Rightarrow> jsstring \<times> jsval \<Rightarrow> jsstring" where
  "category_block b p =
     (case p of (cat, rs) \<Rightarrow> js ''## '' @ cat @ [10] @ join [10] (map (review_line b) (arr_of rs)))"

definition correlatePrompt :: "b4a \<Rightarrow> jsval list \<Rightarrow> jsstring result" where
  "correlatePrompt b reviews =
     rbind (group_reviews b reviews []) (\<lambda>byCat. Inr (
       js ''You are the lead reviewer correlating a panel. Each category was reviewed by '' @
       dec_nat PER_CATEGORY @ js '' independent agents. Cross-check them: mark a finding CONFIRMED when '' @
       js ''agents in the same category agree, TENTATIVE when only one raised it. Then give a '' @
       js ''short overall verdict. Be concise.'' @ [10, 10] @
       join [10, 10] (map (category_block b) byCat)))"

section \<open>The diff\<close>

definition cap :: "jsstring \<Rightarrow> jsstring" where
  "cap s = (let s = trim s in
     if length s > MAX_DIFF then take MAX_DIFF s @ [10, 0x2026] @ js ''(diff truncated)'' else s)"

text \<open>\<open>git\<close>: the chunks the process wrote before it exited, decoded one by one.\<close>

definition git_output :: "b4a \<Rightarrow> bytes list \<Rightarrow> jsstring" where
  "git_output b chunks = fold (\<lambda>d out. out @ b4a_toString b d) chunks []"

definition git :: "b4a \<Rightarrow> (jsstring list \<Rightarrow> bytes list) \<Rightarrow> jsstring list \<Rightarrow> jsstring" where
  "git b run args = git_output b (run args)"

definition loadDiff :: "b4a \<Rightarrow> (jsstring list \<Rightarrow> bytes list) \<Rightarrow> jsstring" where
  "loadDiff b run =
     (let out = git b run [js ''diff'', BASE @ js ''...HEAD'']
      in if trim out \<noteq> [] then cap out
         else cap (git b run [js ''diff'', js ''HEAD~1'', js ''HEAD'']))"

end
