(* ===== verification/Panel.thy ===== *)
theory Panel
  imports Review
begin

text \<open>
  The processes of src/examples/swarm-code-review.js and how they run together: the hub, which
  pushes the diff and collects the reviews, the reviewers, the correlator, and \<open>main\<close>, which starts
  the correlator when all reviews are in and writes the report at the end.  The operations are the
  message handlers of the code; the panel's runs are a step relation over them, with one step
  per event.  The sockets are ordered queues of messages (what the line protocol makes of a
  stream), an agent's answer is any text, and connections do not fail.
\<close>

section \<open>The hub\<close>

record hub =
  hub_conns :: "nat list"
  hub_reviews :: "jsval list"
  hub_correlation :: jsval
  hub_all_in :: bool
  hub_correlated :: bool

definition hub_new :: hub where
  "hub_new = \<lparr>hub_conns = [], hub_reviews = [], hub_correlation = Null, hub_all_in = False, hub_correlated = False\<rparr>"

definition task_message :: "jsstring \<Rightarrow> jsval" where
  "task_message diff = Obj [(js ''type'', Str (js ''task'')), (js ''diff'', Str diff)]"

definition board_message :: "jsval list \<Rightarrow> jsval" where
  "board_message reviews = Obj [(js ''type'', Str (js ''board'')), (js ''reviews'', Arr reviews)]"

type_synonym writes = "(nat \<times> jsval) list"

definition broadcast :: "hub \<Rightarrow> writes" where
  "broadcast h = map (\<lambda>c. (c, board_message (hub_reviews h))) (hub_conns h)"

text \<open>A connection: the work and the current board are written at once.\<close>

definition hub_accept :: "jsstring \<Rightarrow> nat \<Rightarrow> hub \<Rightarrow> writes \<times> hub" where
  "hub_accept diff sock h =
     ([(sock, task_message diff), (sock, board_message (hub_reviews h))],
      h\<lparr>hub_conns := set_add sock (hub_conns h)\<rparr>)"

definition hub_closed :: "nat \<Rightarrow> hub \<Rightarrow> hub" where
  "hub_closed sock h = h\<lparr>hub_conns := removeAll sock (hub_conns h)\<rparr>"

definition hub_message :: "jsval \<Rightarrow> hub \<Rightarrow> (writes result) \<times> hub" where
  "hub_message msg h =
     (case getp msg (js ''type'') of
        Inl e \<Rightarrow> (Inl e, h)
      | Inr t \<Rightarrow>
          if t = Str (js ''review'')
          then let h = h\<lparr>hub_reviews := hub_reviews h @ [msg]\<rparr>
               in (Inr (broadcast h), if length (hub_reviews h) = length SPECS then h\<lparr>hub_all_in := True\<rparr> else h)
          else if t = Str (js ''correlation'')
          then (Inr [], h\<lparr>hub_correlation := field msg (js ''text''), hub_correlated := True\<rparr>)
          else (Inr [], h))"

section \<open>Reviewers and the correlator\<close>

text \<open>
  A handler answers a message with the prompt it asks its agent, if any; the flag is the code's
  \<open>reviewed\<close>, or the correlator's \<open>started\<close>.
\<close>

definition reviewer_message :: "b4a \<Rightarrow> spec \<Rightarrow> jsval \<Rightarrow> bool \<Rightarrow> (jsstring option) result \<times> bool" where
  "reviewer_message b sp msg reviewed =
     (case getp msg (js ''type'') of
        Inl e \<Rightarrow> (Inl e, reviewed)
      | Inr t \<Rightarrow>
          if t \<noteq> Str (js ''task'') \<or> reviewed then (Inr None, reviewed)
          else (Inr (Some (reviewPrompt b (sp_lens sp) (field msg (js ''diff'')))), True))"

definition reviewer_answer :: "spec \<Rightarrow> jsstring \<Rightarrow> jsval" where
  "reviewer_answer sp review =
     Obj [(js ''type'', Str (js ''review'')), (js ''category'', Str (sp_category sp)), (js ''from'', Str (sp_from sp)),
       (js ''review'', Str review)]"

text \<open>
  \<open>v.length < n\<close>: what has no \<open>length\<close> compares as not less.  (A \<open>length\<close> of an object's own that is
  neither a number, \<open>null\<close> nor a boolean is taken to be no number.)
\<close>

definition length_less :: "jsval \<Rightarrow> nat \<Rightarrow> bool result" where
  "length_less v n =
     (case v of
        Arr xs \<Rightarrow> Inr (length xs < n)
      | Str s \<Rightarrow> Inr (length s < n)
      | Buf x \<Rightarrow> Inr (length x < n)
      | _ \<Rightarrow> rbind (getp v (js ''length'')) (\<lambda>l. Inr (case l of
            Num i \<Rightarrow> i < int n
          | Null \<Rightarrow> 0 < n
          | Bool x \<Rightarrow> (if x then 1 else 0) < n
          | _ \<Rightarrow> False)))"

text \<open>What \<open>for (const r of v)\<close> goes through; a string is iterated by code points.\<close>

fun points :: "jsstring \<Rightarrow> jsval list" where
  "points [] = []"
| "points [u] = [Str [u]]"
| "points (u # v # s) = (if is_high u \<and> is_low v then Str [u, v] # points s else Str [u] # points (v # s))"

definition iterated :: "jsval \<Rightarrow> jsval list result" where
  "iterated v =
     (case v of Arr xs \<Rightarrow> Inr xs | Str s \<Rightarrow> Inr (points s) | Buf x \<Rightarrow> Inr (map (\<lambda>u. Num (uint u)) x) | _ \<Rightarrow> Inl TypeError)"

definition correlator_message :: "b4a \<Rightarrow> jsval \<Rightarrow> bool \<Rightarrow> (jsstring option) result \<times> bool" where
  "correlator_message b msg started =
     (case getp msg (js ''type'') of
        Inl e \<Rightarrow> (Inl e, started)
      | Inr t \<Rightarrow>
          if t \<noteq> Str (js ''board'') \<or> started then (Inr None, started)
          else case length_less (field msg (js ''reviews'')) (length SPECS) of
                 Inl e \<Rightarrow> (Inl e, started)
               | Inr True \<Rightarrow> (Inr None, started)
               | Inr False \<Rightarrow>
                   (rbind (iterated (field msg (js ''reviews''))) (\<lambda>rs.
                    rbind (correlatePrompt b rs) (\<lambda>p. Inr (Some p))), True))"

definition correlation_message :: "jsstring \<Rightarrow> jsval" where
  "correlation_message t = Obj [(js ''type'', Str (js ''correlation'')), (js ''text'', Str t)]"

section \<open>The panel\<close>

text \<open>
  Clients are numbered: the reviewer of the i-th spec is client \<open>i\<close>, the correlator comes after
  them.  A client is starting (its agent is being made), dialing, or connected to the hub.
\<close>

datatype link_state = Starting | Dialing | Linked

record panel =
  pn_hub :: hub
  pn_conn :: "nat \<Rightarrow> link_state"
  pn_down :: "nat \<Rightarrow> jsval list"
  pn_up :: "nat \<Rightarrow> jsval list"
  pn_flag :: "nat \<Rightarrow> bool"
  pn_asking :: "nat \<Rightarrow> jsstring list"

definition panel_start :: panel where
  "panel_start = \<lparr>pn_hub = hub_new, pn_conn = (\<lambda>_. Starting), pn_down = (\<lambda>_. []), pn_up = (\<lambda>_. []),
     pn_flag = (\<lambda>_. False), pn_asking = (\<lambda>_. [])\<rparr>"

definition deliver :: "writes \<Rightarrow> (nat \<Rightarrow> jsval list) \<Rightarrow> nat \<Rightarrow> jsval list" where
  "deliver ws down = fold (\<lambda>(c, m) d. d(c := d c @ [m])) ws down"

definition client_message :: "b4a \<Rightarrow> nat \<Rightarrow> jsval \<Rightarrow> bool \<Rightarrow> (jsstring option) result \<times> bool" where
  "client_message b i msg flag =
     (if i < length SPECS then reviewer_message b (SPECS ! i) msg flag else correlator_message b msg flag)"

definition client_answer :: "nat \<Rightarrow> jsstring \<Rightarrow> jsval" where
  "client_answer i t = (if i < length SPECS then reviewer_answer (SPECS ! i) t else correlation_message t)"

text \<open>Whether \<open>main\<close> has come to starting the client: the correlator waits for \<open>allIn\<close>.\<close>

definition may_start :: "panel \<Rightarrow> nat \<Rightarrow> bool" where
  "may_start p i \<longleftrightarrow>
     i < length SPECS \<or> i = length SPECS \<and> list_all (\<lambda>j. pn_conn p j \<noteq> Starting) [0..<length SPECS] \<and> hub_all_in (pn_hub p)"

inductive panel_step :: "b4a \<Rightarrow> jsstring \<Rightarrow> panel \<Rightarrow> panel \<Rightarrow> bool" for b diff where
  start: "may_start p i \<Longrightarrow> pn_conn p i = Starting \<Longrightarrow> panel_step b diff p (p\<lparr>pn_conn := (pn_conn p)(i := Dialing)\<rparr>)"
| accept: "pn_conn p i = Dialing \<Longrightarrow> hub_accept diff i (pn_hub p) = (ws, h) \<Longrightarrow>
    panel_step b diff p (p\<lparr>pn_conn := (pn_conn p)(i := Linked), pn_hub := h, pn_down := deliver ws (pn_down p)\<rparr>)"
| message: "pn_down p i = m # ms \<Longrightarrow> client_message b i m (pn_flag p i) = (Inr prompt, flag) \<Longrightarrow>
    panel_step b diff p (p\<lparr>pn_down := (pn_down p)(i := ms), pn_flag := (pn_flag p)(i := flag),
      pn_asking := (pn_asking p)(i := pn_asking p i @ (case prompt of None \<Rightarrow> [] | Some q \<Rightarrow> [q]))\<rparr>)"
| answer: "pn_asking p i = q # qs \<Longrightarrow>
    panel_step b diff p (p\<lparr>pn_asking := (pn_asking p)(i := qs), pn_up := (pn_up p)(i := pn_up p i @ [client_answer i t])\<rparr>)"
| collect: "pn_up p i = m # ms \<Longrightarrow> hub_message m (pn_hub p) = (Inr ws, h) \<Longrightarrow>
    panel_step b diff p (p\<lparr>pn_up := (pn_up p)(i := ms), pn_hub := h, pn_down := deliver ws (pn_down p)\<rparr>)"

inductive_cases panel_stepE: "panel_step b diff p p'"

text \<open>The end of \<open>main\<close>: what it prints and the report it writes.\<close>

definition main_output :: "b4a \<Rightarrow> jsstring \<Rightarrow> hub \<Rightarrow> (jsstring list \<times> jsstring) result" where
  "main_output b diff h =
     rbind (summarize (hub_reviews h)) (\<lambda>rows.
     rbind (actionItems (hub_reviews h)) (\<lambda>items.
     rbind (renderReport b diff (hub_reviews h) (hub_correlation h) items) (\<lambda>report.
     Inr (([10] @ js ''===== consensus ====='') # map (\<lambda>row. js ''  '' @ cn_line row) rows @
          ([10] @ js ''===== action items ====='') #
          (if items = [] then [js ''  (none '' @ [0x2014] @ js '' all lenses clear)''] else []) @
          map (\<lambda>it. js ''  '' @ [0x2022] @ js '' ['' @ to_text b (it_from it) @ js ''] '' @ oneLine (it_text it)) items,
          report))))"

end
