(* ===== verification/Review_Props.thy ===== *)
theory Review_Props
  imports Review
begin

text \<open>
  What the review code promises: the cleaned text of a review, findings, the agreement of the
  consensus table with the action list, the renderings' bounds, and the grouping of the
  correlator's prompt.
\<close>

section \<open>Cleaned reviews\<close>

lemma trimmed_Nil [simp]: "trimmed []"
  by (simp add: trimmed_def)

definition kept_line :: "jsstring \<Rightarrow> bool" where
  "kept_line l \<longleftrightarrow> l \<noteq> [] \<and> \<not> tool_call_line l"

lemma kept_lines_clean:
  "l \<in> set (filter kept_line (map trim (split_on 10 text))) \<Longrightarrow> trimmed l \<and> l \<noteq> [] \<and> 10 \<notin> set l \<and> \<not> tool_call_line l"
  using trimmed_trim set_trim split_on_fresh [of _ 10 "text"] by (fastforce simp: kept_line_def)

lemma clean_text_lines: "clean_text text = join [10] (filter kept_line (map trim (split_on 10 text)))"
  unfolding clean_text_def kept_line_def [symmetric, abs_def]
  by (rule trim_trimmed, rule trimmed_join) (use kept_lines_clean in blast)

lemma split_clean_text:
  "clean_text text \<noteq> [] \<Longrightarrow> split_on 10 (clean_text text) = filter kept_line (map trim (split_on 10 text))"
proof -
  assume "clean_text text \<noteq> []"
  then have "filter kept_line (map trim (split_on 10 text)) \<noteq> []"
    by (auto simp: clean_text_lines)
  then show ?thesis
    unfolding clean_text_lines using kept_lines_clean by (intro split_join) blast+
qed

lemma clean_text_again: "clean_text (clean_text text) = clean_text text"
proof (cases "clean_text text = []")
  case True
  have "clean_text [] = []"
    by (simp add: clean_text_lines kept_line_def trim_def trim_start_def)
  with True show ?thesis
    by simp
next
  case False
  let ?ls = "filter kept_line (map trim (split_on 10 text))"
  have "map trim ?ls = ?ls"
    using kept_lines_clean trim_trimmed by (intro map_idI) blast
  then have "filter kept_line (map trim ?ls) = ?ls"
    by simp
  then show ?thesis
    unfolding clean_text_lines [of "clean_text text"] split_clean_text [OF False] by (simp add: clean_text_lines)
qed

text \<open>
  Cleaning a review leaves prose: the lines of the result are the lines of the review in order,
  trimmed, without the blank ones and those that look like a tool call; cleaning again changes
  nothing; and what \<open>findings\<close> reports is itself cleaned, not empty, and reported again as it is.
\<close>

theorem cleaning_leaves_prose:
  "(let t = clean_text text in
      if t = [] then filter kept_line (map trim (split_on 10 text)) = []
      else split_on 10 t = filter kept_line (map trim (split_on 10 text)))
   \<and> clean_text (clean_text text) = clean_text text
   \<and> (case findings (Str text) of
        Inr (Some t) \<Rightarrow> t \<noteq> [] \<and> t = clean_text text \<and> findings (Str t) = Inr (Some t)
      | Inr None \<Rightarrow> isClean (Str text) = Inr True
      | Inl e \<Rightarrow> False)"
proof (intro conjI)
  have "clean_text text = [] \<Longrightarrow> filter kept_line (map trim (split_on 10 text)) = []"
    using kept_lines_clean join_eq_Nil clean_text_lines by metis
  then show "let t = clean_text text in
      if t = [] then filter kept_line (map trim (split_on 10 text)) = []
      else split_on 10 t = filter kept_line (map trim (split_on 10 text))"
    using split_clean_text by (auto simp: Let_def)
qed (simp_all add: clean_text_again findings_def isClean_def cleanReview_def)

section \<open>Consensus and actions\<close>

text \<open>A review as the reviewers send it: an object whose \<open>review\<close> is a string.\<close>

definition filed :: "jsval \<Rightarrow> bool" where
  "filed r \<longleftrightarrow> is_obj r \<and> (\<exists>t. field r (js ''review'') = Str t)"

definition review_text :: "jsval \<Rightarrow> jsstring" where
  "review_text r = (case field r (js ''review'') of Str t \<Rightarrow> t | _ \<Rightarrow> [])"

definition found :: "jsstring \<Rightarrow> bool" where
  "found text \<longleftrightarrow> findings (Str text) \<noteq> Inr None"

definition attributed :: "jsval \<Rightarrow> action_item" where
  "attributed r = \<lparr>it_category = field r (js ''category''), it_from = field r (js ''from''),
     it_text = clean_text (review_text r)\<rparr>"

lemma findings_found:
  "findings (Str text) = Inr (if found text then Some (clean_text text) else None)"
  by (simp add: found_def findings_def cleanReview_def)

lemma found_clean: "found text \<Longrightarrow> clean_text text \<noteq> []"
  by (auto simp: found_def findings_def cleanReview_def)

lemma item_of_filed: "filed r \<Longrightarrow> item_of r = Inr (if found (review_text r) then [attributed r] else [])"
  using found_clean [of "review_text r"]
  by (auto simp: filed_def item_of_def is_obj_getp review_text_def findings_found attributed_def)

lemma actionItems_filed:
  "\<forall>r \<in> set reviews. filed r \<Longrightarrow> actionItems reviews = Inr (map attributed (filter (\<lambda>r. found (review_text r)) reviews))"
proof -
  assume "\<forall>r \<in> set reviews. filed r"
  then have "traverse item_of reviews = Inr (map (\<lambda>r. if found (review_text r) then [attributed r] else []) reviews)"
    by (intro traverse_Inr) (simp add: item_of_filed)
  moreover have "concat (map (\<lambda>r. if found (review_text r) then [attributed r] else []) reviews)
      = map attributed (filter (\<lambda>r. found (review_text r)) reviews)"
    by (induction reviews) simp_all
  ultimately show ?thesis
    by (simp add: actionItems_def)
qed

lemma filed_clean: "filed r \<Longrightarrow> rbind (getp r (js ''review'')) isClean = Inr (\<not> found (review_text r))"
  by (auto simp: filed_def is_obj_getp isClean_def review_text_def findings_found)

text \<open>The row of a category, counted.\<close>

definition passes :: "jsval list \<Rightarrow> jsstring \<Rightarrow> nat" where
  "passes reviews c = length (filter (\<lambda>r. in_category c r \<and> \<not> found (review_text r)) reviews)"

definition panel_size :: "jsval list \<Rightarrow> jsstring \<Rightarrow> nat" where
  "panel_size reviews c = length (filter (in_category c) reviews)"

lemma summarize_category_filed:
  assumes "\<forall>r \<in> set reviews. filed r"
  shows "\<exists>row. summarize_category reviews c = Inr row \<and> cn_category row = cat_name c
    \<and> cn_clean row = passes reviews (cat_name c) \<and> cn_total row = panel_size reviews (cat_name c)
    \<and> (cn_status row = js ''clean'' \<longleftrightarrow> cn_total row > 0 \<and> cn_clean row = cn_total row)
    \<and> (cn_status row = js ''mixed'' \<longleftrightarrow> 0 < cn_clean row \<and> cn_clean row < cn_total row)"
proof -
  have cats: "traverse (\<lambda>r. rbind (getp r (js ''category'')) (\<lambda>cat. Inr (cat = Str (cat_name c)))) reviews
      = Inr (map (in_category (cat_name c)) reviews)"
    using assms by (intro traverse_Inr) (simp add: filed_def is_obj_getp in_category_def)
  have cleans: "traverse (\<lambda>r. rbind (getp r (js ''review'')) isClean) (filter (in_category (cat_name c)) reviews)
      = Inr (map (\<lambda>r. \<not> found (review_text r)) (filter (in_category (cat_name c)) reviews))"
    using assms by (intro traverse_Inr) (simp add: filed_clean)
  have count: "length (filter (\<lambda>x. x) (map (\<lambda>r. \<not> found (review_text r)) (filter (in_category (cat_name c)) reviews)))
      = passes reviews (cat_name c)"
    by (simp add: passes_def filter_map comp_def conj_commute)
  have "passes reviews (cat_name c) \<le> panel_size reviews (cat_name c)"
    unfolding passes_def panel_size_def by (induction reviews) simp_all
  then show ?thesis
    unfolding summarize_category_def cats rbind_simps cleans Let_def count panel_size_def [symmetric] by simp
qed

lemma items_of_category:
  "length (filter (\<lambda>it. it_category it = Str c) (map attributed (filter (\<lambda>r. found (review_text r)) reviews)))
     + passes reviews c = panel_size reviews c"
  unfolding passes_def panel_size_def by (induction reviews) (simp_all add: attributed_def in_category_def)

text \<open>
  C30. The consensus table and the action list never disagree.  For reviews whose text is a string,
  both are produced; there is one row per category in the configured order; in every row the
  reviewers that passed and the action items of the category add up to the reviews of the
  category; and a row says clean exactly if the category was reviewed and has no action item.
\<close>

theorem consensus_and_actions_agree:
  assumes "\<forall>r \<in> set reviews. filed r"
  shows "\<exists>rows items. summarize reviews = Inr rows \<and> actionItems reviews = Inr items
    \<and> map cn_category rows = map cat_name CATEGORIES
    \<and> list_all (\<lambda>row. let raised = length (filter (\<lambda>it. it_category it = Str (cn_category row)) items) in
         cn_clean row + raised = cn_total row
         \<and> cn_total row = length (filter (in_category (cn_category row)) reviews)
         \<and> (cn_status row = js ''clean'') = (0 < cn_total row \<and> raised = 0)) rows"
proof -
  obtain row where row: "summarize_category reviews c = Inr (row c) \<and> cn_category (row c) = cat_name c
    \<and> cn_clean (row c) = passes reviews (cat_name c) \<and> cn_total (row c) = panel_size reviews (cat_name c)
    \<and> (cn_status (row c) = js ''clean'' \<longleftrightarrow> cn_total (row c) > 0 \<and> cn_clean (row c) = cn_total (row c))
    \<and> (cn_status (row c) = js ''mixed'' \<longleftrightarrow> 0 < cn_clean (row c) \<and> cn_clean (row c) < cn_total (row c))" for c
    using choice [OF allI [OF summarize_category_filed [OF assms]], of "\<lambda>c. c"] by blast
  then have rows: "summarize reviews = Inr (map row CATEGORIES)"
    unfolding summarize_def by (intro traverse_Inr) simp
  let ?items = "map attributed (filter (\<lambda>r. found (review_text r)) reviews)"
  let ?agrees = "\<lambda>row. let raised = length (filter (\<lambda>it. it_category it = Str (cn_category row)) ?items) in
         cn_clean row + raised = cn_total row
         \<and> cn_total row = length (filter (in_category (cn_category row)) reviews)
         \<and> (cn_status row = js ''clean'') = (0 < cn_total row \<and> raised = 0)"
  have agrees: "?agrees (row c)" for c
  proof -
    define raised where "raised = length (filter (\<lambda>it. it_category it = Str (cat_name c)) ?items)"
    have "raised + passes reviews (cat_name c) = panel_size reviews (cat_name c)"
      unfolding raised_def by (rule items_of_category)
    then show ?thesis
      using row [of c] unfolding Let_def by (simp only: raised_def [symmetric] panel_size_def [symmetric]) auto
  qed
  have "list_all ?agrees (map row CATEGORIES)"
    unfolding list_all_iff set_map by (rule ballI, erule imageE) (simp only: agrees)
  moreover have "map cn_category (map row CATEGORIES) = map cat_name CATEGORIES"
    unfolding map_map comp_def by (simp only: row)
  ultimately show ?thesis
    using rows actionItems_filed [OF assms] by blast
qed

text \<open>The witness: a panel where one reviewer of a category passed and another raised something.\<close>

definition review_msg :: "jsstring \<Rightarrow> jsstring \<Rightarrow> jsstring \<Rightarrow> jsval" where
  "review_msg category name review =
     Obj [(js ''type'', Str (js ''review'')), (js ''category'', Str category), (js ''from'', Str name),
       (js ''review'', Str review)]"

lemma filed_review_msg: "filed (review_msg c f t)"
  by (simp add: filed_def review_msg_def)

theorem consensus_and_actions_agree_witness:
  "\<exists>rows items. summarize [review_msg (js ''bugs'') (js ''bugs#1'') (js ''- off by one'')] = Inr rows
    \<and> actionItems [review_msg (js ''bugs'') (js ''bugs#1'') (js ''- off by one'')] = Inr items
    \<and> map cn_category rows = map cat_name CATEGORIES"
  using consensus_and_actions_agree [of "[review_msg (js ''bugs'') (js ''bugs#1'') (js ''- off by one'')]"]
    filed_review_msg by fastforce

text \<open>
  C39. One review that is not a string loses the action list.  The hub takes every message of type
  \<open>review\<close> as it is; for objects, the action list is produced exactly if every review is a string,
  and otherwise the \<open>TypeError\<close> of a missing \<open>split\<close> leaves it (and with it the report).
\<close>

theorem one_unreadable_review_loses_the_action_list:
  assumes "\<forall>r \<in> set reviews. is_obj r"
  shows "(\<exists>items. actionItems reviews = Inr items) = (\<forall>r \<in> set reviews. filed r)
    \<and> ((\<exists>r \<in> set reviews. \<not> filed r) \<longrightarrow> actionItems reviews = Inl TypeError)"
proof -
  have bad: "item_of r = Inl TypeError" if "is_obj r" "\<not> filed r" for r
    using that by (cases "field r (js ''review'')")
      (auto simp: filed_def item_of_def is_obj_getp findings_def cleanReview_def)
  have "traverse item_of rs = Inl TypeError" if "\<forall>r \<in> set rs. is_obj r" "\<exists>r \<in> set rs. \<not> filed r" for rs
    using that
  proof (induction rs)
    case (Cons r rs)
    then show ?case
      by (cases "filed r") (auto simp: bad item_of_filed)
  qed simp
  then have "(\<exists>r \<in> set reviews. \<not> filed r) \<Longrightarrow> actionItems reviews = Inl TypeError"
    using assms by (simp add: actionItems_def)
  then show ?thesis
    using actionItems_filed [of reviews] by (cases "\<forall>r \<in> set reviews. filed r") auto
qed

theorem one_unreadable_review_loses_the_action_list_witness:
  "actionItems [review_msg (js ''bugs'') (js ''bugs#1'') (js ''LGTM''), Obj [(js ''type'', Str (js ''review''))]] = Inl TypeError"
  using one_unreadable_review_loses_the_action_list
    [of "[review_msg (js ''bugs'') (js ''bugs#1'') (js ''LGTM''), Obj [(js ''type'', Str (js ''review''))]]"]
  by (simp add: filed_def review_msg_def)

section \<open>The correlator's prompt\<close>

definition category_key :: "b4a \<Rightarrow> jsval \<Rightarrow> jsstring" where
  "category_key b r = to_text b (field r (js ''category''))"

lemma keys_put_prop: "fst ` set (put_prop k v ps) = insert k (fst ` set ps)"
  by (induction k v ps rule: put_prop.induct) auto

lemma group_reviews_map:
  assumes "\<forall>r \<in> set rs. is_obj r \<and> category_key b r \<notin> set inherited_names"
    and "\<And>k. map_of byCat k = (if g k = [] then None else Some (Arr (g k)))"
  shows "\<exists>m. group_reviews b rs byCat = Inr m
    \<and> (\<forall>k. map_of m k = (let all = g k @ filter (\<lambda>r. category_key b r = k) rs in if all = [] then None else Some (Arr all)))"
  using assms
proof (induction rs arbitrary: byCat g)
  case (Cons r rs)
  let ?cat = "category_key b r"
  let ?g = "g(?cat := g ?cat @ [r])"
  have step: "group_review b r byCat = Inr (put_prop ?cat (Arr (?g ?cat)) byCat)"
    using Cons.prems(1) Cons.prems(2) [of ?cat]
    by (cases "g ?cat = []") (simp_all add: group_review_def category_key_def is_obj_getp Let_def)
  have "map_of (put_prop ?cat (Arr (?g ?cat)) byCat) k = (if ?g k = [] then None else Some (Arr (?g k)))" for k
    using Cons.prems(2) [of k] by (simp add: map_of_put_prop)
  from Cons.IH [OF _ this] Cons.prems(1) show ?case
    by (auto simp: step Let_def)
qed simp

text \<open>
  The correlator sees every review once.  For reviews of any categories whose names are not
  those of inherited properties, the prompt is produced and groups them: under each category, exactly its
  reviews in the order they were filed, and no other category has a block.
\<close>

theorem correlator_prompt_groups_every_review:
  assumes "\<forall>r \<in> set reviews. is_obj r \<and> to_text b (field r (js ''category'')) \<notin> set inherited_names"
  shows "\<exists>byCat prompt. group_reviews b reviews [] = Inr byCat \<and> correlatePrompt b reviews = Inr prompt
    \<and> (\<forall>k. map_of byCat k =
         (let rs = filter (\<lambda>r. to_text b (field r (js ''category'')) = k) reviews in if rs = [] then None else Some (Arr rs)))"
  using group_reviews_map [of reviews b "[]" "\<lambda>_. []"] assms
  by (fastforce simp: category_key_def correlatePrompt_def Let_def)

theorem correlator_prompt_groups_every_review_witness:
  "\<exists>byCat. group_reviews utf8_b4a [review_msg (js ''bugs'') (js ''a'') [], review_msg (js ''bugs'') (js ''b'') []] [] = Inr byCat
    \<and> map_of byCat (js ''bugs'') = Some (Arr [review_msg (js ''bugs'') (js ''a'') [], review_msg (js ''bugs'') (js ''b'') []])"
  using correlator_prompt_groups_every_review
    [of "[review_msg (js ''bugs'') (js ''a'') [], review_msg (js ''bugs'') (js ''b'') []]" utf8_b4a]
  by (auto simp: review_msg_def inherited_names_def)

section \<open>Bounds\<close>

text \<open>
  An action item is shown on one short line: at most 101 code units, no white space but
  single spaces, none at the ends unless the text was cut, and then marked with an ellipsis.
\<close>

theorem one_line_is_one_short_line:
  "length (oneLine t) \<le> 101 \<and> list_all (\<lambda>u. is_space u = (u = 32)) (oneLine t) \<and> single_spaced (oneLine t)
   \<and> (if length (trim (collapse is_space t)) \<le> 100 then trimmed (oneLine t) else last (oneLine t) = 0x2026)"
proof -
  let ?s = "trim (collapse is_space t)"
  have spaces: "list_all (\<lambda>u. is_space u = (u = 32)) ?s"
    using set_trim [of "collapse is_space t"] collapse_only [of _ is_space t] by (auto simp: list_all_iff)
  moreover have single: "single_spaced ?s"
    by (simp add: single_spaced_trim single_spaced_collapse)
  moreover have "single_spaced (take 100 ?s)" "list_all (\<lambda>u. is_space u = (u = 32)) (take 100 ?s)"
    using single single_spaced_append [of "take 100 ?s" "drop 100 ?s"] spaces
    by (auto simp: list_all_iff dest: in_set_takeD)
  moreover have "\<not> is_space 0x2026"
    by (simp add: is_space_def)
  ultimately show ?thesis
    by (auto simp: oneLine_def Let_def trimmed_trim single_spaced_def successively_append_iff)
qed

text \<open>
  The diff given to the reviewers is bounded: a diff of at most 6000 code units is passed on whole
  but for the white space around it, a longer one is cut there and says so.
\<close>

theorem diff_is_bounded:
  "length (loadDiff b run) \<le> MAX_DIFF + 18
   \<and> (\<exists>s. s \<in> {trim (git b run [js ''diff'', BASE @ js ''...HEAD'']), trim (git b run [js ''diff'', js ''HEAD~1'', js ''HEAD''])}
        \<and> loadDiff b run = (if length s \<le> MAX_DIFF then s else take MAX_DIFF s @ [10, 0x2026] @ js ''(diff truncated)''))"
proof -
  define a where "a = trim (git b run [js ''diff'', BASE @ js ''...HEAD''])"
  define c where "c = trim (git b run [js ''diff'', js ''HEAD~1'', js ''HEAD''])"
  define kept where "kept s = (if length s \<le> MAX_DIFF then s else take MAX_DIFF s @ [10, 0x2026] @ js ''(diff truncated)'')" for s
  have "loadDiff b run = (if a \<noteq> [] then kept a else kept c)"
    by (simp add: loadDiff_def cap_def Let_def a_def c_def kept_def)
  moreover have "length (kept s) \<le> MAX_DIFF + 18" for s
    by (simp add: kept_def)
  ultimately show ?thesis
    unfolding a_def [symmetric] c_def [symmetric] kept_def [symmetric] by auto
qed

end
