(* ===== verification/Panel_Spec.thy ===== *)
theory Panel_Spec
  imports Panel Review_Props
begin

text \<open>
  The invariant of the panel's runs, by rule induction over its steps; that no run is longer than
  a fixed number of steps; and that a run that cannot go on has its correlation and its report.
\<close>

section \<open>The specs\<close>

lemma length_SPECS [simp]: "length SPECS = 4"
  by (simp add: SPECS_def CATEGORIES_def PER_CATEGORY_def)

text \<open>Whose review a message is, by its \<open>from\<close>.\<close>

definition filed_by :: "spec \<Rightarrow> jsval list \<Rightarrow> nat" where
  "filed_by sp rs = length (filter (\<lambda>r. field r (js ''from'') = Str (sp_from sp)) rs)"

lemma filed_by_simps [simp]:
  "filed_by sp [] = 0" "filed_by sp (rs @ qs) = filed_by sp rs + filed_by sp qs"
  "filed_by sp [reviewer_answer sp' t] = of_bool (sp_from sp' = sp_from sp)"
  by (simp_all add: filed_by_def reviewer_answer_def)

lemma SPECS_list: "map (\<lambda>sp. (sp_category sp, sp_from sp)) SPECS =
    [(js ''bugs'', js ''bugs#1''), (js ''security'', js ''security#1''), (js ''design'', js ''design#1''),
     (js ''quality'', js ''quality#1'')]"
  by (simp add: SPECS_def CATEGORIES_def PER_CATEGORY_def dec_nat_step js_def)

lemma SPECS_from: "distinct (map sp_from SPECS)"
proof -
  have "map sp_from SPECS = map snd (map (\<lambda>sp. (sp_category sp, sp_from sp)) SPECS)"
    by simp
  then show ?thesis
    unfolding SPECS_list by simp
qed

lemma SPECS_category: "sp \<in> set SPECS \<Longrightarrow> sp_category sp \<notin> set inherited_names"
proof -
  assume "sp \<in> set SPECS"
  then have "sp_category sp \<in> set (map fst (map (\<lambda>sp. (sp_category sp, sp_from sp)) SPECS))"
    by force
  then show ?thesis
    unfolding SPECS_list by (auto simp: inherited_names_def)
qed

lemma same_from: "i < length SPECS \<Longrightarrow> j < length SPECS \<Longrightarrow> sp_from (SPECS ! i) = sp_from (SPECS ! j) \<longleftrightarrow> i = j"
  using nth_eq_iff_index_eq [OF SPECS_from, of i j] by simp

text \<open>A board of the reviewers' own messages.\<close>

definition valid_board :: "jsval list \<Rightarrow> bool" where
  "valid_board rs \<longleftrightarrow> (\<forall>r \<in> set rs. \<exists>sp \<in> set SPECS. \<exists>t. r = reviewer_answer sp t)"

lemma length_board: "valid_board rs \<Longrightarrow> length rs = (\<Sum>i<length SPECS. filed_by (SPECS ! i) rs)"
proof (induction rs)
  case (Cons r rs)
  then obtain i t where i: "i < length SPECS" "r = reviewer_answer (SPECS ! i) t"
    by (auto simp: valid_board_def in_set_conv_nth)
  have "(\<Sum>j<length SPECS. filed_by (SPECS ! j) (r # rs))
      = (\<Sum>j<length SPECS. of_bool (i = j) + filed_by (SPECS ! j) rs)"
    using i same_from [OF i(1)] filed_by_simps(2) [of _ "[r]" rs] by (intro sum.cong) simp_all
  also have "\<dots> = 1 + length rs"
    using Cons i(1) by (simp add: sum.distrib valid_board_def of_bool_def)
  finally show ?case
    by simp
qed simp

lemma board_prompt: "valid_board rs \<Longrightarrow> \<exists>q. correlatePrompt b rs = Inr q"
proof -
  assume "valid_board rs"
  then have "\<forall>r \<in> set rs. is_obj r \<and> category_key b r \<notin> set inherited_names"
    using SPECS_category by (fastforce simp: valid_board_def reviewer_answer_def category_key_def)
  then show ?thesis
    using group_reviews_map [of rs b "[]" "\<lambda>_. []"] by (auto simp: correlatePrompt_def)
qed

lemma board_filed: "valid_board rs \<Longrightarrow> \<forall>r \<in> set rs. filed r"
  by (auto simp: valid_board_def filed_def reviewer_answer_def)

section \<open>The invariant\<close>

text \<open>
  Every reviewer is in exactly one of four stages: it has not had its task, its agent is at work, its review is
  on the way, its review is filed.  Until it has had its task, the task is waiting for it.
\<close>

definition reviewer_inv ::
    "b4a \<Rightarrow> jsstring \<Rightarrow> spec \<Rightarrow> link_state \<Rightarrow> jsval list \<Rightarrow> jsval list \<Rightarrow> bool \<Rightarrow> jsstring list \<Rightarrow> jsval list \<Rightarrow> bool" where
  "reviewer_inv b diff sp conn down up flag asking rs \<longleftrightarrow>
     of_bool (\<not> flag) + length asking + length up + filed_by sp rs = 1
     \<and> (conn \<noteq> Linked \<longrightarrow> down = [] \<and> \<not> flag)
     \<and> (conn = Linked \<and> \<not> flag \<longrightarrow> task_message diff \<in> set down)
     \<and> (\<forall>m \<in> set down. m = task_message diff \<or> (\<exists>qs. m = board_message qs))
     \<and> (\<forall>m \<in> set up. \<exists>t. m = reviewer_answer sp t)
     \<and> (\<forall>q \<in> set asking. q = reviewPrompt b (sp_lens sp) (Str diff))"

text \<open>The correlator connects when the board is full, and every board it is sent is that one.\<close>

definition correlator_inv ::
    "b4a \<Rightarrow> jsstring \<Rightarrow> link_state \<Rightarrow> jsval list \<Rightarrow> jsval list \<Rightarrow> bool \<Rightarrow> jsstring list \<Rightarrow> hub \<Rightarrow> bool" where
  "correlator_inv b diff conn down up flag asking h \<longleftrightarrow>
     of_bool (\<not> flag) + length asking + length up + of_bool (hub_correlated h) = (1 :: nat)
     \<and> (conn \<noteq> Linked \<longrightarrow> down = [] \<and> \<not> flag)
     \<and> (conn \<noteq> Starting \<longrightarrow> hub_all_in h)
     \<and> (conn = Linked \<and> \<not> flag \<longrightarrow> board_message (hub_reviews h) \<in> set down)
     \<and> (\<forall>m \<in> set down. m = task_message diff \<or> m = board_message (hub_reviews h))
     \<and> (\<forall>m \<in> set up. \<exists>t. m = correlation_message t)
     \<and> (\<forall>q \<in> set asking. correlatePrompt b (hub_reviews h) = Inr q)"

definition hub_inv :: "(nat \<Rightarrow> link_state) \<Rightarrow> hub \<Rightarrow> bool" where
  "hub_inv conn h \<longleftrightarrow>
     distinct (hub_conns h) \<and> set (hub_conns h) = {i. i \<le> length SPECS \<and> conn i = Linked}
     \<and> valid_board (hub_reviews h) \<and> hub_all_in h = (length (hub_reviews h) = length SPECS)
     \<and> (hub_correlated h \<longrightarrow> (\<exists>t. hub_correlation h = Str t))"

abbreviation reviewer_at :: "b4a \<Rightarrow> jsstring \<Rightarrow> panel \<Rightarrow> nat \<Rightarrow> bool" where
  "reviewer_at b diff p i \<equiv> reviewer_inv b diff (SPECS ! i) (pn_conn p i) (pn_down p i) (pn_up p i) (pn_flag p i)
     (pn_asking p i) (hub_reviews (pn_hub p))"

abbreviation correlator_at :: "b4a \<Rightarrow> jsstring \<Rightarrow> panel \<Rightarrow> nat \<Rightarrow> bool" where
  "correlator_at b diff p i \<equiv> correlator_inv b diff (pn_conn p i) (pn_down p i) (pn_up p i) (pn_flag p i)
     (pn_asking p i) (pn_hub p)"

definition panel_inv :: "b4a \<Rightarrow> jsstring \<Rightarrow> panel \<Rightarrow> bool" where
  "panel_inv b diff p \<longleftrightarrow>
     (\<forall>i < length SPECS. reviewer_at b diff p i) \<and> correlator_at b diff p (length SPECS)
     \<and> hub_inv (pn_conn p) (pn_hub p)
     \<and> (\<forall>i > length SPECS. pn_conn p i = Starting \<and> pn_down p i = [] \<and> pn_up p i = [] \<and> pn_asking p i = [])"

lemma panel_inv_start: "panel_inv b diff panel_start"
  by (simp add: panel_inv_def panel_start_def hub_new_def reviewer_inv_def correlator_inv_def hub_inv_def valid_board_def)

lemma panel_inv_start_step:
  assumes "panel_inv b diff p" and "may_start p i" and "pn_conn p i = Starting"
  shows "panel_inv b diff (p\<lparr>pn_conn := (pn_conn p)(i := Dialing)\<rparr>)"
  using assms by (auto simp: panel_inv_def reviewer_inv_def correlator_inv_def hub_inv_def may_start_def)

lemma deliver_pair: "deliver [(i, m), (i, n)] down = down(i := down i @ [m, n])"
  by (simp add: deliver_def)

lemma deliver_broadcast:
  "distinct cs \<Longrightarrow> deliver (map (\<lambda>c. (c, m)) cs) down i = down i @ (if i \<in> set cs then [m] else [])"
  unfolding deliver_def by (induction cs arbitrary: down) auto

lemma panel_inv_accept:
  assumes inv: "panel_inv b diff p" and "pn_conn p i = Dialing" and "hub_accept diff i (pn_hub p) = (ws, h)"
  shows "panel_inv b diff (p\<lparr>pn_conn := (pn_conn p)(i := Linked), pn_hub := h, pn_down := deliver ws (pn_down p)\<rparr>)"
proof -
  have ws: "ws = [(i, task_message diff), (i, board_message (hub_reviews (pn_hub p)))]"
    and h: "h = (pn_hub p)\<lparr>hub_conns := set_add i (hub_conns (pn_hub p))\<rparr>"
    using assms(3) by (simp_all add: hub_accept_def)
  have i: "i \<le> length SPECS"
    using inv assms(2) by (auto simp: panel_inv_def not_le [symmetric])
  then have "pn_down p i = []" "\<not> pn_flag p i" if "i < length SPECS \<or> i = length SPECS"
    using inv assms(2) that by (auto simp: panel_inv_def reviewer_inv_def correlator_inv_def)
  then have "pn_down p i = []" "\<not> pn_flag p i"
    using i unfolding le_less by blast+
  then show ?thesis
    using inv i assms(2) unfolding ws h deliver_pair
    by (auto simp: panel_inv_def reviewer_inv_def correlator_inv_def hub_inv_def set_set_add distinct_set_add)
qed

lemma not_same_message [simp]:
  "task_message d \<noteq> board_message rs" "board_message rs \<noteq> task_message d"
  by (simp_all add: task_message_def board_message_def)

lemma reviewer_message_task:
  "reviewer_message b sp (task_message d) flag =
     (Inr (if flag then None else Some (reviewPrompt b (sp_lens sp) (Str d))), True)"
  by (simp add: reviewer_message_def task_message_def)

lemma reviewer_message_board: "reviewer_message b sp (board_message rs) flag = (Inr None, flag)"
  by (simp add: reviewer_message_def board_message_def)

lemma correlator_message_task: "correlator_message b (task_message d) flag = (Inr None, flag)"
  by (simp add: correlator_message_def task_message_def)

lemma correlator_message_board:
  "length rs = length SPECS \<Longrightarrow> correlatePrompt b rs = Inr q \<Longrightarrow>
    correlator_message b (board_message rs) flag = (Inr (if flag then None else Some q), True)"
  by (simp add: correlator_message_def board_message_def length_less_def iterated_def)

lemma reviewer_inv_message:
  assumes "reviewer_inv b diff sp conn (m # ms) up flag asking rs"
    and "reviewer_message b sp m flag = (r, flag')"
  shows "\<exists>prompt. r = Inr prompt
    \<and> reviewer_inv b diff sp conn ms up flag' (asking @ (case prompt of None \<Rightarrow> [] | Some q \<Rightarrow> [q])) rs"
proof -
  consider "m = task_message diff" | qs where "m = board_message qs"
    using assms(1) by (auto simp: reviewer_inv_def)
  then show ?thesis
  proof cases
    case 1
    then show ?thesis
      using assms by (cases flag) (auto simp: reviewer_inv_def reviewer_message_task)
  next
    case 2
    then show ?thesis
      using assms by (auto simp: reviewer_inv_def reviewer_message_board)
  qed
qed

lemma correlator_inv_message:
  assumes "correlator_inv b diff conn (m # ms) up flag asking h" and "hub_inv c h"
    and "correlator_message b m flag = (r, flag')"
  shows "\<exists>prompt. r = Inr prompt
    \<and> correlator_inv b diff conn ms up flag' (asking @ (case prompt of None \<Rightarrow> [] | Some q \<Rightarrow> [q])) h"
proof -
  have full: "length (hub_reviews h) = length SPECS" and valid: "valid_board (hub_reviews h)"
    using assms(1,2) by (auto simp: correlator_inv_def hub_inv_def)
  obtain q where q: "correlatePrompt b (hub_reviews h) = Inr q"
    using board_prompt [OF valid] by blast
  consider "m = task_message diff" | "m = board_message (hub_reviews h)"
    using assms(1) by (auto simp: correlator_inv_def)
  then show ?thesis
  proof cases
    case 1
    then show ?thesis
      using assms by (auto simp: correlator_inv_def correlator_message_task)
  next
    case 2
    then show ?thesis
      using assms correlator_message_board [OF full q] q by (cases flag) (auto simp: correlator_inv_def)
  qed
qed

lemma panel_inv_clients:
  assumes "panel_inv b diff p" and "pn_down p i \<noteq> [] \<or> pn_up p i \<noteq> [] \<or> pn_asking p i \<noteq> []"
  shows "i < length SPECS \<or> i = length SPECS"
  using assms unfolding panel_inv_def by (metis linorder_neqE_nat)

text \<open>No handler throws in a run, and the invariant is kept.\<close>

lemma panel_inv_message:
  assumes inv: "panel_inv b diff p" and "pn_down p i = m # ms" and "client_message b i m (pn_flag p i) = (r, flag)"
  shows "\<exists>prompt. r = Inr prompt \<and> panel_inv b diff (p\<lparr>pn_down := (pn_down p)(i := ms), pn_flag := (pn_flag p)(i := flag),
      pn_asking := (pn_asking p)(i := pn_asking p i @ (case prompt of None \<Rightarrow> [] | Some q \<Rightarrow> [q]))\<rparr>)"
proof -
  consider "i < length SPECS" | "i = length SPECS"
    using panel_inv_clients [OF inv, of i] assms(2) by auto
  then show ?thesis
  proof cases
    case 1
    have "reviewer_message b (SPECS ! i) m (pn_flag p i) = (r, flag)"
      using 1 assms(3) by (simp add: client_message_def)
    moreover have "reviewer_inv b diff (SPECS ! i) (pn_conn p i) (m # ms) (pn_up p i) (pn_flag p i) (pn_asking p i)
        (hub_reviews (pn_hub p))"
      using inv 1 assms(2) by (auto simp: panel_inv_def)
    ultimately obtain prompt where "r = Inr prompt" "reviewer_inv b diff (SPECS ! i) (pn_conn p i) ms (pn_up p i) flag
        (pn_asking p i @ (case prompt of None \<Rightarrow> [] | Some q \<Rightarrow> [q])) (hub_reviews (pn_hub p))"
      using reviewer_inv_message by blast
    then show ?thesis
      using inv 1 by (intro exI [of _ prompt]) (simp add: panel_inv_def)
  next
    case 2
    have "correlator_message b m (pn_flag p i) = (r, flag)"
      using 2 assms(3) by (simp add: client_message_def)
    moreover have "correlator_inv b diff (pn_conn p i) (m # ms) (pn_up p i) (pn_flag p i) (pn_asking p i) (pn_hub p)"
      "hub_inv (pn_conn p) (pn_hub p)"
      using inv 2 assms(2) by (auto simp: panel_inv_def)
    ultimately obtain prompt where "r = Inr prompt" "correlator_inv b diff (pn_conn p i) ms (pn_up p i) flag
        (pn_asking p i @ (case prompt of None \<Rightarrow> [] | Some q \<Rightarrow> [q])) (pn_hub p)"
      using correlator_inv_message by blast
    then show ?thesis
      using inv 2 by (intro exI [of _ prompt]) (simp add: panel_inv_def)
  qed
qed

lemma panel_inv_answer:
  assumes inv: "panel_inv b diff p" and "pn_asking p i = q # qs"
  shows "panel_inv b diff (p\<lparr>pn_asking := (pn_asking p)(i := qs), pn_up := (pn_up p)(i := pn_up p i @ [client_answer i t])\<rparr>)"
proof -
  consider "i < length SPECS" | "i = length SPECS"
    using panel_inv_clients [OF inv, of i] assms(2) by auto
  then show ?thesis
  proof cases
    case 1
    then have "reviewer_inv b diff (SPECS ! i) (pn_conn p i) (pn_down p i) (pn_up p i @ [client_answer i t]) (pn_flag p i)
        qs (hub_reviews (pn_hub p))"
      using inv assms(2) by (auto simp: panel_inv_def reviewer_inv_def client_answer_def)
    then show ?thesis
      using inv 1 by (simp add: panel_inv_def)
  next
    case 2
    then have "correlator_inv b diff (pn_conn p i) (pn_down p i) (pn_up p i @ [client_answer i t]) (pn_flag p i)
        qs (pn_hub p)"
      using inv assms(2) by (auto simp: panel_inv_def correlator_inv_def client_answer_def)
    then show ?thesis
      using inv 2 by (simp add: panel_inv_def)
  qed
qed

lemma hub_message_review:
  "hub_message (reviewer_answer sp t) h =
     (let h' = h\<lparr>hub_reviews := hub_reviews h @ [reviewer_answer sp t]\<rparr>
      in (Inr (broadcast h'), if length (hub_reviews h') = length SPECS then h'\<lparr>hub_all_in := True\<rparr> else h'))"
  by (simp add: hub_message_def reviewer_answer_def Let_def)

lemma hub_message_correlation:
  "hub_message (correlation_message t) h = (Inr [], h\<lparr>hub_correlation := Str t, hub_correlated := True\<rparr>)"
  by (simp add: hub_message_def correlation_message_def)

text \<open>A review is filed while the board is not full, so before the correlator is started.\<close>

lemma panel_inv_review:
  assumes inv: "panel_inv b diff p" and i: "i < length SPECS" and up: "pn_up p i = m # ms"
    and hub: "hub_message m (pn_hub p) = (r, h)"
  shows "\<exists>ws. r = Inr ws \<and> panel_inv b diff (p\<lparr>pn_up := (pn_up p)(i := ms), pn_hub := h, pn_down := deliver ws (pn_down p)\<rparr>)"
proof -
  let ?rs = "hub_reviews (pn_hub p)"
  have at_i: "reviewer_at b diff p i"
    using inv i by (simp add: panel_inv_def)
  then obtain t where m: "m = reviewer_answer (SPECS ! i) t"
    using up unfolding reviewer_inv_def by (metis list.set_intros(1))
  have valid: "valid_board ?rs" and conns: "distinct (hub_conns (pn_hub p))"
    using inv by (simp_all add: panel_inv_def hub_inv_def)
  have one: "filed_by (SPECS ! j) ?rs \<le> 1" if "j < length SPECS" for j
    using inv that by (auto simp: panel_inv_def reviewer_inv_def)
  have none: "filed_by (SPECS ! i) ?rs = 0"
    using at_i up by (auto simp: reviewer_inv_def)
  have "length ?rs < length SPECS"
  proof -
    have "length ?rs < (\<Sum>j<length SPECS. 1)"
      unfolding length_board [OF valid] by (rule sum_strict_mono_ex1) (use one none i in auto)
    then show ?thesis
      by simp
  qed
  then have open_board: "\<not> hub_all_in (pn_hub p)" "pn_conn p (length SPECS) = Starting" "length SPECS \<notin> set (hub_conns (pn_hub p))"
    using inv by (auto simp: panel_inv_def hub_inv_def correlator_inv_def)
  define h' where "h' = (pn_hub p)\<lparr>hub_reviews := ?rs @ [m]\<rparr>"
  have r: "r = Inr (broadcast h')" and h: "h = (if length (?rs @ [m]) = length SPECS then h'\<lparr>hub_all_in := True\<rparr> else h')"
    using hub hub_message_review [of "SPECS ! i" t "pn_hub p"] by (auto simp: m h'_def Let_def)
  have reviews: "hub_reviews h = ?rs @ [m]" "hub_conns h = hub_conns (pn_hub p)" "hub_correlated h = hub_correlated (pn_hub p)"
    "hub_correlation h = hub_correlation (pn_hub p)"
    by (simp_all add: h h'_def)
  have down: "deliver (broadcast h') (pn_down p) j
      = pn_down p j @ (if j \<in> set (hub_conns (pn_hub p)) then [board_message (?rs @ [m])] else [])" for j
    using deliver_broadcast [OF conns] by (simp add: broadcast_def h'_def)
  have "reviewer_inv b diff (SPECS ! j) (pn_conn p j) (deliver (broadcast h') (pn_down p) j) (((pn_up p)(i := ms)) j)
      (pn_flag p j) (pn_asking p j) (?rs @ [m])" if j: "j < length SPECS" for j
  proof -
    have linked: "j \<in> set (hub_conns (pn_hub p)) \<Longrightarrow> pn_conn p j = Linked"
      using inv by (auto simp: panel_inv_def hub_inv_def)
    have old: "reviewer_at b diff p j"
      using inv j by (simp add: panel_inv_def)
    show ?thesis
      using old linked up same_from [OF i j] none unfolding down reviewer_inv_def m by (cases "i = j") auto
  qed
  moreover have "correlator_inv b diff (pn_conn p (length SPECS)) (deliver (broadcast h') (pn_down p) (length SPECS))
      (((pn_up p)(i := ms)) (length SPECS)) (pn_flag p (length SPECS)) (pn_asking p (length SPECS)) h"
    using inv open_board i unfolding down by (auto simp: panel_inv_def correlator_inv_def reviews)
  moreover have "hub_inv (pn_conn p) h"
    using inv i open_board by (auto simp: panel_inv_def hub_inv_def reviews valid_board_def m h h'_def)
  moreover have "deliver (broadcast h') (pn_down p) j = []" if "j > length SPECS" for j
    using inv that unfolding down by (auto simp: panel_inv_def hub_inv_def)
  ultimately show ?thesis
    using inv i by (intro exI [of _ "broadcast h'"]) (simp add: r panel_inv_def reviews)
qed

lemma panel_inv_collect:
  assumes inv: "panel_inv b diff p" and up: "pn_up p i = m # ms" and hub: "hub_message m (pn_hub p) = (r, h)"
  shows "\<exists>ws. r = Inr ws \<and> panel_inv b diff (p\<lparr>pn_up := (pn_up p)(i := ms), pn_hub := h, pn_down := deliver ws (pn_down p)\<rparr>)"
proof -
  consider "i < length SPECS" | "i = length SPECS"
    using panel_inv_clients [OF inv, of i] up by auto
  then show ?thesis
  proof cases
    case 1
    then show ?thesis
      using panel_inv_review [OF inv _ up hub] by blast
  next
    case 2
    then have "correlator_at b diff p i"
      using inv by (simp add: panel_inv_def)
    then obtain t where m: "m = correlation_message t"
      using up unfolding correlator_inv_def by (metis list.set_intros(1))
    have "r = Inr []" "h = (pn_hub p)\<lparr>hub_correlation := Str t, hub_correlated := True\<rparr>"
      using hub by (simp_all add: m hub_message_correlation)
    then show ?thesis
      using inv up 2 by (auto simp: panel_inv_def correlator_inv_def hub_inv_def deliver_def)
  qed
qed

lemma panel_inv_step: "panel_step b diff p p' \<Longrightarrow> panel_inv b diff p \<Longrightarrow> panel_inv b diff p'"
proof (induction rule: panel_step.induct)
  case (message p i m ms prompt flag)
  then show ?case
    using panel_inv_message by fastforce
next
  case (collect p i m ms ws h)
  then show ?case
    using panel_inv_collect by fastforce
qed (simp_all add: panel_inv_start_step panel_inv_accept panel_inv_answer)

end
