(* ===== verification/Panel_Props.thy ===== *)
theory Panel_Props
  imports Panel_Spec
begin

text \<open>
  What the panel of src/examples/swarm-code-review.js promises: who may be on the board and in the
  correlator's prompt, that every run is short, and that a run that has come to its end has its correlation and its
  report.
\<close>

section \<open>Reachable panels\<close>

definition panel_reachable :: "b4a \<Rightarrow> jsstring \<Rightarrow> panel \<Rightarrow> bool" where
  "panel_reachable b diff p \<longleftrightarrow> (panel_step b diff)\<^sup>*\<^sup>* panel_start p"

lemma panel_reachable_inv: "panel_reachable b diff p \<Longrightarrow> panel_inv b diff p"
  unfolding panel_reachable_def by (induction rule: rtranclp_induct) (simp_all add: panel_inv_start panel_inv_step)


section \<open>Runs end\<close>

text \<open>
  What a client still has to do: each stage weighs more than what it leads to, a review on its way
  more than the boards its filing sends out.
\<close>

fun link_weight :: "link_state \<Rightarrow> nat" where
  "link_weight Starting = 4"
| "link_weight Dialing = 3"
| "link_weight Linked = 0"

definition client_weight :: "panel \<Rightarrow> nat \<Rightarrow> nat" where
  "client_weight p i = link_weight (pn_conn p i) + length (pn_down p i) + 6 * length (pn_up p i)
     + 7 * length (pn_asking p i) + 8 * of_bool (\<not> pn_flag p i)"

definition panel_weight :: "panel \<Rightarrow> nat" where
  "panel_weight p = (\<Sum>i\<le>length SPECS. client_weight p i)"

lemma panel_weight_start: "panel_weight panel_start = 60"
  by (simp add: panel_weight_def client_weight_def panel_start_def)

lemma panel_weight_less:
  assumes "i \<le> length SPECS" and "\<And>j. j \<noteq> i \<Longrightarrow> client_weight p' j = client_weight p j"
    and "client_weight p' i < client_weight p i"
  shows "panel_weight p' < panel_weight p"
proof -
  have "client_weight p' j \<le> client_weight p j" for j
    using assms(2,3) by (cases "j = i") auto
  then show ?thesis
    unfolding panel_weight_def using assms(1,3) by (intro sum_strict_mono_ex1) auto
qed

lemma client_message_flag: "client_message b i m flag = (Inr prompt, flag') \<Longrightarrow>
    7 * length (case prompt of None \<Rightarrow> [] | Some q \<Rightarrow> [q]) + 8 * of_bool (\<not> flag') \<le> (8 * of_bool (\<not> flag) :: nat)"
  by (auto simp: client_message_def reviewer_message_def correlator_message_def rbind_eq_Inr
    split: if_splits sum.splits bool.splits)

lemma hub_message_writes: "hub_message m h = (Inr ws, h') \<Longrightarrow> ws = [] \<or> (\<exists>v. ws = map (\<lambda>c. (c, v)) (hub_conns h))"
  by (auto simp: hub_message_def broadcast_def Let_def split: sum.splits if_splits)

lemma panel_weight_step:
  assumes "panel_step b diff p p'" and inv: "panel_inv b diff p"
  shows "panel_weight p' < panel_weight p"
  using assms(1)
proof cases
  case (start i)
  then show ?thesis
    by (intro panel_weight_less [of i]) (auto simp: client_weight_def may_start_def)
next
  case (accept i ws h)
  have "i \<le> length SPECS"
    using inv accept(2) by (auto simp: panel_inv_def not_le [symmetric])
  then show ?thesis
    using accept by (intro panel_weight_less [of i])
      (auto simp: client_weight_def hub_accept_def deliver_pair)
next
  case (message i m ms prompt flag)
  then show ?thesis
    using panel_inv_clients [OF inv, of i] client_message_flag [OF message(3)]
    by (intro panel_weight_less [of i]) (auto simp: client_weight_def)
next
  case (answer i q qs t)
  then show ?thesis
    using panel_inv_clients [OF inv, of i] by (intro panel_weight_less [of i]) (auto simp: client_weight_def)
next
  case (collect i m ms ws h)
  let ?conns = "hub_conns (pn_hub p)"
  have i: "i \<le> length SPECS"
    using panel_inv_clients [OF inv, of i] collect(2) by auto
  have conns: "distinct ?conns" "set ?conns \<subseteq> {..length SPECS}"
    using inv by (auto simp: panel_inv_def hub_inv_def)
  consider "ws = []" | v where "ws = map (\<lambda>c. (c, v)) ?conns"
    using hub_message_writes [OF collect(3)] by blast
  then have "length (deliver ws (pn_down p) j) \<le> length (pn_down p j) + of_bool (j \<in> set ?conns)" for j
    by cases (simp_all add: deliver_broadcast [OF conns(1)] deliver_def [of "[]"])
  then have "client_weight p' j + (if j = i then 6 else 0) \<le> client_weight p j + of_bool (j \<in> set ?conns)" for j
    using collect(1,2) by (auto simp: client_weight_def)
  then have "(\<Sum>j\<le>length SPECS. client_weight p' j + (if j = i then 6 else 0))
      \<le> (\<Sum>j\<le>length SPECS. client_weight p j + of_bool (j \<in> set ?conns))"
    by (intro sum_mono)
  moreover have "(\<Sum>j\<le>length SPECS. of_bool (j \<in> set ?conns)) = card (set ?conns)"
    using conns(2) by (simp add: of_bool_def sum.If_cases Int_absorb1)
  moreover have "card (set ?conns) \<le> card {..length SPECS}"
    using conns(2) by (intro card_mono) simp_all
  ultimately show ?thesis
    using i by (simp add: panel_weight_def sum.distrib)
qed

lemma panel_run_bound:
  "((panel_step b diff) ^^ k) panel_start p \<Longrightarrow> panel_inv b diff p \<and> k + panel_weight p \<le> 60"
proof (induction k arbitrary: p)
  case 0
  then show ?case
    by (simp add: panel_inv_start panel_weight_start)
next
  case (Suc k)
  then obtain q where "((panel_step b diff) ^^ k) panel_start q" "panel_step b diff q p"
    by auto
  then show ?case
    using Suc.IH [of q] panel_weight_step panel_inv_step by fastforce
qed

text \<open>C24. Every run of the panel ends: no run has more than 60 steps, whatever the order of the events.\<close>

theorem every_panel_run_ends:
  assumes "((panel_step b diff) ^^ k) panel_start p"
  shows "k \<le> 60"
  using panel_run_bound [OF assms] by simp

theorem every_panel_run_ends_witness:
  "(\<exists>p. ((panel_step utf8_b4a []) ^^ 1) panel_start p) \<and> (1 :: nat) \<le> 60"
proof -
  have "panel_step utf8_b4a [] panel_start (panel_start\<lparr>pn_conn := (pn_conn panel_start)(0 := Dialing)\<rparr>)"
    by (rule panel_step.start) (simp_all add: may_start_def panel_start_def)
  then have "((panel_step utf8_b4a []) ^^ 1) panel_start (panel_start\<lparr>pn_conn := (pn_conn panel_start)(0 := Dialing)\<rparr>)"
    by (simp only: relpowp_1)
  from this every_panel_run_ends [OF this] show ?thesis
    by blast
qed

lemma panel_runs_come_to_an_end: "\<exists>p. panel_reachable b diff p \<and> (\<nexists>p'. panel_step b diff p p')"
  unfolding panel_reachable_def using panel_run_bound by (intro bounded_runs_end [of _ _ 60]) fastforce

section \<open>At the end of a run\<close>

lemma panel_stuck:
  assumes inv: "panel_inv b diff p" and stuck: "\<nexists>p'. panel_step b diff p p'"
  shows "length (hub_reviews (pn_hub p)) = length SPECS \<and> hub_correlated (pn_hub p)"
proof -
  have linking: "pn_conn p i \<noteq> Dialing" for i
    using stuck panel_step.accept [of p i] by (metis surj_pair)
  have up: "pn_up p i = []" for i
  proof (rule ccontr)
    assume "pn_up p i \<noteq> []"
    then obtain m ms where "pn_up p i = m # ms"
      by (cases "pn_up p i") simp_all
    moreover obtain r h where "hub_message m (pn_hub p) = (r, h)"
      by fastforce
    ultimately show False
      using stuck panel_step.collect panel_inv_collect [OF inv] by metis
  qed
  have down: "pn_down p i = []" for i
  proof (rule ccontr)
    assume "pn_down p i \<noteq> []"
    then obtain m ms where "pn_down p i = m # ms"
      by (cases "pn_down p i") simp_all
    moreover obtain r flag where "client_message b i m (pn_flag p i) = (r, flag)"
      by fastforce
    ultimately show False
      using stuck panel_step.message panel_inv_message [OF inv] by metis
  qed
  have asking: "pn_asking p i = []" for i
    using stuck panel_step.answer by (metis list.exhaust)
  have "filed_by (SPECS ! i) (hub_reviews (pn_hub p)) = 1" if i: "i < length SPECS" for i
  proof -
    have "pn_conn p i \<noteq> Starting"
      using stuck panel_step.start [of p i] i by (auto simp: may_start_def)
    then have "pn_conn p i = Linked"
      using linking link_state.exhaust by blast
    moreover have "reviewer_at b diff p i"
      using inv i by (simp add: panel_inv_def)
    ultimately show ?thesis
      by (auto simp: reviewer_inv_def up down asking)
  qed
  moreover have "hub_inv (pn_conn p) (pn_hub p)" "correlator_at b diff p (length SPECS)"
    using inv by (simp_all add: panel_inv_def)
  ultimately have full: "length (hub_reviews (pn_hub p)) = length SPECS" "hub_all_in (pn_hub p)"
    using length_board [of "hub_reviews (pn_hub p)"] by (simp_all add: hub_inv_def)
  have "pn_conn p j \<noteq> Starting" if "j < length SPECS" for j
    using stuck panel_step.start [of p j] that by (auto simp: may_start_def)
  then have "may_start p (length SPECS)"
    using full(2) by (simp add: may_start_def list_all_iff)
  then have "pn_conn p (length SPECS) = Linked"
    using stuck panel_step.start linking link_state.exhaust by metis
  then have "hub_correlated (pn_hub p)"
    using \<open>correlator_at b diff p (length SPECS)\<close> by (auto simp: correlator_inv_def up down asking of_bool_def split: if_splits)
  with full show ?thesis
    by simp
qed

lemma report_returns:
  assumes filed: "\<forall>r \<in> set reviews. filed r" and "correlation = Str t"
  shows "\<exists>report. renderReport b diff reviews correlation items = Inr report"
proof -
  have "\<exists>rows. summarize reviews = Inr rows"
    unfolding summarize_def using summarize_category_filed [OF filed] by (intro traverse_returns) blast
  moreover have "\<exists>sections. traverse (panel_section b reviews) CATEGORIES = Inr sections"
  proof (intro traverse_returns ballI)
    fix c :: lens_category
    have "\<exists>e. panel_entry b r = Inr e" if "filed r" for r
      using that by (auto simp: filed_def panel_entry_def is_obj_getp cleanReview_def)
    then have "\<exists>entries. traverse (panel_entry b) (filter (in_category (cat_name c)) reviews) = Inr entries"
      using filed by (intro traverse_returns) simp
    then show "\<exists>s. panel_section b reviews c = Inr s"
      by (auto simp: panel_section_def)
  qed
  ultimately show ?thesis
    by (auto simp: renderReport_def Let_def cleanReview_def assms(2))
qed

lemma main_output_returns:
  assumes "valid_board (hub_reviews h)" and "hub_correlation h = Str t"
  shows "\<exists>printed report. main_output b diff h = Inr (printed, report)"
proof -
  have filed: "\<forall>r \<in> set (hub_reviews h). filed r"
    using assms(1) by (rule board_filed)
  obtain report where "renderReport b diff (hub_reviews h) (hub_correlation h)
      (map attributed (filter (\<lambda>r. found (review_text r)) (hub_reviews h))) = Inr report"
    using report_returns [OF filed] assms(2) by metis
  moreover obtain rows where "summarize (hub_reviews h) = Inr rows"
    using traverse_returns [of CATEGORIES "summarize_category (hub_reviews h)"] summarize_category_filed [OF filed]
    unfolding summarize_def by blast
  ultimately show ?thesis
    by (simp add: main_output_def actionItems_filed [OF filed])
qed

text \<open>
  C9. A run that has come to its end has done its work: in a reachable state from which no step
  is possible, every reviewer's review is on the board, the correlation has arrived, and \<open>main\<close>
  prints its tables and writes its report without an exception.  Runs being bounded, every run of the
  panel that is not stopped ends with the report.
\<close>

theorem finished_panel_has_its_report:
  assumes "panel_reachable b diff p" and "\<nexists>p'. panel_step b diff p p'"
  shows "length (hub_reviews (pn_hub p)) = length SPECS \<and> hub_all_in (pn_hub p) \<and> hub_correlated (pn_hub p)
    \<and> (\<exists>printed report. main_output b diff (pn_hub p) = Inr (printed, report))"
proof -
  let ?h = "pn_hub p"
  have inv: "panel_inv b diff p"
    using assms(1) by (rule panel_reachable_inv)
  note stuck = panel_stuck [OF inv assms(2)]
  have hub: "hub_inv (pn_conn p) ?h"
    using inv by (simp add: panel_inv_def)
  then obtain t where "hub_correlation ?h = Str t"
    using stuck by (auto simp: hub_inv_def)
  then have "\<exists>printed report. main_output b diff ?h = Inr (printed, report)"
    using hub by (intro main_output_returns) (simp_all add: hub_inv_def)
  then show ?thesis
    using stuck hub by (simp add: hub_inv_def)
qed

theorem finished_panel_has_its_report_witness:
  "\<exists>p. panel_reachable utf8_b4a (js ''+x'') p \<and> hub_correlated (pn_hub p)
    \<and> (\<exists>printed report. main_output utf8_b4a (js ''+x'') (pn_hub p) = Inr (printed, report))"
  using panel_runs_come_to_an_end [of utf8_b4a "js ''+x''"] finished_panel_has_its_report by blast


end
