(* ===== verification/Chat_Loop.thy ===== *)
theory Chat_Loop
  imports Bareclaw_Props
begin

text \<open>
  The loop in which the examples run a chat turn of src/index.js: \<open>for await (const chunk of bc.chat(key, message))\<close>
  with a body that works on some accumulated state and leaves the loop by \<open>break\<close> at a done
  chunk.  What such a loop computes on an open instance is a fold of its body over the chunks of the turn.
\<close>

section \<open>Definition\<close>

text \<open>\<open>None\<close> is a loop that never ends.  Leaving by \<open>break\<close> closes the generator.\<close>

partial_function (option) chat_loop ::
    "('w, 'b, 'a) env \<Rightarrow> ('x \<Rightarrow> jsval \<Rightarrow> 'x) \<Rightarrow> gen \<Rightarrow> 'x \<Rightarrow> ('w, 'b, 'a) claw \<Rightarrow> ('x result \<times> ('w, 'b, 'a) claw) option" where
  "chat_loop E f g out st =
     (case chat_next E g st of
        ((Inl e, g), st) \<Rightarrow> Some (Inl e, st)
      | ((Inr Finished, g), st) \<Rightarrow> Some (Inr out, st)
      | ((Inr (Yields v), g), st) \<Rightarrow>
          let out = f out v
          in if truthy (field v (js ''done''))
             then (case chat_return E g st of
                     ((Inl e, g), st) \<Rightarrow> Some (Inl e, st)
                   | ((Inr _, g), st) \<Rightarrow> Some (Inr out, st))
             else chat_loop E f g out st)"

text \<open>\<open>out += chunk.content\<close> for a content chunk.\<close>

definition content_text :: "b4a \<Rightarrow> jsval \<Rightarrow> jsstring" where
  "content_text b v =
     (if field v (js ''type'') = Str (js ''content'') then to_text b (field v (js ''content'')) else [])"

section \<open>A loop that comes to its end\<close>

text \<open>The loop sees what a consumer sees that takes more chunks than there are.\<close>

lemma chat_loop_consume:
  assumes "consume E n g st = ((vs, Inr ()), st')" and "length vs < n"
  shows "chat_loop E f g out st = Some (Inr (foldl f out vs), st')"
  using assms
proof (induction n arbitrary: g st vs out)
  case (Suc n)
  obtain x g1 st1 where step: "chat_next E g st = ((x, g1), st1)"
    by (metis surj_pair)
  show ?case
  proof (cases "\<exists>v. x = Inr (Yields v)")
    case False
    then have "x = Inr Finished" "vs = []" "st' = st1"
      using Suc.prems(1) step by (auto split: sum.splits iter.splits)
    then show ?thesis
      using step by (subst chat_loop.simps) simp
  next
    case True
    then obtain v ws where v: "x = Inr (Yields v)" "vs = v # ws" "consume E n g1 st1 = ((ws, Inr ()), st')"
      using Suc.prems(1) step by (auto split: prod.splits)
    obtain type content s sessionId where shape: "v = chat_value type content (is_final type)"
      "g1 = (if is_final type then GenLast s sessionId else GenChunk s sessionId)"
      using next_shape [of E g st v g1 st1] step v(1) by blast
    show ?thesis
    proof (cases "is_final type")
      case True
      then have "ws = []"
        using v(3) shape(2) consume_last by fastforce
      moreover obtain m where "n = Suc m"
        using Suc.prems(2) v(2) by (cases n) simp_all
      ultimately have "chat_return E g1 st1 = ((Inr Finished, GenDone), st')"
        using v(3) True shape(2)
        by (auto simp: chat_next_def chat_return_def apfst_def map_prod_def split: prod.splits sum.splits iter.splits)
      then show ?thesis
        using step v True shape \<open>ws = []\<close> by (subst chat_loop.simps) (simp add: chat_value_done Let_def)
    next
      case False
      then have "chat_loop E f g1 (f out v) st1 = Some (Inr (foldl f (f out v) ws), st')"
        using Suc.IH [OF v(3), of "f out v"] Suc.prems(2) v(2) by simp
      then show ?thesis
        using step v False shape by (subst chat_loop.simps) (simp add: chat_value_done Let_def)
    qed
  qed
qed simp

lemma chat_loop_turn:
  assumes "picoclaw_ok pc" and "pc_provider_error pc = None" and "claw_live go_up ordered st"
    and "key_ok k" and "key_ok m" and "opts_ok (cl_opts st)"
    and "pc_turn pc m (gs_sessions (lk_peer (cl_world st)) k) = (r, streamed, left)"
    and "\<forall>t \<in> set streamed. key_ok t" and "case r of Inl e \<Rightarrow> key_ok e | Inr t \<Rightarrow> key_ok t"
  shows "\<exists>st'. chat_loop (go_env pc) f (chat (Str k) (Str m) Undef) out st
      = Some (Inr (foldl f out (map shown (go_chunks r streamed))), st')
    \<and> turn_done k (marshalSession utf8_b4a (fst left) (snd left)) st st'"
proof -
  have "turn_ok (go_chunks r streamed)"
    using go_chunks_turn assms(8,9) by blast
  from go_chat_turn [OF assms(1-7) this lessI] obtain st' where st':
    "consume (go_env pc) (Suc (length (go_chunks r streamed))) (chat (Str k) (Str m) Undef) st
      = ((map shown (go_chunks r streamed), Inr ()), st')"
    "turn_done k (marshalSession utf8_b4a (fst left) (snd left)) st st'"
    by blast
  show ?thesis
    using chat_loop_consume [OF st'(1), of f out] st'(2) by auto
qed

text \<open>A body that adds up the texts.\<close>

lemma foldl_texts: "foldl (\<lambda>out v. out @ g v) out vs = out @ concat (map g vs)"
  by (induction vs arbitrary: out) simp_all

end
