(* ===== verification/Review_Agent.thy ===== *)
theory Review_Agent
  imports Review Chat_Loop
begin

text \<open>
  The reviewers' agents of src/examples/swarm-code-review.js: how one is made, and \<open>ask\<close>, which runs
  a chat turn of src/index.js to its end and returns the text of the answer.
\<close>

section \<open>Definitions\<close>

definition OPTS :: jsval where
  "OPTS = Obj [(js ''provider'', Str (js ''ollama'')), (js ''model'', Str (js ''llama3.2''))]"

text \<open>The key of the session of a new instance on a store.\<close>

definition makeAgent :: "('w, 'b, 'a) env \<Rightarrow> jsstring \<Rightarrow> 'w \<Rightarrow> 'b \<Rightarrow> jsval result \<times> ('w, 'b, 'a) claw" where
  "makeAgent E name w b =
     andthen (e_ready E) (\<lambda>_. session E (Obj [(js ''agentId'', Str name), (js ''channel'', Str (js ''review''))]))
       (claw_new OPTS w b)"

text \<open>The loop of \<open>ask\<close>.\<close>

definition ask_loop ::
    "('w, 'b, 'a) env \<Rightarrow> gen \<Rightarrow> jsstring \<Rightarrow> ('w, 'b, 'a) claw \<Rightarrow> (jsstring result \<times> ('w, 'b, 'a) claw) option" where
  "ask_loop E = chat_loop E (\<lambda>out v. out @ content_text (e_b4a E) v)"

definition ask ::
    "('w, 'b, 'a) env \<Rightarrow> jsval \<Rightarrow> jsstring \<Rightarrow> ('w, 'b, 'a) claw \<Rightarrow> (jsstring result \<times> ('w, 'b, 'a) claw) option" where
  "ask E key message st =
     (case ask_loop E (chat key (Str message) Undef) [] st of
        None \<Rightarrow> None
      | Some (Inl e, st) \<Rightarrow> Some (Inl e, st)
      | Some (Inr out, st) \<Rightarrow> Some (Inr (if trim out \<noteq> [] then trim out else js ''(no response)''), st))"

section \<open>Answers\<close>

text \<open>What is read of the server's chunks: an empty content arrives as \<open>null\<close> and is added as a text.\<close>

definition read_text :: "jsstring \<Rightarrow> jsstring" where
  "read_text t = (if t = [] then js ''null'' else t)"

definition answer_texts :: "(jsstring, jsstring) sum \<Rightarrow> jsstring list \<Rightarrow> jsstring list" where
  "answer_texts r streamed = (if streamed = [] then (case r of Inl e \<Rightarrow> [] | Inr t \<Rightarrow> [t]) else streamed)"

lemma shown_texts:
  "concat (map (content_text b) (map shown (go_chunks r streamed))) = concat (map read_text (answer_texts r streamed))"
proof -
  have content: "content_text b (shown (chunk ''content'' t)) = read_text t" for t
    by (simp add: content_text_def shown_def chunk_def chat_value_def is_final_def read_text_def)
  have final: "content_text b (shown (chunk ''done'' t)) = []" "content_text b (shown (chunk ''error'' t)) = []" for t
    by (simp_all add: content_text_def shown_def chunk_def chat_value_def is_final_def)
  have "concat (map (content_text b) (map shown (map (chunk ''content'') ts))) = concat (map read_text ts)" for ts
    by (induction ts) (simp_all add: content)
  then show ?thesis
    by (cases r; cases "streamed = []") (simp_all add: go_chunks_def answer_texts_def content final)
qed

lemma ask_turn:
  assumes "picoclaw_ok pc" and "pc_provider_error pc = None" and "claw_live go_up ordered st"
    and "key_ok k" and "key_ok m" and "opts_ok (cl_opts st)"
    and "pc_turn pc m (gs_sessions (lk_peer (cl_world st)) k) = (r, streamed, left)"
    and "\<forall>t \<in> set streamed. key_ok t" and "case r of Inl e \<Rightarrow> key_ok e | Inr t \<Rightarrow> key_ok t"
  shows "\<exists>st'. ask (go_env pc) (Str k) m st =
      Some (Inr (let out = trim (concat (map read_text (answer_texts r streamed)))
                 in if out \<noteq> [] then out else js ''(no response)''), st')
    \<and> claw_stored (\<lambda>es. es) st' (data_key utf8_b4a (Str k)) = Some (Buf (marshalSession utf8_b4a (fst left) (snd left)))"
proof -
  from chat_loop_turn [OF assms, of "\<lambda>out v. out @ content_text utf8_b4a v" "[]"] obtain st' where st':
    "ask_loop (go_env pc) (chat (Str k) (Str m) Undef) [] st
      = Some (Inr (concat (map read_text (answer_texts r streamed))), st')"
    "claw_stored (\<lambda>es. es) st' (data_key utf8_b4a (Str k)) = Some (Buf (marshalSession utf8_b4a (fst left) (snd left)))"
    unfolding foldl_texts by (auto simp: turn_done_def ask_loop_def shown_texts simp del: map_map)
  then show ?thesis
    by (simp add: ask_def Let_def)
qed

text \<open>
  \<open>ask\<close> returns the answer.  On an open instance whose server has a model, asking ends, and returns
  the texts the turn streamed, or its whole answer when it streamed nothing, one after the other and
  trimmed, or a placeholder when that is empty; the session's new state is then in the store.
\<close>

theorem ask_returns_the_answer:
  assumes "picoclaw_ok pc" and "pc_provider_error pc = None" and "claw_live go_up ordered st"
    and "key_ok k" and "key_ok m" and "opts_ok (cl_opts st)"
    and "pc_turn pc m (gs_sessions (lk_peer (cl_world st)) k) = (r, streamed, left)"
    and "\<forall>t \<in> set streamed. key_ok t" and "case r of Inl e \<Rightarrow> key_ok e | Inr t \<Rightarrow> key_ok t"
  shows "\<exists>st'. ask (go_env pc) (Str k) m st =
      Some (Inr (let out = trim (concat (map read_text (answer_texts r streamed)))
                 in if out \<noteq> [] then out else js ''(no response)''), st')
    \<and> claw_stored (\<lambda>es. es) st' (data_key utf8_b4a (Str k)) = Some (Buf (marshalSession utf8_b4a (fst left) (snd left)))"
  using ask_turn [OF assms] .

theorem ask_returns_the_answer_witness:
  "\<exists>st'. ask echo_env (Str (js ''s'')) (js ''hi'') go_claw = Some (Inr (js ''ok''), st')"
proof -
  have turn: "pc_turn echo_picoclaw (js ''hi'') ses = (Inr (js ''ok''), [], ([Str (js ''hi'')], []))" for ses
    by (simp add: echo_picoclaw_def)
  have keys: "key_ok (js ''hi'')" "key_ok (js ''ok'')" and pc: "pc_provider_error echo_picoclaw = None"
   
    by (simp_all add: small_key js_def echo_picoclaw_def go_claw_def claw_new_def)
  have "trim (read_text (js ''ok'')) = js ''ok''"
    unfolding read_text_def by (subst trim_trimmed) (simp_all add: trimmed_def is_space_def js_def)
  with ask_returns_the_answer [OF echo_ok pc go_claw_live echo_key_s keys(1) go_claw_opts turn] keys(2) show ?thesis
    by (auto simp: answer_texts_def)
qed

text \<open>A model that answers with an empty text.\<close>

definition mute_picoclaw :: picoclaw where
  "mute_picoclaw = echo_picoclaw\<lparr>pc_turn := (\<lambda>m ses. (Inr [], [], ses))\<rparr>"

text \<open>
  An empty answer is reported as the word null.  When the model answers with an empty text and streams nothing,
  the one content chunk of the turn arrives with \<open>null\<close> as its content, and \<open>ask\<close> returns its text,
  not the placeholder meant for an empty answer.
\<close>

theorem empty_answer_is_the_word_null:
  "\<exists>st'. ask (go_env mute_picoclaw) (Str (js ''s'')) (js ''hi'') go_claw = Some (Inr (js ''null''), st')"
proof -
  have ok: "picoclaw_ok mute_picoclaw"
    using echo_ok by (simp add: picoclaw_ok_def mute_picoclaw_def)
  have turn: "pc_turn mute_picoclaw (js ''hi'') ses = (Inr [], [], ses)" for ses
    by (simp add: mute_picoclaw_def)
  have keys: "key_ok (js ''hi'')" "key_ok []" and pc: "pc_provider_error mute_picoclaw = None"
   
    by (simp_all add: small_key js_def mute_picoclaw_def echo_picoclaw_def go_claw_def claw_new_def)
  have "trim (js ''null'') = js ''null''"
    by (rule trim_trimmed) (simp add: trimmed_def is_space_def js_def)
  with ask_turn [OF ok pc go_claw_live echo_key_s keys(1) go_claw_opts turn] keys(2) show ?thesis
    by (auto simp: answer_texts_def read_text_def)
qed

end
