(* ===== verification/P2P.thy ===== *)
theory P2P
  imports Bareclaw Json
begin

text \<open>
  The peer-to-peer tools of src/examples/tools/p2p.js: the resources the tools keep (swarms, DHT
  servers, connections, each with an inbox), one definition per tool handler, the events that fill
  the inboxes, and the registration of all tools with an instance of src/index.js.  The network (Hyperswarm,
  HyperDHT), z32, SHA-256, compact-encoding and \<open>require\<close> are the record \<open>p2p_lib\<close>.  A handler runs as
  one step on the resources.
\<close>

section \<open>What the tools are built over\<close>

text \<open>A module that \<open>require\<close> returned: its \<open>codec\<close>, itself if it has \<open>preencode\<close>, and its exports that are codecs.\<close>

record codec_module =
  md_codec :: "codec option"
  md_self :: "codec option"
  md_exports :: "codec option list"

text \<open>A connection of a swarm: the peer's key, if it is known, and what was written to it.\<close>

record peer =
  pr_key :: "bytes option"
  pr_sent :: "bytes list"

text \<open>Data from a peer: its key, the bytes, the time.\<close>

type_synonym arrival = "bytes \<times> bytes \<times> int"

record 'n p2p_lib =
  pl_b4a :: b4a
  pl_z32 :: "bytes \<Rightarrow> jsstring"
  pl_unz32 :: "jsval \<Rightarrow> bytes result"
  pl_hex :: "bytes \<Rightarrow> jsstring"
  pl_unhex :: "jsval \<Rightarrow> bytes result"
  pl_sha256 :: "jsval \<Rightarrow> bytes result"
  pl_utf8 :: codec
  pl_alloc :: "nat \<Rightarrow> bytes"
  pl_decode_state :: "bytes \<Rightarrow> cstate result"
  pl_require :: "jsval \<Rightarrow> codec_module result"
  pl_type :: jsstring
  pl_join :: "bytes \<Rightarrow> 'n \<Rightarrow> (bytes \<times> peer list \<times> arrival list) result \<times> 'n"
  pl_leave :: "bytes \<Rightarrow> 'n \<Rightarrow> unit result \<times> 'n"
  pl_keyPair :: "bytes option \<Rightarrow> 'n \<Rightarrow> bytes result \<times> 'n"
  pl_listen :: "bytes \<Rightarrow> 'n \<Rightarrow> arrival list result \<times> 'n"
  pl_close :: "bytes \<Rightarrow> 'n \<Rightarrow> unit result \<times> 'n"
  pl_connect :: "bytes \<Rightarrow> 'n \<Rightarrow> bytes result \<times> 'n"
  pl_destroy :: "jsstring \<Rightarrow> 'n \<Rightarrow> unit result \<times> 'n"

section \<open>Keys and codecs\<close>

definition toZ32 :: "'n p2p_lib \<Rightarrow> bytes \<Rightarrow> jsstring" where
  "toZ32 L buf = pl_z32 L buf"

definition fromZ32 :: "'n p2p_lib \<Rightarrow> jsval \<Rightarrow> bytes result" where
  "fromZ32 L str = pl_unz32 L str"

definition toHex :: "'n p2p_lib \<Rightarrow> bytes \<Rightarrow> jsstring" where
  "toHex L buf = pl_hex L buf"

definition fromHex :: "'n p2p_lib \<Rightarrow> jsval \<Rightarrow> bytes result" where
  "fromHex L str = pl_unhex L str"

definition topicFromName :: "'n p2p_lib \<Rightarrow> jsval \<Rightarrow> bytes result" where
  "topicFromName L name = pl_sha256 L name"

text \<open>\<open>/^[a-z2-7]{52}$/\<close> and \<open>/^[0-9a-f]{64}$/i\<close>\<close>

definition z32_unit :: "16 word \<Rightarrow> bool" where
  "z32_unit u \<longleftrightarrow> 97 \<le> u \<and> u \<le> 122 \<or> 50 \<le> u \<and> u \<le> 55"

definition hex_unit :: "16 word \<Rightarrow> bool" where
  "hex_unit u \<longleftrightarrow> 48 \<le> u \<and> u \<le> 57 \<or> 97 \<le> u \<and> u \<le> 102 \<or> 65 \<le> u \<and> u \<le> 70"

text \<open>\<open>str.slice(0, 20)\<close> in a template: strings, arrays and buffers have the method.\<close>

definition key_excerpt :: "b4a \<Rightarrow> jsval \<Rightarrow> jsstring result" where
  "key_excerpt b str =
     (case str of
        Str s \<Rightarrow> Inr (take 20 s)
      | Arr xs \<Rightarrow> Inr (to_text b (Arr (take 20 xs)))
      | Buf x \<Rightarrow> Inr (to_text b (Buf (take 20 x)))
      | _ \<Rightarrow> Inl TypeError)"

definition parseKey :: "'n p2p_lib \<Rightarrow> jsval \<Rightarrow> bytes result" where
  "parseKey L str =
     (let t = to_text (pl_b4a L) str
      in if length t = 52 \<and> list_all z32_unit t then fromZ32 L str
         else if length t = 64 \<and> list_all hex_unit t then fromHex L str
         else rbind (key_excerpt (pl_b4a L) str) (\<lambda>e.
           Inl (ErrorObj (js ''invalid key '' @ [0x2014] @ js '' expected 52-char z32 or 64-char hex, got: '' @ e @ [0x2026]))))"

definition encodeWith :: "'n p2p_lib \<Rightarrow> codec \<Rightarrow> jsval \<Rightarrow> bytes result" where
  "encodeWith L p v =
     rbind (preencode p \<lparr>cs_start = 0, cs_end = 0, cs_buffer = []\<rparr> v) (\<lambda>state.
     rbind (encode p (state\<lparr>cs_buffer := pl_alloc L (cs_end state), cs_start := 0\<rparr>) v) (\<lambda>state.
     Inr (cs_buffer state)))"

definition decodeWith :: "'n p2p_lib \<Rightarrow> codec \<Rightarrow> bytes \<Rightarrow> jsval result" where
  "decodeWith L p buf =
     rbind (pl_decode_state L buf) (\<lambda>state. rbind (decode p state) (\<lambda>r. Inr (fst r)))"

definition msgCodec :: "codec \<Rightarrow> codec" where
  "msgCodec u = \<lparr>
     preencode = (\<lambda>state m.
       rbind (rbind (getp m (js ''from'')) (preencode u state)) (\<lambda>state.
       rbind (getp m (js ''text'')) (preencode u state))),
     encode = (\<lambda>state m.
       rbind (rbind (getp m (js ''from'')) (encode u state)) (\<lambda>state.
       rbind (getp m (js ''text'')) (encode u state))),
     decode = (\<lambda>state.
       rbind (decode u state) (\<lambda>(r0, state).
       rbind (decode u state) (\<lambda>(r1, state).
       Inr (Obj [(js ''from'', r0), (js ''text'', r1)], state))))\<rparr>"

definition text_msg :: "jsval \<Rightarrow> jsval \<Rightarrow> jsval" where
  "text_msg sender t = Obj [(js ''from'', sender), (js ''text'', t)]"

definition tryDecode :: "'n p2p_lib \<Rightarrow> bytes \<Rightarrow> jsstring \<Rightarrow> jsval" where
  "tryDecode L data fallbackKey =
     (case decodeWith L (msgCodec (pl_utf8 L)) data of
        Inr m \<Rightarrow> m
      | Inl _ \<Rightarrow> text_msg (Str (take 12 fallbackKey @ [0x2026])) (Str (b4a_toString (pl_b4a L) data)))"

section \<open>The resources\<close>

record swarm_entry =
  sw_topic :: jsval
  sw_key :: bytes
  sw_peers :: "peer list"
  sw_inbox :: "jsval list"

record server_entry =
  sv_key :: bytes
  sv_inbox :: "jsval list"

record conn_entry =
  cn_key :: bytes
  cn_sent :: "bytes list"
  cn_inbox :: "jsval list"

record 'n p2p =
  pp_seq :: nat
  pp_swarms :: "jsstring \<Rightarrow> swarm_entry option"
  pp_servers :: "jsstring \<Rightarrow> server_entry option"
  pp_conns :: "jsstring \<Rightarrow> conn_entry option"
  pp_net :: 'n

definition p2p_new :: "'n \<Rightarrow> 'n p2p" where
  "p2p_new n = \<lparr>pp_seq = 0, pp_swarms = (\<lambda>_. None), pp_servers = (\<lambda>_. None), pp_conns = (\<lambda>_. None), pp_net = n\<rparr>"

definition nextId :: "'n p2p \<Rightarrow> jsstring \<times> 'n p2p" where
  "nextId st = (dec_nat (Suc (pp_seq st)), st\<lparr>pp_seq := Suc (pp_seq st)\<rparr>)"

text \<open>\<open>map.get(v)\<close>: the keys are strings.\<close>

definition entry_of :: "(jsstring \<Rightarrow> 'e option) \<Rightarrow> jsval \<Rightarrow> 'e option" where
  "entry_of m v = (case v of Str s \<Rightarrow> m s | _ \<Rightarrow> None)"

definition unknown :: "'n p2p_lib \<Rightarrow> string \<Rightarrow> jsval \<Rightarrow> jsval" where
  "unknown L what v = Obj [(js ''error'', Str (js ''unknown '' @ js what @ js '': '' @ to_text (pl_b4a L) v))]"

text \<open>An operation of the network.\<close>

definition net_do :: "('n \<Rightarrow> 'x result \<times> 'n) \<Rightarrow> 'n p2p \<Rightarrow> 'x result \<times> 'n p2p" where
  "net_do f st = (case f (pp_net st) of (r, n) \<Rightarrow> (r, st\<lparr>pp_net := n\<rparr>))"

definition pure_do :: "'x result \<Rightarrow> 'n p2p \<Rightarrow> 'x result \<times> 'n p2p" where
  "pure_do r st = (r, st)"

section \<open>Incoming data\<close>

text \<open>The \<open>data\<close> listeners of a swarm's, a server's and a client's sockets.\<close>

definition with_time :: "jsval \<Rightarrow> int \<Rightarrow> jsval" where
  "with_time m time = (case m of Obj ps \<Rightarrow> Obj (ps @ [(js ''time'', Num time)]) | _ \<Rightarrow> Obj [(js ''time'', Num time)])"

definition inbox_message :: "'n p2p_lib \<Rightarrow> arrival \<Rightarrow> jsval" where
  "inbox_message L a = (case a of (key, data, time) \<Rightarrow> with_time (tryDecode L data (toZ32 L key)) time)"

definition server_received :: "'n p2p_lib \<Rightarrow> arrival \<Rightarrow> jsval" where
  "server_received L a = (case a of (key, data, time) \<Rightarrow>
     (case tryDecode L data (toZ32 L key) of
        Obj ps \<Rightarrow> Obj (ps @ [(js ''remoteKey'', Str (toZ32 L key)), (js ''time'', Num time)])
      | _ \<Rightarrow> Obj [(js ''remoteKey'', Str (toZ32 L key)), (js ''time'', Num time)]))"

datatype p2p_event =
    SwarmPeer jsstring peer
  | SwarmData jsstring arrival
  | ServerData jsstring arrival
  | ConnData jsstring bytes int

definition upd :: "jsstring \<Rightarrow> ('e \<Rightarrow> 'e) \<Rightarrow> (jsstring \<Rightarrow> 'e option) \<Rightarrow> jsstring \<Rightarrow> 'e option" where
  "upd rid f m = (case m rid of None \<Rightarrow> m | Some e \<Rightarrow> m(rid \<mapsto> f e))"

text \<open>An event of a resource that was closed reaches no inbox that is read.\<close>

fun p2p_arrive :: "'n p2p_lib \<Rightarrow> p2p_event \<Rightarrow> 'n p2p \<Rightarrow> 'n p2p" where
  "p2p_arrive L (SwarmPeer rid c) st = st\<lparr>pp_swarms := upd rid (\<lambda>e. e\<lparr>sw_peers := sw_peers e @ [c]\<rparr>) (pp_swarms st)\<rparr>"
| "p2p_arrive L (SwarmData rid a) st =
     st\<lparr>pp_swarms := upd rid (\<lambda>e. e\<lparr>sw_inbox := sw_inbox e @ [inbox_message L a]\<rparr>) (pp_swarms st)\<rparr>"
| "p2p_arrive L (ServerData rid a) st =
     st\<lparr>pp_servers := upd rid (\<lambda>e. e\<lparr>sv_inbox := sv_inbox e @ [server_received L a]\<rparr>) (pp_servers st)\<rparr>"
| "p2p_arrive L (ConnData rid data time) st =
     st\<lparr>pp_conns := upd rid (\<lambda>e. e\<lparr>cn_inbox := cn_inbox e @ [inbox_message L (cn_key e, data, time)]\<rparr>) (pp_conns st)\<rparr>"

section \<open>Swarm tools\<close>

definition swarm_join :: "'n p2p_lib \<Rightarrow> 'n p2p tool" where
  "swarm_join L input st =
     (case getp input (js ''topic'') of
        Inl e \<Rightarrow> (Inl e, st)
      | Inr topic \<Rightarrow>
          let (rid, st) = nextId st
          in andthen (pure_do (topicFromName L topic)) (\<lambda>buf.
             andthen (net_do (pl_join L buf)) (\<lambda>(key, peers, arrivals) st.
               (Inr (Obj [(js ''swarmId'', Str rid), (js ''topic'', topic), (js ''publicKey'', Str (toZ32 L key)),
                  (js ''peers'', Num (int (length peers)))]),
                st\<lparr>pp_swarms := (pp_swarms st)(rid \<mapsto>
                  \<lparr>sw_topic = topic, sw_key = key, sw_peers = peers, sw_inbox = map (inbox_message L) arrivals\<rparr>)\<rparr>))) st)"

definition swarm_broadcast :: "'n p2p_lib \<Rightarrow> 'n p2p tool" where
  "swarm_broadcast L input st =
     (case getp input (js ''swarmId'') of
        Inl e \<Rightarrow> (Inl e, st)
      | Inr swarmId \<Rightarrow>
          (case (swarmId, entry_of (pp_swarms st) swarmId) of
             (Str rid, Some entry) \<Rightarrow>
               (case encodeWith L (msgCodec (pl_utf8 L)) (text_msg (field input (js ''from'')) (field input (js ''message''))) of
                  Inl e \<Rightarrow> (Inl e, st)
                | Inr data \<Rightarrow>
                    (Inr (Obj [(js ''delivered'', Num (int (length (sw_peers entry))))]),
                     st\<lparr>pp_swarms := (pp_swarms st)(rid \<mapsto>
                       entry\<lparr>sw_peers := map (\<lambda>c. c\<lparr>pr_sent := pr_sent c @ [data]\<rparr>) (sw_peers entry)\<rparr>)\<rparr>))
           | _ \<Rightarrow> (Inr (unknown L ''swarmId'' swarmId), st)))"

definition messages_result :: "jsval list \<Rightarrow> jsval" where
  "messages_result messages = Obj [(js ''messages'', Arr messages), (js ''count'', Num (int (length messages)))]"

definition swarm_messages :: "'n p2p_lib \<Rightarrow> 'n p2p tool" where
  "swarm_messages L input st =
     (case getp input (js ''swarmId'') of
        Inl e \<Rightarrow> (Inl e, st)
      | Inr swarmId \<Rightarrow>
          (case (swarmId, entry_of (pp_swarms st) swarmId) of
             (Str rid, Some entry) \<Rightarrow>
               (Inr (messages_result (sw_inbox entry)),
                st\<lparr>pp_swarms := (pp_swarms st)(rid \<mapsto> entry\<lparr>sw_inbox := []\<rparr>)\<rparr>)
           | _ \<Rightarrow> (Inr (unknown L ''swarmId'' swarmId), st)))"

definition peer_keys :: "'n p2p_lib \<Rightarrow> peer list \<Rightarrow> jsval list" where
  "peer_keys L cs = concat (map (\<lambda>c. case pr_key c of None \<Rightarrow> [] | Some k \<Rightarrow> [Str (toZ32 L k)]) cs)"

definition swarm_peers :: "'n p2p_lib \<Rightarrow> 'n p2p tool" where
  "swarm_peers L input st =
     (case getp input (js ''swarmId'') of
        Inl e \<Rightarrow> (Inl e, st)
      | Inr swarmId \<Rightarrow>
          (case entry_of (pp_swarms st) swarmId of
             Some entry \<Rightarrow>
               (let peers = peer_keys L (sw_peers entry)
                in (Inr (Obj [(js ''peers'', Arr peers), (js ''count'', Num (int (length peers)))]), st))
           | None \<Rightarrow> (Inr (unknown L ''swarmId'' swarmId), st)))"

definition swarm_close :: "'n p2p_lib \<Rightarrow> 'n p2p tool" where
  "swarm_close L input st =
     (case getp input (js ''swarmId'') of
        Inl e \<Rightarrow> (Inl e, st)
      | Inr swarmId \<Rightarrow>
          (case (swarmId, entry_of (pp_swarms st) swarmId) of
             (Str rid, Some entry) \<Rightarrow>
               andthen (net_do (pl_leave L (sw_key entry))) (\<lambda>_ st.
                 (Inr (Obj [(js ''closed'', Bool True), (js ''topic'', sw_topic entry)]),
                  st\<lparr>pp_swarms := (pp_swarms st)(rid := None)\<rparr>)) st
           | _ \<Rightarrow> (Inr (unknown L ''swarmId'' swarmId), st)))"

section \<open>Server tools\<close>

text \<open>\<open>{ seed } = {}\<close>: a missing input is an empty one.\<close>

definition dht_serve :: "'n p2p_lib \<Rightarrow> 'n p2p tool" where
  "dht_serve L input st =
     (case getp (if input = Undef then Obj [] else input) (js ''seed'') of
        Inl e \<Rightarrow> (Inl e, st)
      | Inr seed \<Rightarrow>
          let (rid, st) = nextId st
          in andthen (if truthy seed then andthen (pure_do (pl_sha256 L seed)) (\<lambda>digest. net_do (pl_keyPair L (Some digest)))
                      else net_do (pl_keyPair L None)) (\<lambda>key.
             andthen (net_do (pl_listen L key)) (\<lambda>arrivals st.
               (Inr (Obj [(js ''serverId'', Str rid), (js ''publicKey'', Str (toZ32 L key))]),
                st\<lparr>pp_servers := (pp_servers st)(rid \<mapsto>
                  \<lparr>sv_key = key, sv_inbox = map (server_received L) arrivals\<rparr>)\<rparr>))) st)"

definition dht_server_messages :: "'n p2p_lib \<Rightarrow> 'n p2p tool" where
  "dht_server_messages L input st =
     (case getp input (js ''serverId'') of
        Inl e \<Rightarrow> (Inl e, st)
      | Inr serverId \<Rightarrow>
          (case (serverId, entry_of (pp_servers st) serverId) of
             (Str rid, Some entry) \<Rightarrow>
               (Inr (messages_result (sv_inbox entry)),
                st\<lparr>pp_servers := (pp_servers st)(rid \<mapsto> entry\<lparr>sv_inbox := []\<rparr>)\<rparr>)
           | _ \<Rightarrow> (Inr (unknown L ''serverId'' serverId), st)))"

definition dht_close_server :: "'n p2p_lib \<Rightarrow> 'n p2p tool" where
  "dht_close_server L input st =
     (case getp input (js ''serverId'') of
        Inl e \<Rightarrow> (Inl e, st)
      | Inr serverId \<Rightarrow>
          (case (serverId, entry_of (pp_servers st) serverId) of
             (Str rid, Some entry) \<Rightarrow>
               andthen (net_do (pl_close L (sv_key entry))) (\<lambda>_.
               andthen (net_do (pl_destroy L rid)) (\<lambda>_ st.
                 (Inr (Obj [(js ''closed'', Bool True)]), st\<lparr>pp_servers := (pp_servers st)(rid := None)\<rparr>))) st
           | _ \<Rightarrow> (Inr (unknown L ''serverId'' serverId), st)))"

section \<open>Client tools\<close>

definition dht_connect :: "'n p2p_lib \<Rightarrow> 'n p2p tool" where
  "dht_connect L input st =
     (case getp input (js ''publicKey'') of
        Inl e \<Rightarrow> (Inl e, st)
      | Inr publicKey \<Rightarrow>
          let (rid, st) = nextId st
          in andthen (pure_do (parseKey L publicKey)) (\<lambda>key.
             andthen (net_do (pl_connect L key)) (\<lambda>remote st.
               (Inr (Obj [(js ''connId'', Str rid), (js ''serverKey'', Str (toZ32 L remote))]),
                st\<lparr>pp_conns := (pp_conns st)(rid \<mapsto> \<lparr>cn_key = remote, cn_sent = [], cn_inbox = []\<rparr>)\<rparr>))) st)"

definition dht_send :: "'n p2p_lib \<Rightarrow> 'n p2p tool" where
  "dht_send L input st =
     (case getp input (js ''connId'') of
        Inl e \<Rightarrow> (Inl e, st)
      | Inr connId \<Rightarrow>
          (case (connId, entry_of (pp_conns st) connId) of
             (Str rid, Some entry) \<Rightarrow>
               (case encodeWith L (msgCodec (pl_utf8 L)) (text_msg (field input (js ''from'')) (field input (js ''message''))) of
                  Inl e \<Rightarrow> (Inl e, st)
                | Inr data \<Rightarrow>
                    (Inr (Obj [(js ''sent'', Bool True)]),
                     st\<lparr>pp_conns := (pp_conns st)(rid \<mapsto> entry\<lparr>cn_sent := cn_sent entry @ [data]\<rparr>)\<rparr>))
           | _ \<Rightarrow> (Inr (unknown L ''connId'' connId), st)))"

definition dht_messages :: "'n p2p_lib \<Rightarrow> 'n p2p tool" where
  "dht_messages L input st =
     (case getp input (js ''connId'') of
        Inl e \<Rightarrow> (Inl e, st)
      | Inr connId \<Rightarrow>
          (case (connId, entry_of (pp_conns st) connId) of
             (Str rid, Some entry) \<Rightarrow>
               (Inr (messages_result (cn_inbox entry)),
                st\<lparr>pp_conns := (pp_conns st)(rid \<mapsto> entry\<lparr>cn_inbox := []\<rparr>)\<rparr>)
           | _ \<Rightarrow> (Inr (unknown L ''connId'' connId), st)))"

definition dht_close_conn :: "'n p2p_lib \<Rightarrow> 'n p2p tool" where
  "dht_close_conn L input st =
     (case getp input (js ''connId'') of
        Inl e \<Rightarrow> (Inl e, st)
      | Inr connId \<Rightarrow>
          (case (connId, entry_of (pp_conns st) connId) of
             (Str rid, Some entry) \<Rightarrow>
               andthen (net_do (pl_destroy L rid)) (\<lambda>_ st.
                 (Inr (Obj [(js ''closed'', Bool True)]), st\<lparr>pp_conns := (pp_conns st)(rid := None)\<rparr>)) st
           | _ \<Rightarrow> (Inr (unknown L ''connId'' connId), st)))"

section \<open>Keys and codec files\<close>

text \<open>\<open>{ error: err.message }\<close>\<close>

definition caught :: "'n p2p_lib \<Rightarrow> thrown \<Rightarrow> jsval result" where
  "caught L err =
     rbind (case err of
        TypeError \<Rightarrow> Inr (Str (pl_type L))
      | SyntaxError m \<Rightarrow> Inr (Str m)
      | ErrorObj m \<Rightarrow> Inr (Str m)
      | ThrownVal v \<Rightarrow> getp v (js ''message'')) (\<lambda>m. Inr (Obj [(js ''error'', m)]))"

definition guarded :: "'n p2p_lib \<Rightarrow> jsval result \<Rightarrow> jsval result" where
  "guarded L r = (case r of Inl err \<Rightarrow> caught L err | Inr v \<Rightarrow> Inr v)"

definition key_info :: "'n p2p_lib \<Rightarrow> 'n p2p tool" where
  "key_info L input st =
     (rbind (getp input (js ''key'')) (\<lambda>key.
      guarded L (rbind (parseKey L key) (\<lambda>buf.
        Inr (Obj [(js ''z32'', Str (toZ32 L buf)), (js ''hex'', Str (toHex L buf)), (js ''bytes'', Num (int (length buf)))])))), st)"

definition find_codec :: "codec_module \<Rightarrow> codec option" where
  "find_codec m =
     (case md_codec m of
        Some p \<Rightarrow> Some p
      | None \<Rightarrow>
          (case md_self m of
             Some p \<Rightarrow> Some p
           | None \<Rightarrow> (case filter (\<lambda>v. v \<noteq> None) (md_exports m) of p # _ \<Rightarrow> p | [] \<Rightarrow> None)))"

definition no_codec :: "'n p2p_lib \<Rightarrow> jsval \<Rightarrow> jsval" where
  "no_codec L codecFile = Obj [(js ''error'', Str (to_text (pl_b4a L) codecFile @ js '': no valid codec found''))]"

definition codec_encode :: "'n p2p_lib \<Rightarrow> 'n p2p tool" where
  "codec_encode L input st =
     (rbind (getp input (js ''codecFile'')) (\<lambda>codecFile.
      guarded L (rbind (pl_require L codecFile) (\<lambda>m.
        case find_codec m of
          None \<Rightarrow> Inr (no_codec L codecFile)
        | Some p \<Rightarrow>
            rbind (encodeWith L p (field input (js ''data''))) (\<lambda>buf.
            Inr (Obj [(js ''hex'', Str (toHex L buf)), (js ''bytes'', Num (int (length buf)))]))))), st)"

definition codec_decode :: "'n p2p_lib \<Rightarrow> 'n p2p tool" where
  "codec_decode L input st =
     (rbind (getp input (js ''codecFile'')) (\<lambda>codecFile.
      guarded L (rbind (pl_require L codecFile) (\<lambda>m.
        case find_codec m of
          None \<Rightarrow> Inr (no_codec L codecFile)
        | Some p \<Rightarrow>
            rbind (fromHex L (field input (js ''hex''))) (\<lambda>bytes.
            rbind (decodeWith L p bytes) (\<lambda>v.
            Inr (Obj [(js ''data'', v)])))))), st)"

end
