(* ===== verification/P2P_Registration.thy ===== *)
theory P2P_Registration
  imports P2P
begin

text \<open>
  What src/examples/tools/p2p.js registers: the name, description, input schema and handler of every
  tool, and \<open>registerP2PTools\<close>, which registers them one after the other with an instance of
  src/index.js whose application state is the resources of the tools.
\<close>

record 'n registration =
  rg_name :: jsstring
  rg_description :: jsstring
  rg_schema :: jsval
  rg_handler :: "'n p2p tool"

text \<open>The schemas: objects of described properties, some required, no others allowed.\<close>

definition string_prop :: "jsstring \<Rightarrow> jsval" where
  "string_prop d = Obj [(js ''type'', Str (js ''string'')), (js ''description'', Str d)]"

definition any_prop :: "jsstring \<Rightarrow> jsval" where
  "any_prop d = Obj [(js ''description'', Str d)]"

definition object_schema :: "(jsstring \<times> jsval) list \<Rightarrow> string list option \<Rightarrow> jsval" where
  "object_schema props required =
     Obj ([(js ''type'', Str (js ''object'')), (js ''properties'', Obj props)] @
       (case required of None \<Rightarrow> [] | Some rs \<Rightarrow> [(js ''required'', Arr (map (\<lambda>r. Str (js r)) rs))]) @
       [(js ''additionalProperties'', Bool False)])"

section \<open>The tools\<close>

definition swarm_join_tool :: "'n p2p_lib \<Rightarrow> 'n registration" where
  "swarm_join_tool L = \<lparr>
     rg_name = js ''swarm_join'',
     rg_description =
       (js ''Join a named P2P topic on Hyperswarm. Every peer that knows the topic name connects directly '' @
        [0x2014] @
        js '' no server, no broker. Returns a swarmId to use with the other swarm_ tools. Incoming messages '' @
        js ''are buffered; call swarm_messages to read them.''),
     rg_schema = object_schema
       [(js ''topic'', string_prop (js ''Human-readable topic name, e.g. \"brainstorm-v1\"''))]
       (Some [''topic'']),
     rg_handler = swarm_join L\<rparr>"

definition swarm_broadcast_tool :: "'n p2p_lib \<Rightarrow> 'n registration" where
  "swarm_broadcast_tool L = \<lparr>
     rg_name = js ''swarm_broadcast'',
     rg_description =
       (js ''Send a text message to every peer currently connected on a Hyperswarm topic. Returns the '' @
        js ''number of peers the message was delivered to.''),
     rg_schema = object_schema
       [(js ''swarmId'', string_prop (js ''ID returned by swarm_join'')),
        (js ''from'', string_prop (js ''Sender label (your name, agent ID, etc.)'')),
        (js ''message'', string_prop (js ''Text to broadcast''))]
       (Some [''swarmId'', ''from'', ''message'']),
     rg_handler = swarm_broadcast L\<rparr>"

definition swarm_messages_tool :: "'n p2p_lib \<Rightarrow> 'n registration" where
  "swarm_messages_tool L = \<lparr>
     rg_name = js ''swarm_messages'',
     rg_description =
       js ''Read (and clear) all messages that have arrived on a Hyperswarm topic since the last call.'',
     rg_schema = object_schema
       [(js ''swarmId'', string_prop (js ''ID returned by swarm_join''))]
       (Some [''swarmId'']),
     rg_handler = swarm_messages L\<rparr>"

definition swarm_peers_tool :: "'n p2p_lib \<Rightarrow> 'n registration" where
  "swarm_peers_tool L = \<lparr>
     rg_name = js ''swarm_peers'',
     rg_description =
       js ''List the public keys of peers currently connected on a Hyperswarm topic.'',
     rg_schema = object_schema
       [(js ''swarmId'', string_prop (js ''ID returned by swarm_join''))]
       (Some [''swarmId'']),
     rg_handler = swarm_peers L\<rparr>"

definition swarm_close_tool :: "'n p2p_lib \<Rightarrow> 'n registration" where
  "swarm_close_tool L = \<lparr>
     rg_name = js ''swarm_close'',
     rg_description =
       js ''Leave a Hyperswarm topic and close all peer connections.'',
     rg_schema = object_schema
       [(js ''swarmId'', string_prop (js ''ID returned by swarm_join''))]
       (Some [''swarmId'']),
     rg_handler = swarm_close L\<rparr>"

definition dht_serve_tool :: "'n p2p_lib \<Rightarrow> 'n registration" where
  "dht_serve_tool L = \<lparr>
     rg_name = js ''dht_serve'',
     rg_description =
       (js ''Start a HyperDHT server with a stable public key. Unlike a Hyperswarm topic (where peers find '' @
        js ''each other anonymously), a DHT server has a known address '' @
        [0x2014] @
        js '' clients connect directly to it by public key, with full Noise-protocol encryption. Returns a '' @
        js ''serverId and the publicKey to share with clients. Incoming messages are buffered; call '' @
        js ''dht_server_messages to read them.''),
     rg_schema = object_schema
       [(js ''seed'', string_prop (js ''Optional seed for a deterministic keypair (same seed '' @
          [0x2192] @
          js '' same key across runs). Omit for a fresh random key.''))]
       None,
     rg_handler = dht_serve L\<rparr>"

definition dht_server_messages_tool :: "'n p2p_lib \<Rightarrow> 'n registration" where
  "dht_server_messages_tool L = \<lparr>
     rg_name = js ''dht_server_messages'',
     rg_description =
       js ''Read (and clear) all messages received by a HyperDHT server since the last call.'',
     rg_schema = object_schema
       [(js ''serverId'', string_prop (js ''ID returned by dht_serve''))]
       (Some [''serverId'']),
     rg_handler = dht_server_messages L\<rparr>"

definition dht_close_server_tool :: "'n p2p_lib \<Rightarrow> 'n registration" where
  "dht_close_server_tool L = \<lparr>
     rg_name = js ''dht_close_server'',
     rg_description =
       js ''Stop a HyperDHT server and tear down its DHT node.'',
     rg_schema = object_schema
       [(js ''serverId'', string_prop (js ''ID returned by dht_serve''))]
       (Some [''serverId'']),
     rg_handler = dht_close_server L\<rparr>"

definition dht_connect_tool :: "'n p2p_lib \<Rightarrow> 'n registration" where
  "dht_connect_tool L = \<lparr>
     rg_name = js ''dht_connect'',
     rg_description =
       (js ''Connect to a HyperDHT server by its public key (z32 or hex). Returns a connId for sending '' @
        js ''messages. Replies are buffered; call dht_messages to read them.''),
     rg_schema = object_schema
       [(js ''publicKey'', string_prop (js ''Server public key '' @
          [0x2014] @
          js '' 52-char z32 or 64-char hex''))]
       (Some [''publicKey'']),
     rg_handler = dht_connect L\<rparr>"

definition dht_send_tool :: "'n p2p_lib \<Rightarrow> 'n registration" where
  "dht_send_tool L = \<lparr>
     rg_name = js ''dht_send'',
     rg_description =
       js ''Send a text message over an established HyperDHT connection.'',
     rg_schema = object_schema
       [(js ''connId'', string_prop (js ''ID returned by dht_connect'')),
        (js ''from'', string_prop (js ''Sender label'')),
        (js ''message'', string_prop (js ''Text to send''))]
       (Some [''connId'', ''from'', ''message'']),
     rg_handler = dht_send L\<rparr>"

definition dht_messages_tool :: "'n p2p_lib \<Rightarrow> 'n registration" where
  "dht_messages_tool L = \<lparr>
     rg_name = js ''dht_messages'',
     rg_description =
       js ''Read (and clear) all replies received on a HyperDHT client connection since the last call.'',
     rg_schema = object_schema
       [(js ''connId'', string_prop (js ''ID returned by dht_connect''))]
       (Some [''connId'']),
     rg_handler = dht_messages L\<rparr>"

definition dht_close_conn_tool :: "'n p2p_lib \<Rightarrow> 'n registration" where
  "dht_close_conn_tool L = \<lparr>
     rg_name = js ''dht_close_conn'',
     rg_description =
       js ''Close a HyperDHT client connection and tear down its DHT node.'',
     rg_schema = object_schema
       [(js ''connId'', string_prop (js ''ID returned by dht_connect''))]
       (Some [''connId'']),
     rg_handler = dht_close_conn L\<rparr>"

definition key_info_tool :: "'n p2p_lib \<Rightarrow> 'n registration" where
  "key_info_tool L = \<lparr>
     rg_name = js ''key_info'',
     rg_description =
       (js ''Describe a cryptographic key in both z-base-32 and hex, with byte length. Accepts either '' @
        js ''format as input. Useful for converting keys between display formats or verifying a key before '' @
        js ''sharing it.''),
     rg_schema = object_schema
       [(js ''key'', string_prop (js ''52-char z32 or 64-char hex key''))]
       (Some [''key'']),
     rg_handler = key_info L\<rparr>"

definition codec_encode_tool :: "'n p2p_lib \<Rightarrow> 'n registration" where
  "codec_encode_tool L = \<lparr>
     rg_name = js ''codec_encode'',
     rg_description =
       (js ''Encode a JSON value to binary using a compact-encoding codec loaded from a JS file. Returns '' @
        js ''the result as hex. Useful for constructing typed protocol messages or inspecting exactly what '' @
        js ''goes on the wire. The codec file must export: module.exports = { preencode, encode, decode }.''),
     rg_schema = object_schema
       [(js ''codecFile'', string_prop (js ''Path to the codec module'')),
        (js ''data'', any_prop (js ''Value to encode '' @
          [0x2014] @
          js '' must match the codec's expected shape''))]
       (Some [''codecFile'', ''data'']),
     rg_handler = codec_encode L\<rparr>"

definition codec_decode_tool :: "'n p2p_lib \<Rightarrow> 'n registration" where
  "codec_decode_tool L = \<lparr>
     rg_name = js ''codec_decode'',
     rg_description =
       (js ''Decode a hex-encoded binary buffer using a compact-encoding codec loaded from a JS file. '' @
        js ''Returns the decoded value as JSON. The codec file must export: module.exports = { preencode, '' @
        js ''encode, decode }.''),
     rg_schema = object_schema
       [(js ''codecFile'', string_prop (js ''Path to the codec module'')),
        (js ''hex'', string_prop (js ''Hex-encoded bytes to decode''))]
       (Some [''codecFile'', ''hex'']),
     rg_handler = codec_decode L\<rparr>"

definition p2p_tools :: "'n p2p_lib \<Rightarrow> 'n registration list" where
  "p2p_tools L = [swarm_join_tool L, swarm_broadcast_tool L, swarm_messages_tool L, swarm_peers_tool L, swarm_close_tool L, 
     dht_serve_tool L, dht_server_messages_tool L, dht_close_server_tool L, 
     dht_connect_tool L, dht_send_tool L, dht_messages_tool L, dht_close_conn_tool L, 
     key_info_tool L, codec_encode_tool L, codec_decode_tool L]"

definition registerP2PTools ::
    "('w, 'b, 'n p2p) env \<Rightarrow> 'n p2p_lib \<Rightarrow> ('w, 'b, 'n p2p, unit) act" where
  "registerP2PTools E L =
     for_each (\<lambda>r. registerTool E (Str (rg_name r)) (Str (rg_description r)) (rg_schema r) (Some (rg_handler r))) (p2p_tools L)"

end
