(* ===== verification/P2P_Props.thy ===== *)
theory P2P_Props
  imports P2P_Registration Bareclaw_Props
begin

text \<open>
  What the peer-to-peer tools of src/examples/tools/p2p.js promise: fresh identifiers, messages
  read once and in order, texts that arrive as sent, the tools an instance has after registration, and which keys
  are accepted.
\<close>

section \<open>Identifiers\<close>

lemma dec_nat_inj: "dec_nat a = dec_nat b \<Longrightarrow> a = b"
  using dec_value_dec_nat by metis

text \<open>Every resource has the number of an earlier call.\<close>

definition in_use :: "'n p2p \<Rightarrow> jsstring \<Rightarrow> bool" where
  "in_use st rid \<longleftrightarrow> pp_swarms st rid \<noteq> None \<or> pp_servers st rid \<noteq> None \<or> pp_conns st rid \<noteq> None"

definition ids_ok :: "'n p2p \<Rightarrow> bool" where
  "ids_ok st \<longleftrightarrow> (\<forall>rid. in_use st rid \<longrightarrow> (\<exists>k. 1 \<le> k \<and> k \<le> pp_seq st \<and> rid = dec_nat k))"

text \<open>
  What a tool may do to the resources: the counter does not go back, and only the identifier of
  a new number is added.
\<close>

definition adds_new :: "'n p2p \<Rightarrow> 'n p2p \<Rightarrow> bool" where
  "adds_new st st' \<longleftrightarrow> pp_seq st \<le> pp_seq st' \<and>
     (\<forall>rid. in_use st' rid \<longrightarrow> in_use st rid \<or> pp_seq st < pp_seq st' \<and> rid = dec_nat (pp_seq st'))"

lemma adds_new_ids:
  assumes "adds_new st st'" and "ids_ok st"
  shows "ids_ok st'"
  unfolding ids_ok_def
proof (intro allI impI)
  fix rid
  assume "in_use st' rid"
  then consider "in_use st rid" | "pp_seq st < pp_seq st'" "rid = dec_nat (pp_seq st')"
    using assms(1) by (auto simp: adds_new_def)
  then show "\<exists>k. 1 \<le> k \<and> k \<le> pp_seq st' \<and> rid = dec_nat k"
  proof cases
    case 1
    then obtain k where "1 \<le> k" "k \<le> pp_seq st" "rid = dec_nat k"
      using assms(2) by (auto simp: ids_ok_def)
    moreover have "pp_seq st \<le> pp_seq st'"
      using assms(1) by (simp add: adds_new_def)
    ultimately show ?thesis
      using le_trans by blast
  next
    case 2
    then have "1 \<le> pp_seq st'"
      by simp
    with 2 show ?thesis
      by blast
  qed
qed

lemma adds_new_refl: "adds_new st st"
  by (simp add: adds_new_def)

lemma adds_new_arrive: "adds_new st (p2p_arrive L e st)"
  by (cases e) (auto simp: adds_new_def in_use_def upd_def split: option.splits if_splits)

lemmas p2p_effects = andthen_def net_do_def pure_do_def nextId_def entry_of_def

lemma adds_new_tool:
  assumes "r \<in> set (p2p_tools L)"
  shows "adds_new st (snd (rg_handler r input st))"
proof -
  have "adds_new st (snd (swarm_join L input st))"
    by (auto simp: swarm_join_def p2p_effects adds_new_def in_use_def Let_def split: sum.splits prod.splits if_splits)
  moreover have "adds_new st (snd (swarm_broadcast L input st))"
    by (auto simp: swarm_broadcast_def p2p_effects adds_new_def in_use_def split: sum.splits jsval.splits option.splits)
  moreover have "adds_new st (snd (swarm_messages L input st))"
    by (auto simp: swarm_messages_def p2p_effects adds_new_def in_use_def split: sum.splits jsval.splits option.splits)
  moreover have "adds_new st (snd (swarm_peers L input st))"
    by (auto simp: swarm_peers_def Let_def adds_new_refl split: sum.splits option.splits)
  moreover have "adds_new st (snd (swarm_close L input st))"
    by (auto simp: swarm_close_def p2p_effects adds_new_def in_use_def split: sum.splits jsval.splits option.splits prod.splits)
  moreover have "adds_new st (snd (dht_serve L input st))"
    by (auto simp: dht_serve_def p2p_effects adds_new_def in_use_def Let_def split: sum.splits prod.splits if_splits)
  moreover have "adds_new st (snd (dht_server_messages L input st))"
    by (auto simp: dht_server_messages_def p2p_effects adds_new_def in_use_def split: sum.splits jsval.splits option.splits)
  moreover have "adds_new st (snd (dht_close_server L input st))"
    by (auto simp: dht_close_server_def p2p_effects adds_new_def in_use_def split: sum.splits jsval.splits option.splits prod.splits)
  moreover have "adds_new st (snd (dht_connect L input st))"
    by (auto simp: dht_connect_def p2p_effects adds_new_def in_use_def Let_def split: sum.splits prod.splits if_splits)
  moreover have "adds_new st (snd (dht_send L input st))"
    by (auto simp: dht_send_def p2p_effects adds_new_def in_use_def split: sum.splits jsval.splits option.splits)
  moreover have "adds_new st (snd (dht_messages L input st))"
    by (auto simp: dht_messages_def p2p_effects adds_new_def in_use_def split: sum.splits jsval.splits option.splits)
  moreover have "adds_new st (snd (dht_close_conn L input st))"
    by (auto simp: dht_close_conn_def p2p_effects adds_new_def in_use_def split: sum.splits jsval.splits option.splits prod.splits)
  moreover have "adds_new st (snd (key_info L input st))" "adds_new st (snd (codec_encode L input st))"
    "adds_new st (snd (codec_decode L input st))"
    by (simp_all add: key_info_def codec_encode_def codec_decode_def adds_new_refl)
  ultimately show ?thesis
    using assms unfolding p2p_tools_def
    by (auto simp: swarm_join_tool_def swarm_broadcast_tool_def swarm_messages_tool_def swarm_peers_tool_def
      swarm_close_tool_def dht_serve_tool_def dht_server_messages_tool_def dht_close_server_tool_def dht_connect_tool_def
      dht_send_tool_def dht_messages_tool_def dht_close_conn_tool_def key_info_tool_def codec_encode_tool_def
      codec_decode_tool_def)
qed

text \<open>Calls of the registered tools and incoming data, in any order.\<close>

inductive p2p_step :: "'n p2p_lib \<Rightarrow> 'n p2p \<Rightarrow> 'n p2p \<Rightarrow> bool" for L where
  call: "r \<in> set (p2p_tools L) \<Longrightarrow> p2p_step L st (snd (rg_handler r input st))"
| arrive: "p2p_step L st (p2p_arrive L e st)"

lemma ids_ok_reachable: "(p2p_step L)\<^sup>*\<^sup>* (p2p_new n) st \<Longrightarrow> ids_ok st"
proof (induction rule: rtranclp_induct)
  case base
  show ?case
    by (simp add: ids_ok_def in_use_def p2p_new_def)
next
  case (step st st')
  then show ?case
    by (metis adds_new_arrive adds_new_ids adds_new_tool p2p_step.cases)
qed


section \<open>Inboxes\<close>

text \<open>Reads of a swarm's messages (\<open>None\<close>) among arrivals: what the reads return, put together.\<close>

definition result_messages :: "jsval result \<Rightarrow> jsval list" where
  "result_messages r = (case r of Inr v \<Rightarrow> arr_of (field v (js ''messages'')) | Inl _ \<Rightarrow> [])"

fun read_among :: "'n p2p_lib \<Rightarrow> jsstring \<Rightarrow> p2p_event option list \<Rightarrow> 'n p2p \<Rightarrow> jsval list \<times> 'n p2p" where
  "read_among L rid [] st = ([], st)"
| "read_among L rid (None # es) st =
     (case swarm_messages L (Obj [(js ''swarmId'', Str rid)]) st of (r, st) \<Rightarrow>
        apfst (append (result_messages r)) (read_among L rid es st))"
| "read_among L rid (Some e # es) st = read_among L rid es (p2p_arrive L e st)"

fun arrivals_at :: "jsstring \<Rightarrow> p2p_event option list \<Rightarrow> arrival list" where
  "arrivals_at rid [] = []"
| "arrivals_at rid (Some (SwarmData i a) # es) = (if i = rid then a # arrivals_at rid es else arrivals_at rid es)"
| "arrivals_at rid (_ # es) = arrivals_at rid es"

text \<open>
  Every message is read once and in order: for any interleaving of reads with arrivals, what the
  reads returned followed by what is still in the inbox is what was in the inbox followed by every
  message that arrived for the swarm; nothing is lost, repeated or reordered.
\<close>

theorem messages_are_read_once_in_order:
  assumes "pp_swarms st rid = Some entry"
  shows "case read_among L rid es st of (seen, st') \<Rightarrow> \<exists>entry'. pp_swarms st' rid = Some entry'
    \<and> seen @ sw_inbox entry' = sw_inbox entry @ map (inbox_message L) (arrivals_at rid es)"
  using assms
proof (induction L rid es st arbitrary: entry rule: read_among.induct)
  case (2 L rid es st)
  let ?st = "st\<lparr>pp_swarms := (pp_swarms st)(rid \<mapsto> entry\<lparr>sw_inbox := []\<rparr>)\<rparr>"
  have read: "swarm_messages L (Obj [(js ''swarmId'', Str rid)]) st = (Inr (messages_result (sw_inbox entry)), ?st)"
    using 2(2) by (simp add: swarm_messages_def entry_of_def)
  have "result_messages (Inr (messages_result (sw_inbox entry))) = sw_inbox entry"
    by (simp add: result_messages_def messages_result_def)
  moreover have "pp_swarms ?st rid = Some (entry\<lparr>sw_inbox := []\<rparr>)"
    by simp
  from 2(1) [OF read [symmetric] this] have "case read_among L rid es ?st of (seen, st') \<Rightarrow> \<exists>entry'. pp_swarms st' rid = Some entry'
      \<and> seen @ sw_inbox entry' = map (inbox_message L) (arrivals_at rid es)"
    by (simp split: prod.splits)
  ultimately show ?case
    by (auto simp: read split: prod.splits)
next
  case (3 L rid e es st)
  show ?case
  proof (cases "\<exists>a. e = SwarmData rid a")
    case True
    then obtain a where e: "e = SwarmData rid a"
      by blast
    then have "pp_swarms (p2p_arrive L e st) rid = Some (entry\<lparr>sw_inbox := sw_inbox entry @ [inbox_message L a]\<rparr>)"
      using 3(2) by (simp add: upd_def)
    from 3(1) [OF this] e show ?thesis
      by (auto split: prod.splits)
  next
    case False
    then have "\<exists>entry1. pp_swarms (p2p_arrive L e st) rid = Some entry1 \<and> sw_inbox entry1 = sw_inbox entry"
      using 3(2) by (cases e) (auto simp: upd_def split: option.splits)
    then obtain entry1 where "pp_swarms (p2p_arrive L e st) rid = Some entry1" "sw_inbox entry1 = sw_inbox entry"
      by blast
    moreover have "arrivals_at rid (Some e # es) = arrivals_at rid es"
      using False by (cases e) auto
    ultimately show ?thesis
      using 3(1) by (simp split: prod.splits)
  qed
qed simp

section \<open>Texts\<close>

lemma encodeWith_run: "encodeWith L p v = run_encode (pl_alloc L) p v"
  by (simp add: encodeWith_def run_encode_def) (metis (no_types, lifting) cstate.surjective cstate.update_convs)

text \<open>The message codec keeps the contract of a codec, given that the package's does.\<close>

definition is_text_msg :: "jsval \<Rightarrow> bool" where
  "is_text_msg m \<longleftrightarrow> (\<exists>f t. m = text_msg f t \<and> str_ok f \<and> str_ok t)"

definition text_wire :: "(jsval \<Rightarrow> bytes) \<Rightarrow> jsval \<Rightarrow> bytes" where
  "text_wire w m = w (field m (js ''from'')) @ w (field m (js ''text''))"

lemma msgCodec_wire:
  assumes "wire_codec u str_ok w (\<lambda>v. v)"
  shows "wire_codec (msgCodec u) is_text_msg (text_wire w) (\<lambda>v. v)"
proof (rule wire_codec.intro)
  fix v st
  assume "is_text_msg v"
  then show "preencode (msgCodec u) st v = Inr (grow (length (text_wire w v)) st)"
    using wire_codec.preencode_ok [OF assms]
    by (auto simp: is_text_msg_def text_msg_def msgCodec_def text_wire_def codec_moves)
next
  fix v st
  assume v: "is_text_msg v" and "fits (length (text_wire w v)) st"
  then obtain f t where "v = text_msg f t" "str_ok f" "str_ok t" "fits (length (w f) + length (w t)) st"
    by (auto simp: is_text_msg_def text_msg_def text_wire_def)
  moreover from this have "fits (length (w f)) st" "fits (length (w t)) (put (w f) st)"
    by (simp_all add: fits_def codec_moves)
  ultimately show "encode (msgCodec u) st v = Inr (put (text_wire w v) st)"
    using wire_codec.encode_ok [OF assms]
    by (simp add: msgCodec_def text_msg_def text_wire_def put_put fits_def)
next
  fix v st rest
  assume "is_text_msg v" and st: "unread st = text_wire w v @ rest"
  then obtain f t where v: "v = text_msg f t" "str_ok f" "str_ok t"
    by (auto simp: is_text_msg_def)
  have "decode u st = Inr (f, skip (length (w f)) st)"
    using wire_codec.decode_ok [OF assms v(2), of st "w t @ rest"] st v(1) by (simp add: text_wire_def text_msg_def)
  moreover have "decode u (skip (length (w f)) st) = Inr (t, skip (length (w t)) (skip (length (w f)) st))"
    using wire_codec.decode_ok [OF assms v(3), of "skip (length (w f)) st" rest] st v(1)
    by (simp add: codec_moves text_wire_def text_msg_def)
  ultimately show "decode (msgCodec u) st = Inr (v, skip (length (text_wire w v)) st)"
    by (simp add: msgCodec_def v(1) text_wire_def text_msg_def codec_moves)
qed

text \<open>
  A text arrives as it was sent.  With a UTF-8 codec that keeps its contract and a decoder state at
  the start of the bytes: sending over an open connection writes one message to it, and a peer that receives these
  bytes has the sender's label and text, with the time.
\<close>

theorem text_arrives_as_sent:
  assumes "wire_codec (pl_utf8 L) str_ok w (\<lambda>v. v)" and "\<forall>n. length (pl_alloc L n) = n"
    and "\<forall>bs. pl_decode_state L bs = Inr \<lparr>cs_start = 0, cs_end = length bs, cs_buffer = bs\<rparr>"
    and "str_ok (Str f)" and "str_ok (Str t)" and "pp_conns st rid = Some entry"
  shows "\<exists>data st'. dht_send L (Obj [(js ''connId'', Str rid), (js ''from'', Str f), (js ''message'', Str t)]) st
      = (Inr (Obj [(js ''sent'', Bool True)]), st')
    \<and> pp_conns st' = (pp_conns st)(rid \<mapsto> entry\<lparr>cn_sent := cn_sent entry @ [data]\<rparr>)
    \<and> inbox_message L (key, data, time) = Obj [(js ''from'', Str f), (js ''text'', Str t), (js ''time'', Num time)]"
proof -
  let ?m = "text_msg (Str f) (Str t)"
  have codec: "wire_codec (msgCodec (pl_utf8 L)) is_text_msg (text_wire w) (\<lambda>v. v)"
    using assms(1) by (rule msgCodec_wire)
  have m: "is_text_msg ?m"
    unfolding is_text_msg_def using assms(4,5) by blast
  have sent: "encodeWith L (msgCodec (pl_utf8 L)) ?m = Inr (text_wire w ?m)"
    using wire_codec.run_encode_ok [OF codec m] assms(2) by (simp add: encodeWith_run)
  have "decodeWith L (msgCodec (pl_utf8 L)) (text_wire w ?m) = Inr ?m"
    using wire_codec.run_decode_ok [OF codec m, of "[]"] assms(3) by (simp add: decodeWith_def run_decode_def)
  then have "inbox_message L (key, text_wire w ?m, time) = Obj [(js ''from'', Str f), (js ''text'', Str t), (js ''time'', Num time)]"
    by (simp add: inbox_message_def tryDecode_def with_time_def text_msg_def)
  then show ?thesis
    using sent assms(6) by (intro exI [of _ "text_wire w ?m"]) (simp add: dht_send_def entry_of_def)
qed

text \<open>A library over the reference wire format, with a network where everything succeeds.\<close>

definition demo_lib :: "unit p2p_lib" where
  "demo_lib = \<lparr>pl_b4a = utf8_b4a, pl_z32 = (\<lambda>x. replicate 52 56), pl_unz32 = (\<lambda>_. Inr [7]), pl_hex = (\<lambda>x. map ucast x),
     pl_unhex = (\<lambda>_. Inl TypeError), pl_sha256 = (\<lambda>_. Inr [1]), pl_utf8 = ref_string_codec, pl_alloc = ref_alloc,
     pl_decode_state = (\<lambda>bs. Inr \<lparr>cs_start = 0, cs_end = length bs, cs_buffer = bs\<rparr>),
     pl_require = (\<lambda>_. Inr \<lparr>md_codec = None, md_self = None, md_exports = []\<rparr>), pl_type = js ''TypeError'',
     pl_join = (\<lambda>_ n. (Inr ([1], [], []), n)), pl_leave = (\<lambda>_ n. (Inr (), n)), pl_keyPair = (\<lambda>_ n. (Inr [2], n)),
     pl_listen = (\<lambda>_ n. (Inr [], n)), pl_close = (\<lambda>_ n. (Inr (), n)), pl_connect = (\<lambda>k n. (Inr k, n)),
     pl_destroy = (\<lambda>_ n. (Inr (), n))\<rparr>"

definition demo_conn :: "unit p2p" where
  "demo_conn = (p2p_new ())\<lparr>pp_seq := 1, pp_conns := [js ''1'' \<mapsto> \<lparr>cn_key = [7], cn_sent = [], cn_inbox = []\<rparr>]\<rparr>"

theorem text_arrives_as_sent_witness:
  "\<exists>data st'. dht_send demo_lib (Obj [(js ''connId'', Str (js ''1'')), (js ''from'', Str (js ''a'')), (js ''message'', Str (js ''hi''))])
      demo_conn = (Inr (Obj [(js ''sent'', Bool True)]), st')
    \<and> inbox_message demo_lib ([7], data, 5) = Obj [(js ''from'', Str (js ''a'')), (js ''text'', Str (js ''hi'')), (js ''time'', Num 5)]"
proof -
  have "wire_codec (pl_utf8 demo_lib) str_ok (\<lambda>v. lengthed (utf8 (str_of v))) (\<lambda>v. v)"
    using ref_string_wire by (simp add: demo_lib_def)
  moreover have "str_ok (Str (js ''a''))" "str_ok (Str (js ''hi''))"
    using small_key [of "js ''a''"] small_key [of "js ''hi''"] by (simp_all add: key_ok_def js_def)
  moreover have "pp_conns demo_conn (js ''1'') = Some \<lparr>cn_key = [7], cn_sent = [], cn_inbox = []\<rparr>"
    by (simp add: demo_conn_def)
  ultimately show ?thesis
    using text_arrives_as_sent [of demo_lib _ "js ''a''" "js ''hi''" demo_conn "js ''1''" _ "[7]" 5]
    by (fastforce simp: demo_lib_def ref_alloc_def)
qed


definition demo_swarm :: "unit p2p" where
  "demo_swarm = (p2p_new ())\<lparr>pp_swarms := [js ''1'' \<mapsto> \<lparr>sw_topic = Str (js ''t''), sw_key = [1], sw_peers = [], sw_inbox = []\<rparr>]\<rparr>"

theorem messages_are_read_once_in_order_witness:
  "case read_among demo_lib (js ''1'') [Some (SwarmData (js ''1'') ([7], [0x41], 5)), None, None] demo_swarm of (seen, st') \<Rightarrow>
     \<exists>entry'. pp_swarms st' (js ''1'') = Some entry' \<and> seen @ sw_inbox entry' = [inbox_message demo_lib ([7], [0x41], 5)]"
  using messages_are_read_once_in_order [of demo_swarm "js ''1''" _ demo_lib
      "[Some (SwarmData (js ''1'') ([7], [0x41], 5)), None, None]"]
  by (simp add: demo_swarm_def split: prod.splits)

section \<open>Keys\<close>

text \<open>The alphabet of z-base-32, and the characters of it that base 32 does not have.\<close>

definition z_base_32 :: jsstring where
  "z_base_32 = js ''ybndrfg8ejkmcpqxot1uwisza345h769''"

definition refused_unit :: "16 word \<Rightarrow> bool" where
  "refused_unit u \<longleftrightarrow> u \<in> {49, 56, 57}"

text \<open>
  C37. Most z32 keys are refused.  \<open>parseKey\<close> looks for the characters of base 32, not of z-base-32: a
  key printed by \<open>toZ32\<close> (52 characters of z-base-32, decoded back by the package) is accepted
  exactly if none of the characters 1, 8 and 9 is in it, and otherwise refused as invalid.
\<close>

theorem most_z32_keys_are_refused:
  assumes "length (pl_z32 L key) = 52" and "set (pl_z32 L key) \<subseteq> set z_base_32"
    and "pl_unz32 L (Str (pl_z32 L key)) = Inr key"
  shows "parseKey L (Str (toZ32 L key)) =
    (if list_ex refused_unit (toZ32 L key)
     then Inl (ErrorObj (js ''invalid key '' @ [0x2014] @ js '' expected 52-char z32 or 64-char hex, got: '' @
            take 20 (toZ32 L key) @ [0x2026]))
     else Inr key)"
proof -
  have "\<forall>u \<in> set z_base_32. z32_unit u \<longleftrightarrow> \<not> refused_unit u"
    by (simp add: z_base_32_def js_def z32_unit_def refused_unit_def)
  then have "list_all z32_unit (pl_z32 L key) = (\<not> list_ex refused_unit (pl_z32 L key))"
    using assms(2) by (auto simp: list_all_iff list_ex_iff)
  then show ?thesis
    using assms(1,3) by (simp add: parseKey_def toZ32_def fromZ32_def key_excerpt_def Let_def)
qed

theorem most_z32_keys_are_refused_witness:
  "parseKey demo_lib (Str (toZ32 demo_lib [7])) =
    Inl (ErrorObj (js ''invalid key '' @ [0x2014] @ js '' expected 52-char z32 or 64-char hex, got: '' @ replicate 20 56 @ [0x2026]))"
proof -
  have "length (pl_z32 demo_lib [7]) = 52" "set (pl_z32 demo_lib [7]) \<subseteq> set z_base_32"
    "pl_unz32 demo_lib (Str (pl_z32 demo_lib [7])) = Inr [7]"
    by (simp_all add: demo_lib_def z_base_32_def js_def)
  from most_z32_keys_are_refused [OF this] show ?thesis
    by (simp add: toZ32_def demo_lib_def refused_unit_def list_ex_iff)
qed

section \<open>Registration\<close>

definition set_tool :: "'n registration \<Rightarrow> (jsval \<Rightarrow> 'n p2p tool option) \<Rightarrow> jsval \<Rightarrow> 'n p2p tool option" where
  "set_tool r tools = tools(Str (rg_name r) \<mapsto> rg_handler r)"

lemma registerTool_tools:
  assumes "cl_opened st" and "registerTool E (Str n) d schema (Some h) st = (res, st')"
  shows "cl_opened st' \<and> cl_tools st' = (cl_tools st)(Str n \<mapsto> h)"
  using assms
  by (auto simp: registerTool_def andthen_def ensure_open_def ret_def fail_def rpc_do_def Let_def
    split: if_splits sum.splits prod.splits jsval.splits)

lemma registrations_tools:
  assumes "for_each (\<lambda>r. registerTool E (Str (rg_name r)) (Str (rg_description r)) (rg_schema r) (Some (rg_handler r))) rs st
      = (Inr (), st')" and "cl_opened st"
  shows "cl_tools st' = fold set_tool rs (cl_tools st)"
  using assms
proof (induction rs arbitrary: st)
  case (Cons r rs)
  obtain res st1 where first: "registerTool E (Str (rg_name r)) (Str (rg_description r)) (rg_schema r) (Some (rg_handler r)) st
      = (res, st1)"
    by fastforce
  then have "res = Inr ()" "for_each (\<lambda>r. registerTool E (Str (rg_name r)) (Str (rg_description r)) (rg_schema r)
      (Some (rg_handler r))) rs st1 = (Inr (), st')"
    using Cons.prems(1) by (auto simp: andthen_def split: sum.splits)
  then show ?case
    using Cons.IH [of st1] registerTool_tools [OF Cons.prems(2) first] by (simp add: set_tool_def)
qed (simp add: ret_def)

lemma fold_set_tool:
  "distinct (map rg_name rs) \<Longrightarrow> r \<in> set rs \<Longrightarrow> fold set_tool rs tools (Str (rg_name r)) = Some (rg_handler r)"
  "n \<notin> (\<lambda>r. Str (rg_name r)) ` set rs \<Longrightarrow> fold set_tool rs tools n = tools n"
proof -
  have other: "n \<notin> (\<lambda>r. Str (rg_name r)) ` set rs \<Longrightarrow> fold set_tool rs tools n = tools n" for n tools rs
    by (induction rs arbitrary: tools) (auto simp: set_tool_def)
  then show "n \<notin> (\<lambda>r. Str (rg_name r)) ` set rs \<Longrightarrow> fold set_tool rs tools n = tools n" .
  show "distinct (map rg_name rs) \<Longrightarrow> r \<in> set rs \<Longrightarrow> fold set_tool rs tools (Str (rg_name r)) = Some (rg_handler r)"
  proof (induction rs arbitrary: tools)
    case (Cons q rs)
    have "set_tool q tools (Str (rg_name q)) = Some (rg_handler q)"
      by (simp add: set_tool_def)
    moreover have "Str (rg_name q) \<notin> (\<lambda>r. Str (rg_name r)) ` set rs"
      using Cons.prems(1) by auto
    ultimately have "fold set_tool rs (set_tool q tools) (Str (rg_name q)) = Some (rg_handler q)"
      using other by metis
    then show ?case
      using Cons by auto
  qed simp
qed

lemma p2p_tool_names: "map rg_name (p2p_tools L) = map js [''swarm_join'', ''swarm_broadcast'', ''swarm_messages'', ''swarm_peers'',
    ''swarm_close'', ''dht_serve'', ''dht_server_messages'', ''dht_close_server'', ''dht_connect'', ''dht_send'', ''dht_messages'',
    ''dht_close_conn'', ''key_info'', ''codec_encode'', ''codec_decode'']"
  by (simp add: p2p_tools_def swarm_join_tool_def swarm_broadcast_tool_def swarm_messages_tool_def swarm_peers_tool_def
      swarm_close_tool_def dht_serve_tool_def dht_server_messages_tool_def dht_close_server_tool_def dht_connect_tool_def
      dht_send_tool_def dht_messages_tool_def dht_close_conn_tool_def key_info_tool_def codec_encode_tool_def
      codec_decode_tool_def)

text \<open>
  Registration gives an instance the tools and nothing else.  When \<open>registerP2PTools\<close> has returned on
  an open instance, each of the fifteen names has its handler, and every other name what it had before.
\<close>

theorem registration_installs_the_tools:
  assumes "cl_opened st" and "registerP2PTools E L st = (Inr (), st')"
  shows "length (p2p_tools L) = 15 \<and> list_all (\<lambda>r. cl_tools st' (Str (rg_name r)) = Some (rg_handler r)) (p2p_tools L)
    \<and> (\<forall>n. n \<notin> (\<lambda>r. Str (rg_name r)) ` set (p2p_tools L) \<longrightarrow> cl_tools st' n = cl_tools st n)"
proof -
  have tools: "cl_tools st' = fold set_tool (p2p_tools L) (cl_tools st)"
    using registrations_tools assms unfolding registerP2PTools_def by blast
  have "distinct (map rg_name (p2p_tools L))"
    unfolding p2p_tool_names by simp
  then show ?thesis
    using fold_set_tool [where rs = "p2p_tools L"] arg_cong [OF p2p_tool_names [of L], of length]
    by (auto simp: tools list_all_iff)
qed

text \<open>An instance whose agent takes every registration.\<close>

definition yes_cenc :: cenc where
  "yes_cenc = ref_cenc\<lparr>c_encode := (\<lambda>_ _. Inr []), c_decode := (\<lambda>_ _. Inr (Obj []))\<rparr>"

definition yes_rpc :: "unit rpc_lib" where
  "yes_rpc = \<lparr>lib_request = (\<lambda>_ w. (0, w)), lib_event = (\<lambda>_ w. (0, w)), lib_send = (\<lambda>_ _ w. w),
     lib_reply = (\<lambda>_ w. (Inr [], w)), lib_responseStream = (\<lambda>_ w. (0, w)), lib_requestStream = (\<lambda>_ w. (0, w))\<rparr>"

definition yes_env :: "(unit, entries, unit p2p) env" where
  "yes_env = \<lparr>e_c = yes_cenc, e_rpc = yes_rpc, e_next = (\<lambda>_ w. (Inr None, w)), e_end = (\<lambda>_ w. w), e_start = (\<lambda>_ w. (Inr (), w)),
     e_pipe_end = (\<lambda>w. ([ProcExit], w)), e_bee = list_bee, e_bee_ready = Pair (Inr ()), e_bee_close = Pair (Inr ()),
     e_b4a = utf8_b4a, e_ready = Pair (Inr ()), e_syntax = (\<lambda>t. t), e_type = js ''TypeError''\<rparr>"

definition yes_claw :: "(unit, entries, unit p2p) claw" where
  "yes_claw = (claw_new (Obj []) () [])\<lparr>cl_opened := True, cl_rpc := True\<rparr>"

lemma yes_register:
  assumes "cl_opened st" and "cl_rpc st" and "is_obj schema"
  shows "registerTool yes_env n d schema (Some h) st = (Inr (), st\<lparr>cl_tools := (cl_tools st)(n \<mapsto> h)\<rparr>)"
proof -
  have codecs: "requestEncodings yes_cenc (Str (js ''@bareclaw/tool-register'')) \<noteq> None"
    "responseEncodings yes_cenc (Str (js ''@bareclaw/tool-register'')) \<noteq> None"
    by (auto simp: requestEncodings_def responseEncodings_def encoding_in_def request_types_def response_types_def
      getEncoding_known type_names_eq)
  have "toolRegister yes_cenc yes_rpc v w = (Inr (Obj []), w)" for v w
    using codecs by (auto simp: toolRegister_def hrpc_call_def yes_rpc_def encode_with_def decode_with_def yes_cenc_def Let_def)
  moreover obtain ps where "schema = Obj ps"
    using assms(3) by (cases schema) auto
  ultimately show ?thesis
    using assms by (simp add: registerTool_def andthen_def ensure_open_def ret_def rpc_do_def yes_env_def JSON_stringify_def Let_def)
qed

lemma yes_registrations:
  "cl_opened st \<Longrightarrow> cl_rpc st \<Longrightarrow> \<forall>r \<in> set rs. is_obj (rg_schema r) \<Longrightarrow>
    \<exists>st'. for_each (\<lambda>r. registerTool yes_env (Str (rg_name r)) (Str (rg_description r)) (rg_schema r) (Some (rg_handler r))) rs st
      = (Inr (), st')"
  by (induction rs arbitrary: st) (simp_all add: ret_def andthen_def yes_register)

theorem registration_installs_the_tools_witness:
  "\<exists>st'. registerP2PTools yes_env demo_lib yes_claw = (Inr (), st')
    \<and> list_all (\<lambda>r. cl_tools st' (Str (rg_name r)) = Some (rg_handler r)) (p2p_tools demo_lib)"
proof -
  have "\<forall>r \<in> set (p2p_tools demo_lib). is_obj (rg_schema r)"
    by (simp add: p2p_tools_def object_schema_def swarm_join_tool_def swarm_broadcast_tool_def swarm_messages_tool_def swarm_peers_tool_def
      swarm_close_tool_def dht_serve_tool_def dht_server_messages_tool_def dht_close_server_tool_def dht_connect_tool_def
      dht_send_tool_def dht_messages_tool_def dht_close_conn_tool_def key_info_tool_def codec_encode_tool_def
      codec_decode_tool_def)
  then obtain st' where st': "registerP2PTools yes_env demo_lib yes_claw = (Inr (), st')"
    using yes_registrations [of yes_claw "p2p_tools demo_lib"] by (auto simp: registerP2PTools_def yes_claw_def)
  have "cl_opened yes_claw"
    by (simp add: yes_claw_def)
  from registration_installs_the_tools [OF this st'] st' show ?thesis
    by blast
qed

end
