(* ===== verification/Session_Book.thy ===== *)
theory Session_Book
  imports Chat_Loop
begin

text \<open>
  An abstract specification of src/index.js and its refinement.  To its callers the class is a
  book of sessions that survives: every operation reads or changes the book, and closing and
  reopening it, or losing the process and reopening, changes nothing.  The concrete operations
  are the class's own, on the agent of Go_World and a store in the shape of the B-tree.
\<close>

section \<open>Durability\<close>

text \<open>What a new instance on the same store would give its agent for a session.\<close>

definition claw_loads :: "b4a \<Rightarrow> ('b \<Rightarrow> entries) \<Rightarrow> (jsstring \<Rightarrow> bytes) \<Rightarrow> ('w, 'b, 'a) claw \<Rightarrow> jsstring \<Rightarrow> bytes" where
  "claw_loads b contents blank st k =
     (if listable k then (case claw_on_record b contents st k of None \<Rightarrow> blank k | Some d \<Rightarrow> d) else blank k)"

context claw_env
begin

abbreviation "loads \<equiv> claw_loads (e_b4a E) contents blank"

text \<open>An open instance whose agent has what the store would give it again.\<close>

abbreviation durable :: "('w, 'b, 'a) claw \<Rightarrow> bool" where
  "durable st \<equiv> live st \<and> tidy st \<and> sound st \<and> agent st = loads st"

lemma loads_same: "contents (cl_store a) = contents (cl_store b) \<Longrightarrow> loads a = loads b"
  by (simp add: claw_loads_def claw_on_record_def claw_stored_def fun_eq_iff)

lemma unregistered_loads: "k \<notin> registered st \<Longrightarrow> loads st k = blank k"
  by (auto simp: claw_loads_def claw_registered_def claw_on_record_def split: option.splits jsval.splits if_splits)

lemma registered_listable: "k \<in> registered st \<Longrightarrow> listable k"
  by (simp add: claw_registered_def)

lemma listable_key_ok: "listable k \<Longrightarrow> key_ok k"
  by (simp add: listable_def)

lemma data_key_same: "key_ok j \<Longrightarrow> key_ok k \<Longrightarrow> data_key (e_b4a E) (Str j) = data_key (e_b4a E) (Str k) \<longleftrightarrow> j = k"
  using data_key_inj by (auto simp: key_ok_def)

lemma scope_not_data: "key_ok j \<Longrightarrow> key_ok k \<Longrightarrow> scope_key (e_b4a E) (Str j) \<noteq> data_key (e_b4a E) (Str k)"
  using data_scope_differ [of k j] by (auto simp: key_ok_def)

lemma scope_key_same: "key_ok j \<Longrightarrow> key_ok k \<Longrightarrow> scope_key (e_b4a E) (Str j) = scope_key (e_b4a E) (Str k) \<longleftrightarrow> j = k"
  using from_inj [of "j @ js ''/scope''" "k @ js ''/scope''"] by (simp add: key_bytes wf16_append key_ok_def)

lemma tidy_sound:
  assumes "tidy st" and "\<And>k d. key_ok k \<Longrightarrow> on_record st k = Some d \<Longrightarrow> dumped d"
  shows "sound st"
  using assms listable_key_ok unfolding claw_sound_def claw_tidy_def by blast

lemma sound_dumped: "sound st \<Longrightarrow> key_ok k \<Longrightarrow> on_record st k = Some d \<Longrightarrow> dumped d"
  unfolding claw_sound_def by blast

lemma durable_data:
  assumes st: "durable st" and k: "listable k" and d: "dumped d"
    and st': "live st'" "agent st' = (agent st)(k := d)"
      "stored st' = (stored st)(data_key (e_b4a E) (Str k) \<mapsto> Buf d)"
  shows "durable st' \<and> registered st' = insert k (registered st)"
proof -
  have rec: "on_record st' j = (if j = k then Some d else on_record st j)" if "key_ok j" for j
    using data_key_same [OF that listable_key_ok [OF k]] dumped_nonempty [OF d] by (simp add: claw_on_record_def st'(3))
  have "agent st' = loads st'"
    unfolding st'(2) using st k rec by (auto simp: claw_loads_def fun_eq_iff listable_key_ok)
  moreover have "registered st' = insert k (registered st)"
    using k data_key_same scope_not_data by (auto simp: claw_registered_def st'(3) listable_key_ok)
  moreover have "tidy st'"
    using st k by (auto simp: claw_tidy_def st'(3))
  moreover from this have "sound st'"
    using rec d sound_dumped [of st] st by (intro tidy_sound) (auto split: if_splits)
  ultimately show ?thesis
    using st'(1) by blast
qed

lemma durable_scope:
  assumes st: "durable st" and k: "listable k"
    and st': "live st'" "agent st' = agent st" "stored st' = (stored st)(scope_key (e_b4a E) (Str k) \<mapsto> v)"
  shows "durable st' \<and> registered st' = insert k (registered st)"
proof -
  have rec: "on_record st' j = on_record st j" if "key_ok j" for j
    using scope_not_data [OF listable_key_ok [OF k] that] by (simp add: claw_on_record_def st'(3))
  have "agent st' = loads st'"
    unfolding st'(2) using st rec by (auto simp: claw_loads_def fun_eq_iff listable_key_ok)
  moreover have "registered st' = insert k (registered st)"
  proof (rule set_eqI)
    fix j
    show "j \<in> registered st' \<longleftrightarrow> j \<in> insert k (registered st)"
      using scope_key_same [of j k] scope_not_data [of k j] listable_key_ok [OF k] listable_key_ok [of j] k
      by (cases "listable j") (auto simp: claw_registered_def st'(3))
  qed
  moreover have "tidy st'"
    using st k by (auto simp: claw_tidy_def st'(3))
  moreover from this have "sound st'"
    using rec sound_dumped [of st] st by (intro tidy_sound) auto
  ultimately show ?thesis
    using st'(1) by blast
qed

lemma open_durable:
  assumes st: "usable (cl_store st)" "sound st" "tidy st" and opts: "is_obj opts"
  shows "\<exists>st'. claw_open E (reopened opts w st) = (Inr (), st') \<and> durable (st'\<lparr>cl_opened := True\<rparr>)
    \<and> agent st' = loads st \<and> registered st' = registered st \<and> cl_opts st' = opts"
proof -
  have "opts \<noteq> Undef"
    using opts by auto
  then obtain ks st' where st': "claw_open E (reopened opts w st) = (Inr (), st')" "running st'" "cl_opts st' = opts"
    "contents (cl_store st') = contents (cl_store st)" "set ks = registered st"
    "agent st' = (\<lambda>k. if k \<in> set ks then (case on_record st k of None \<Rightarrow> blank k | Some d \<Rightarrow> d) else blank k)"
    using open_loads [OF st(1,2), of opts w] st(3) opts by auto
  have "agent st' = loads st"
  proof (rule ext)
    fix k
    show "agent st' k = loads st k"
      using unregistered_loads [of k st] registered_listable [of k st]
      by (cases "k \<in> registered st") (simp_all add: st'(5,6) claw_loads_def)
  qed
  moreover have "claw_stored contents (st'\<lparr>cl_opened := True\<rparr>) = stored st" "stored st' = stored st"
    using st'(4) by (simp_all add: claw_stored_def)
  moreover have "loads (st'\<lparr>cl_opened := True\<rparr>) = loads st"
    by (rule loads_same) (simp add: st'(4))
  ultimately show ?thesis
    using st st' by (auto simp: claw_live_def claw_running_def claw_tidy_def claw_sound_def claw_registered_def claw_on_record_def)
qed

lemma close_durable:
  assumes st: "durable st" and "claw_close E st = (res, st')"
  shows "usable (cl_store st') \<and> sound st' \<and> tidy st' \<and> loads st' = loads st \<and> registered st' = registered st"
proof -
  note closed = close_live [of st res st'] and store = closed_store [of st st']
  have kept: "registered st' = registered st" "tidy st'" "sound st'" "k \<in> registered st \<Longrightarrow> on_record st' k = Some (agent st k)" for k
    using store closed assms by blast+
  have "loads st' k = loads st k" for k
  proof (cases "k \<in> registered st")
    case True
    then show ?thesis
      using kept(4) st by (auto simp: claw_loads_def claw_registered_def fun_eq_iff)
  next
    case False
    then show ?thesis
      using unregistered_loads [of k st] unregistered_loads [of k st'] kept(1) by simp
  qed
  then show ?thesis
    using kept closed assms by blast
qed

lemma put_durable:
  assumes st: "durable st" and k: "listable k" and d: "dumped d"
  shows "\<exists>st'. importSession E (Str k) (Buf d) st = (Inr (), st') \<and> durable st' \<and> frame st st'
    \<and> agent st' = (agent st)(k := d) \<and> registered st' = insert k (registered st)"
proof -
  have run: "running st" "cl_opened st"
    using st by (simp_all add: claw_live_def claw_running_def)
  obtain v st1 where st1: "rpc_do (sessionImport (e_c E) (e_rpc E) (blob_msg k d)) st = (Inr v, st1)" "running st1"
    "frame st st1" "cl_opened st1 = cl_opened st" "cl_store st1 = cl_store st" "agent st1 = (agent st)(k := d)"
    using import_running [OF run(1) listable_key_ok [OF k] d] by blast
  have live1: "live st1"
    using st1(2,4) run(2) by (simp add: live_running)
  obtain st' where st': "put_one E (data_key (e_b4a E) (Str k)) (Buf d) st1 = (Inr (), st')" "live st'" "frame st1 st'"
    "cl_world st' = cl_world st1" "stored st' = (stored st1)(data_key (e_b4a E) (Str k) \<mapsto> Buf d)"
    using put_live [OF live1] by blast
  have "importSession E (Str k) (Buf d) st = (Inr (), st')"
    using st1(1) st'(1) run(2) by (simp add: importSession_def andthen_def ensure_open_def ret_def blob_msg_def)
  moreover have "stored st1 = stored st"
    using st1(5) by (simp add: claw_stored_def)
  moreover have "agent st' = (agent st)(k := d)"
    using st'(4) st1(6) by simp
  ultimately show ?thesis
    using durable_data [OF st k d st'(2)] st'(5) frame_trans [OF st1(3) st'(3)] by auto
qed

end

section \<open>The book\<close>

text \<open>The sessions' states (an unknown one is empty) and the sessions that are listed.\<close>

record book =
  bk_sessions :: "jsstring \<Rightarrow> jsval list \<times> jsstring"
  bk_names :: "jsstring set"

datatype book_op =
    NewSession jsval
  | Turn jsstring jsstring
  | Put jsstring "jsval list \<times> jsstring"
  | Get jsstring
  | Names
  | Restart
  | Crash

datatype answer = AVal jsval | ANames "jsstring set"

definition book_set :: "jsstring \<Rightarrow> jsval list \<times> jsstring \<Rightarrow> book \<Rightarrow> book" where
  "book_set k ses b = b\<lparr>bk_sessions := (bk_sessions b)(k := ses), bk_names := insert k (bk_names b)\<rparr>"

fun book_step :: "picoclaw \<Rightarrow> book_op \<Rightarrow> book \<Rightarrow> answer \<times> book" where
  "book_step pc (NewSession scope) b =
     (let k = scope_session pc scope in (AVal (Str k), b\<lparr>bk_names := insert k (bk_names b)\<rparr>))"
| "book_step pc (Turn k m) b =
     (case go_reply pc m (bk_sessions b k) of (cs, left) \<Rightarrow> (AVal (Arr (map shown cs)), book_set k left b))"
| "book_step pc (Put k ses) b = (AVal Undef, book_set k ses b)"
| "book_step pc (Get k) b = (AVal (Buf (marshalSession utf8_b4a (fst (bk_sessions b k)) (snd (bk_sessions b k)))), b)"
| "book_step pc Names b = (ANames (bk_names b), b)"
| "book_step pc Restart b = (AVal Undef, b)"
| "book_step pc Crash b = (AVal Undef, b)"

section \<open>The class\<close>

text \<open>
  The same operations on an instance.  A restart is \<open>close\<close> and then a new instance on the same
  store; a crash is a new instance on the store as it is.  \<open>None\<close> is an operation that never returns.
\<close>

definition new_instance :: "picoclaw \<Rightarrow> (goserver link, entries, 'a) claw \<Rightarrow> unit result \<times> (goserver link, entries, 'a) claw" where
  "new_instance pc st = e_ready (go_env pc) (reopened (cl_opts st) (cl_world st) st)"

abbreviation done_val :: "unit \<Rightarrow> answer" where
  "done_val u \<equiv> AVal Undef"

fun claw_do :: "picoclaw \<Rightarrow> book_op \<Rightarrow> (goserver link, entries, 'a) claw \<Rightarrow> (answer result \<times> (goserver link, entries, 'a) claw) option" where
  "claw_do pc (NewSession scope) st = Some (apfst (map_sum id AVal) (session (go_env pc) scope st))"
| "claw_do pc (Turn k m) st =
     map_option (apfst (map_sum id (\<lambda>vs. AVal (Arr vs))))
       (chat_loop (go_env pc) (\<lambda>vs v. vs @ [v]) (chat (Str k) (Str m) Undef) [] st)"
| "claw_do pc (Put k ses) st =
     Some (apfst (map_sum id done_val)
       (importSession (go_env pc) (Str k) (Buf (marshalSession utf8_b4a (fst ses) (snd ses))) st))"
| "claw_do pc (Get k) st = Some (apfst (map_sum id AVal) (exportSession (go_env pc) (Str k) st))"
| "claw_do pc Names st = Some (apfst (map_sum id (\<lambda>ks. ANames (set ks))) (sessions (go_env pc) st))"
| "claw_do pc Restart st =
     (case claw_close (go_env pc) st of
        (None, st) \<Rightarrow> None
      | (Some (Inl e), st) \<Rightarrow> Some (Inl e, st)
      | (Some (Inr _), st) \<Rightarrow> Some (apfst (map_sum id done_val) (new_instance pc st)))"
| "claw_do pc Crash st = Some (apfst (map_sum id done_val) (new_instance pc st))"

text \<open>The book an instance is.\<close>

definition book_of :: "(goserver link, entries, 'a) claw \<Rightarrow> book" where
  "book_of st = \<lparr>bk_sessions = gs_sessions (lk_peer (cl_world st)), bk_names = claw_registered utf8_b4a (\<lambda>es. es) st\<rparr>"

definition book_inv :: "(goserver link, entries, 'a) claw \<Rightarrow> bool" where
  "book_inv st \<longleftrightarrow> claw_live go_up ordered st \<and> claw_tidy utf8_b4a (\<lambda>es. es) st
     \<and> claw_sound utf8_b4a (\<lambda>es. es) (is_dump utf8_b4a) st
     \<and> go_dump (cl_world st) = claw_loads utf8_b4a (\<lambda>es. es) (\<lambda>_. marshalSession utf8_b4a [] []) st
     \<and> opts_ok (cl_opts st)"

text \<open>A store this class has written, with keys that can be listed, and the book that is in it.\<close>

definition store_claw :: "entries \<Rightarrow> (goserver link, entries, unit) claw" where
  "store_claw es = claw_new (Obj []) (link_start go_fresh) es"

definition store_ok :: "entries \<Rightarrow> bool" where
  "store_ok es \<longleftrightarrow> ordered es \<and> claw_tidy utf8_b4a (\<lambda>es. es) (store_claw es)
     \<and> claw_sound utf8_b4a (\<lambda>es. es) (is_dump utf8_b4a) (store_claw es)"

definition store_book :: "entries \<Rightarrow> book" where
  "store_book es =
     \<lparr>bk_sessions = (\<lambda>k. case unmarshalSession utf8_b4a (claw_loads utf8_b4a (\<lambda>es. es) (\<lambda>_. marshalSession utf8_b4a [] []) (store_claw es) k) of
        Inl e \<Rightarrow> ([], []) | Inr ses \<Rightarrow> ses),
      bk_names = claw_registered utf8_b4a (\<lambda>es. es) (store_claw es)\<rparr>"

text \<open>The operations a book is asked for: keys that can be listed, texts and sessions that can be sent.\<close>

fun op_ok :: "picoclaw \<Rightarrow> book_op \<Rightarrow> bool" where
  "op_ok pc (NewSession scope) \<longleftrightarrow> ty_ok schema_depth ref_fmt (js ''@bareclaw/session-scope'') scope \<and> json_ok scope
     \<and> scope \<noteq> Undef \<and> listable (scope_session pc scope)"
| "op_ok pc (Turn k m) \<longleftrightarrow> listable k \<and> key_ok m"
| "op_ok pc (Put k ses) \<longleftrightarrow> listable k \<and> session_fits utf8_b4a ses"
| "op_ok pc (Get k) \<longleftrightarrow> key_ok k"
| "op_ok pc Names \<longleftrightarrow> True"
| "op_ok pc Restart \<longleftrightarrow> True"
| "op_ok pc Crash \<longleftrightarrow> True"

text \<open>An agent whose texts can be sent.\<close>

fun turn_sendable :: "(jsstring, jsstring) sum \<times> jsstring list \<times> (jsval list \<times> jsstring) \<Rightarrow> bool" where
  "turn_sendable (r, streamed, left) \<longleftrightarrow> (\<forall>t \<in> set streamed. key_ok t) \<and> (case r of Inl e \<Rightarrow> key_ok e | Inr t \<Rightarrow> key_ok t)"

definition speaks :: "picoclaw \<Rightarrow> bool" where
  "speaks pc \<longleftrightarrow> (\<forall>e. pc_provider_error pc = Some e \<longrightarrow> key_ok (js ''no model: '' @ e))
     \<and> (\<forall>m ses. turn_sendable (pc_turn pc m ses))"

lemma speaks_turn:
  assumes "speaks pc" and "go_reply pc m ses = (cs, left)"
  shows "turn_ok cs"
proof (cases "pc_provider_error pc")
  case (Some e)
  then have "chunk_ok (chunk ''error'' (js ''no model: '' @ e))"
    using assms(1) unfolding speaks_def chunk_ok_def by blast
  then show ?thesis
    using assms(2) Some by (auto simp: go_reply_def is_final_def)
next
  case None
  obtain r streamed left' where turn: "pc_turn pc m ses = (r, streamed, left')"
    by (metis prod_cases3)
  have "turn_sendable (pc_turn pc m ses)"
    using assms(1) unfolding speaks_def by blast
  then have "turn_ok (go_chunks r streamed)"
    by (intro go_chunks_turn) (simp_all add: turn)
  then show ?thesis
    using assms(2) None turn by (simp add: go_reply_def)
qed

lemma reply_fits:
  assumes "picoclaw_ok pc" and "session_fits utf8_b4a ses" and "go_reply pc m ses = (cs, left)"
  shows "session_fits utf8_b4a left"
proof -
  have "session_fits utf8_b4a (snd (snd (pc_turn pc m ses)))"
    using assms(1,2) unfolding picoclaw_ok_def by blast
  then show ?thesis
    using assms(2,3) by (auto simp: go_reply_def split: option.splits prod.splits)
qed

text \<open>A dump is read back as the session it was made of.\<close>

lemma dump_session:
  assumes "go_up w"
  shows "unmarshalSession utf8_b4a (go_dump w k) = Inr (gs_sessions (lk_peer w) k)"
  using assms utf8_text.unmarshal_marshal [of "fst (gs_sessions (lk_peer w) k)" "snd (gs_sessions (lk_peer w) k)"]
  by (simp add: go_up_def go_dump_def session_fits_def)

lemma sessions_of_dumps:
  assumes "go_up w" and "go_up w'" and "go_dump w' = go_dump w"
  shows "gs_sessions (lk_peer w') = gs_sessions (lk_peer w)"
  using dump_session [OF assms(1)] dump_session [OF assms(2)] assms(3) by (intro ext) (metis sum.inject(2))

lemma sessions_of_dump_set:
  assumes "go_up w" and "go_up w'" and "session_fits utf8_b4a ses"
    and "go_dump w' = (go_dump w)(k := marshalSession utf8_b4a (fst ses) (snd ses))"
  shows "gs_sessions (lk_peer w') = (gs_sessions (lk_peer w))(k := ses)"
proof (rule ext)
  fix j
  have "unmarshalSession utf8_b4a (marshalSession utf8_b4a (fst ses) (snd ses)) = Inr ses"
    using utf8_text.unmarshal_marshal [of "fst ses" "snd ses"] assms(3) by (simp add: session_fits_def)
  then show "gs_sessions (lk_peer w') j = ((gs_sessions (lk_peer w))(k := ses)) j"
    using dump_session [OF assms(1), of j] dump_session [OF assms(2), of j] assms(4) by (cases "j = k") simp_all
qed

section \<open>One operation\<close>

lemma book_invD:
  assumes "book_inv st"
  shows "claw_live go_up ordered st" and "go_up (cl_world st)" and "opts_ok (cl_opts st)" and "is_obj (cl_opts st)"
    and "session_fits utf8_b4a (gs_sessions (lk_peer (cl_world st)) k)"
  using assms by (auto simp: book_inv_def claw_live_def go_up_def opts_ok_def)

text \<open>A step that is seen in the dumps and in the listing is seen so in the book.\<close>

lemma book_same:
  assumes "book_inv st" and "book_inv st'" and "go_dump (cl_world st') = go_dump (cl_world st)"
  shows "bk_sessions (book_of st') = bk_sessions (book_of st)"
  using sessions_of_dumps [OF book_invD(2) [OF assms(1)] book_invD(2) [OF assms(2)] assms(3)] by (simp add: book_of_def)

lemma book_changed:
  assumes "book_inv st" and "book_inv st'" and "session_fits utf8_b4a ses"
    and "go_dump (cl_world st') = (go_dump (cl_world st))(k := marshalSession utf8_b4a (fst ses) (snd ses))"
    and "claw_registered utf8_b4a (\<lambda>es. es) st' = insert k (claw_registered utf8_b4a (\<lambda>es. es) st)"
  shows "book_of st' = book_set k ses (book_of st)"
  using sessions_of_dump_set [OF book_invD(2) [OF assms(1)] book_invD(2) [OF assms(2)] assms(3,4)] assms(5)
  by (simp add: book_of_def book_set_def)

text \<open>A step that leaves the entries and the dumps alone leaves the book alone.\<close>

lemma book_kept:
  assumes st: "book_inv st" and st': "claw_live go_up ordered st'" "cl_opts st' = cl_opts st"
    "claw_stored (\<lambda>es. es) st' = claw_stored (\<lambda>es. es) st" "go_dump (cl_world st') = go_dump (cl_world st)"
  shows "book_inv st' \<and> book_of st' = book_of st"
proof -
  have "claw_loads utf8_b4a (\<lambda>es. es) b st' = claw_loads utf8_b4a (\<lambda>es. es) b st" for b
    by (simp add: claw_loads_def claw_on_record_def st'(3) fun_eq_iff)
  then have inv: "book_inv st'"
    using st st' by (simp add: book_inv_def claw_tidy_def claw_sound_def claw_on_record_def)
  then show ?thesis
    using book_same [OF st inv st'(4)] st'(3) by (simp add: book_of_def claw_registered_def)
qed

lemma foldl_snoc: "foldl (\<lambda>vs v. vs @ [v]) out xs = out @ xs"
  by (induction xs arbitrary: out) simp_all

lemma go_new_session:
  assumes pc: "picoclaw_ok pc" and st: "book_inv st" and ok: "op_ok pc (NewSession scope)"
  shows "\<exists>st'. session (go_env pc) scope st = (Inr (Str (scope_session pc scope)), st') \<and> book_inv st'
    \<and> book_of st' = (book_of st)\<lparr>bk_names := insert (scope_session pc scope) (bk_names (book_of st))\<rparr>"
proof -
  note env = go_claw_env [OF pc]
  have scope: "ty_ok schema_depth ref_fmt (js ''@bareclaw/session-scope'') scope" "json_ok scope" "scope \<noteq> Undef"
    and k: "listable (scope_session pc scope)"
    using ok by simp_all
  obtain k t st' where st': "session (go_env pc) scope st = (Inr (Str k), st')" "claw_live go_up ordered st'" "frame st st'"
      "go_dump (cl_world st') = go_dump (cl_world st)"
      "claw_stored (\<lambda>es. es) st' = (claw_stored (\<lambda>es. es) st)(scope_key utf8_b4a (Str k) \<mapsto> Buf (b4a_from utf8_b4a t))"
    using claw_env.session_live [OF env book_invD(1) [OF st] scope] unfolding go_env_simps by (elim exE conjE) (rule that)
  have "k = scope_session pc scope"
    using st'(1) go_create [OF pc scope(1), of "cl_world st"] book_invD(1) [OF st] scope(3)
    by (auto simp: session_def andthen_def act_simps ensure_open_def claw_live_def key_msg_def
        split: sum.splits prod.splits jsval.splits)
  moreover from this have "claw_live go_up ordered st' \<and> claw_tidy utf8_b4a (\<lambda>es. es) st' \<and> claw_sound utf8_b4a (\<lambda>es. es) (is_dump utf8_b4a) st'
      \<and> go_dump (cl_world st') = claw_loads utf8_b4a (\<lambda>es. es) (\<lambda>_. marshalSession utf8_b4a [] []) st'
      \<and> claw_registered utf8_b4a (\<lambda>es. es) st' = insert k (claw_registered utf8_b4a (\<lambda>es. es) st)"
    using claw_env.durable_scope [OF env _ _ st'(2,4), of k "Buf (b4a_from utf8_b4a t)"] st k st'(5) by (simp add: book_inv_def)
  ultimately have inv: "book_inv st'" and names: "claw_registered utf8_b4a (\<lambda>es. es) st'
      = insert (scope_session pc scope) (claw_registered utf8_b4a (\<lambda>es. es) st)"
    using st'(3) book_invD(3) [OF st] by (simp_all add: book_inv_def frame_def)
  then show ?thesis
    using book_same [OF st inv st'(4)] st'(1) \<open>k = scope_session pc scope\<close> by (simp add: book_of_def)
qed

lemma go_consume_book:
  assumes pc: "picoclaw_ok pc" "speaks pc" and st: "book_inv st" and k: "listable k" and m: "key_ok m"
    and reply: "go_reply pc m (bk_sessions (book_of st) k) = (cs, left)"
  shows "\<exists>st'. consume (go_env pc) (Suc (length cs)) (chat (Str k) (Str m) Undef) st = ((map shown cs, Inr ()), st')
    \<and> book_inv st' \<and> book_of st' = book_set k left (book_of st)"
proof -
  note env = go_claw_env [OF pc(1)]
  have key: "key_ok k"
    using k by (simp add: listable_def)
  have reply': "go_reply pc m (gs_sessions (lk_peer (cl_world st)) k) = (cs, left)"
    using reply by (simp add: book_of_def)
  have left: "session_fits utf8_b4a left"
    using reply_fits [OF pc(1) book_invD(5) [OF st] reply'] .
  obtain st' where st': "consume (go_env pc) (Suc (length cs)) (chat (Str k) (Str m) Undef) st = ((map shown cs, Inr ()), st')"
    and turned: "turn_done k (marshalSession utf8_b4a (fst left) (snd left)) st st'"
    using go_reply_turn [OF pc(1) book_invD(1) [OF st] key m book_invD(3) [OF st] reply' speaks_turn [OF pc(2) reply'] lessI] by blast
  note after = turn_doneD [OF turned]
  have "is_dump utf8_b4a (marshalSession utf8_b4a (fst left) (snd left))"
    using left unfolding is_dump_def by blast
  then have "claw_live go_up ordered st' \<and> claw_tidy utf8_b4a (\<lambda>es. es) st' \<and> claw_sound utf8_b4a (\<lambda>es. es) (is_dump utf8_b4a) st'
      \<and> go_dump (cl_world st') = claw_loads utf8_b4a (\<lambda>es. es) (\<lambda>_. marshalSession utf8_b4a [] []) st'
      \<and> claw_registered utf8_b4a (\<lambda>es. es) st' = insert k (claw_registered utf8_b4a (\<lambda>es. es) st)"
    using claw_env.durable_data [OF env _ k _ after(1,3)] st after(4) by (simp add: book_inv_def)
  then have inv: "book_inv st'" and names: "claw_registered utf8_b4a (\<lambda>es. es) st' = insert k (claw_registered utf8_b4a (\<lambda>es. es) st)"
    using after(2) book_invD(3) [OF st] by (simp_all add: book_inv_def frame_def)
  show ?thesis
    using st' inv book_changed [OF st inv left after(3) names] by blast
qed

text \<open>The loop of the examples, whatever its body makes of the chunks.\<close>

lemma go_turn_book:
  assumes "picoclaw_ok pc" "speaks pc" and "book_inv st" and "listable k" and "key_ok m"
    and "go_reply pc m (bk_sessions (book_of st) k) = (cs, left)"
  shows "\<exists>st'. chat_loop (go_env pc) f (chat (Str k) (Str m) Undef) out st = Some (Inr (foldl f out (map shown cs)), st')
    \<and> book_inv st' \<and> book_of st' = book_set k left (book_of st)"
  using go_consume_book [OF assms] chat_loop_consume by fastforce

lemma go_put_book:
  assumes pc: "picoclaw_ok pc" and st: "book_inv st" and ok: "op_ok pc (Put k ses)"
  shows "\<exists>st'. importSession (go_env pc) (Str k) (Buf (marshalSession utf8_b4a (fst ses) (snd ses))) st = (Inr (), st')
    \<and> book_inv st' \<and> book_of st' = book_set k ses (book_of st)"
proof -
  note env = go_claw_env [OF pc]
  let ?d = "marshalSession utf8_b4a (fst ses) (snd ses)"
  have k: "listable k" and ses: "session_fits utf8_b4a ses"
    using ok by simp_all
  have "is_dump utf8_b4a ?d"
    using ses unfolding is_dump_def by blast
  then obtain st' where st': "importSession (go_env pc) (Str k) (Buf ?d) st = (Inr (), st')" "frame st st'"
    "claw_live go_up ordered st' \<and> claw_tidy utf8_b4a (\<lambda>es. es) st' \<and> claw_sound utf8_b4a (\<lambda>es. es) (is_dump utf8_b4a) st'
      \<and> go_dump (cl_world st') = claw_loads utf8_b4a (\<lambda>es. es) (\<lambda>_. marshalSession utf8_b4a [] []) st'"
    "go_dump (cl_world st') = (go_dump (cl_world st))(k := ?d)"
    "claw_registered utf8_b4a (\<lambda>es. es) st' = insert k (claw_registered utf8_b4a (\<lambda>es. es) st)"
    using claw_env.put_durable [OF env _ k, of st ?d] st unfolding book_inv_def go_env_simps by blast
  then have inv: "book_inv st'"
    using book_invD(3) [OF st] by (simp add: book_inv_def frame_def)
  show ?thesis
    using st'(1) inv book_changed [OF st inv ses st'(4,5)] by blast
qed

lemma go_get_book:
  assumes pc: "picoclaw_ok pc" and st: "book_inv st" and k: "key_ok k"
  shows "\<exists>st'. exportSession (go_env pc) (Str k) st = (Inr (Buf (go_dump (cl_world st) k)), st')
    \<and> book_inv st' \<and> book_of st' = book_of st"
proof -
  obtain st' where st': "exportSession (go_env pc) (Str k) st = (Inr (Buf (go_dump (cl_world st) k)), st')"
    "claw_live go_up ordered st'" "frame st st'" "go_dump (cl_world st') = go_dump (cl_world st)" "cl_store st' = cl_store st"
    using claw_env.export_live [OF go_claw_env [OF pc] book_invD(1) [OF st] k] by blast
  have "claw_stored (\<lambda>es. es) st' = claw_stored (\<lambda>es. es) st"
    using st'(5) by (simp add: claw_stored_def)
  then show ?thesis
    using st'(1) book_kept [OF st st'(2) _ _ st'(4)] st'(3) by (simp add: frame_def)
qed

lemma go_names_book:
  assumes pc: "picoclaw_ok pc" and st: "book_inv st"
  shows "\<exists>ks st'. sessions (go_env pc) st = (Inr ks, st') \<and> set ks = bk_names (book_of st) \<and> distinct ks
    \<and> book_inv st' \<and> book_of st' = book_of st"
proof -
  have tidy: "claw_tidy utf8_b4a (\<lambda>es. es) st"
    using st by (simp add: book_inv_def)
  then obtain ks st' where st': "sessions (go_env pc) st = (Inr ks, st')" "claw_live go_up ordered st'"
    "cl_world st' = cl_world st" "claw_stored (\<lambda>es. es) st' = claw_stored (\<lambda>es. es) st" "frame st st'"
    "distinct ks" "set ks = claw_registered utf8_b4a (\<lambda>es. es) st"
    using claw_env.sessions_live [OF go_claw_env [OF pc] book_invD(1) [OF st]] unfolding go_env_simps by blast
  then show ?thesis
    using book_kept [OF st st'(2) _ st'(4)] by (simp add: book_of_def frame_def)
qed

lemma open_ignores_ready: "claw_open (E\<lparr>e_ready := r\<rparr>) = claw_open E"
proof -
  have "e_c (E\<lparr>e_ready := r\<rparr>) = e_c E" "e_rpc (E\<lparr>e_ready := r\<rparr>) = e_rpc E"
    "e_bee (E\<lparr>e_ready := r\<rparr>) = e_bee E" "e_b4a (E\<lparr>e_ready := r\<rparr>) = e_b4a E"
    by simp_all
  then have "load_one (E\<lparr>e_ready := r\<rparr>) = load_one E"
    by (intro ext) (simp only: load_one_def)
  then show ?thesis
    by (simp add: claw_open_def loadFromStore_def listStoreKeys_def)
qed

lemma go_ready: "e_ready (go_env pc) st = (case claw_open (go_env pc) st of
    (Inl e, st) \<Rightarrow> (Inl e, st) | (Inr _, st) \<Rightarrow> (Inr (), st\<lparr>cl_opened := True\<rparr>))"
  by (simp add: go_env_def open_ignores_ready)

text \<open>What is said of a store is said of every instance on it.\<close>

lemma store_claw_same:
  fixes st :: "(goserver link, entries, 'a) claw"
  shows "claw_stored (\<lambda>es. es) (store_claw (cl_store st)) = claw_stored (\<lambda>es. es) st"
    and "claw_tidy utf8_b4a (\<lambda>es. es) (store_claw (cl_store st)) \<longleftrightarrow> claw_tidy utf8_b4a (\<lambda>es. es) st"
    and "claw_sound utf8_b4a (\<lambda>es. es) P (store_claw (cl_store st)) \<longleftrightarrow> claw_sound utf8_b4a (\<lambda>es. es) P st"
    and "claw_registered utf8_b4a (\<lambda>es. es) (store_claw (cl_store st)) = claw_registered utf8_b4a (\<lambda>es. es) st"
    and "claw_loads utf8_b4a (\<lambda>es. es) f (store_claw (cl_store st)) = claw_loads utf8_b4a (\<lambda>es. es) f st"
proof -
  show same: "claw_stored (\<lambda>es. es) (store_claw (cl_store st)) = claw_stored (\<lambda>es. es) st"
    by (simp add: claw_stored_def store_claw_def claw_new_def)
  have "claw_on_record utf8_b4a (\<lambda>es. es) (store_claw (cl_store st)) = claw_on_record utf8_b4a (\<lambda>es. es) st"
    by (simp add: claw_on_record_def same fun_eq_iff)
  then show "claw_tidy utf8_b4a (\<lambda>es. es) (store_claw (cl_store st)) \<longleftrightarrow> claw_tidy utf8_b4a (\<lambda>es. es) st"
    and "claw_sound utf8_b4a (\<lambda>es. es) P (store_claw (cl_store st)) \<longleftrightarrow> claw_sound utf8_b4a (\<lambda>es. es) P st"
    and "claw_registered utf8_b4a (\<lambda>es. es) (store_claw (cl_store st)) = claw_registered utf8_b4a (\<lambda>es. es) st"
    and "claw_loads utf8_b4a (\<lambda>es. es) f (store_claw (cl_store st)) = claw_loads utf8_b4a (\<lambda>es. es) f st"
    by (simp_all add: claw_tidy_def claw_sound_def claw_registered_def claw_loads_def same fun_eq_iff)
qed

lemma book_in_store:
  assumes "book_inv st"
  shows "store_ok (cl_store st)" and "store_book (cl_store st) = book_of st"
proof -
  show "store_ok (cl_store st)"
    using assms by (simp add: store_ok_def store_claw_same book_inv_def claw_live_def)
  have "go_dump (cl_world st) = claw_loads utf8_b4a (\<lambda>es. es) (\<lambda>_. marshalSession utf8_b4a [] []) st"
    using assms by (simp add: book_inv_def)
  then show "store_book (cl_store st) = book_of st"
    using dump_session [OF book_invD(2) [OF assms]] by (simp add: store_book_def store_claw_same book_of_def)
qed

text \<open>A new instance on a store opens as the book that is in it.\<close>

lemma go_start_book:
  fixes w :: "goserver link"
  assumes pc: "picoclaw_ok pc" and es: "store_ok es" and opts: "opts_ok opts"
  shows "\<exists>st :: (goserver link, entries, 'a) claw. e_ready (go_env pc) (claw_new opts w es) = (Inr (), st)
    \<and> book_inv st \<and> book_of st = store_book es \<and> cl_opts st = opts"
proof -
  define st0 :: "(goserver link, entries, 'a) claw" where "st0 = claw_new opts w es"
  have st0: "cl_store st0 = es" "reopened opts w st0 = st0"
    by (simp_all add: st0_def reopened_def claw_new_def)
  have obj: "is_obj opts"
    using opts by (simp add: opts_ok_def)
  have store: "ordered (cl_store st0)" "claw_tidy utf8_b4a (\<lambda>es. es) st0" "claw_sound utf8_b4a (\<lambda>es. es) (is_dump utf8_b4a) st0"
    using es store_claw_same [where st = st0] by (simp_all add: store_ok_def st0(1))
  obtain st' where st': "claw_open (go_env pc) st0 = (Inr (), st')"
    "claw_live go_up ordered (st'\<lparr>cl_opened := True\<rparr>) \<and> claw_tidy utf8_b4a (\<lambda>es. es) (st'\<lparr>cl_opened := True\<rparr>)
      \<and> claw_sound utf8_b4a (\<lambda>es. es) (is_dump utf8_b4a) (st'\<lparr>cl_opened := True\<rparr>)
      \<and> go_dump (cl_world st') = claw_loads utf8_b4a (\<lambda>es. es) (\<lambda>_. marshalSession utf8_b4a [] []) (st'\<lparr>cl_opened := True\<rparr>)"
    "go_dump (cl_world st') = claw_loads utf8_b4a (\<lambda>es. es) (\<lambda>_. marshalSession utf8_b4a [] []) st0"
    "claw_registered utf8_b4a (\<lambda>es. es) st' = claw_registered utf8_b4a (\<lambda>es. es) st0" "cl_opts st' = opts"
    using claw_env.open_durable [OF go_claw_env [OF pc] store(1) _ _ obj, of w] store(2,3) st0(2) by auto
  let ?st' = "st'\<lparr>cl_opened := True\<rparr>"
  have inv: "book_inv ?st'"
    using st'(2,5) opts by (simp add: book_inv_def)
  have names: "claw_registered utf8_b4a (\<lambda>es. es) ?st' = claw_registered utf8_b4a (\<lambda>es. es) st0"
    using st'(4) by (simp add: claw_registered_def claw_stored_def)
  have "book_of ?st' = store_book es"
    using dump_session [OF book_invD(2) [OF inv]] st'(3) names store_claw_same(4,5) [where st = st0]
    by (simp add: book_of_def store_book_def st0(1))
  moreover have "e_ready (go_env pc) (claw_new opts w es) = (Inr (), ?st')"
    using st'(1) by (simp add: go_ready st0_def [symmetric])
  ultimately show ?thesis
    using inv st'(5) by (intro exI [of _ ?st']) simp
qed

lemma go_reopen_book:
  assumes "picoclaw_ok pc" and "store_ok (cl_store st)" and "opts_ok (cl_opts st)"
  shows "\<exists>st'. new_instance pc st = (Inr (), st') \<and> book_inv st' \<and> book_of st' = store_book (cl_store st)"
  using go_start_book [OF assms] by (auto simp: new_instance_def reopened_def)

text \<open>The process exits when its pipe is ended, so \<open>close\<close> resolves, and leaves the book in the store.\<close>

lemma go_close_returns: "fst (claw_close (go_env pc) st) \<noteq> None"
proof -
  have "shutdownProc (go_env pc) st = (Some (), st)" for st :: "(goserver link, entries, 'a) claw"
    by (simp add: shutdownProc_def shutdown_start_def)
  then show ?thesis
    by (auto simp: claw_close_def split: prod.splits sum.splits if_splits)
qed

lemma go_finish_book:
  assumes pc: "picoclaw_ok pc" and st: "book_inv st"
  shows "\<exists>st'. claw_close (go_env pc) st = (Some (Inr ()), st') \<and> store_ok (cl_store st')
    \<and> store_book (cl_store st') = book_of st \<and> cl_opts st' = cl_opts st"
proof -
  note env = go_claw_env [OF pc]
  obtain res st1 where run: "claw_close (go_env pc) st = (res, st1)"
    by fastforce
  have dur: "claw_live go_up ordered st" "claw_tidy (e_b4a (go_env pc)) (\<lambda>es. es) st"
    "claw_sound (e_b4a (go_env pc)) (\<lambda>es. es) (is_dump utf8_b4a) st"
    "go_dump (cl_world st) = claw_loads (e_b4a (go_env pc)) (\<lambda>es. es) (\<lambda>_. marshalSession utf8_b4a [] []) st"
    using st by (simp_all add: book_inv_def)
  have closed: "ordered (cl_store st1)" "cl_opts st1 = cl_opts st" "res = Some (Inr ())"
    using claw_env.close_live [OF env dur(1,2) run] go_close_returns [of pc st] run by auto
  have kept: "claw_sound utf8_b4a (\<lambda>es. es) (is_dump utf8_b4a) st1" "claw_tidy utf8_b4a (\<lambda>es. es) st1"
    "claw_loads utf8_b4a (\<lambda>es. es) (\<lambda>_. marshalSession utf8_b4a [] []) st1 = go_dump (cl_world st)"
    "claw_registered utf8_b4a (\<lambda>es. es) st1 = claw_registered utf8_b4a (\<lambda>es. es) st"
    using claw_env.close_durable [OF env _ run] dur by simp_all
  show ?thesis
    using run closed kept dump_session [OF book_invD(2) [OF st]]
    by (simp add: store_ok_def store_book_def store_claw_same book_of_def)
qed

lemma go_restart_book:
  assumes pc: "picoclaw_ok pc" and st: "book_inv st"
  shows "\<exists>st1 st'. claw_close (go_env pc) st = (Some (Inr ()), st1) \<and> new_instance pc st1 = (Inr (), st')
    \<and> book_inv st' \<and> book_of st' = book_of st"
proof -
  obtain st1 where st1: "claw_close (go_env pc) st = (Some (Inr ()), st1)" "store_ok (cl_store st1)"
    "store_book (cl_store st1) = book_of st" "cl_opts st1 = cl_opts st"
    using go_finish_book [OF assms] by blast
  then show ?thesis
    using go_reopen_book [OF pc st1(2)] book_invD(3) [OF st] by auto
qed

lemma go_crash_book:
  assumes pc: "picoclaw_ok pc" and st: "book_inv st"
  shows "\<exists>st'. new_instance pc st = (Inr (), st') \<and> book_inv st' \<and> book_of st' = book_of st"
  using go_reopen_book [OF pc book_in_store(1) [OF st] book_invD(3) [OF st]] book_in_store(2) [OF st] by simp

section \<open>Data refinement\<close>

text \<open>
  The operations of a component against a specification: a concrete operation may not return
  (\<open>None\<close>), the specification's always answers.  When each step agrees, so does every sequence.
\<close>

fun run_ops :: "('op \<Rightarrow> 'c \<Rightarrow> ('r result \<times> 'c) option) \<Rightarrow> 'op list \<Rightarrow> 'c \<Rightarrow> ('r list result \<times> 'c) option" where
  "run_ops cstep [] c = Some (Inr [], c)"
| "run_ops cstep (x # xs) c =
     (case cstep x c of
        None \<Rightarrow> None
      | Some (Inl e, c) \<Rightarrow> Some (Inl e, c)
      | Some (Inr r, c) \<Rightarrow> map_option (apfst (map_sum id (Cons r))) (run_ops cstep xs c))"

fun run_spec :: "('op \<Rightarrow> 's \<Rightarrow> 'r \<times> 's) \<Rightarrow> 'op list \<Rightarrow> 's \<Rightarrow> 'r list \<times> 's" where
  "run_spec astep [] a = ([], a)"
| "run_spec astep (x # xs) a = (case astep x a of (r, a) \<Rightarrow> apfst (Cons r) (run_spec astep xs a))"

locale data_refinement =
  fixes cstep :: "'op \<Rightarrow> 'c \<Rightarrow> ('r result \<times> 'c) option"
    and astep :: "'op \<Rightarrow> 's \<Rightarrow> 'r \<times> 's"
    and abs_of :: "'c \<Rightarrow> 's"
    and inv :: "'c \<Rightarrow> bool"
    and ok :: "'op \<Rightarrow> bool"
  assumes step: "inv c \<Longrightarrow> ok x \<Longrightarrow>
    \<exists>c'. cstep x c = Some (Inr (fst (astep x (abs_of c))), c') \<and> inv c' \<and> abs_of c' = snd (astep x (abs_of c))"
begin

lemma runs_agree:
  assumes "inv c" and "\<forall>x \<in> set xs. ok x"
  shows "\<exists>c'. run_ops cstep xs c = Some (Inr (fst (run_spec astep xs (abs_of c))), c') \<and> inv c'
    \<and> abs_of c' = snd (run_spec astep xs (abs_of c))"
  using assms
proof (induction xs arbitrary: c)
  case (Cons x xs)
  obtain c1 where c1: "cstep x c = Some (Inr (fst (astep x (abs_of c))), c1)" "inv c1" "abs_of c1 = snd (astep x (abs_of c))"
    using step [OF Cons.prems(1), of x] Cons.prems(2) by auto
  obtain c' where "run_ops cstep xs c1 = Some (Inr (fst (run_spec astep xs (abs_of c1))), c')" "inv c'"
    "abs_of c' = snd (run_spec astep xs (abs_of c1))"
    using Cons.IH [OF c1(2)] Cons.prems(2) by auto
  with c1 show ?case
    by (simp add: case_prod_beta)
qed simp

end

lemma session_book:
  assumes pc: "picoclaw_ok pc" "speaks pc"
  shows "data_refinement (claw_do pc :: book_op \<Rightarrow> (goserver link, entries, 'a) claw \<Rightarrow> _) (book_step pc) book_of book_inv (op_ok pc)"
proof
  fix st :: "(goserver link, entries, 'a) claw" and x
  assume st: "book_inv st" and ok: "op_ok pc x"
  show "\<exists>st'. claw_do pc x st = Some (Inr (fst (book_step pc x (book_of st))), st') \<and> book_inv st'
      \<and> book_of st' = snd (book_step pc x (book_of st))"
  proof (cases x)
    case (NewSession scope)
    then show ?thesis
      using go_new_session [OF pc(1) st] ok by (fastforce simp: Let_def)
  next
    case (Turn k m)
    obtain cs left where reply: "go_reply pc m (bk_sessions (book_of st) k) = (cs, left)"
      by (metis surj_pair)
    then show ?thesis
      using go_turn_book [OF pc st _ _ reply, of "\<lambda>vs v. vs @ [v]" "[]"] ok Turn by (auto simp: foldl_snoc)
  next
    case (Put k ses)
    then show ?thesis
      using go_put_book [OF pc(1) st] ok by fastforce
  next
    case (Get k)
    then show ?thesis
      using go_get_book [OF pc(1) st, of k] ok by (fastforce simp: book_of_def go_dump_def)
  next
    case Names
    then show ?thesis
      using go_names_book [OF pc(1) st] by fastforce
  next
    case Restart
    then show ?thesis
      using go_restart_book [OF pc(1) st] by fastforce
  next
    case Crash
    then show ?thesis
      using go_crash_book [OF pc(1) st] by fastforce
  qed
qed

section \<open>The instance to evaluate with\<close>

lemma echo_speaks: "speaks echo_picoclaw"
  by (simp add: speaks_def echo_picoclaw_def small_key js_def)

lemma go_claw_book: "book_inv go_claw"
proof -
  have none: "claw_on_record utf8_b4a (\<lambda>es. es) go_claw k = None" for k
    by (simp add: claw_on_record_def claw_stored_def go_claw_def claw_new_def)
  have "go_dump (cl_world go_claw) = (\<lambda>_. marshalSession utf8_b4a [] [])"
    by (intro ext) (simp add: go_dump_def go_claw_def claw_new_def link_start_def go_fresh_def)
  then have "go_dump (cl_world go_claw) = claw_loads utf8_b4a (\<lambda>es. es) (\<lambda>_. marshalSession utf8_b4a [] []) go_claw"
    using none by (simp add: claw_loads_def fun_eq_iff)
  then show ?thesis
    using go_claw_live go_claw_tidy go_claw_opts by (simp add: book_inv_def)
qed

interpretation echo_book: data_refinement "claw_do echo_picoclaw" "book_step echo_picoclaw"
    "book_of :: (goserver link, entries, nat) claw \<Rightarrow> book" book_inv "op_ok echo_picoclaw"
  by (rule session_book [OF echo_ok echo_speaks])

section \<open>Properties\<close>


lemma echo_answers: "go_reply echo_picoclaw m ses = (echo_turn, ([Str (take 1000 m)], []))"
  by (simp add: go_reply_def echo_picoclaw_def echo_turn_def)

definition some_ops :: "book_op list" where
  "some_ops = [Turn (js ''s'') (js ''hi''), Crash, Names, Restart, Get (js ''s'')]"

lemma some_ops_ok: "\<forall>x \<in> set some_ops. op_ok echo_picoclaw x"
  using listable_s echo_key_s by (simp add: some_ops_def small_key js_def)

lemma go_claw_blank: "book_of go_claw = \<lparr>bk_sessions = \<lambda>_. ([], []), bk_names = {}\<rparr>"
  by (simp add: book_of_def claw_registered_def claw_stored_def go_claw_def claw_new_def link_start_def go_fresh_def)


text \<open>The operations that do not end the process.\<close>

definition keeps_process :: "book_op \<Rightarrow> bool" where
  "keeps_process x \<longleftrightarrow> x \<noteq> Restart \<and> x \<noteq> Crash"

lemma quiet_spec:
  "snd (run_spec (book_step pc) (filter keeps_process ops) b) = snd (run_spec (book_step pc) ops b)"
proof (induction ops arbitrary: b)
  case (Cons x xs)
  then show ?case
    by (cases x) (simp_all add: case_prod_beta keeps_process_def)
qed simp



end
