(* ===== verification/Go_Tools.thy ===== *)
theory Go_Tools
  imports Bareclaw_Tools
begin

text \<open>
  Tools across the two processes: \<open>Execute\<close> of src/go/pkg/server/tools.go, which forwards a call of
  the agent loop to JavaScript, behind the registration of src/index.js and its answer to
  \<open>toolExec\<close>.  The encoder of the arguments and the channel the server was attached to are
  arguments; Go's texts are texts of JavaScript.
\<close>

section \<open>Execute\<close>

text \<open>
  \<open>client\<close> is the channel, or the error of the context that ended before there was one.  The
  call id comes from the counter that \<open>Chat\<close> uses too.
\<close>

definition jsTool_Execute ::
    "b4a \<Rightarrow> (jsval \<Rightarrow> (jsstring, bytes) sum) \<Rightarrow> (jsstring, jsval \<Rightarrow> 'w \<Rightarrow> jsval result \<times> 'w) sum \<Rightarrow>
     jstool \<Rightarrow> jsval \<Rightarrow> goserver \<times> 'w \<Rightarrow> jsstring \<times> (goserver \<times> 'w)" where
  "jsTool_Execute b marshal client t args = (\<lambda>(s, w).
     case marshal args of
       Inl e \<Rightarrow> (js ''tool marshal error: '' @ e, (s, w))
     | Inr input \<Rightarrow>
         (case client of
            Inl e \<Rightarrow> (js ''tool exec error: '' @ e, (s, w))
          | Inr exec \<Rightarrow>
              (let n = gs_calls s + 1; s = s\<lparr>gs_calls := n\<rparr>
               in case exec (tool_call (js ''tc-'' @ dec_nat (unat n)) (jt_name t) input) w of
                    (Inl e, w) \<Rightarrow> (js ''tool exec RPC error: '' @ go_err e, (s, w))
                  | (Inr result, w) \<Rightarrow>
                      (let errMsg = go_string (field result (js ''errMsg''))
                       in if errMsg \<noteq> [] then (js ''tool error: '' @ errMsg, (s, w))
                          else (b4a_toString b (buf_of (field result (js ''output''))), (s, w))))))"

section \<open>What the agent reads\<close>

text \<open>
  What the answer to a call says: the JSON of the value a handler returned, nothing for no
  value, or the message of what was thrown, when that message is a text.
\<close>

definition thrown_text :: "('w, 'b, 'a) env \<Rightarrow> thrown \<Rightarrow> (jsstring, jsstring option) sum option" where
  "thrown_text E err = (case err_text E err of Inr (Str m) \<Rightarrow> Some (Inl m) | _ \<Rightarrow> None)"

definition tool_text :: "('w, 'b, 'a) env \<Rightarrow> jsval result \<Rightarrow> (jsstring, jsstring option) sum option" where
  "tool_text E res =
     (case res of
        Inl err \<Rightarrow> thrown_text E err
      | Inr output \<Rightarrow>
          (if output \<in> {Null, Undef} then Some (Inr None)
           else case JSON_stringify output of Str u \<Rightarrow> Some (Inr (Some u)) | _ \<Rightarrow> thrown_text E TypeError))"

definition tool_text_fits :: "b4a \<Rightarrow> (jsstring, jsstring option) sum \<Rightarrow> bool" where
  "tool_text_fits b r =
     (case r of
        Inl m \<Rightarrow> key_ok m
      | Inr None \<Rightarrow> True
      | Inr (Some u) \<Rightarrow> u \<noteq> [] \<and> wf16 u \<and> length (b4a_from b u) < 2 ^ 32)"

text \<open>What the agent loop is given: an empty message reads as an empty output.\<close>

fun agent_reads :: "(jsstring, jsstring option) sum \<Rightarrow> jsstring" where
  "agent_reads (Inl m) = (if m = [] then [] else js ''tool error: '' @ m)"
| "agent_reads (Inr None) = []"
| "agent_reads (Inr (Some u)) = u"

lemma length_dec_nat: "n < 10 ^ Suc k \<Longrightarrow> length (dec_nat n) \<le> Suc k"
proof (induction k arbitrary: n)
  case (Suc k)
  then have "n div 10 < 10 ^ Suc k"
    by (simp add: less_mult_imp_div_less mult.commute)
  with Suc.IH show ?case
    by (cases "n < 10") (simp_all add: dec_nat_step)
qed (simp add: dec_nat_step)

lemma key_ok_call_id: "key_ok (js ''tc-'' @ dec_nat (unat (n :: 64 word)))"
proof -
  have "unat n < 2 ^ 64"
    using unsigned_less [of n] by simp
  also have "(2 :: nat) ^ 64 < 10 ^ Suc 19"
    by simp
  finally have "length (dec_nat (unat n)) \<le> Suc 19"
    by (rule length_dec_nat)
  moreover have "list_all (\<lambda>u. u < 255) (dec_nat (unat n))"
    using dec_nat_digits [of "unat n"] by (auto simp: list_all_iff is_digit16_def intro: le_less_trans)
  ultimately show ?thesis
    by (intro small_key) (simp_all add: js_def)
qed

lemma key_ok_Nil [simp]: "key_ok []"
  by (simp add: key_ok_def)

lemma execute_answered:
  assumes pair: "hrpc_pair c f alloc rpc (claw_handlers E) peer" and b4a: "text_encoding (e_b4a E)"
    and peer: "peer w = (st, a)" and t: "key_ok (jt_name t)"
    and args: "marshal args = Inr input" "input \<noteq> []" "length input < 2 ^ 32"
      "JSON_parse (e_syntax E) (b4a_toString (e_b4a E) input) = Inr v"
    and ran: "(case cl_tools st (Str (jt_name t)) of None \<Rightarrow> (Inr Null, a) | Some h \<Rightarrow> h v a) = (res, a')"
    and res: "tool_text E res = Some r" "tool_text_fits (e_b4a E) r"
  shows "\<exists>w'. jsTool_Execute (e_b4a E) marshal (Inr (toolExec c rpc)) t args (s, w)
      = (agent_reads r, (s\<lparr>gs_calls := gs_calls s + 1\<rparr>, w')) \<and> peer w' = (st, a')"
proof -
  let ?id = "js ''tc-'' @ dec_nat (unat (gs_calls s + 1))"
  let ?call = "tool_call ?id (jt_name t) input"
  have run: "run_tool E (cl_tools st (Str (jt_name t))) ?call a = (case res of Inl e \<Rightarrow> (Inl e, a')
      | Inr output \<Rightarrow> (if output \<in> {Null, Undef} then Inr Null
          else case JSON_stringify output of Str t \<Rightarrow> Inr (Buf (b4a_from (e_b4a E) t)) | _ \<Rightarrow> Inl TypeError, a'))"
    using ran args(4) by (simp add: run_tool_def tool_call_def split: sum.splits)
  have blank: "b4a_toString (e_b4a E) [] = []"
    using text_encoding.toString_from [OF b4a, of "[]"] text_encoding.from_Nil [OF b4a] by simp
  have again: "b4a_toString (e_b4a E) (b4a_from (e_b4a E) u) = u" "u \<noteq> [] \<Longrightarrow> b4a_from (e_b4a E) u \<noteq> []" if "wf16 u" for u
    using text_encoding.toString_from [OF b4a that] blank by auto
  define said where "said out m \<longleftrightarrow> onToolExec_claw E (cl_tools st) ?call a = (Inr (tool_result (Str ?id) out (Str m)), a')
    \<and> key_ok m \<and> (out = Null \<or> buf_ok out)
    \<and> agent_reads r = (if m \<noteq> [] then js ''tool error: '' @ m else b4a_toString (e_b4a E) (buf_of out))" for out m
  have thrown: "\<exists>out m. said out m" if ran: "run_tool E (cl_tools st (Str (jt_name t))) ?call a = (Inl e, a')"
    and e: "thrown_text E e = Some r" for e
  proof -
    obtain m where "err_text E e = Inr (Str m)" "r = Inl m"
      using e by (auto simp: thrown_text_def split: sum.splits jsval.splits)
    then have "said Null m"
      using ran res(2) blank by (simp add: said_def onToolExec_claw_def tool_call_def tool_text_fits_def)
    then show ?thesis
      by blast
  qed
  have returned: "\<exists>out m. said out m" if "run_tool E (cl_tools st (Str (jt_name t))) ?call a = (Inr out, a')"
    "out = Null \<and> r = Inr None \<or> (\<exists>u. out = Buf (b4a_from (e_b4a E) u) \<and> r = Inr (Some u))" for out
  proof -
    have "said out []"
      using that res(2) blank again by (auto simp: said_def onToolExec_claw_def tool_call_def tool_text_fits_def)
    then show ?thesis
      by blast
  qed
  have "\<exists>out m. said out m"
  proof (cases res)
    case (Inl e)
    then show ?thesis
      using thrown [of e] run res(1) by (simp add: tool_text_def)
  next
    case (Inr v)
    then show ?thesis
      using returned [of Null] returned [of "Buf (b4a_from (e_b4a E) u)" for u] thrown [of TypeError] run res(1)
      by (auto simp: tool_text_def JSON_stringify_def split: if_splits option.splits)
  qed
  then obtain out m where answer: "onToolExec_claw E (cl_tools st) ?call a = (Inr (tool_result (Str ?id) out (Str m)), a')"
    and m: "key_ok m" and out: "out = Null \<or> buf_ok out"
    and reads: "agent_reads r = (if m \<noteq> [] then js ''tool error: '' @ m else b4a_toString (e_b4a E) (buf_of out))"
    unfolding said_def by blast
  have "ty_ok schema_depth f (js ''@bareclaw/tool-result'') (tool_result (Str ?id) out (Str m))"
    using m out key_ok_call_id by (auto simp: schema_tool_result tool_result_def key_ok_def)
  from tool_exec_wire [OF pair peer key_ok_call_id t args(2,3) answer this] show ?thesis
    using args(1) reads out by (cases "m = []"; cases out) (auto simp: jsTool_Execute_def Let_def schema_tool_result tool_result_def)
qed

section \<open>Registration\<close>

text \<open>A schema that can be sent: none, or a JSON object.\<close>

definition schema_sendable :: "jsval \<Rightarrow> bool" where
  "schema_sendable schema \<longleftrightarrow> schema = Null
     \<or> is_obj schema \<and> json_ok schema \<and> (\<exists>u. json_text schema = Some u \<and> length (utf8 u) < 2 ^ 32)"

text \<open>A bound on the text of a schema, which has no numbers in it.\<close>

fun json_size :: "jsval \<Rightarrow> nat" where
  "json_size (Str s) = 6 * length s + 2"
| "json_size (Arr xs) = 2 + sum_list (map (\<lambda>v. json_size v + 1) xs)"
| "json_size (Obj ps) = 2 + sum_list (map (\<lambda>(k, v). 6 * length k + json_size v + 4) ps)"
| "json_size v = 5"

fun no_numbers :: "jsval \<Rightarrow> bool" where
  "no_numbers (Arr xs) = (\<forall>v \<in> set xs. no_numbers v)"
| "no_numbers (Obj ps) = (\<forall>p \<in> set ps. no_numbers (snd p))"
| "no_numbers (Num i) = False"
| "no_numbers (Dbl t) = False"
| "no_numbers (Buf x) = False"
| "no_numbers v = True"

lemma length_commas: "length (commas ts) \<le> sum_list (map (\<lambda>t. length t + 1) ts)"
  by (induction ts rule: commas.induct) simp_all

lemma json_size: "no_numbers v \<Longrightarrow> json_text v = Some t \<Longrightarrow> length t \<le> json_size v"
proof (induction v arbitrary: t rule: json_text.induct)
  case (6 s)
  then show ?case
    using length_quote_chars [of s] by (auto simp: quote_string_def)
next
  case (8 xs)
  let ?F = "\<lambda>v. case json_text v of None \<Rightarrow> js ''null'' | Some t \<Rightarrow> t"
  have "length (?F v) + 1 \<le> json_size v + 1" if "v \<in> set xs" for v
    using 8(1) [OF that] 8(2) that by (cases "json_text v"; cases v) (auto simp: js_def)
  then have "sum_list (map (\<lambda>v. length (?F v) + 1) xs) \<le> sum_list (map (\<lambda>v. json_size v + 1) xs)"
    by (rule sum_list_mono)
  then show ?case
    using 8(3) length_commas [of "map ?F xs"] by (auto simp: comp_def)
next
  case (9 ps)
  let ?F = "\<lambda>(k, v). case json_text v of None \<Rightarrow> [] | Some t \<Rightarrow> [quote_string k @ 58 # t]"
  have "sum_list (map (\<lambda>t. length t + 1) (concat (map ?F qs))) \<le> sum_list (map (\<lambda>(k, v). 6 * length k + json_size v + 4) qs)"
    if "set qs \<subseteq> set ps" for qs
    using that
  proof (induction qs)
    case (Cons q qs)
    obtain k v where q: "q = (k, v)"
      by fastforce
    then have "length u \<le> json_size v" if "json_text v = Some u" for u
      using 9(1) [of q k v u] 9(2) Cons.prems that by force
    moreover have "length (quote_string k) \<le> 6 * length k + 2"
      using length_quote_chars [of k] by (simp add: quote_string_def)
    ultimately show ?case
      using Cons q by (cases "json_text v") fastforce+
  qed simp
  from this [OF subset_refl] show ?case
    using 9(3) length_commas [of "concat (map ?F ps)"] by auto
qed (simp_all add: js_def split: if_splits)

lemma schema_small:
  assumes "is_obj v" and "json_ok v" and "no_numbers v" and "json_size v < 2 ^ 30"
  shows "schema_sendable v"
proof -
  obtain t where t: "json_text v = Some t"
    using json_ok_text [OF assms(2)] by blast
  have "length (utf8 t) < 2 ^ 32"
    using json_size [OF assms(3) t] length_utf8 [of t] assms(4) by simp
  then show ?thesis
    using assms(1,2) t by (simp add: schema_sendable_def)
qed

lemma go_register:
  assumes pc: "picoclaw_ok pc" and live: "claw_live go_up ordered st" and n: "key_ok n" "key_ok d"
    and schema: "schema_sendable schema"
  shows "\<exists>st'. registerTool (go_env pc) (Str n) (Str d) schema (Some h) st = (Inr (), st')
    \<and> claw_live go_up ordered st' \<and> cl_opts st' = cl_opts st \<and> cl_store st' = cl_store st
    \<and> cl_tools st' = (cl_tools st)(Str n \<mapsto> h)
    \<and> lk_peer (cl_world st') = (lk_peer (cl_world st))
        \<lparr>gs_tools := gs_tools (lk_peer (cl_world st)) @ [\<lparr>jt_name = n, jt_description = d, jt_params = schema\<rparr>]\<rparr>"
proof -
  obtain u where schema: "schema = Null \<or> (\<exists>ps. schema = Obj ps) \<and> json_ok schema \<and> json_text schema = Some u \<and> length (utf8 u) < 2 ^ 32"
    using schema by (cases schema) (auto simp: schema_sendable_def)
  let ?inputSchema = "if truthy schema then Buf (utf8 u) else Null"
  have fits: "truthy schema \<Longrightarrow> utf8 u \<noteq> [] \<and> length (utf8 u) < 2 ^ 32 \<and> json_text schema = Some u"
    using schema json_sent [OF utf8_text.text_encoding_axioms, of schema u] by (auto simp: utf8_b4a_def)
  have params: "go_params utf8_b4a (if truthy schema then utf8 u else []) = Inr schema"
    using schema fits json_sent [OF utf8_text.text_encoding_axioms, of schema u] JSON_parse_text [of schema u id]
    by (auto simp: go_params_def utf8_b4a_def)
  let ?def = "Obj [(js ''name'', Str n), (js ''description'', Str d), (js ''inputSchema'', ?inputSchema)]"
  let ?w = "cl_world st" and ?t = "\<lparr>jt_name = n, jt_description = d, jt_params = schema\<rparr>"
  have ok: "ty_ok schema_depth ref_fmt (js ''@bareclaw/tool-def'') ?def"
    using n fits by (simp add: schema_tool_def key_ok_def)
  have handed: "handed ref_fmt (js ''@bareclaw/tool-def'') ?def = ?def"
    using fits by (simp add: handed_def schema_tool_def ref_fmt_def lengthed_def ref_uint_def)
  have served: "go_ToolRegister utf8_b4a (HRequest (handed ref_fmt (rpc_request (build_rpcs ! 7)) ?def)) (lk_peer ?w)
      = (Inr (Obj []), (lk_peer ?w)\<lparr>gs_tools := gs_tools (lk_peer ?w) @ [?t]\<rparr>)"
    using handed params by (cases "truthy schema") (simp_all add: go_ToolRegister_def build_rpcs_def unary_rpc_def Let_def)
  have d: "rpc_unary (build_rpcs ! 7)"
    by (simp add: rpc_unary_def build_rpcs_def unary_rpc_def)
  have "ty_ok schema_depth ref_fmt (rpc_request (build_rpcs ! 7)) ?def"
    using ok by (simp add: build_rpcs_def unary_rpc_def)
  from link_pair.call_returns_answer [of "build_rpcs ! 7" "js ''@bareclaw/empty''" "''@bareclaw/tool-register''" ?def "go_hs pc"
      "go_ToolRegister utf8_b4a" ?w, OF d _ _ this _ served]
  obtain w' where "toolRegister ref_cenc (link_lib (on_request ref_cenc (go_hs pc))) ?def ?w = (Inr (Obj []), w')"
    "lk_peer w' = (lk_peer ?w)\<lparr>gs_tools := gs_tools (lk_peer ?w) @ [?t]\<rparr>"
    by (auto simp: toolRegister_def build_rpcs_def unary_rpc_def go_handlers_at schema_empty)
  then show ?thesis
    using live fits
    by (cases "truthy schema") (auto simp: registerTool_def andthen_def ensure_open_def ret_def rpc_do_def claw_live_def go_up_def JSON_stringify_def
      utf8_b4a_def Let_def)
qed

text \<open>
  C7. A tool from registration to use.  Registering a tool on a live instance hands the agent
  loop one more tool, with the name, the description and the schema that were given.  When the
  loop executes it, over any transport to that instance, the handler runs once, on the value the
  arguments' bytes parse to; the loop is given the JSON of what it returned, nothing for no
  value, or the message of what it threw; only the counter of call ids has moved on the server,
  and the instance is as it was.
\<close>

theorem registered_tool_serves_the_agent:
  fixes h :: "'a tool"
  assumes pc: "picoclaw_ok pc" and live: "claw_live go_up ordered st"
    and tool: "key_ok n" "key_ok d" "schema_sendable schema"
    and pair: "hrpc_pair c f alloc rpc (claw_handlers (go_env pc)) peer"
    and args: "marshal args = Inr input" "input \<noteq> []" "length input < 2 ^ 32" "JSON_parse id (utf8_dec input) = Inr v"
    and ran: "h v a = (res, a')" "tool_text (go_env pc :: (goserver link, entries, 'a) env) res = Some r" "tool_text_fits utf8_b4a r"
  shows "\<exists>st' t. registerTool (go_env pc) (Str n) (Str d) schema (Some h) st = (Inr (), st')
    \<and> claw_live go_up ordered st' \<and> cl_tools st' = (cl_tools st)(Str n \<mapsto> h)
    \<and> gs_tools (lk_peer (cl_world st')) = gs_tools (lk_peer (cl_world st)) @ [t]
    \<and> jt_name t = n \<and> jt_description t = d \<and> jt_params t = schema
    \<and> (\<forall>w s. peer w = (st', a) \<longrightarrow>
        (\<exists>w'. jsTool_Execute utf8_b4a marshal (Inr (toolExec c rpc)) t args (s, w)
          = (agent_reads r, (s\<lparr>gs_calls := gs_calls s + 1\<rparr>, w')) \<and> peer w' = (st', a')))"
proof -
  let ?t = "\<lparr>jt_name = n, jt_description = d, jt_params = schema\<rparr>"
  obtain st' where reg: "registerTool (go_env pc) (Str n) (Str d) schema (Some h) st = (Inr (), st')"
    "claw_live go_up ordered st'" "cl_tools st' = (cl_tools st)(Str n \<mapsto> h)"
    "gs_tools (lk_peer (cl_world st')) = gs_tools (lk_peer (cl_world st)) @ [?t]"
    using go_register [OF pc live tool, of h] by auto
  have "\<exists>w'. jsTool_Execute utf8_b4a marshal (Inr (toolExec c rpc)) ?t args (s, w)
      = (agent_reads r, (s\<lparr>gs_calls := gs_calls s + 1\<rparr>, w')) \<and> peer w' = (st', a')" if "peer w = (st', a)" for w s
    using execute_answered [OF pair _ that, of ?t marshal args input v res a' r s] args ran tool(1) reg(3)
      utf8_text.text_encoding_axioms by (simp add: utf8_b4a_def)
  with reg show ?thesis
    by (intro exI [of _ st'] exI [of _ ?t]) simp
qed

text \<open>The arguments' encoder of the witness writes JSON.\<close>

definition json_marshal :: "jsval \<Rightarrow> (jsstring, bytes) sum" where
  "json_marshal v = (case json_text v of None \<Rightarrow> Inl (js ''unsupported type'') | Some t \<Rightarrow> Inr (utf8 t))"

theorem registered_tool_serves_the_agent_witness:
  "\<exists>st' t. registerTool echo_env (Str (js ''add'')) (Str (js ''adds'')) Null (Some adder) go_claw = (Inr (), st')
    \<and> gs_tools (lk_peer (cl_world st')) = [t] \<and> jt_name t = js ''add'' \<and> jt_params t = Null
    \<and> (\<exists>w'. jsTool_Execute utf8_b4a json_marshal
          (Inr (toolExec ref_cenc (link_lib (on_request ref_cenc (claw_handlers echo_env))))) t (Num 7)
          (go_fresh, link_start (st', 4)) = (js ''{\"got\":7}'', (go_fresh\<lparr>gs_calls := 1\<rparr>, w')) \<and> lk_peer w' = (st', 5))"
proof -
  have keys: "key_ok (js ''add'')" "key_ok (js ''adds'')"
    by (simp_all add: small_key js_def)
  have num: "json_ok (Num 7)" "json_text (Num 7) = Some (js ''7'')"
    by (simp_all add: safe_int_def int_text_def dec_nat_step js_def)
  have obj: "json_text (Obj [(js ''got'', Num 7)]) = Some (js ''{\"got\":7}'')"
    by (simp add: safe_int_def props_ok_def int_text_def dec_nat_step quote_string_def js_def escape_unit_def
      is_high_def is_low_def)
  have given: "json_marshal (Num 7) = Inr (utf8 (js ''7''))" "JSON_parse id (utf8_dec (utf8 (js ''7''))) = Inr (Num 7)"
    "utf8 (js ''7'') \<noteq> []" "length (utf8 (js ''7'')) < 2 ^ 32"
    using json_sent [OF utf8_text.text_encoding_axioms num] JSON_parse_text [OF num] length_utf8 [of "js ''7''"] num(2)
    by (simp_all add: json_marshal_def utf8_b4a_def)
  have "wf16 (js ''{\"got\":7}'')"
    by (rule wf16_small) (simp add: js_def)
  then have returned: "tool_text echo_env (Inr (Obj [(js ''got'', Num 7)])) = Some (Inr (Some (js ''{\"got\":7}'')))"
    "tool_text_fits utf8_b4a (Inr (Some (js ''{\"got\":7}'')))"
    using length_utf8 [of "js ''{\"got\":7}''"] obj
    by (simp_all add: tool_text_def tool_text_fits_def JSON_stringify_def utf8_b4a_def js_def)
  have tool: "schema_sendable Null" "adder (Num 7) 4 = (Inr (Obj [(js ''got'', Num 7)]), 5)"
    by (simp_all add: schema_sendable_def adder_def)
  have start: "gs_tools (lk_peer (cl_world go_claw)) = []" "gs_calls go_fresh = 0" "lk_peer (link_start p) = p" for p :: 'p
    by (simp_all add: link_start_def go_fresh_def go_claw_def claw_new_def)
  from registered_tool_serves_the_agent [where h = adder and a = "4 :: nat" and v = "Num 7" and peer = lk_peer
      and c = ref_cenc and marshal = json_marshal and args = "Num 7",
      OF echo_ok go_claw_live keys tool(1) link_pair.hrpc_pair_axioms given(1,3,4,2) tool(2) returned]
  obtain st' t where "registerTool echo_env (Str (js ''add'')) (Str (js ''adds'')) Null (Some adder) go_claw = (Inr (), st')"
      "gs_tools (lk_peer (cl_world st')) = [t]" "jt_name t = js ''add''" "jt_params t = Null"
    and call: "\<forall>w s. lk_peer w = (st', 4) \<longrightarrow> (\<exists>w'. jsTool_Execute utf8_b4a json_marshal
        (Inr (toolExec ref_cenc (link_lib (on_request ref_cenc (claw_handlers echo_env))))) t (Num 7) (s, w)
        = (agent_reads (Inr (Some (js ''{\"got\":7}''))), (s\<lparr>gs_calls := gs_calls s + 1\<rparr>, w')) \<and> lk_peer w' = (st', 5))"
    unfolding start(1) append_Nil by blast
  then show ?thesis
    using call [rule_format, of "link_start (st', 4)" go_fresh] by (auto simp: start)
qed

end
