(* ===== verification/Scan.thy ===== *)
theory Scan
  imports Chat_Loop Js_Text
begin

text \<open>
  The two scanning examples.  src/examples/peer-scan-tool.js gives an agent a tool that counts the peers
  on a topic; src/examples/dht-rpc.js asks an agent with the tools of p2p.js to use them and scans
  the topic itself when it thinks the agent did not.  The swarm is a parameter: the public keys of
  the connections a scan sees.
\<close>

section \<open>Counting peers\<close>

text \<open>\<open>seen.add\<close> at each connection, and \<open>seen.size\<close> at the end.\<close>

definition scanPeers :: "(bytes \<Rightarrow> jsstring) \<Rightarrow> bytes list \<Rightarrow> int" where
  "scanPeers hex conns = int (length (fold (\<lambda>publicKey. set_add (hex publicKey)) conns []))"

text \<open>The tool keeps the last count; \<open>net n\<close> is the connections of the n-th scan.\<close>

record scanner =
  sn_lastCount :: jsval
  sn_scans :: nat

definition scanner_new :: scanner where
  "scanner_new = \<lparr>sn_lastCount = Null, sn_scans = 0\<rparr>"

definition scan_peers :: "(bytes \<Rightarrow> jsstring) \<Rightarrow> (nat \<Rightarrow> bytes list) \<Rightarrow> scanner tool" where
  "scan_peers hex net input st =
     (let count = Num (scanPeers hex (net (sn_scans st)))
      in (Inr (Obj [(js ''peers'', count)]), \<lparr>sn_lastCount = count, sn_scans = Suc (sn_scans st)\<rparr>))"

definition register_scan ::
    "('w, 'b, scanner) env \<Rightarrow> (bytes \<Rightarrow> jsstring) \<Rightarrow> (nat \<Rightarrow> bytes list) \<Rightarrow> ('w, 'b, scanner, unit) act" where
  "register_scan E hex net = registerTool E (Str (js ''scan_peers''))
     (Str (js ''Join the P2P lobby, count how many peers are currently online, then leave. Returns the count.''))
     (Obj [(js ''type'', Str (js ''object'')), (js ''properties'', Obj []), (js ''additionalProperties'', Bool False)])
     (Some (scan_peers hex net))"

text \<open>The answer that is printed, and the scan of its own when the tool never ran.\<close>

definition scan_question :: jsstring where
  "scan_question = js ''Use the scan_peers tool to find how many peers are online right now, then tell me just the number.''"

definition scan_answer :: "jsstring \<Rightarrow> jsstring" where
  "scan_answer answer = (if trim answer \<noteq> [] then trim answer else js ''(no text)'')"

definition scan_chat ::
    "('w, 'b, scanner) env \<Rightarrow> jsval \<Rightarrow> ('w, 'b, scanner) claw \<Rightarrow> (jsstring result \<times> ('w, 'b, scanner) claw) option" where
  "scan_chat E key st =
     map_option (\<lambda>(r, st). (rbind r (\<lambda>answer. Inr (scan_answer answer)), st))
       (chat_loop E (\<lambda>answer v. answer @ content_text (e_b4a E) v) (chat key (Str scan_question) Undef) [] st)"

definition scan_fallback :: "(bytes \<Rightarrow> jsstring) \<Rightarrow> (nat \<Rightarrow> bytes list) \<Rightarrow> scanner \<Rightarrow> int option" where
  "scan_fallback hex net st =
     (if sn_lastCount st = Null then Some (scanPeers hex (net (sn_scans st))) else None)"

section \<open>Asking for the tools\<close>

definition TOPIC_NAME :: jsstring where
  "TOPIC_NAME = js ''bareclaw:p2p-demo:v1''"

definition demo_prompt :: jsstring where
  "demo_prompt =
     js ''You have access to P2P networking tools. Please do the following steps in order:'' @ [10] @
     js ''1. Join the Hyperswarm topic named \"'' @ TOPIC_NAME @ js ''\" using swarm_join.'' @ [10] @
     js ''2. Check how many peers are connected with swarm_peers.'' @ [10] @
     js ''3. Broadcast the message \"hello from the AI agent\" from \"agent\" using swarm_broadcast.'' @ [10] @
     js ''4. Wait a moment, then read any replies with swarm_messages.'' @ [10] @
     js ''5. Close the swarm with swarm_close.'' @ [10] @
     js ''Report what you found at each step.''"

text \<open>The body of the loop: the reply so far, and whether the agent called a tool.\<close>

definition demo_chunk :: "b4a \<Rightarrow> jsstring \<times> bool \<Rightarrow> jsval \<Rightarrow> jsstring \<times> bool" where
  "demo_chunk b s v =
     (fst s @ content_text b v, snd s \<or> field v (js ''type'') = Str (js ''tool_call''))"

definition demo_chat ::
    "('w, 'b, 'a) env \<Rightarrow> jsval \<Rightarrow> ('w, 'b, 'a) claw \<Rightarrow> ((jsstring \<times> bool) result \<times> ('w, 'b, 'a) claw) option" where
  "demo_chat E key = chat_loop E (demo_chunk (e_b4a E)) (chat key (Str demo_prompt) Undef) ([], False)"

definition demo_fallback :: "(bytes \<Rightarrow> jsstring) \<Rightarrow> bytes list \<Rightarrow> bool \<Rightarrow> int option" where
  "demo_fallback hex conns agentCalledTools = (if \<not> agentCalledTools then Some (scanPeers hex conns) else None)"

section \<open>Lemmas\<close>

lemma scan_seen:
  "distinct xs \<Longrightarrow> set (fold (\<lambda>k. set_add (hex k)) conns xs) = set xs \<union> hex ` set conns
    \<and> distinct (fold (\<lambda>k. set_add (hex k)) conns xs)"
  by (induction conns arbitrary: xs) (auto simp: set_set_add distinct_set_add)

text \<open>A scan counts the distinct peers.\<close>

lemma scan_counts_peers: "scanPeers hex conns = int (card (hex ` set conns))"
proof -
  have "set (fold (\<lambda>k. set_add (hex k)) conns []) = hex ` set conns" "distinct (fold (\<lambda>k. set_add (hex k)) conns [])"
    using scan_seen [of "[]" hex conns] by auto
  then show ?thesis
    by (metis distinct_card scanPeers_def)
qed

text \<open>The tool's answer is the count, and once it has run there is no scan of the example's own.\<close>

lemma scan_tool:
  "scan_peers hex net input st = (r, st') \<Longrightarrow>
    r = Inr (Obj [(js ''peers'', Num (int (card (hex ` set (net (sn_scans st))))))]) \<and> scan_fallback hex net st' = None"
  by (auto simp: scan_peers_def scan_fallback_def scan_counts_peers Let_def)

lemma demo_chunks: "foldl (demo_chunk b) s vs
    = (fst s @ concat (map (content_text b) vs), snd s \<or> (\<exists>v \<in> set vs. field v (js ''type'') = Str (js ''tool_call'')))"
  by (induction vs arbitrary: s) (auto simp: demo_chunk_def)

lemma shown_not_tool_call: "c \<in> set (go_chunks r streamed) \<Longrightarrow> field (shown c) (js ''type'') \<noteq> Str (js ''tool_call'')"
  by (auto simp: go_chunks_def chunk_def shown_def chat_value_def split: sum.splits if_splits)

lemma key_ok_demo_prompt: "key_ok demo_prompt"
  by (rule small_key) (simp_all add: demo_prompt_def TOPIC_NAME_def js_def)

text \<open>
  A tool call is never noticed.  The agent's process streams chunks of content and a final chunk, never one of
  type tool_call; so whatever the agent did in its turn, the loop of dht-rpc.js ends with
  \<open>agentCalledTools\<close> false, and the direct scan meant for models that call no tools always runs.
\<close>

theorem tool_calls_are_never_noticed:
  assumes "picoclaw_ok pc" and "pc_provider_error pc = None" and "claw_live go_up ordered st"
    and "key_ok k" and "opts_ok (cl_opts st)"
    and "pc_turn pc demo_prompt (gs_sessions (lk_peer (cl_world st)) k) = (r, streamed, left)"
    and "\<forall>t \<in> set streamed. key_ok t" and "case r of Inl e \<Rightarrow> key_ok e | Inr t \<Rightarrow> key_ok t"
  shows "\<exists>reply called st'. demo_chat (go_env pc) (Str k) st = Some (Inr (reply, called), st')
    \<and> demo_fallback hex conns called = Some (int (card (hex ` set conns)))"
proof -
  from chat_loop_turn [OF assms(1-4) key_ok_demo_prompt assms(5-8), of "demo_chunk utf8_b4a" "([], False)"] obtain st' where
    "demo_chat (go_env pc) (Str k) st = Some (Inr (foldl (demo_chunk utf8_b4a) ([], False) (map shown (go_chunks r streamed))), st')"
    by (auto simp: demo_chat_def)
  then show ?thesis
    using shown_not_tool_call [of _ r streamed] by (auto simp: demo_chunks demo_fallback_def scan_counts_peers)
qed

theorem tool_calls_are_never_noticed_witness:
  "\<exists>reply called st'. demo_chat echo_env (Str (js ''s'')) go_claw = Some (Inr (reply, called), st')
    \<and> demo_fallback (\<lambda>k. js ''k'') [[1], [2]] called = Some 1"
proof -
  have turn: "pc_turn echo_picoclaw demo_prompt ses = (Inr (js ''ok''), [], ([Str demo_prompt], []))" for ses
    by (simp add: echo_picoclaw_def demo_prompt_def TOPIC_NAME_def)
  have ok: "key_ok (js ''ok'')" and pc: "pc_provider_error echo_picoclaw = None"
    by (simp_all add: small_key js_def echo_picoclaw_def go_claw_def claw_new_def)
  show ?thesis
    using tool_calls_are_never_noticed [OF echo_ok pc go_claw_live echo_key_s go_claw_opts turn, of "\<lambda>k. js ''k''" "[[1], [2]]"] ok
    by simp
qed

end
