(* ===== verification/Programs.thy ===== *)
theory Programs
  imports Session_Book Go_Tools Scan P2P_Registration
begin

text \<open>
  The example programs as wholes: src/example.js and the \<open>main\<close> functions of
  src/examples/peer-scan-tool.js and src/examples/dht-rpc.js.  A run has one instance of the class and
  a trace of its effects (what it opens, joins, prints and releases), each of which the host may
  refuse by throwing.  Peers are what their packages make of them and are not part of a run.
\<close>

section \<open>Runs\<close>

datatype resource =
    Corestore jsstring
  | Decoy nat
  | Scanner
  | Swarm jsstring
  | Node jsstring
  | Socket jsstring
  | Server
  | HubNode

text \<open>
  \<open>Opened\<close> is a constructor (with \<open>ready\<close> for a store), \<open>Released\<close> is \<open>close\<close> or \<open>destroy\<close>;
  \<open>Joined\<close> a topic, with the two flags of its options; \<open>Wrote\<close> is a path and the text written to it,
  \<open>Output\<close> what is given to \<open>process.stdout.write\<close>.
\<close>

datatype effect =
    Opened resource
  | Joined resource bytes bool bool
  | Flushed resource
  | Waited nat
  | Printed jsstring
  | Logged jsval
  | Wrote jsstring jsstring
  | Output jsval
  | LoggedError thrown
  | Released resource

record ('w, 'b, 'a) run =
  rn_claw :: "('w, 'b, 'a) claw"
  rn_tools :: 'a
  rn_trace :: "effect list"

text \<open>A program: \<open>None\<close> is one that never returns.\<close>

type_synonym ('s, 'x) prog = "'s \<Rightarrow> ('x result \<times> 's) option"

definition pthen :: "('s, 'x) prog \<Rightarrow> ('x \<Rightarrow> ('s, 'y) prog) \<Rightarrow> ('s, 'y) prog" where
  "pthen m f s = (case m s of None \<Rightarrow> None | Some (Inl e, s) \<Rightarrow> Some (Inl e, s) | Some (Inr x, s) \<Rightarrow> f x s)"

definition pret :: "'x \<Rightarrow> ('s, 'x) prog" where
  "pret x s = Some (Inr x, s)"

fun peach :: "('y \<Rightarrow> ('s, unit) prog) \<Rightarrow> 'y list \<Rightarrow> ('s, unit) prog" where
  "peach f [] = pret ()"
| "peach f (y # ys) = pthen (f y) (\<lambda>_. peach f ys)"

text \<open>The host, which says of each effect what it throws, if anything.\<close>

type_synonym host = "effect \<Rightarrow> thrown option"

definition effect :: "host \<Rightarrow> effect \<Rightarrow> (('w, 'b, 'a) run, unit) prog" where
  "effect host e s = (case host e of Some err \<Rightarrow> Some (Inl err, s) | None \<Rightarrow> Some (Inr (), s\<lparr>rn_trace := rn_trace s @ [e]\<rparr>))"

text \<open>A call of a method of the class; a loop over a chat; \<open>close\<close>.\<close>

definition on_instance :: "('w, 'b, 'a, 'x) act \<Rightarrow> (('w, 'b, 'a) run, 'x) prog" where
  "on_instance m s = (case m (rn_claw s) of (r, st) \<Rightarrow> Some (r, s\<lparr>rn_claw := st\<rparr>))"

definition on_loop :: "(('w, 'b, 'a) claw \<Rightarrow> ('x result \<times> ('w, 'b, 'a) claw) option) \<Rightarrow> (('w, 'b, 'a) run, 'x) prog" where
  "on_loop m s = map_option (\<lambda>(r, st). (r, s\<lparr>rn_claw := st\<rparr>)) (m (rn_claw s))"

definition close_instance :: "('w, 'b, 'a) env \<Rightarrow> (('w, 'b, 'a) run, unit) prog" where
  "close_instance E s = (case claw_close E (rn_claw s) of (None, st) \<Rightarrow> None | (Some r, st) \<Rightarrow> Some (r, s\<lparr>rn_claw := st\<rparr>))"

text \<open>
  \<open>for await (const chunk of gen)\<close> with a body that only has effects, and no \<open>break\<close>.  A body that throws
  leaves the loop: the generator is returned, and what was thrown goes on.
\<close>

definition thrown_out :: "('w, 'b, 'a) env \<Rightarrow> gen \<Rightarrow> thrown \<Rightarrow> ('w, 'b, 'a) run \<Rightarrow> 'x result \<times> ('w, 'b, 'a) run" where
  "thrown_out E g err s = (Inl err, s\<lparr>rn_claw := snd (chat_return E g (rn_claw s))\<rparr>)"

partial_function (option) for_await ::
    "('w, 'b, 'a) env \<Rightarrow> host \<Rightarrow> (jsval \<Rightarrow> effect) \<Rightarrow> gen \<Rightarrow> ('w, 'b, 'a) run \<Rightarrow> (unit result \<times> ('w, 'b, 'a) run) option" where
  "for_await E host body g s =
     (case chat_next E g (rn_claw s) of
        ((Inl e, g), st) \<Rightarrow> Some (Inl e, s\<lparr>rn_claw := st\<rparr>)
      | ((Inr Finished, g), st) \<Rightarrow> Some (Inr (), s\<lparr>rn_claw := st\<rparr>)
      | ((Inr (Yields v), g), st) \<Rightarrow>
          (case host (body v) of
             Some err \<Rightarrow> Some (thrown_out E g err (s\<lparr>rn_claw := st\<rparr>))
           | None \<Rightarrow> for_await E host body g (s\<lparr>rn_claw := st, rn_trace := rn_trace s @ [body v]\<rparr>)))"

text \<open>The same with a state and a \<open>break\<close> at a done chunk.  \<open>perform\<close>: effects up to one that is refused.\<close>

fun perform :: "host \<Rightarrow> effect list \<Rightarrow> thrown option \<times> effect list" where
  "perform host [] = (None, [])"
| "perform host (e # es) = (case host e of Some err \<Rightarrow> (Some err, []) | None \<Rightarrow> apsnd (Cons e) (perform host es))"

partial_function (option) for_chat ::
    "('w, 'b, 'a) env \<Rightarrow> host \<Rightarrow> ('x \<Rightarrow> jsval \<Rightarrow> 'x) \<Rightarrow> (jsval \<Rightarrow> effect list) \<Rightarrow> gen \<Rightarrow> 'x \<Rightarrow> ('w, 'b, 'a) run
      \<Rightarrow> ('x result \<times> ('w, 'b, 'a) run) option" where
  "for_chat E host f body g out s =
     (case chat_next E g (rn_claw s) of
        ((Inl e, g), st) \<Rightarrow> Some (Inl e, s\<lparr>rn_claw := st\<rparr>)
      | ((Inr Finished, g), st) \<Rightarrow> Some (Inr out, s\<lparr>rn_claw := st\<rparr>)
      | ((Inr (Yields v), g), st) \<Rightarrow>
          (case perform host (body v) of
             (Some err, tr) \<Rightarrow> Some (thrown_out E g err (s\<lparr>rn_claw := st, rn_trace := rn_trace s @ tr\<rparr>))
           | (None, tr) \<Rightarrow>
               let out = f out v; tr = rn_trace s @ tr
               in if truthy (field v (js ''done''))
                  then (case chat_return E g st of
                          ((Inl e, g), st) \<Rightarrow> Some (Inl e, s\<lparr>rn_claw := st, rn_trace := tr\<rparr>)
                        | ((Inr _, g), st) \<Rightarrow> Some (Inr out, s\<lparr>rn_claw := st, rn_trace := tr\<rparr>))
                  else for_chat E host f body g out (s\<lparr>rn_claw := st, rn_trace := tr\<rparr>)))"

section \<open>src/example.js\<close>

definition example_prompt :: jsstring where
  "example_prompt = js ''Reply with exactly one word.''"

definition example_opts :: jsval where
  "example_opts = Obj [(js ''provider'', Str (js ''ollama'')), (js ''model'', Str (js ''llama3.2''))]"

definition example_scope :: jsval where
  "example_scope = Obj [(js ''agentId'', Str (js ''test'')), (js ''channel'', Str (js ''chat-test''))]"

definition example_main :: "('w, 'b, 'a) env \<Rightarrow> host \<Rightarrow> (('w, 'b, 'a) run, unit) prog" where
  "example_main E host =
     pthen (effect host (Opened (Corestore (js ''./store'')))) (\<lambda>_.
     pthen (on_instance (e_ready E)) (\<lambda>_.
     pthen (on_instance (session E example_scope)) (\<lambda>key.
     pthen (for_await E host Logged (chat key (Str example_prompt) Undef)) (\<lambda>_.
     close_instance E))))"

text \<open>\<open>main().catch(console.error)\<close>, on a new instance over the store's entries.\<close>

definition run_start :: "jsval \<Rightarrow> 'w \<Rightarrow> 'b \<Rightarrow> 'a \<Rightarrow> ('w, 'b, 'a) run" where
  "run_start opts w b tools = \<lparr>rn_claw = claw_new opts w b, rn_tools = tools, rn_trace = []\<rparr>"

definition example_program :: "('w, 'b, unit) env \<Rightarrow> host \<Rightarrow> 'w \<Rightarrow> 'b \<Rightarrow> ('w, 'b, unit) run option" where
  "example_program E host w b =
     (case example_main E host (run_start example_opts w b ()) of
        None \<Rightarrow> None
      | Some (Inl e, s) \<Rightarrow> Some (s\<lparr>rn_trace := rn_trace s @ [LoggedError e]\<rparr>)
      | Some (Inr _, s) \<Rightarrow> Some s)"

section \<open>The decoys of the scanning examples\<close>

definition DECOYS :: nat where
  "DECOYS = 3"

text \<open>A decoy of dht-rpc.js answers whatever it is sent.\<close>

definition decoy_reply :: "b4a \<Rightarrow> nat \<Rightarrow> bytes \<Rightarrow> bytes" where
  "decoy_reply b i data = b4a_from b (js ''decoy-'' @ dec_nat i @ js '': '' @ [0xD83D, 0xDC4B] @ js '' hello from the mesh'')"

definition put_decoy :: "host \<Rightarrow> bytes \<Rightarrow> nat \<Rightarrow> (('w, 'b, 'a) run, unit) prog" where
  "put_decoy host topic i = pthen (effect host (Opened (Decoy i))) (\<lambda>_. effect host (Joined (Decoy i) topic True True))"

text \<open>
  A scan of the examples' own: a swarm that joins as a client, waits and is destroyed.  The one of dht-rpc.js
  counts when it is destroyed, the one of peer-scan-tool.js before.
\<close>

definition scanTopic :: "host \<Rightarrow> (bytes \<Rightarrow> jsstring) \<Rightarrow> bytes \<Rightarrow> nat \<Rightarrow> bytes list \<Rightarrow> (('w, 'b, 'a) run, int) prog" where
  "scanTopic host hex topic ms conns =
     pthen (effect host (Opened Scanner)) (\<lambda>_.
     pthen (effect host (Joined Scanner topic False True)) (\<lambda>_.
     pthen (effect host (Flushed Scanner)) (\<lambda>_.
     pthen (effect host (Waited ms)) (\<lambda>_.
     pthen (effect host (Released Scanner)) (\<lambda>_.
     pret (scanPeers hex conns))))))"

definition sleep :: "host \<Rightarrow> nat \<Rightarrow> (('w, 'b, 'a) run, unit) prog" where
  "sleep host ms = effect host (Waited ms)"

definition scanLobby :: "host \<Rightarrow> (bytes \<Rightarrow> jsstring) \<Rightarrow> bytes \<Rightarrow> nat \<Rightarrow> bytes list \<Rightarrow> (('w, 'b, 'a) run, int) prog" where
  "scanLobby host hex topic ms conns =
     pthen (effect host (Opened Scanner)) (\<lambda>_.
     pthen (effect host (Joined Scanner topic False True)) (\<lambda>_.
     pthen (effect host (Flushed Scanner)) (\<lambda>_.
     pthen (sleep host ms) (\<lambda>_.
     let count = scanPeers hex conns in
     pthen (effect host (Released Scanner)) (\<lambda>_.
     pret count)))))"

definition WAIT_MS :: nat where
  "WAIT_MS = 3000"

definition SCAN_MS :: nat where
  "SCAN_MS = 4000"

section \<open>src/examples/peer-scan-tool.js\<close>

text \<open>\<open>fill n s\<close> is \<open>b4a.alloc(n, s)\<close>; \<open>calls\<close> is the inputs of the agent's tool calls in its turn.\<close>

definition LOBBY :: "(nat \<Rightarrow> jsstring \<Rightarrow> bytes) \<Rightarrow> bytes" where
  "LOBBY fill = fill 32 (js ''bareclaw:lobby:v1'')"

definition scan_opts :: jsval where
  "scan_opts = Obj [(js ''provider'', Str (js ''ollama'')), (js ''model'', Str (js ''llama3.2''))]"

definition scan_scope :: jsval where
  "scan_scope = Obj [(js ''agentId'', Str (js ''scanner'')), (js ''channel'', Str (js ''ops''))]"

definition tools_now :: "(('w, 'b, 'a) run, 'a) prog" where
  "tools_now s = Some (Inr (rn_tools s), s)"

definition scan_tool_line :: "int \<Rightarrow> jsstring" where
  "scan_tool_line n = [0xD83D, 0xDD27] @ js '' scan_peers ran '' @ [0x2192] @ js '' found '' @ int_text n @ js '' peer(s)''"

text \<open>
  A call of the tool: the scan, the count it keeps, and a line.  What it throws goes to the agent
  (\<open>_onToolExec\<close> of the class), not to the program.
\<close>

definition scan_call :: "host \<Rightarrow> (nat \<Rightarrow> jsstring \<Rightarrow> bytes) \<Rightarrow> (bytes \<Rightarrow> jsstring) \<Rightarrow> (nat \<Rightarrow> bytes list) \<Rightarrow> jsval
    \<Rightarrow> (('w, 'b, scanner) run, unit) prog" where
  "scan_call host fill hex net input s =
     map_option (\<lambda>(_, s). (Inr (), s))
       (pthen tools_now (\<lambda>sn.
        pthen (scanLobby host hex (LOBBY fill) SCAN_MS (net (sn_scans sn))) (\<lambda>n.
        pthen (\<lambda>s. Some (Inr (), s\<lparr>rn_tools := snd (scan_peers hex net input sn)\<rparr>)) (\<lambda>_.
        effect host (Printed (scan_tool_line n))))) s)"

definition scan_start :: "('w, 'b, scanner) env \<Rightarrow> host \<Rightarrow> (nat \<Rightarrow> jsstring \<Rightarrow> bytes) \<Rightarrow> (bytes \<Rightarrow> jsstring) \<Rightarrow> (nat \<Rightarrow> bytes list)
    \<Rightarrow> (('w, 'b, scanner) run, jsval) prog" where
  "scan_start E host fill hex net =
     pthen (peach (put_decoy host (LOBBY fill)) [0..<DECOYS]) (\<lambda>_.
     pthen (effect host (Printed ([0xD83D, 0xDC1D] @ js '' '' @ dec_nat DECOYS @ js '' decoy peers are sitting in the lobby''))) (\<lambda>_.
     pthen (effect host (Opened (Corestore (js ''./store-scanner'')))) (\<lambda>_.
     pthen (on_instance (e_ready E)) (\<lambda>_.
     pthen (on_instance (register_scan E hex net)) (\<lambda>_.
     on_instance (session E scan_scope))))))"

definition scan_finish :: "('w, 'b, 'a) env \<Rightarrow> host \<Rightarrow> jsstring \<Rightarrow> jsstring \<Rightarrow> (('w, 'b, 'a) run, unit) prog" where
  "scan_finish E host path ending =
     pthen (close_instance E) (\<lambda>_.
     pthen (effect host (Released (Corestore path))) (\<lambda>_.
     pthen (peach (\<lambda>i. effect host (Released (Decoy i))) [0..<DECOYS]) (\<lambda>_.
     effect host (Printed ending))))"

definition direct_line :: "int \<Rightarrow> jsstring" where
  "direct_line n = [10] @ js ''(direct call) scan_peers '' @ [0x2192] @ js '' '' @ int_text n @ js '' peer(s) ''
     @ [0x2014] @ js '' capable models invoke this themselves''"

definition scan_main :: "('w, 'b, scanner) env \<Rightarrow> host \<Rightarrow> (nat \<Rightarrow> jsstring \<Rightarrow> bytes) \<Rightarrow> (bytes \<Rightarrow> jsstring) \<Rightarrow> (nat \<Rightarrow> bytes list)
    \<Rightarrow> jsval list \<Rightarrow> (('w, 'b, scanner) run, unit) prog" where
  "scan_main E host fill hex net calls =
     pthen (scan_start E host fill hex net) (\<lambda>key.
     pthen (effect host (Printed ([10, 0xD83E, 0xDD16] @ js '' asking the agent to scan the lobby'' @ [0x2026, 10]))) (\<lambda>_.
     pthen (peach (scan_call host fill hex net) calls) (\<lambda>_.
     pthen (on_loop (scan_chat E key)) (\<lambda>answer.
     pthen (effect host (Printed ([0xD83D, 0xDDE3, 0xFE0F] @ js ''  agent: '' @ answer))) (\<lambda>_.
     pthen tools_now (\<lambda>sn.
     pthen (if sn_lastCount sn = Null
            then pthen (scanLobby host hex (LOBBY fill) SCAN_MS (net (sn_scans sn))) (\<lambda>n. effect host (Printed (direct_line n)))
            else pret ()) (\<lambda>_.
     scan_finish E host (js ''./store-scanner'') ([10, 0x2705] @ js '' done''))))))))"

section \<open>src/examples/dht-rpc.js\<close>

definition demo_opts :: jsval where
  "demo_opts = Obj [(js ''provider'', Str (js ''ollama'')), (js ''model'', Str (js ''lfm2.5''))]"

definition demo_scope :: jsval where
  "demo_scope = Obj [(js ''agentId'', Str (js ''p2p-agent'')), (js ''channel'', Str (js ''demo''))]"

text \<open>\<open>topic\<close> is the SHA-256 of the name; \<open>conns\<close> is the peers the direct scan sees.\<close>

definition demo_start :: "('w, 'b, 'n p2p) env \<Rightarrow> host \<Rightarrow> 'n p2p_lib \<Rightarrow> bytes \<Rightarrow> (('w, 'b, 'n p2p) run, jsval) prog" where
  "demo_start E host L topic =
     pthen (peach (put_decoy host topic) [0..<DECOYS]) (\<lambda>_.
     pthen (peach (\<lambda>i. effect host (Flushed (Decoy i))) [0..<DECOYS]) (\<lambda>_.
     pthen (effect host (Printed ([0xD83D, 0xDC1D] @ js '' '' @ dec_nat DECOYS @ js '' decoy peers are live on the topic'' @ [10]))) (\<lambda>_.
     pthen (effect host (Opened (Corestore (js ''./store-p2p-agent'')))) (\<lambda>_.
     pthen (on_instance (e_ready E)) (\<lambda>_.
     pthen (on_instance (registerP2PTools E L)) (\<lambda>_.
     on_instance (session E demo_scope)))))))"

definition demo_direct :: "host \<Rightarrow> (bytes \<Rightarrow> jsstring) \<Rightarrow> bytes \<Rightarrow> bytes list \<Rightarrow> (('w, 'b, 'a) run, unit) prog" where
  "demo_direct host hex topic conns =
     pthen (effect host (Printed (js ''(model did not call tools '' @ [0x2014] @ js '' running direct-call fallback)'' @ [10]))) (\<lambda>_.
     pthen (scanTopic host hex topic WAIT_MS conns) (\<lambda>found.
     pthen (effect host (Printed ([0xD83D, 0xDD27] @ js '' direct scan '' @ [0x2192] @ js '' found '' @ int_text found
       @ js '' peer(s) on \"'' @ TOPIC_NAME @ js ''\"''))) (\<lambda>_.
     effect host (Printed (js ''   (a capable model calls swarm_join/swarm_broadcast/etc. itself)'' @ [10])))))"

text \<open>The loop writes the content of a chunk as it comes.\<close>

definition demo_write :: "jsval \<Rightarrow> effect list" where
  "demo_write v = (if field v (js ''type'') = Str (js ''content'') then [Output (field v (js ''content''))] else [])"

definition demo_loop :: "('w, 'b, 'a) env \<Rightarrow> host \<Rightarrow> jsval \<Rightarrow> (('w, 'b, 'a) run, jsstring \<times> bool) prog" where
  "demo_loop E host key = for_chat E host (demo_chunk (e_b4a E)) demo_write (chat key (Str demo_prompt) Undef) ([], False)"

definition demo_main :: "('w, 'b, 'n p2p) env \<Rightarrow> host \<Rightarrow> 'n p2p_lib \<Rightarrow> (bytes \<Rightarrow> jsstring) \<Rightarrow> bytes \<Rightarrow> bytes list
    \<Rightarrow> (('w, 'b, 'n p2p) run, unit) prog" where
  "demo_main E host L hex topic conns =
     pthen (demo_start E host L topic) (\<lambda>key.
     pthen (effect host (Printed ([0xD83E, 0xDD16] @ js '' agent ready '' @ [0x2014] @ js '' tools registered'' @ [10]))) (\<lambda>_.
     pthen (effect host (Printed ([0xD83D, 0xDCCB] @ js '' prompt: '' @ demo_prompt @ js '' '' @ [10]))) (\<lambda>_.
     pthen (demo_loop E host key) (\<lambda>(reply, agentCalledTools).
     pthen (effect host (Printed [10])) (\<lambda>_.
     pthen (if \<not> agentCalledTools then demo_direct host hex topic conns else pret ()) (\<lambda>_.
     scan_finish E host (js ''./store-p2p-agent'') ([0x2705] @ js '' done'')))))))"

section \<open>Parts of a run\<close>

named_theorems prog_simps

declare pthen_def [prog_simps] pret_def [prog_simps] effect_def [prog_simps] on_instance_def [prog_simps]
  on_loop_def [prog_simps] close_instance_def [prog_simps]

text \<open>A loop without \<open>break\<close> sees what a consumer sees that takes more chunks than there are.\<close>

lemma for_await_consume:
  assumes "consume E n g (rn_claw s) = ((vs, Inr ()), st')" and "length vs < n" and host: "\<And>e. host e = None"
  shows "for_await E host body g s = Some (Inr (), s\<lparr>rn_claw := st', rn_trace := rn_trace s @ map body vs\<rparr>)"
  using assms(1,2)
proof (induction n arbitrary: g s vs)
  case (Suc n)
  obtain x g1 st1 where step: "chat_next E g (rn_claw s) = ((x, g1), st1)"
    by (metis surj_pair)
  show ?case
  proof (cases "\<exists>v. x = Inr (Yields v)")
    case False
    then have "x = Inr Finished" "vs = []" "st' = st1"
      using Suc.prems(1) step by (auto split: sum.splits iter.splits)
    then show ?thesis
      using step by (subst for_await.simps) simp
  next
    case True
    then obtain v ws where v: "x = Inr (Yields v)" "vs = v # ws" "consume E n g1 st1 = ((ws, Inr ()), st')"
      using Suc.prems(1) step by (auto split: prod.splits)
    let ?s = "s\<lparr>rn_claw := st1, rn_trace := rn_trace s @ [body v]\<rparr>"
    have "for_await E host body g1 ?s = Some (Inr (), ?s\<lparr>rn_claw := st', rn_trace := rn_trace ?s @ map body ws\<rparr>)"
      using Suc.IH [of g1 ?s ws] v Suc.prems(2) by simp
    then show ?thesis
      using step v host by (subst for_await.simps) simp
  qed
qed simp

text \<open>A loop with \<open>break\<close> is the loop of Chat_Loop that collects its effects, where that comes to its end.\<close>

lemma perform_willing: "(\<And>e. host e = None) \<Longrightarrow> perform host es = (None, es)"
  by (induction es) simp_all

lemma for_chat_collects_loop:
  assumes host: "\<And>e. host e = None" and "chat_loop E h' g o1 st = Some r"
  shows "\<forall>s. h' = (\<lambda>o1 v. (f (fst o1) v, snd o1 @ body v)) \<longrightarrow> r = (Inr (x', tr'), st') \<longrightarrow> rn_claw s = st \<longrightarrow> rn_trace s = tr0 @ snd o1
      \<longrightarrow> for_chat E host f body g (fst o1) s = Some (Inr x', s\<lparr>rn_claw := st', rn_trace := tr0 @ tr'\<rparr>)"
proof (rule chat_loop.raw_induct [OF _ assms(2)], intro allI impI, goal_cases)
  case prems: (1 loop E h' g o1 st r s)
  note IH = prems(1) [rule_format]
  obtain x g1 st1 where step: "chat_next E g (rn_claw s) = ((x, g1), st1)"
    by (metis surj_pair)
  show ?case
  proof (cases "\<exists>v. x = Inr (Yields v)")
    case False
    then show ?thesis
      using prems(2-6) step by (subst for_chat.simps) (auto split: sum.splits iter.splits)
  next
    case True
    then obtain v where v: "x = Inr (Yields v)" ..
    show ?thesis
    proof (cases "truthy (field v (js ''done''))")
      case True
      then show ?thesis
        using prems(2-6) step v
        by (subst for_chat.simps) (auto simp: perform_willing [OF host] Let_def case_prod_beta split: prod.splits sum.splits)
    next
      case False
      let ?s = "s\<lparr>rn_claw := st1, rn_trace := rn_trace s @ body v\<rparr>"
      have "for_chat E host f body g1 (f (fst o1) v) ?s = Some (Inr x', ?s\<lparr>rn_claw := st', rn_trace := tr0 @ tr'\<rparr>)"
        using IH [of E h' g1 "h' o1 v" st1 r ?s] prems(2-6) step v False by (simp add: case_prod_beta)
      then show ?thesis
        using step v False by (subst for_chat.simps) (simp add: perform_willing [OF host])
    qed
  qed
qed

lemma for_chat_collects:
  assumes "chat_loop E (\<lambda>(x, tr) v. (f x v, tr @ body v)) g (x, tr) st = Some (Inr (x', tr'), st')"
    and "rn_claw s = st" "rn_trace s = tr0 @ tr" and host: "\<And>e. host e = None"
  shows "for_chat E host f body g x s = Some (Inr x', s\<lparr>rn_claw := st', rn_trace := tr0 @ tr'\<rparr>)"
  using for_chat_collects_loop [OF host assms(1), of f body x' tr' st' tr0] assms(2,3) by (simp add: case_prod_beta')

lemma foldl_collects: "foldl (\<lambda>(x, tr) v. (f x v, tr @ body v)) (x, tr) vs = (foldl f x vs, tr @ concat (map body vs))"
  by (induction vs arbitrary: x tr) simp_all

text \<open>A new instance on a store, with a session.\<close>

lemma start_session:
  fixes w :: "goserver link"
  assumes pc: "picoclaw_ok pc" and es: "store_ok es" and opts: "opts_ok opts" and scope: "op_ok pc (NewSession scope)"
  shows "\<exists>(st :: (goserver link, entries, 'a) claw) st'. e_ready (go_env pc) (claw_new opts w es) = (Inr (), st)
    \<and> session (go_env pc) scope st = (Inr (Str (scope_session pc scope)), st') \<and> book_inv st'
    \<and> book_of st' = (store_book es)\<lparr>bk_names := insert (scope_session pc scope) (bk_names (store_book es))\<rparr>"
proof -
  obtain st :: "(goserver link, entries, 'a) claw" where st: "e_ready (go_env pc) (claw_new opts w es) = (Inr (), st)"
    "book_inv st" "book_of st = store_book es"
    using go_start_book [OF pc es opts] by blast
  with go_new_session [OF pc st(2) scope] show ?thesis
    by auto
qed

section \<open>The program of src/example.js\<close>

lemma example_texts: "key_ok example_prompt" "opts_ok example_opts"
  "ty_ok schema_depth ref_fmt (js ''@bareclaw/session-scope'') example_scope" "json_ok example_scope" "example_scope \<noteq> Undef"
proof -
  show "key_ok example_prompt"
    by (rule small_key) (simp_all add: example_prompt_def js_def)
  have "key_ok (js ''llama3.2'')" "key_ok (js ''test'')" "key_ok (js ''chat-test'')"
    by (simp_all add: small_key js_def)
  then show "opts_ok example_opts" "ty_ok schema_depth ref_fmt (js ''@bareclaw/session-scope'') example_scope"
    "json_ok example_scope" "example_scope \<noteq> Undef"
    by (simp_all add: opts_ok_def example_opts_def example_scope_def js_or_def schema_session_scope key_ok_def props_ok_def)
      (simp add: js_def is_index_def is_digit16_def)
qed

text \<open>
  Running src/example.js.  On a store this class has written, with an agent that answers, the
  program comes to its end without an error: it prints exactly the chunks the agent's turn gives
  for the session's state in the store, and leaves the store as the book it was with that turn
  added, so that another run goes on from there.
\<close>

theorem example_program_runs:
  assumes pc: "picoclaw_ok pc" "speaks pc" and es: "store_ok es" and host: "\<And>e. host e = None"
    and k: "k = scope_session pc example_scope" "listable k"
    and reply: "go_reply pc example_prompt (bk_sessions (store_book es) k) = (cs, left)"
  shows "\<exists>s :: (goserver link, entries, unit) run. example_program (go_env pc) host w es = Some s
    \<and> rn_trace s = Opened (Corestore (js ''./store'')) # map (\<lambda>c. Logged (shown c)) cs
    \<and> store_ok (cl_store (rn_claw s)) \<and> store_book (cl_store (rn_claw s)) = book_set k left (store_book es)"
proof -
  have scope: "op_ok pc (NewSession example_scope)"
    using example_texts k by simp
  obtain st1 st2 :: "(goserver link, entries, unit) claw" where st1: "e_ready (go_env pc) (claw_new example_opts w es) = (Inr (), st1)"
    and st2: "session (go_env pc) example_scope st1 = (Inr (Str k), st2)" "book_inv st2"
      "book_of st2 = (store_book es)\<lparr>bk_names := insert k (bk_names (store_book es))\<rparr>"
    using start_session [OF pc(1) es example_texts(2) scope, of w] unfolding k(1) by blast
  have reply2: "go_reply pc example_prompt (bk_sessions (book_of st2) k) = (cs, left)"
    using reply st2(3) by simp
  obtain st3 where st3: "consume (go_env pc) (Suc (length cs)) (chat (Str k) (Str example_prompt) Undef) st2
      = ((map shown cs, Inr ()), st3)" "book_inv st3" "book_of st3 = book_set k left (book_of st2)"
    using go_consume_book [OF pc st2(2) k(2) example_texts(1) reply2] by blast
  obtain st4 where st4: "claw_close (go_env pc) st3 = (Some (Inr ()), st4)" "store_ok (cl_store st4)"
    "store_book (cl_store st4) = book_of st3"
    using go_finish_book [OF pc(1) st3(2)] by blast
  note loop = for_await_consume [of "go_env pc" "Suc (length cs)" _ _ "map shown cs" st3 host Logged]
  show ?thesis
    using st1 st2 st3 st4 host
    by (simp add: example_program_def example_main_def run_start_def prog_simps loop comp_def book_set_def)
qed

lemma store_ok_Nil: "store_ok []" "store_book [] = \<lparr>bk_sessions = \<lambda>_. ([], []), bk_names = {}\<rparr>"
proof -
  have "book_inv go_claw" "cl_store go_claw = []"
    using go_claw_book by (simp_all add: go_claw_def claw_new_def)
  then show "store_ok []" "store_book [] = \<lparr>bk_sessions = \<lambda>_. ([], []), bk_names = {}\<rparr>"
    using book_in_store [of go_claw] go_claw_blank by simp_all
qed

lemma echo_nobody: "field scope (js ''peer'') = Undef \<Longrightarrow> scope_session echo_picoclaw scope = js ''agent:''"
  by (simp add: scope_session_def echo_picoclaw_def echo_key_def)

lemma listable_agent: "listable (js ''agent:'')"
  using small_key [of "js ''agent:''"] by (simp add: listable_def) (simp add: js_def)

theorem example_program_runs_witness:
  "\<exists>s :: (goserver link, entries, unit) run. example_program (go_env echo_picoclaw) (\<lambda>_. None) (link_start go_fresh) [] = Some s
    \<and> rn_trace s = [Opened (Corestore (js ''./store'')),
        Logged (Obj [(js ''type'', Str (js ''content'')), (js ''content'', Str (js ''ok'')), (js ''done'', Bool False)]),
        Logged (Obj [(js ''type'', Str (js ''done'')), (js ''done'', Bool True)])]
    \<and> bk_sessions (store_book (cl_store (rn_claw s))) (js ''agent:'') = ([Str example_prompt], [])"
proof -
  have k: "js ''agent:'' = scope_session echo_picoclaw example_scope"
    by (simp add: echo_nobody example_scope_def)
  have "take 1000 example_prompt = example_prompt"
    by (simp add: example_prompt_def)
  then show ?thesis
    using example_program_runs [OF echo_ok echo_speaks store_ok_Nil(1) refl k listable_agent echo_answers, of "link_start go_fresh"]
    by (auto simp: echo_turn_def go_chunks_def shown_def chat_value_def is_final_def chunk_def book_set_def)
qed

section \<open>The program of peer-scan-tool.js\<close>

text \<open>What a run still holds: opened and not released since.\<close>

fun held_after :: "resource list \<Rightarrow> effect \<Rightarrow> resource list" where
  "held_after h (Opened r) = r # h"
| "held_after h (Released r) = remove1 r h"
| "held_after h e = h"

definition held :: "effect list \<Rightarrow> resource list" where
  "held tr = foldl held_after [] tr"

text \<open>What was written to the output.\<close>

fun outputs :: "effect \<Rightarrow> jsval list" where
  "outputs (Output v) = [v]"
| "outputs e = []"

text \<open>Effects that open and release nothing.\<close>

definition quiet :: "effect list \<Rightarrow> bool" where
  "quiet tr \<longleftrightarrow> (\<forall>e \<in> set tr. \<forall>h. held_after h e = h)"

lemma quiet_simps [simp]:
  "quiet []" "quiet (a @ b) \<longleftrightarrow> quiet a \<and> quiet b" "quiet (Printed t # b) \<longleftrightarrow> quiet b"
  by (auto simp: quiet_def)

lemma held_quiet [simp]: "quiet tr \<Longrightarrow> foldl held_after h tr = h"
  by (induction tr) (auto simp: quiet_def)

lemma go_register_book:
  fixes st :: "(goserver link, entries, 'a) claw"
  assumes pc: "picoclaw_ok pc" and st: "book_inv st" and tool: "key_ok n" "key_ok d" "schema_sendable schema"
  shows "\<exists>st'. registerTool (go_env pc) (Str n) (Str d) schema (Some h) st = (Inr (), st') \<and> book_inv st' \<and> book_of st' = book_of st"
proof -
  obtain st' where st': "registerTool (go_env pc) (Str n) (Str d) schema (Some h) st = (Inr (), st')"
    "claw_live go_up ordered st'" "cl_opts st' = cl_opts st" "cl_store st' = cl_store st"
    "lk_peer (cl_world st') = (lk_peer (cl_world st))
        \<lparr>gs_tools := gs_tools (lk_peer (cl_world st)) @ [\<lparr>jt_name = n, jt_description = d, jt_params = schema\<rparr>]\<rparr>"
    using go_register [OF pc book_invD(1) [OF st] tool, of h] by blast
  have "claw_stored (\<lambda>es. es) st' = claw_stored (\<lambda>es. es) st" "go_dump (cl_world st') = go_dump (cl_world st)"
    using st'(4,5) by (simp_all add: claw_stored_def go_dump_def fun_eq_iff)
  then show ?thesis
    using st'(1) book_kept [OF st st'(2,3)] by blast
qed

lemma scan_texts: "key_ok scan_question" "opts_ok scan_opts"
  "ty_ok schema_depth ref_fmt (js ''@bareclaw/session-scope'') scan_scope" "json_ok scan_scope" "scan_scope \<noteq> Undef"
proof -
  show "key_ok scan_question"
    by (rule small_key) (simp_all add: scan_question_def js_def)
  have "key_ok (js ''llama3.2'')" "key_ok (js ''scanner'')" "key_ok (js ''ops'')"
    by (simp_all add: small_key js_def)
  then show "opts_ok scan_opts" "ty_ok schema_depth ref_fmt (js ''@bareclaw/session-scope'') scan_scope"
    "json_ok scan_scope" "scan_scope \<noteq> Undef"
    by (simp_all add: opts_ok_def scan_opts_def scan_scope_def js_or_def schema_session_scope key_ok_def props_ok_def)
      (simp add: js_def is_index_def is_digit16_def)
qed

lemma register_scan_book:
  assumes "picoclaw_ok pc" and "book_inv st"
  shows "\<exists>st'. register_scan (go_env pc) hex net st = (Inr (), st') \<and> book_inv st' \<and> book_of st' = book_of st"
proof -
  have "key_ok (js ''scan_peers'')"
    "key_ok (js ''Join the P2P lobby, count how many peers are currently online, then leave. Returns the count.'')"
    by (rule small_key; simp add: js_def)+
  moreover have "schema_sendable (Obj [(js ''type'', Str (js ''object'')), (js ''properties'', Obj []), (js ''additionalProperties'', Bool False)])"
    by (rule schema_small) (simp_all add: props_ok_def js_def is_index_def is_digit16_def)
  ultimately show ?thesis
    unfolding register_scan_def by (rule go_register_book [OF assms])
qed

lemma peach_effects [prog_simps]:
  assumes "\<And>e. host e = None"
  shows "peach (\<lambda>i. effect host (f i)) xs s = Some (Inr (), s\<lparr>rn_trace := rn_trace s @ map f xs\<rparr>)"
  by (induction xs arbitrary: s) (simp_all add: prog_simps assms)

lemma put_decoys [prog_simps]:
  assumes "\<And>e. host e = None"
  shows "peach (put_decoy host topic) xs s = Some (Inr (), s\<lparr>rn_trace := rn_trace s
    @ concat (map (\<lambda>i. [Opened (Decoy i), Joined (Decoy i) topic True True]) xs)\<rparr>)"
  by (induction xs arbitrary: s) (simp_all add: prog_simps put_decoy_def assms)

lemma scanTopic_run [prog_simps]:
  assumes "\<And>e. host e = None"
  shows "scanTopic host hex topic ms conns s = Some (Inr (scanPeers hex conns), s\<lparr>rn_trace := rn_trace s
    @ [Opened Scanner, Joined Scanner topic False True, Flushed Scanner, Waited ms, Released Scanner]\<rparr>)"
  by (simp add: scanTopic_def prog_simps assms)

lemma scanLobby_run [prog_simps]:
  assumes "\<And>e. host e = None"
  shows "scanLobby host hex topic ms conns s = Some (Inr (scanPeers hex conns), s\<lparr>rn_trace := rn_trace s
    @ [Opened Scanner, Joined Scanner topic False True, Flushed Scanner, Waited ms, Released Scanner]\<rparr>)"
  by (simp add: scanLobby_def sleep_def prog_simps assms Let_def)

lemma scan_finish_run:
  assumes "\<And>e. host e = None" and "claw_close E (rn_claw s) = (Some (Inr ()), st)"
  shows "scan_finish E host path ending s = Some (Inr (), s\<lparr>rn_claw := st, rn_trace := rn_trace s
      @ [Released (Corestore path)] @ map (\<lambda>i. Released (Decoy i)) [0..<DECOYS] @ [Printed ending]\<rparr>)"
  by (simp add: scan_finish_def prog_simps assms)

lemma three: "[0..<DECOYS] = [0, 1, 2]"
  by (simp add: DECOYS_def upt_rec)

lemma scan_calls_run:
  assumes host: "\<And>e. host e = None"
  shows "\<exists>tr. peach (scan_call host fill hex net) calls s
      = Some (Inr (), s\<lparr>rn_tools := foldl (\<lambda>a input. snd (scan_peers hex net input a)) (rn_tools s) calls, rn_trace := rn_trace s @ tr\<rparr>)
    \<and> (\<forall>h. foldl held_after h tr = h) \<and> (\<forall>n. Printed (direct_line n) \<notin> set tr)"
proof (induction calls arbitrary: s)
  case Nil
  then show ?case
    by (auto simp: pret_def intro!: exI [of _ "[]"])
next
  case (Cons input calls)
  let ?n = "scanPeers hex (net (sn_scans (rn_tools s)))"
  let ?tr = "[Opened Scanner, Joined Scanner (LOBBY fill) False True, Flushed Scanner, Waited SCAN_MS, Released Scanner, Printed (scan_tool_line ?n)]"
  let ?s = "s\<lparr>rn_tools := snd (scan_peers hex net input (rn_tools s)), rn_trace := rn_trace s @ ?tr\<rparr>"
  have call: "scan_call host fill hex net input s = Some (Inr (), ?s)"
    by (simp add: scan_call_def prog_simps tools_now_def host)
  have "direct_line n \<noteq> scan_tool_line m" for n m
    by (simp add: direct_line_def scan_tool_line_def)
  then show ?case
    using Cons.IH [of ?s] by (auto simp: call pthen_def)
qed

lemma scan_called: "sn_lastCount (foldl (\<lambda>a input. snd (scan_peers hex net input a)) a calls) = Null
    \<longleftrightarrow> calls = [] \<and> sn_lastCount a = Null"
proof (induction calls rule: rev_induct)
  case (snoc c cs)
  then show ?case
    by (simp add: scan_peers_def Let_def)
qed simp

text \<open>
  Running peer-scan-tool.js.  On a store this class has written, with an agent that answers,
  the program comes to its end without an error, whatever tool calls the agent made in its turn:
  it prints the agent's text, trimmed, or that there was none; it makes the scan of its own exactly
  if the agent called no tool, and then prints the number of distinct peers; it has released
  everything it opened, and the store has the turn.
\<close>

theorem scan_program_runs:
  assumes pc: "picoclaw_ok pc" "speaks pc" and es: "store_ok es" and host: "\<And>e. host e = None"
    and k: "k = scope_session pc scan_scope" "listable k"
    and reply: "go_reply pc scan_question (bk_sessions (store_book es) k) = (cs, left)"
  shows "\<exists>s. scan_main (go_env pc) host fill hex net calls (run_start scan_opts w es scanner_new) = Some (Inr (), s)
    \<and> Printed ([0xD83D, 0xDDE3, 0xFE0F] @ js ''  agent: '' @ scan_answer (concat (map (content_text utf8_b4a \<circ> shown) cs)))
        \<in> set (rn_trace s)
    \<and> ((\<exists>n. Printed (direct_line n) \<in> set (rn_trace s)) \<longleftrightarrow> calls = [])
    \<and> (calls = [] \<longrightarrow> Printed (direct_line (int (card (hex ` set (net 0))))) \<in> set (rn_trace s))
    \<and> held (rn_trace s) = []
    \<and> store_ok (cl_store (rn_claw s)) \<and> store_book (cl_store (rn_claw s)) = book_set k left (store_book es)"
proof -
  have scope: "op_ok pc (NewSession scan_scope)"
    using scan_texts k by simp
  obtain st1 :: "(goserver link, entries, scanner) claw" where st1:
    "e_ready (go_env pc) (claw_new scan_opts w es) = (Inr (), st1)" "book_inv st1" "book_of st1 = store_book es"
    using go_start_book [OF pc(1) es scan_texts(2)] by blast
  obtain st2 where st2: "register_scan (go_env pc) hex net st1 = (Inr (), st2)" "book_inv st2" "book_of st2 = store_book es"
    using register_scan_book [OF pc(1) st1(2), of hex net] st1(3) by auto
  obtain st3 where st3: "session (go_env pc) scan_scope st2 = (Inr (Str k), st3)" "book_inv st3"
    "book_of st3 = (store_book es)\<lparr>bk_names := insert k (bk_names (store_book es))\<rparr>"
    using go_new_session [OF pc(1) st2(2) scope] st2(3) k(1) by auto
  have "go_reply pc scan_question (bk_sessions (book_of st3) k) = (cs, left)"
    using reply st3(3) by simp
  from go_turn_book [OF pc st3(2) k(2) scan_texts(1) this, of "\<lambda>answer v. answer @ content_text utf8_b4a v" "[]"]
  obtain st4 where st4:
    "chat_loop (go_env pc) (\<lambda>answer v. answer @ content_text utf8_b4a v) (chat (Str k) (Str scan_question) Undef) [] st3
      = Some (Inr (concat (map (content_text utf8_b4a \<circ> shown) cs)), st4)"
    "book_inv st4" "book_of st4 = book_set k left (book_of st3)"
    unfolding foldl_texts append_Nil map_map by blast
  obtain st5 where st5: "claw_close (go_env pc) st4 = (Some (Inr ()), st5)" "store_ok (cl_store st5)"
    "store_book (cl_store st5) = book_of st4"
    using go_finish_book [OF pc(1) st4(2)] by blast
  have chat: "scan_chat (go_env pc) (Str k) st3 = Some (Inr (scan_answer (concat (map (content_text utf8_b4a \<circ> shown) cs))), st4)"
    using st4(1) by (simp add: scan_chat_def)
  have counted: "sn_lastCount (snd (scan_peers hex net input sn)) \<noteq> Null" for input sn
    by (simp add: scan_peers_def Let_def)
  have fresh: "sn_lastCount scanner_new = Null" "sn_scans scanner_new = 0"
    by (simp_all add: scanner_new_def)
  let ?decoys = "concat (map (\<lambda>i. [Opened (Decoy i), Joined (Decoy i) (LOBBY fill) True True]) [0..<DECOYS])"
  let ?told = "[Printed ([0xD83D, 0xDC1D] @ js '' '' @ dec_nat DECOYS @ js '' decoy peers are sitting in the lobby'')]"
  have start: "scan_start (go_env pc) host fill hex net (run_start scan_opts w es scanner_new) = Some (Inr (Str k),
      \<lparr>rn_claw = st3, rn_tools = scanner_new, rn_trace = ?decoys @ ?told @ [Opened (Corestore (js ''./store-scanner''))]\<rparr>)"
    by (simp add: scan_start_def run_start_def prog_simps host st1(1) st2(1) st3(1))
  note finish = scan_finish_run [where host = host, OF host, where E = "go_env pc"]
  define s1 where "s1 = \<lparr>rn_claw = st3, rn_tools = scanner_new, rn_trace = ?decoys @ ?told
    @ [Opened (Corestore (js ''./store-scanner'')), Printed ([10, 0xD83E, 0xDD16] @ js '' asking the agent to scan the lobby'' @ [0x2026, 10])]\<rparr>"
  obtain tr where tr: "peach (scan_call host fill hex net) calls s1
      = Some (Inr (), s1\<lparr>rn_tools := foldl (\<lambda>a input. snd (scan_peers hex net input a)) (rn_tools s1) calls, rn_trace := rn_trace s1 @ tr\<rparr>)"
    "\<And>h. foldl held_after h tr = h" "\<And>n. Printed (direct_line n) \<notin> set tr"
    using scan_calls_run [where host = host and s = s1, OF host] by blast
  have lines: "direct_line n \<noteq> [10, 0xD83E, 0xDD16] @ t" "direct_line n \<noteq> [0xD83D] @ t" "direct_line n \<noteq> [10, 0x2705] @ t" for n t
    by (simp_all add: direct_line_def js_def)
  show ?thesis
    using st3(3) st4(3) st5(2,3) lines tr(1)
    by (cases "calls = []") (simp_all add: scan_main_def start finish st5(1) chat fresh counted host scan_called scan_counts_peers
      prog_simps tools_now_def three held_def book_set_def s1_def tr(2,3) del: peach.simps, blast)
qed

theorem scan_program_runs_witness:
  "\<exists>s. scan_main (go_env echo_picoclaw) (\<lambda>_. None) (\<lambda>n s. [7]) (\<lambda>k. js ''k'') (\<lambda>_. [[1], [2]]) []
      (run_start scan_opts (link_start go_fresh) [] scanner_new) = Some (Inr (), s)
    \<and> Printed ([0xD83D, 0xDDE3, 0xFE0F] @ js ''  agent: ok'') \<in> set (rn_trace s)
    \<and> Printed (direct_line 1) \<in> set (rn_trace s) \<and> held (rn_trace s) = []
    \<and> bk_sessions (store_book (cl_store (rn_claw s))) (js ''agent:'') = ([Str scan_question], [])"
proof -
  have k: "js ''agent:'' = scope_session echo_picoclaw scan_scope"
    by (simp add: echo_nobody scan_scope_def)
  have "concat (map (content_text utf8_b4a \<circ> shown) echo_turn) = js ''ok''"
    by (simp add: echo_turn_def go_chunks_def shown_def chat_value_def is_final_def chunk_def content_text_def)
  then have answer: "scan_answer (concat (map (content_text utf8_b4a \<circ> shown) echo_turn)) = js ''ok''"
    by (simp add: scan_answer_def) (simp add: js_def trim_def trim_start_def is_space_def)
  have "take 1000 scan_question = scan_question"
    by (simp add: scan_question_def)
  then show ?thesis
    using scan_program_runs [OF echo_ok echo_speaks store_ok_Nil(1) refl k listable_agent echo_answers, of "\<lambda>n s. [7]"
        "\<lambda>k. js ''k''" "\<lambda>_. [[1], [2]]" "[]" "link_start go_fresh"] answer
    by (auto simp: book_set_def) (simp add: js_def)
qed

section \<open>The program of dht-rpc.js\<close>

definition tool_sendable :: "'n registration \<Rightarrow> bool" where
  "tool_sendable r \<longleftrightarrow> key_ok (rg_name r) \<and> key_ok (rg_description r) \<and> schema_sendable (rg_schema r)"

lemma schema_sendable_object:
  assumes "json_ok (object_schema props required)" and "no_numbers (object_schema props required)"
    and "json_size (object_schema props required) < 2 ^ 30"
  shows "schema_sendable (object_schema props required)"
  using assms by (intro schema_small) (simp_all add: object_schema_def)

lemma plain_key: "list_all (\<lambda>u. \<not> is_high u \<and> \<not> is_low u) k \<Longrightarrow> length k < 2 ^ 32 \<Longrightarrow> key_ok k"
proof -
  have "list_all (\<lambda>u. \<not> is_high u \<and> \<not> is_low u) s \<Longrightarrow> wf16 s" for s
    by (induction s) (auto intro: wf16_Cons)
  then show "list_all (\<lambda>u. \<not> is_high u \<and> \<not> is_low u) k \<Longrightarrow> length k < 2 ^ 32 \<Longrightarrow> key_ok k"
    by (simp add: key_ok_def)
qed

lemmas plain_text = js_def is_index_def is_digit16_def props_ok_def object_schema_def string_prop_def any_prop_def
  is_high_def is_low_def

lemmas p2p_tool_defs = swarm_join_tool_def swarm_broadcast_tool_def swarm_messages_tool_def swarm_peers_tool_def
  swarm_close_tool_def dht_serve_tool_def dht_server_messages_tool_def dht_close_server_tool_def
  dht_connect_tool_def dht_send_tool_def dht_messages_tool_def dht_close_conn_tool_def
  key_info_tool_def codec_encode_tool_def codec_decode_tool_def

lemma p2p_tools_sendable: "\<forall>r \<in> set (p2p_tools L). tool_sendable r"
  unfolding p2p_tools_def list.set ball_simps insert_iff p2p_tool_defs tool_sendable_def registration.simps
  by (intro conjI plain_key schema_sendable_object TrueI) (simp_all add: plain_text)

lemma register_tools_book:
  fixes st :: "(goserver link, entries, 'a) claw" and handler :: "'n registration \<Rightarrow> 'a tool"
  assumes pc: "picoclaw_ok pc" and "book_inv st" and "\<forall>r \<in> set rs. tool_sendable r"
  shows "\<exists>st'. for_each (\<lambda>r. registerTool (go_env pc) (Str (rg_name r)) (Str (rg_description r)) (rg_schema r) (Some (handler r))) rs st
      = (Inr (), st') \<and> book_inv st' \<and> book_of st' = book_of st"
  using assms(2,3)
proof (induction rs arbitrary: st)
  case (Cons r rs)
  obtain st1 where st1: "registerTool (go_env pc) (Str (rg_name r)) (Str (rg_description r)) (rg_schema r) (Some (handler r)) st
      = (Inr (), st1)" "book_inv st1" "book_of st1 = book_of st"
    using go_register_book [OF pc Cons.prems(1), of "rg_name r" "rg_description r" "rg_schema r" "handler r"] Cons.prems(2)
    by (auto simp: tool_sendable_def)
  then show ?case
    using Cons.IH [OF st1(2)] Cons.prems(2) by (auto simp: andthen_def)
qed (auto simp: ret_def)

lemma demo_texts: "opts_ok demo_opts" "ty_ok schema_depth ref_fmt (js ''@bareclaw/session-scope'') demo_scope"
  "json_ok demo_scope" "demo_scope \<noteq> Undef"
proof -
  have "key_ok (js ''lfm2.5'')" "key_ok (js ''p2p-agent'')" "key_ok (js ''demo'')"
    by (simp_all add: small_key js_def)
  then show "opts_ok demo_opts" "ty_ok schema_depth ref_fmt (js ''@bareclaw/session-scope'') demo_scope"
    "json_ok demo_scope" "demo_scope \<noteq> Undef"
    by (simp_all add: opts_ok_def demo_opts_def demo_scope_def js_or_def schema_session_scope key_ok_def props_ok_def)
      (simp add: js_def is_index_def is_digit16_def)
qed

lemma reply_no_tool_call:
  "go_reply pc m ses = (cs, left) \<Longrightarrow> c \<in> set cs \<Longrightarrow> field (shown c) (js ''type'') \<noteq> Str (js ''tool_call'')"
  by (auto simp: go_reply_def chunk_def shown_def chat_value_def split: option.splits prod.splits
    dest!: shown_not_tool_call)

lemma demo_writes [simp]: "quiet (demo_write v)" "concat (map outputs (demo_write v))
    = (if field v (js ''type'') = Str (js ''content'') then [field v (js ''content'')] else [])"
  by (simp_all add: demo_write_def quiet_def)

lemma quiet_concat: "(\<And>x. x \<in> set xs \<Longrightarrow> quiet (f x)) \<Longrightarrow> quiet (concat (map f xs))"
  by (induction xs) simp_all

lemma outputs_writes: "concat (map outputs (concat (map (\<lambda>x. demo_write (g x)) cs)))
    = [field (g c) (js ''content''). c \<leftarrow> cs, field (g c) (js ''type'') = Str (js ''content'')]"
  by (induction cs) simp_all



end
