(* ===== verification/Fleets.thy ===== *)
theory Fleets
  imports Programs "HOL-Library.Multiset"
begin

text \<open>
  Programs of several agents: what the \<open>main\<close> functions of src/examples/swarm-collab.js,
  src/examples/dht-shared.js and src/examples/swarm-code-review.js share.  Every agent is an instance of
  the class on a store of its own; what it does is a run of Programs on its instance, and the whole has
  one trace.  What the agents' connections may do in which order is said in Collab, Shared_Board and
  Panel; the programs run one order of the events, with the order in which concurrent agents come
  first as an argument.
\<close>

section \<open>Several instances\<close>

record ('w, 'b) fleet =
  fl_claws :: "jsstring \<Rightarrow> ('w, 'b, unit) claw"
  fl_trace :: "effect list"

definition as_member :: "jsstring \<Rightarrow> (('w, 'b, unit) run, 'x) prog \<Rightarrow> (('w, 'b) fleet, 'x) prog" where
  "as_member name p f =
     map_option (\<lambda>(r, s). (r, f\<lparr>fl_claws := (fl_claws f)(name := rn_claw s), fl_trace := rn_trace s\<rparr>))
       (p \<lparr>rn_claw = fl_claws f name, rn_tools = (), rn_trace = fl_trace f\<rparr>)"

definition fleet_effect :: "host \<Rightarrow> effect \<Rightarrow> (('w, 'b) fleet, unit) prog" where
  "fleet_effect host e f =
     (case host e of Some err \<Rightarrow> Some (Inl err, f) | None \<Rightarrow> Some (Inr (), f\<lparr>fl_trace := fl_trace f @ [e]\<rparr>))"

fun pmap :: "('y \<Rightarrow> ('s, 'x) prog) \<Rightarrow> 'y list \<Rightarrow> ('s, 'x list) prog" where
  "pmap f [] = pret []"
| "pmap f (y # ys) = pthen (f y) (\<lambda>x. pthen (pmap f ys) (\<lambda>xs. pret (x # xs)))"

definition fleet_start :: "jsval \<Rightarrow> (jsstring \<Rightarrow> 'w) \<Rightarrow> (jsstring \<Rightarrow> 'b) \<Rightarrow> ('w, 'b) fleet" where
  "fleet_start opts w b = \<lparr>fl_claws = (\<lambda>name. claw_new opts (w name) (b name)), fl_trace = []\<rparr>"

definition store_path :: "jsstring \<Rightarrow> jsstring" where
  "store_path name = js ''./store-'' @ name"

definition fleet_scope :: "string \<Rightarrow> jsstring \<Rightarrow> jsval" where
  "fleet_scope channel name = Obj [(js ''agentId'', Str name), (js ''channel'', Str (js channel))]"

text \<open>An agent: its store, its instance, its session.\<close>

definition fleet_agent :: "('w, 'b, 'a) env \<Rightarrow> host \<Rightarrow> string \<Rightarrow> jsstring \<Rightarrow> (('w, 'b, 'a) run, jsval) prog" where
  "fleet_agent E host channel name =
     pthen (effect host (Opened (Corestore (store_path name)))) (\<lambda>_.
     pthen (on_instance (e_ready E)) (\<lambda>_.
     on_instance (session E (fleet_scope channel name))))"

definition link_up :: "host \<Rightarrow> jsstring \<Rightarrow> (('w, 'b, 'a) run, unit) prog" where
  "link_up host name = pthen (effect host (Opened (Node name))) (\<lambda>_. effect host (Opened (Socket name)))"

definition close_agent :: "('w, 'b, 'a) env \<Rightarrow> host \<Rightarrow> jsstring \<Rightarrow> (('w, 'b, 'a) run, unit) prog" where
  "close_agent E host name = pthen (close_instance E) (\<lambda>_. effect host (Released (Corestore (store_path name))))"

definition link_down :: "host \<Rightarrow> jsstring \<Rightarrow> (('w, 'b, 'a) run, unit) prog" where
  "link_down host name = pthen (effect host (Released (Socket name))) (\<lambda>_. effect host (Released (Node name)))"

text \<open>What the code computes between effects, which may throw.\<close>

definition of_result :: "'x result \<Rightarrow> ('s, 'x) prog" where
  "of_result r s = Some (r, s)"

section \<open>Members on the Go agent\<close>

text \<open>A host that refuses nothing.\<close>

definition willing :: "host \<Rightarrow> bool" where
  "willing host \<longleftrightarrow> (\<forall>e. host e = None)"

lemma willingD [simp, prog_simps]: "willing host \<Longrightarrow> host e = None"
  by (simp add: willing_def)

lemma fleet_effect_simps [prog_simps]:
  "host e = None \<Longrightarrow> fleet_effect host e f = Some (Inr (), f\<lparr>fl_trace := fl_trace f @ [e]\<rparr>)"
  by (simp add: fleet_effect_def)

lemma fleet_prints [prog_simps]:
  assumes "willing host"
  shows "peach (\<lambda>x. fleet_effect host (g x)) xs f = Some (Inr (), f\<lparr>fl_trace := fl_trace f @ map g xs\<rparr>)"
  by (induction xs arbitrary: f) (simp_all add: prog_simps assms)

definition fleet_key :: "picoclaw \<Rightarrow> string \<Rightarrow> jsstring \<Rightarrow> jsstring" where
  "fleet_key pc channel name = scope_session pc (fleet_scope channel name)"

definition reply_text :: "picoclaw \<Rightarrow> jsstring \<Rightarrow> jsval list \<times> jsstring \<Rightarrow> jsstring" where
  "reply_text pc m ses = concat (map (content_text utf8_b4a \<circ> shown) (fst (go_reply pc m ses)))"

definition reply_left :: "picoclaw \<Rightarrow> jsstring \<Rightarrow> jsstring \<Rightarrow> book \<Rightarrow> book" where
  "reply_left pc k m bk = book_set k (snd (go_reply pc m (bk_sessions bk k))) bk"

definition with_name :: "jsstring \<Rightarrow> book \<Rightarrow> book" where
  "with_name k bk = bk\<lparr>bk_names := insert k (bk_names bk)\<rparr>"

lemma fleet_scope_ok:
  assumes "key_ok name" and "key_ok (js channel)"
  shows "ty_ok schema_depth ref_fmt (js ''@bareclaw/session-scope'') (fleet_scope channel name)"
    and "json_ok (fleet_scope channel name)" and "fleet_scope channel name \<noteq> Undef"
  using assms by (simp_all add: fleet_scope_def schema_session_scope key_ok_def props_ok_def)
    (simp add: js_def is_index_def is_digit16_def)

lemma go_fleet_agent:
  fixes w :: "goserver link"
  assumes pc: "picoclaw_ok pc" and host: "willing host" and es: "store_ok es" and opts: "opts_ok opts"
    and name: "key_ok name" "key_ok (js channel)" "listable (fleet_key pc channel name)"
  shows "\<exists>st :: (goserver link, entries, 'a) claw. (\<forall>a tr.
      fleet_agent (go_env pc) host channel name \<lparr>rn_claw = claw_new opts w es, rn_tools = a, rn_trace = tr\<rparr>
      = Some (Inr (Str (fleet_key pc channel name)),
          \<lparr>rn_claw = st, rn_tools = a, rn_trace = tr @ [Opened (Corestore (store_path name))]\<rparr>))
    \<and> book_inv st \<and> book_of st = with_name (fleet_key pc channel name) (store_book es)"
proof -
  have "op_ok pc (NewSession (fleet_scope channel name))"
    using fleet_scope_ok [OF name(1,2)] name(3) by (simp add: fleet_key_def)
  from start_session [OF pc es opts this, of w] obtain st st' :: "(goserver link, entries, 'a) claw" where
    "e_ready (go_env pc) (claw_new opts w es) = (Inr (), st)"
    "session (go_env pc) (fleet_scope channel name) st = (Inr (Str (fleet_key pc channel name)), st')"
    "book_inv st'" "book_of st' = with_name (fleet_key pc channel name) (store_book es)"
    unfolding fleet_key_def with_name_def by blast
  then show ?thesis
    by (intro exI [of _ st']) (simp add: fleet_agent_def prog_simps host)
qed

text \<open>A question to an agent, for a body that adds up the texts.\<close>

lemma go_ask:
  assumes pc: "picoclaw_ok pc" "speaks pc" and st: "book_inv st" and k: "listable k" and m: "key_ok m"
  shows "\<exists>st'. chat_loop (go_env pc) (\<lambda>out v. out @ content_text utf8_b4a v) (chat (Str k) (Str m) Undef) [] st
      = Some (Inr (reply_text pc m (bk_sessions (book_of st) k)), st')
    \<and> book_inv st' \<and> book_of st' = reply_left pc k m (book_of st)"
  using go_turn_book [OF pc st k m surjective_pairing, of "\<lambda>out v. out @ content_text utf8_b4a v" "[]"]
  unfolding foldl_texts append_Nil map_map reply_text_def reply_left_def .

lemma go_close_agent:
  assumes pc: "picoclaw_ok pc" and host: "willing host" and st: "book_inv st"
  shows "\<exists>st'. (\<forall>a tr. close_agent (go_env pc) host name \<lparr>rn_claw = st, rn_tools = a, rn_trace = tr\<rparr>
      = Some (Inr (), \<lparr>rn_claw = st', rn_tools = a, rn_trace = tr @ [Released (Corestore (store_path name))]\<rparr>))
    \<and> store_ok (cl_store st') \<and> store_book (cl_store st') = book_of st"
  using go_finish_book [OF pc st] by (auto simp: close_agent_def prog_simps host)

section \<open>What a member does alone\<close>

text \<open>A part of a program that takes one member from an instance to another, and has its effects.\<close>

definition local_run :: "jsstring \<Rightarrow> ('w, 'b, unit) claw \<Rightarrow> (('w, 'b) fleet, 'x) prog \<Rightarrow> 'x \<Rightarrow> ('w, 'b, unit) claw \<Rightarrow> effect list \<Rightarrow> bool" where
  "local_run name c p x c' e \<longleftrightarrow> (\<forall>f. fl_claws f name = c \<longrightarrow>
     p f = Some (Inr x, f\<lparr>fl_claws := (fl_claws f)(name := c'), fl_trace := fl_trace f @ e\<rparr>))"

lemma local_member:
  "(\<And>tr. p \<lparr>rn_claw = c, rn_tools = (), rn_trace = tr\<rparr> = Some (Inr x, \<lparr>rn_claw = c', rn_tools = (), rn_trace = tr @ e\<rparr>))
    \<Longrightarrow> local_run name c (as_member name p) x c' e"
  by (simp add: local_run_def as_member_def)

lemma local_then:
  assumes "local_run name c p x c' e" and "\<And>f. q x f = Some (Inr y, f\<lparr>fl_trace := fl_trace f @ e'\<rparr>)"
  shows "local_run name c (pthen p q) y c' (e @ e')"
  using assms by (simp add: local_run_def pthen_def)

lemma local_pmap:
  assumes "distinct (map nm ys)" and "\<And>y. y \<in> set ys \<Longrightarrow> local_run (nm y) (fl_claws f (nm y)) (p y) (x y) (c y) (e y)"
  shows "\<exists>f'. pmap p ys f = Some (Inr (map x ys), f') \<and> (\<forall>y \<in> set ys. fl_claws f' (nm y) = c y)
    \<and> (\<forall>n. n \<notin> nm ` set ys \<longrightarrow> fl_claws f' n = fl_claws f n) \<and> fl_trace f' = fl_trace f @ concat (map e ys)"
  using assms
proof (induction ys arbitrary: f)
  case (Cons y ys)
  let ?f = "f\<lparr>fl_claws := (fl_claws f)(nm y := c y), fl_trace := fl_trace f @ e y\<rparr>"
  have "p y f = Some (Inr (x y), ?f)"
    using Cons.prems(2) [of y] by (simp add: local_run_def)
  moreover have "local_run (nm z) (fl_claws ?f (nm z)) (p z) (x z) (c z) (e z)" if z: "z \<in> set ys" for z
    using Cons.prems z by (cases "nm z = nm y") (auto simp: image_iff)
  then obtain f' where "pmap p ys ?f = Some (Inr (map x ys), f')" "\<forall>z \<in> set ys. fl_claws f' (nm z) = c z"
    "\<forall>n. n \<notin> nm ` set ys \<longrightarrow> fl_claws f' n = fl_claws ?f n" "fl_trace f' = fl_trace ?f @ concat (map e ys)"
    using Cons.IH [of ?f] Cons.prems(1) by auto
  ultimately show ?case
    using Cons.prems(1) by (intro exI [of _ f']) (auto simp: pthen_def pret_def)
qed (auto simp: pret_def)

lemma pthen_assoc: "pthen (pthen p g) h = pthen p (\<lambda>x. pthen (g x) h)"
  by (rule ext) (simp add: pthen_def split: option.split prod.split sum.split)

lemma pthen_pret: "pthen (pret x) h = h x"
  by (rule ext) (simp add: pthen_def pret_def)

lemma peach_pmap: "peach p ys f = pthen (pmap p ys) (\<lambda>_. pret ()) f"
proof (induction ys arbitrary: f)
  case (Cons y ys)
  then show ?case
    by (simp add: pthen_def pret_def split: option.split prod.split sum.split)
qed (simp add: pthen_def pret_def)

lemma local_peach:
  assumes "distinct (map nm ys)" and "\<And>y. y \<in> set ys \<Longrightarrow> local_run (nm y) (fl_claws f (nm y)) (p y) () (c y) (e y)"
  shows "\<exists>f'. peach p ys f = Some (Inr (), f') \<and> (\<forall>y \<in> set ys. fl_claws f' (nm y) = c y)
    \<and> (\<forall>n. n \<notin> nm ` set ys \<longrightarrow> fl_claws f' n = fl_claws f n) \<and> fl_trace f' = fl_trace f @ concat (map e ys)"
  using local_pmap [OF assms] by (auto simp: peach_pmap pthen_def pret_def)

text \<open>The members one after the other, when of each is known how it runs and what holds of its instance then.\<close>

lemma fleet_pmap:
  assumes "distinct (map nm ys)"
    and "\<And>y. y \<in> set ys \<Longrightarrow> \<exists>st. local_run (nm y) (fl_claws f (nm y)) (p y) (x y) st (e y) \<and> Q y st"
  shows "\<exists>f'. pmap p ys f = Some (Inr (map x ys), f') \<and> (\<forall>y \<in> set ys. Q y (fl_claws f' (nm y)))
    \<and> (\<forall>n. n \<notin> nm ` set ys \<longrightarrow> fl_claws f' n = fl_claws f n) \<and> fl_trace f' = fl_trace f @ concat (map e ys)"
proof -
  have "\<exists>c. \<forall>y \<in> set ys. local_run (nm y) (fl_claws f (nm y)) (p y) (x y) (c y) (e y) \<and> Q y (c y)"
    using assms(2) by (intro bchoice) simp
  then obtain c where c: "\<And>y. y \<in> set ys \<Longrightarrow> local_run (nm y) (fl_claws f (nm y)) (p y) (x y) (c y) (e y)"
    "\<And>y. y \<in> set ys \<Longrightarrow> Q y (c y)"
    by blast
  from local_pmap [OF assms(1) c(1)] c(2) show ?thesis
    by auto
qed

lemma fleet_peach:
  assumes "distinct (map nm ys)"
    and "\<And>y. y \<in> set ys \<Longrightarrow> \<exists>st. local_run (nm y) (fl_claws f (nm y)) (p y) () st (e y) \<and> Q y st"
  shows "\<exists>f'. peach p ys f = Some (Inr (), f') \<and> (\<forall>y \<in> set ys. Q y (fl_claws f' (nm y)))
    \<and> (\<forall>n. n \<notin> nm ` set ys \<longrightarrow> fl_claws f' n = fl_claws f n) \<and> fl_trace f' = fl_trace f @ concat (map e ys)"
  using fleet_pmap [where x = "\<lambda>_. ()" and Q = Q, OF assms] by (auto simp: peach_pmap pthen_def pret_def)

lemma close_linked:
  assumes pc: "picoclaw_ok pc" and host: "willing host" and st: "book_inv st"
  shows "\<exists>st'. local_run name st (as_member name (pthen (link_down host name) (\<lambda>_. close_agent (go_env pc) host name))) () st'
      [Released (Socket name), Released (Node name), Released (Corestore (store_path name))]
    \<and> store_ok (cl_store st') \<and> store_book (cl_store st') = book_of st"
proof -
  obtain st' where "\<And>a tr. close_agent (go_env pc) host name \<lparr>rn_claw = st, rn_tools = a, rn_trace = tr\<rparr>
      = Some (Inr (), \<lparr>rn_claw = st', rn_tools = a, rn_trace = tr @ [Released (Corestore (store_path name))]\<rparr>)"
    "store_ok (cl_store st')" "store_book (cl_store st') = book_of st"
    using go_close_agent [where name = name, OF pc host st] by auto
  then show ?thesis
    by (intro exI [of _ st'] conjI local_member) (simp_all add: link_down_def prog_simps host)
qed

section \<open>What is held at the end\<close>

definition opened :: "effect list \<Rightarrow> resource list" where
  "opened tr = concat (map (\<lambda>e. case e of Opened r \<Rightarrow> [r] | _ \<Rightarrow> []) tr)"

definition released :: "effect list \<Rightarrow> resource list" where
  "released tr = concat (map (\<lambda>e. case e of Released r \<Rightarrow> [r] | _ \<Rightarrow> []) tr)"

lemma opened_simps [simp]:
  "opened [] = []" "opened (a @ b) = opened a @ opened b" "opened (Opened r # b) = r # opened b"
  "opened (Released r # b) = opened b" "opened (Printed t # b) = opened b" "opened (Wrote out t # b) = opened b"
  "opened (Joined r topic x y # b) = opened b"
  by (simp_all add: opened_def)

lemma released_simps [simp]:
  "released [] = []" "released (a @ b) = released a @ released b" "released (Released r # b) = r # released b"
  "released (Opened r # b) = released b" "released (Printed t # b) = released b" "released (Wrote out t # b) = released b"
  "released (Joined r topic x y # b) = released b"
  by (simp_all add: released_def)

lemma opened_concat: "opened (concat (map f xs)) = concat (map (\<lambda>x. opened (f x)) xs)"
  by (induction xs) simp_all

lemma released_concat: "released (concat (map f xs)) = concat (map (\<lambda>x. released (f x)) xs)"
  by (induction xs) simp_all

lemma opened_prints [simp]: "opened (map (\<lambda>x. Printed (g x)) xs) = []"
  by (induction xs) simp_all

lemma released_prints [simp]: "released (map (\<lambda>x. Printed (g x)) xs) = []"
  by (induction xs) simp_all

lemma quiet_effect: "quiet (e # tr) \<Longrightarrow> opened (e # tr) = opened tr \<and> released (e # tr) = released tr \<and> quiet tr"
proof -
  assume "quiet (e # tr)"
  then have "\<forall>h. held_after h e = h" "quiet tr"
    by (simp_all add: quiet_def)
  moreover have "\<forall>r. e \<noteq> Opened r \<and> e \<noteq> Released r"
  proof
    fix r
    show "e \<noteq> Opened r \<and> e \<noteq> Released r"
      using calculation(1) [THEN spec, of "[]"] calculation(1) [THEN spec, of "[r]"] by auto
  qed
  ultimately show ?thesis
    by (cases e) (auto simp: opened_def released_def)
qed

lemma quiet_opened [simp]: "quiet tr \<Longrightarrow> opened tr = []"
  by (induction tr) (simp_all add: quiet_effect)

lemma quiet_released [simp]: "quiet tr \<Longrightarrow> released tr = []"
  by (induction tr) (simp_all add: quiet_effect)

text \<open>First everything is opened, then everything released, in whatever orders.\<close>

lemma held_phases:
  assumes "released t1 = []" and "opened t2 = []" and "mset (opened t1) \<subseteq># mset (released t2)"
  shows "held (t1 @ t2) = []"
proof -
  have up: "released t = [] \<Longrightarrow> mset (foldl held_after h t) = mset h + mset (opened t)" for h t
  proof (induction t arbitrary: h)
    case (Cons e t)
    then show ?case
      by (cases e) (simp_all add: opened_def released_def)
  qed simp
  have down: "opened t = [] \<Longrightarrow> mset (foldl held_after h t) = mset h - mset (released t)" for h t
  proof (induction t arbitrary: h)
    case (Cons e t)
    then show ?case
      by (cases e) (simp_all add: opened_def released_def)
  qed simp
  have "mset (held (t1 @ t2)) = {#}"
    unfolding held_def foldl_append down [OF assms(2)] up [OF assms(1)] using assms(3) by (simp add: Diff_eq_empty_iff_mset)
  then show ?thesis
    by simp
qed

lemma mset_concat_order: "mset xs = mset ys \<Longrightarrow> mset (concat (map f xs)) = mset (concat (map f ys))"
  by (simp add: mset_concat flip: sum_mset_sum_list)

lemma mset_concat_same: "(\<And>x. mset (f x) = mset (g x)) \<Longrightarrow> mset (concat (map f xs)) = mset (concat (map g xs))"
  by (induction xs) simp_all

lemma pthen_run: "m s = Some (Inr x, s') \<Longrightarrow> pthen m f s = f x s'"
  by (simp add: pthen_def)

lemma echo_replies: "reply_text echo_picoclaw m ses = js ''ok''"
proof -
  have "concat (map (content_text utf8_b4a \<circ> shown) echo_turn) = js ''ok''"
    by (simp add: echo_turn_def go_chunks_def shown_def chat_value_def is_final_def chunk_def content_text_def)
  then show ?thesis
    by (simp add: reply_text_def echo_answers)
qed

lemma echo_fleet_key: "fleet_key echo_picoclaw channel name = js ''agent:''"
  by (simp add: fleet_key_def fleet_scope_def echo_nobody)

end
