(* ===== verification/Tui.thy ===== *)
theory Tui
  imports P2P_Registration Js_Text
begin

text \<open>
  The terminal interface of src/examples/p2p-tui.js: the state of \<open>ChatApp\<close>, its \<open>update\<close> on every
  message, the commands it hands to the runtime, its rendering, and the mirroring of tool calls.
  The bare-tui package is the record \<open>tui_lib\<close>: its widgets are opaque values, a style is the chain
  of calls that made it.
\<close>

section \<open>The package\<close>

datatype style_call =
    Bold
  | Faint
  | Foreground string
  | Background string
  | Width int
  | RoundedBorder
  | BorderForeground string
  | Padding int int

text \<open>What \<open>update\<close> hands back: nothing, quitting, the next chunk of a generator, or a widget's own command.\<close>

datatype cmd =
    NoCmd
  | Quit
  | Pull nat
  | SpinnerInit
  | WidgetCmd nat
  | Boot
  | Batch "cmd list"

text \<open>A key binding, as the help footer shows it.\<close>

record binding =
  bd_keys :: "string list"
  bd_key :: string
  bd_desc :: string

record 'w tui_lib =
  tl_b4a :: b4a
  tl_input :: 'w
  tl_spinner :: 'w
  tl_help :: 'w
  tl_viewport :: "int \<Rightarrow> int \<Rightarrow> 'w"
  tl_focus :: "'w \<Rightarrow> 'w"
  tl_reset :: "'w \<Rightarrow> 'w"
  tl_value :: "'w \<Rightarrow> jsstring"
  tl_on_input :: "jsstring \<Rightarrow> 'w \<Rightarrow> 'w \<times> cmd"
  tl_on_spinner :: "jsval \<Rightarrow> 'w \<Rightarrow> 'w \<times> cmd"
  tl_on_viewport :: "jsstring \<Rightarrow> 'w \<Rightarrow> 'w"
  tl_setContent :: "jsstring \<Rightarrow> 'w \<Rightarrow> 'w"
  tl_gotoBottom :: "'w \<Rightarrow> 'w"
  tl_view :: "'w \<Rightarrow> jsstring"
  tl_help_view :: "'w \<Rightarrow> binding list \<Rightarrow> jsstring"
  tl_style :: "style_call list \<Rightarrow> jsstring \<Rightarrow> jsstring"
  tl_joinVertical :: "jsstring list \<Rightarrow> jsstring"

section \<open>State and messages\<close>

datatype role = System | User | Assistant | ToolCall

type_synonym entry = "role \<times> jsstring"

text \<open>\<open>ca_gens\<close> counts the generators made; \<open>ca_gen\<close> is the one of the last turn.\<close>

record 'w chatapp =
  ca_storePath :: jsstring
  ca_ready :: bool
  ca_bootStatus :: jsstring
  ca_entries :: "entry list"
  ca_pending :: jsstring
  ca_streaming :: bool
  ca_gen :: "nat option"
  ca_gens :: nat
  ca_width :: int
  ca_height :: int
  ca_input :: 'w
  ca_spinner :: 'w
  ca_help :: 'w
  ca_vp :: 'w

datatype msg =
    Status jsstring
  | Ready
  | Resize int int
  | SpinnerTick jsval
  | Exhausted
  | Chunk jsval
  | Tool jsstring jsval
  | Failed jsval
  | Key jsstring
  | OtherMsg

definition KEYS_send :: binding where
  "KEYS_send = \<lparr>bd_keys = [''enter''], bd_key = ''enter'', bd_desc = ''send''\<rparr>"

definition KEYS_scroll :: binding where
  "KEYS_scroll = \<lparr>bd_keys = [''pgup'', ''pgdn''], bd_key = ''pgup/pgdn'', bd_desc = ''scroll''\<rparr>"

definition KEYS_quit :: binding where
  "KEYS_quit = \<lparr>bd_keys = [''esc'', ''ctrl+c''], bd_key = ''esc'', bd_desc = ''quit''\<rparr>"

section \<open>Rendering helpers\<close>

definition bodyHeight :: "'w chatapp \<Rightarrow> int" where
  "bodyHeight a = max 3 (ca_height a - 7)"

definition innerWidth :: "'w chatapp \<Rightarrow> int" where
  "innerWidth a = max 20 (ca_width a - 4)"

text \<open>One line's words, filled up to the width.\<close>

fun wrap_words :: "nat \<Rightarrow> jsstring \<Rightarrow> jsstring list \<Rightarrow> jsstring list" where
  "wrap_words w cur [] = [cur]"
| "wrap_words w cur (word # words) =
     (if cur \<noteq> [] \<and> length (cur @ [32] @ word) > w then cur # wrap_words w word words
      else wrap_words w (if cur \<noteq> [] then cur @ [32] @ word else word) words)"

definition wrap :: "jsstring \<Rightarrow> int \<Rightarrow> jsstring" where
  "wrap t width =
     (let w = nat (max 20 width)
      in join [10] (map (\<lambda>line. join [10] (wrap_words w [] (split_on 32 line))) (split_on 10 t)))"

definition tag :: "'w tui_lib \<Rightarrow> string \<Rightarrow> string \<Rightarrow> string \<Rightarrow> jsstring" where
  "tag L fg bg txt = tl_style L [Bold, Foreground fg, Background bg] ([32] @ js txt @ [32])"

fun badge :: "'w tui_lib \<Rightarrow> role \<Rightarrow> jsstring" where
  "badge L User = tag L ''black'' ''green'' ''YOU''"
| "badge L Assistant = tag L ''black'' ''cyan'' ''AGENT''"
| "badge L ToolCall = tag L ''black'' ''yellow'' ''TOOL''"
| "badge L System = tag L ''black'' ''white'' ''SYSTEM''"

definition renderEntry :: "'w tui_lib \<Rightarrow> entry \<Rightarrow> int \<Rightarrow> jsstring" where
  "renderEntry L e width =
     (case e of (role, t) \<Rightarrow>
       if role = ToolCall then badge L ToolCall @ [32] @ tl_style L [Foreground ''yellow''] t
       else let body = join [10] (map (\<lambda>l. [32, 32] @ l) (split_on 10 (wrap t (width - 2))));
                colored = (if role = System then tl_style L [Faint] body else body)
            in badge L role @ [10] @ colored)"

definition refresh :: "'w tui_lib \<Rightarrow> 'w chatapp \<Rightarrow> 'w chatapp" where
  "refresh L a =
     (let w = innerWidth a;
          blocks = map (\<lambda>e. renderEntry L e w) (ca_entries a) @
            (if ca_streaming a \<and> ca_pending a \<noteq> [] then [renderEntry L (Assistant, ca_pending a) w] else [])
      in a\<lparr>ca_vp := tl_gotoBottom L (tl_setContent L (join [10, 10] blocks) (ca_vp a))\<rparr>)"

text \<open>\<open>Object.entries\<close> of an object or an array.\<close>

definition js_entries :: "jsval \<Rightarrow> (jsstring \<times> jsval) list" where
  "js_entries v =
     (case v of Obj ps \<Rightarrow> ps | Arr xs \<Rightarrow> map (\<lambda>(i, x). (dec_nat i, x)) (enumerate 0 xs)
      | Buf x \<Rightarrow> map (\<lambda>(i, u). (dec_nat i, Num (uint u))) (enumerate 0 x) | _ \<Rightarrow> [])"

definition compact :: "b4a \<Rightarrow> jsval \<Rightarrow> jsstring" where
  "compact b input =
     (if \<not> truthy input \<or> \<not> typeof_object input then []
      else take 60 (join (js '', '') (map (\<lambda>(k, v).
        k @ js '': '' @ (case v of Str s \<Rightarrow> s | _ \<Rightarrow> to_text b (JSON_stringify v))) (js_entries input))))"

section \<open>Updates\<close>

definition chatapp_new :: "'w tui_lib \<Rightarrow> jsstring \<Rightarrow> 'w chatapp" where
  "chatapp_new L storePath =
     (let a = \<lparr>ca_storePath = storePath, ca_ready = False, ca_bootStatus = js ''starting'' @ [0x2026],
           ca_entries = [(System, js ''Booting the P2P agent'' @ [0x2026])], ca_pending = [], ca_streaming = False,
           ca_gen = None, ca_gens = 0, ca_width = 80, ca_height = 24, ca_input = tl_input L, ca_spinner = tl_spinner L,
           ca_help = tl_help L, ca_vp = tl_viewport L 0 0\<rparr>
      in refresh L (a\<lparr>ca_vp := tl_viewport L (innerWidth a) (bodyHeight a)\<rparr>))"

definition chatapp_init :: cmd where
  "chatapp_init = Batch [SpinnerInit, Boot]"

definition submit :: "'w tui_lib \<Rightarrow> jsstring \<Rightarrow> 'w chatapp \<Rightarrow> 'w chatapp \<times> cmd" where
  "submit L t a =
     (let g = ca_gens a;
          a = a\<lparr>ca_input := tl_reset L (ca_input a), ca_entries := ca_entries a @ [(User, t)], ca_pending := [],
            ca_streaming := True, ca_gen := Some g, ca_gens := Suc g\<rparr>
      in (refresh L a, Batch [Pull g, SpinnerInit]))"

definition onKey :: "'w tui_lib \<Rightarrow> jsstring \<Rightarrow> 'w chatapp \<Rightarrow> 'w chatapp \<times> cmd" where
  "onKey L k a =
     (if k \<in> {js ''ctrl+c'', js ''esc''} then (a, Quit)
      else if k \<in> {js ''pgup'', js ''pgdn'', js ''ctrl+u'', js ''ctrl+d''}
      then (a\<lparr>ca_vp := tl_on_viewport L k (ca_vp a)\<rparr>, NoCmd)
      else if \<not> ca_ready a \<or> ca_streaming a then (a, NoCmd)
      else if k = js ''enter''
      then (let t = trim (tl_value L (ca_input a)) in if t = [] then (a, NoCmd) else submit L t a)
      else (case tl_on_input L k (ca_input a) of (i, c) \<Rightarrow> (a\<lparr>ca_input := i\<rparr>, c)))"

text \<open>What a chunk adds to the pending answer.\<close>

definition chunk_text :: "b4a \<Rightarrow> jsval \<Rightarrow> jsstring" where
  "chunk_text b c =
     (if field c (js ''type'') = Str (js ''content'') then to_text b (field c (js ''content''))
      else if field c (js ''type'') = Str (js ''error'')
      then [10] @ js ''[error] '' @ to_text b (js_or (field c (js ''content'')) (Str (js ''stream error'')))
      else [])"

definition ends_turn :: "jsval \<Rightarrow> bool" where
  "ends_turn c \<longleftrightarrow> field c (js ''type'') = Str (js ''done'') \<or> field c (js ''type'') = Str (js ''error'')"

definition pull :: "nat option \<Rightarrow> cmd" where
  "pull g = (case g of Some n \<Rightarrow> Pull n | None \<Rightarrow> NoCmd)"

definition onChunk :: "'w tui_lib \<Rightarrow> jsval \<Rightarrow> 'w chatapp \<Rightarrow> 'w chatapp \<times> cmd" where
  "onChunk L c a =
     (let a = a\<lparr>ca_pending := ca_pending a @ chunk_text (tl_b4a L) c\<rparr>;
          a = (if ends_turn c
               then a\<lparr>ca_entries := ca_entries a @ (if trim (ca_pending a) \<noteq> [] then [(Assistant, trim (ca_pending a))] else []),
                      ca_pending := [], ca_streaming := False\<rparr>
               else a)
      in (refresh L a, pull (ca_gen a)))"

definition onExhausted :: "'w tui_lib \<Rightarrow> 'w chatapp \<Rightarrow> 'w chatapp \<times> cmd" where
  "onExhausted L a = (refresh L (a\<lparr>ca_streaming := False, ca_input := tl_focus L (ca_input a)\<rparr>), NoCmd)"

text \<open>\<open>msg.error?.message || msg.error\<close>\<close>

definition error_text :: "b4a \<Rightarrow> jsval \<Rightarrow> jsstring" where
  "error_text b e = js ''error: '' @ to_text b (js_or (field e (js ''message'')) e)"

fun update :: "'w tui_lib \<Rightarrow> msg \<Rightarrow> 'w chatapp \<Rightarrow> 'w chatapp \<times> cmd" where
  "update L (Status t) a = (a\<lparr>ca_bootStatus := t\<rparr>, NoCmd)"
| "update L Ready a =
     (refresh L (a\<lparr>ca_ready := True, ca_input := tl_focus L (ca_input a), ca_entries :=
        [(System, js ''Agent ready, with the full P2P toolkit registered.''),
         (System, js ''Try: Join a Hyperswarm topic called \"lobby\", list the peers, then broadcast \"hello\". Or just chat.'')]\<rparr>),
      NoCmd)"
| "update L (Resize w h) a =
     (let a = a\<lparr>ca_width := w, ca_height := h\<rparr>
      in (refresh L (a\<lparr>ca_vp := tl_viewport L (innerWidth a) (bodyHeight a)\<rparr>), NoCmd))"
| "update L (SpinnerTick m) a =
     (case tl_on_spinner L m (ca_spinner a) of (s, c) \<Rightarrow>
        (a\<lparr>ca_spinner := s\<rparr>, if \<not> ca_ready a \<or> ca_streaming a then c else NoCmd))"
| "update L Exhausted a = onExhausted L a"
| "update L (Chunk c) a = onChunk L c a"
| "update L (Tool name input) a =
     (refresh L (a\<lparr>ca_entries := ca_entries a @ [(ToolCall, name @ [40] @ compact (tl_b4a L) input @ [41])]\<rparr>), NoCmd)"
| "update L (Failed e) a =
     (refresh L (a\<lparr>ca_entries := ca_entries a @ [(System, error_text (tl_b4a L) e)], ca_streaming := False\<rparr>), NoCmd)"
| "update L (Key k) a = onKey L k a"
| "update L OtherMsg a = (a, NoCmd)"

section \<open>The screen\<close>

definition status_line :: "'w tui_lib \<Rightarrow> 'w chatapp \<Rightarrow> jsstring" where
  "status_line L a =
     (if \<not> ca_ready a
      then tl_view L (ca_spinner a) @ [32] @ tl_style L [Faint] (js ''booting '' @ [0x2014] @ [32] @ ca_bootStatus a)
      else if ca_streaming a
      then tl_view L (ca_spinner a) @ [32] @ tl_style L [Foreground ''yellow''] (js ''agent is working'' @ [0x2026])
      else tl_help_view L (ca_help a) [KEYS_send, KEYS_scroll, KEYS_quit])"

definition view :: "'w tui_lib \<Rightarrow> 'w chatapp \<Rightarrow> jsstring" where
  "view L a = tl_joinVertical L
     [tl_style L [Bold, Foreground ''black'', Background ''cyan'', Width (ca_width a)]
        ([32, 0xD83D, 0xDC1D] @ js '' bareclaw P2P agent  '' @ [0xB7] @ js ''  '' @ ca_storePath a),
      tl_style L [RoundedBorder, BorderForeground ''blue'', Padding 0 1] (tl_view L (ca_vp a)),
      [32] @ status_line L a,
      tl_style L [RoundedBorder, BorderForeground (if ca_ready a then ''green'' else ''gray''), Padding 0 1, Width (innerWidth a)]
        (tl_view L (ca_input a))]"

section \<open>Booting\<close>

definition tui_OPTS :: jsval where
  "tui_OPTS = Obj [(js ''provider'', Str (js ''ollama'')), (js ''model'', Str (js ''lfm2.5''))]"

text \<open>
  The wrapper around \<open>registerTool\<close>: a call of the tool first sends a message to the loop.  The
  application state is the resources of the tools and the messages sent.
\<close>

definition notifyTool :: "jsstring \<Rightarrow> jsval \<Rightarrow> msg list \<Rightarrow> msg list" where
  "notifyTool name input msgs = msgs @ [Tool name input]"

definition mirrored :: "'n registration \<Rightarrow> ('n p2p \<times> msg list) tool" where
  "mirrored r input s =
     (case s of (st, msgs) \<Rightarrow>
        let msgs = notifyTool (rg_name r) input msgs
        in (case rg_handler r input st of (res, st) \<Rightarrow> (res, (st, msgs))))"

definition register_mirrored ::
    "('w, 'b, 'n p2p \<times> msg list) env \<Rightarrow> 'n p2p_lib \<Rightarrow> ('w, 'b, 'n p2p \<times> msg list, unit) act" where
  "register_mirrored E P =
     for_each (\<lambda>r. registerTool E (Str (rg_name r)) (Str (rg_description r)) (rg_schema r) (Some (mirrored r))) (p2p_tools P)"

text \<open>
  \<open>_boot\<close> runs on the instance and the messages sent so far.  \<open>_status\<close> sends one; the other steps
  act on the instance.  Opening the store is a parameter.  The result is the message that ends
  booting, with the session key.
\<close>

definition status :: "string \<Rightarrow> 'c \<times> msg list \<Rightarrow> unit result \<times> 'c \<times> msg list" where
  "status t s = (Inr (), fst s, snd s @ [Status (js t @ [0x2026])])"

definition on_claw :: "('c \<Rightarrow> 'x result \<times> 'c) \<Rightarrow> 'c \<times> msg list \<Rightarrow> 'x result \<times> 'c \<times> msg list" where
  "on_claw m s = (case m (fst s) of (r, c) \<Rightarrow> (r, c, snd s))"

definition boot ::
    "('w, 'b, 'n p2p \<times> msg list) env \<Rightarrow> 'n p2p_lib \<Rightarrow> unit result \<Rightarrow> 'w \<Rightarrow> 'b
      \<Rightarrow> (msg \<times> jsval) result \<times> ('w, 'b, 'n p2p \<times> msg list) claw \<times> msg list" where
  "boot E P store_ready w b =
     andthen (status ''opening corestore'') (\<lambda>_.
     andthen (\<lambda>s. (store_ready, s)) (\<lambda>_.
     andthen (status ''spawning bareclaw agent'') (\<lambda>_.
     andthen (on_claw (e_ready E)) (\<lambda>_.
     andthen (status ''registering P2P tools'') (\<lambda>_.
     andthen (on_claw (register_mirrored E P)) (\<lambda>_.
     andthen (on_claw (session E (Obj [(js ''agentId'', Str (js ''p2p-tui'')), (js ''channel'', Str (js ''tui''))]))) (\<lambda>key.
     ret (Ready, key))))))))
       (claw_new tui_OPTS w b, [])"

definition tui_shutdown :: "('w, 'b, 'a) env \<Rightarrow> ('w, 'b, 'a) claw option \<Rightarrow> (unit result) option \<times> ('w, 'b, 'a) claw option" where
  "tui_shutdown E bc =
     (case bc of None \<Rightarrow> (Some (Inr ()), None) | Some st \<Rightarrow> apsnd Some (claw_close E st))"

end
