(* ===== verification/Tui_Props.thy ===== *)
theory Tui_Props
  imports Tui
begin

text \<open>
  What the terminal interface of src/examples/p2p-tui.js promises: wrapped lines that fit and keep
  the words, one transcript entry per turn, and what happens to a turn that is sent too early.
\<close>

section \<open>Wrapping\<close>

lemma split_on_append: "split_on c (s @ c # t) = split_on c s @ split_on c t"
  by (induction s) (auto split: list.splits)

lemma join_append: "xs \<noteq> [] \<Longrightarrow> ys \<noteq> [] \<Longrightarrow> join sep (xs @ ys) = join sep xs @ sep @ join sep ys"
proof (induction sep xs rule: join.induct)
  case (2 sep t)
  then show ?case
    by (cases ys) simp_all
qed simp_all

lemma join_concat: "\<forall>ls \<in> set lss. ls \<noteq> [] \<Longrightarrow> join sep (map (join sep) lss) = join sep (concat lss)"
proof (induction lss)
  case (Cons ls lss)
  show ?case
  proof (cases lss)
    case (Cons ms mss)
    then have "concat lss \<noteq> []"
      using Cons.prems by simp
    with Cons.prems show ?thesis
      using Cons.IH join_append [of ls "concat lss" sep] Cons by simp
  qed simp
qed simp

text \<open>A line is short, or one word.\<close>

definition single_word :: "jsstring \<Rightarrow> bool" where
  "single_word l \<longleftrightarrow> 32 \<notin> set l"

lemma wrap_words_fit:
  assumes "\<forall>x \<in> set ws. single_word x" and "length cur \<le> w \<or> single_word cur"
  shows "\<forall>l \<in> set (wrap_words w cur ws). length l \<le> w \<or> single_word l"
  using assms by (induction w cur ws rule: wrap_words.induct) (auto simp: single_word_def)

text \<open>The words of a text: what is between its spaces and line ends, without the empty ones.\<close>

definition line_words :: "jsstring \<Rightarrow> jsstring list" where
  "line_words s = filter (\<lambda>x. x \<noteq> []) (split_on 32 s)"

definition text_words :: "jsstring \<Rightarrow> jsstring list" where
  "text_words s = concat (map line_words (split_on 10 s))"

lemma wrap_words_words:
  "\<forall>x \<in> set ws. single_word x \<Longrightarrow>
    concat (map line_words (wrap_words w cur ws)) = line_words cur @ filter (\<lambda>x. x \<noteq> []) ws"
proof (induction w cur ws rule: wrap_words.induct)
  case (2 w cur word words)
  have "line_words word = (if word = [] then [] else [word])"
    using 2(3) by (simp add: line_words_def single_word_def split_on_single)
  moreover have "line_words (cur @ 32 # word) = line_words cur @ line_words word"
    by (simp add: line_words_def split_on_append)
  moreover have "line_words [] = []"
    by (simp add: line_words_def)
  ultimately show ?case
    using 2 by auto
qed simp

lemma wrap_words_set: "10 \<notin> set cur \<Longrightarrow> \<forall>x \<in> set ws. 10 \<notin> set x \<Longrightarrow> \<forall>l \<in> set (wrap_words w cur ws). 10 \<notin> set l"
  by (induction w cur ws rule: wrap_words.induct) auto

lemma wrap_words_not_Nil: "wrap_words w cur ws \<noteq> []"
  by (induction w cur ws rule: wrap_words.induct) auto

lemma split_wrap:
  "split_on 10 (wrap t width) = concat (map (\<lambda>line. wrap_words (nat (max 20 width)) [] (split_on 32 line)) (split_on 10 t))"
proof -
  let ?wrapped = "map (\<lambda>line. wrap_words (nat (max 20 width)) [] (split_on 32 line)) (split_on 10 t)"
  have "wrap t width = join [10] (map (join [10]) ?wrapped)"
    by (simp add: wrap_def Let_def comp_def)
  also have "\<dots> = join [10] (concat ?wrapped)"
    by (rule join_concat) (auto simp: wrap_words_not_Nil)
  finally have "wrap t width = join [10] (concat ?wrapped)" .
  moreover have "\<forall>l \<in> set (concat ?wrapped). 10 \<notin> set l"
    using wrap_words_set [of "[]"] split_on_fresh [of _ 10 t] split_on_sub by fastforce
  moreover have "concat ?wrapped \<noteq> []"
    using wrap_words_not_Nil split_on_not_Nil [of 10 t] by (cases "split_on 10 t") auto
  ultimately show ?thesis
    by (simp add: split_join)
qed

text \<open>
  Wrapping fits the width and keeps the words: every line of the result is within the width
  (at least 20) or a single word that is longer, and the words of the result are the words of
  the text in order.
\<close>

theorem wrapping_fits_and_keeps_the_words:
  "list_all (\<lambda>l. length l \<le> nat (max 20 width) \<or> single_word l) (split_on 10 (wrap t width))
   \<and> text_words (wrap t width) = text_words t"
proof
  have words: "\<forall>x \<in> set (split_on 32 line). single_word x" for line
    using split_on_fresh by (auto simp: single_word_def)
  show "list_all (\<lambda>l. length l \<le> nat (max 20 width) \<or> single_word l) (split_on 10 (wrap t width))"
    unfolding split_wrap list_all_iff using wrap_words_fit [OF words, of "[]"] by auto
  have "concat (map line_words (concat (map (\<lambda>line. wrap_words w [] (split_on 32 line)) ls))) = concat (map line_words ls)" for w ls
    by (induction ls) (simp_all add: wrap_words_words [OF words], simp_all add: line_words_def)
  then show "text_words (wrap t width) = text_words t"
    unfolding text_words_def split_wrap by simp
qed

section \<open>Turns\<close>

text \<open>Messages one after the other, with the commands they gave.\<close>

fun run_msgs :: "'w tui_lib \<Rightarrow> msg list \<Rightarrow> 'w chatapp \<Rightarrow> 'w chatapp \<times> cmd list" where
  "run_msgs L [] a = (a, [])"
| "run_msgs L (m # ms) a =
     (case update L m a of (a, c) \<Rightarrow> case run_msgs L ms a of (a, cs) \<Rightarrow> (a, c # cs))"

text \<open>Drawing changes the viewport only.\<close>

lemma refresh_simps [simp]:
  "ca_entries (refresh L a) = ca_entries a" "ca_pending (refresh L a) = ca_pending a"
  "ca_streaming (refresh L a) = ca_streaming a" "ca_gen (refresh L a) = ca_gen a" "ca_gens (refresh L a) = ca_gens a"
  "ca_ready (refresh L a) = ca_ready a" "ca_input (refresh L a) = ca_input a"
  by (simp_all add: refresh_def Let_def)

definition answer_entry :: "jsstring \<Rightarrow> entry list" where
  "answer_entry t = (if trim t \<noteq> [] then [(Assistant, trim t)] else [])"

lemma run_chunks:
  assumes "\<forall>c \<in> set body. \<not> ends_turn c"
  shows "\<exists>a'. run_msgs L (map Chunk body @ ms) a = (case run_msgs L ms a' of (a'', cs) \<Rightarrow> (a'', replicate (length body) (pull (ca_gen a)) @ cs))
    \<and> ca_entries a' = ca_entries a \<and> ca_pending a' = ca_pending a @ concat (map (chunk_text (tl_b4a L)) body)
    \<and> ca_streaming a' = ca_streaming a \<and> ca_gen a' = ca_gen a \<and> ca_gens a' = ca_gens a \<and> ca_ready a' = ca_ready a
    \<and> ca_input a' = ca_input a"
  using assms
proof (induction body arbitrary: a)
  case Nil
  show ?case
    by (intro exI [of _ a]) (simp split: prod.splits)
next
  case (Cons c body)
  define a1 where "a1 = fst (onChunk L c a)"
  have first: "onChunk L c a = (a1, pull (ca_gen a))" "ca_entries a1 = ca_entries a"
    "ca_pending a1 = ca_pending a @ chunk_text (tl_b4a L) c" "ca_streaming a1 = ca_streaming a" "ca_gen a1 = ca_gen a"
    "ca_gens a1 = ca_gens a" "ca_ready a1 = ca_ready a" "ca_input a1 = ca_input a"
    using Cons.prems by (simp_all add: a1_def onChunk_def Let_def)
  have "\<forall>x \<in> set body. \<not> ends_turn x"
    using Cons.prems by simp
  from Cons.IH [OF this, of a1] obtain a' where a':
    "run_msgs L (map Chunk body @ ms) a1 =
       (case run_msgs L ms a' of (a'', cs) \<Rightarrow> (a'', replicate (length body) (pull (ca_gen a1)) @ cs))"
    "ca_entries a' = ca_entries a1" "ca_pending a' = ca_pending a1 @ concat (map (chunk_text (tl_b4a L)) body)"
    "ca_streaming a' = ca_streaming a1" "ca_gen a' = ca_gen a1" "ca_gens a' = ca_gens a1" "ca_ready a' = ca_ready a1"
    "ca_input a' = ca_input a1"
    by (elim exE conjE)
  have "run_msgs L (map Chunk (c # body) @ ms) a =
      (case run_msgs L ms a' of (a'', cs) \<Rightarrow> (a'', replicate (length (c # body)) (pull (ca_gen a)) @ cs))"
    unfolding list.map append_Cons run_msgs.simps update.simps first(1) prod.case a'(1) first(5)
    by (cases "run_msgs L ms a'") simp
  then show ?case
    using a'(2-) first(2-) by (intro exI [of _ a']) simp
qed

lemma turn_run:
  assumes "ca_streaming a" and "ca_pending a = []" and "ca_gen a = Some g"
    and "\<forall>c \<in> set body. \<not> ends_turn c" and "ends_turn final"
  shows "case run_msgs L (map Chunk (body @ [final]) @ [Exhausted]) a of (a', cmds) \<Rightarrow>
    ca_entries a' = ca_entries a @ answer_entry (concat (map (chunk_text (tl_b4a L)) (body @ [final])))
    \<and> ca_pending a' = [] \<and> \<not> ca_streaming a' \<and> cmds = replicate (length body + 1) (Pull g) @ [NoCmd]
    \<and> ca_ready a' = ca_ready a \<and> ca_gens a' = ca_gens a \<and> ca_input a' = tl_focus L (ca_input a)"
proof -
  obtain a' where a': "run_msgs L (map Chunk body @ [Chunk final, Exhausted]) a =
      (case run_msgs L [Chunk final, Exhausted] a' of (a'', cs) \<Rightarrow> (a'', replicate (length body) (pull (ca_gen a)) @ cs))"
    "ca_entries a' = ca_entries a" "ca_pending a' = ca_pending a @ concat (map (chunk_text (tl_b4a L)) body)" "ca_gen a' = ca_gen a"
    "ca_gens a' = ca_gens a" "ca_ready a' = ca_ready a" "ca_input a' = ca_input a"
    using run_chunks [OF assms(4), of L "[Chunk final, Exhausted]" a] by (elim exE conjE)
  have msgs: "map Chunk (body @ [final]) @ [Exhausted] = map Chunk body @ [Chunk final, Exhausted]"
    by simp
  show ?thesis
    unfolding msgs a'(1) using assms(2,3,5) a'(2-)
    by (simp add: onChunk_def onExhausted_def Let_def answer_entry_def pull_def replicate_app_Cons_same)
qed

text \<open>
  A turn becomes one entry of the transcript.  While a turn streams, its chunks up to the final one
  add one entry, the trimmed text of the answer (none when that is empty), each chunk asks
  for the next one of the same generator, and when the generator is exhausted the interface is
  idle with nothing pending.
\<close>

theorem turn_becomes_one_entry:
  assumes "ca_streaming a" and "ca_pending a = []" and "ca_gen a = Some g"
    and "\<forall>c \<in> set body. \<not> ends_turn c" and "ends_turn final"
  shows "case run_msgs L (map Chunk (body @ [final]) @ [Exhausted]) a of (a', cmds) \<Rightarrow>
    ca_entries a' = ca_entries a @ answer_entry (concat (map (chunk_text (tl_b4a L)) (body @ [final])))
    \<and> ca_pending a' = [] \<and> \<not> ca_streaming a' \<and> cmds = replicate (length body + 1) (Pull g) @ [NoCmd]"
  using turn_run [OF assms, of L] by (simp add: case_prod_beta)


text \<open>Widgets that are the texts typed into them.\<close>

definition plain_lib :: "jsstring tui_lib" where
  "plain_lib = \<lparr>tl_b4a = utf8_b4a, tl_input = js ''hi'', tl_spinner = [], tl_help = [], tl_viewport = (\<lambda>_ _. []), tl_focus = (\<lambda>w. w),
     tl_reset = (\<lambda>w. []), tl_value = (\<lambda>w. w), tl_on_input = (\<lambda>k w. (k, NoCmd)), tl_on_spinner = (\<lambda>_ w. (w, NoCmd)),
     tl_on_viewport = (\<lambda>_ w. w), tl_setContent = (\<lambda>t _. t), tl_gotoBottom = (\<lambda>w. w), tl_view = (\<lambda>w. w), tl_help_view = (\<lambda>w _. w),
     tl_style = (\<lambda>_ t. t), tl_joinVertical = join [10]\<rparr>"

definition streaming_app :: "jsstring chatapp" where
  "streaming_app = (chatapp_new plain_lib [])\<lparr>ca_ready := True, ca_streaming := True, ca_gen := Some 0, ca_gens := 1\<rparr>"

definition content_chunk :: "string \<Rightarrow> jsval" where
  "content_chunk t = Obj [(js ''type'', Str (js ''content'')), (js ''content'', Str (js t)), (js ''done'', Bool False)]"

definition done_chunk :: jsval where
  "done_chunk = Obj [(js ''type'', Str (js ''done'')), (js ''done'', Bool True)]"

lemma trim_a: "trim (js ''a'') = js ''a''"
  by (rule trim_trimmed) (simp add: trimmed_def is_space_def js_def)

lemma trim_hi: "trim (js ''hi'') = js ''hi''"
  by (rule trim_trimmed) (simp add: trimmed_def is_space_def js_def)

theorem turn_becomes_one_entry_witness:
  "case run_msgs plain_lib (map Chunk ([content_chunk ''hi''] @ [done_chunk]) @ [Exhausted]) streaming_app of (a', cmds) \<Rightarrow>
    ca_entries a' = ca_entries streaming_app @ [(Assistant, js ''hi'')]"
proof -
  have a: "ca_streaming streaming_app" "ca_pending streaming_app = []" "ca_gen streaming_app = Some 0"
    by (simp_all add: streaming_app_def chatapp_new_def Let_def)
  have c: "\<forall>c \<in> set [content_chunk ''hi'']. \<not> ends_turn c" "ends_turn done_chunk"
    by (simp_all add: content_chunk_def done_chunk_def ends_turn_def)
  have "concat (map (chunk_text (tl_b4a plain_lib)) ([content_chunk ''hi''] @ [done_chunk])) = js ''hi''"
    by (simp add: chunk_text_def content_chunk_def done_chunk_def)
  with turn_becomes_one_entry [OF a c, of plain_lib] show ?thesis
    by (auto simp: answer_entry_def trim_hi simp del: append.simps split: prod.splits)
qed


end
