(* ===== verification/Tui_Program.thy ===== *)
theory Tui_Program
  imports Fleets Tui_Props
begin

text \<open>
  The program of src/examples/p2p-tui.js as a whole: \<open>main\<close>, with the interface driven by its
  messages, the chat turns it pulls from the class, and its end.  The runtime of bare-tui hands the
  application one message at a time and runs the commands it gives back; the run is the one in which
  a user waits for the end of a turn before going on.  What a widget's own commands and the spinner do
  is no part of it.
\<close>

section \<open>The program\<close>

text \<open>\<open>tu_gens\<close> is the generators, by their numbers.\<close>

record ('u, 'w, 'b, 'a) tui =
  tu_app :: "'u chatapp"
  tu_claw :: "('w, 'b, 'a) claw"
  tu_gens :: "nat \<Rightarrow> gen"

definition storePath :: "jsstring list \<Rightarrow> jsstring" where
  "storePath argv = (if length argv > 2 \<and> argv ! 2 \<noteq> [] then argv ! 2 else js ''./store-p2p-tui'')"

text \<open>
  The command \<open>pull\<close>, and the command after it, until one is no \<open>pull\<close>.  A command that rejects comes back
  as a message with its error, which \<open>err\<close> makes a value.
\<close>

fun pulled :: "(thrown \<Rightarrow> jsval) \<Rightarrow> iter result \<Rightarrow> msg" where
  "pulled err (Inl e) = Failed (err e)"
| "pulled err (Inr Finished) = Exhausted"
| "pulled err (Inr (Yields v)) = Chunk v"

partial_function (option) tui_pulls ::
    "('w, 'b, 'a) env \<Rightarrow> 'u tui_lib \<Rightarrow> (thrown \<Rightarrow> jsval) \<Rightarrow> nat \<Rightarrow> ('u, 'w, 'b, 'a) tui \<Rightarrow> ('u, 'w, 'b, 'a) tui option" where
  "tui_pulls E L err g s =
     (case chat_next E (tu_gens s g) (tu_claw s) of ((x, gen), st) \<Rightarrow>
        (case update L (pulled err x) (tu_app s) of (a, c) \<Rightarrow>
           (let s = s\<lparr>tu_app := a, tu_claw := st, tu_gens := (tu_gens s)(g := gen)\<rparr>
            in (case c of Pull g \<Rightarrow> tui_pulls E L err g s | _ \<Rightarrow> Some s))))"

text \<open>
  The keys, up to the one that quits.  A key that gives a turn has made its generator, for the text it
  put into the transcript.
\<close>

fun tui_keys :: "('w, 'b, 'a) env \<Rightarrow> 'u tui_lib \<Rightarrow> (thrown \<Rightarrow> jsval) \<Rightarrow> jsval \<Rightarrow> jsstring list
    \<Rightarrow> ('u, 'w, 'b, 'a) tui \<Rightarrow> ('u, 'w, 'b, 'a) tui option" where
  "tui_keys E L err key [] s = None"
| "tui_keys E L err key (k # ks) s =
     (case update L (Key k) (tu_app s) of (a, c) \<Rightarrow>
        (let s = s\<lparr>tu_app := a\<rparr>
         in (case c of
               Quit \<Rightarrow> Some s
             | Batch (Pull g # _) \<Rightarrow>
                 (case tui_pulls E L err g (s\<lparr>tu_gens := (tu_gens s)(g := chat key (Str (snd (last (ca_entries a)))) Undef)\<rparr>) of
                    None \<Rightarrow> None | Some s \<Rightarrow> tui_keys E L err key ks s)
             | _ \<Rightarrow> tui_keys E L err key ks s)))"

text \<open>Booting, whose messages are handled as they come; the last one says how it ended.\<close>

definition tui_boot ::
    "('w, 'b, 'n p2p \<times> msg list) env \<Rightarrow> 'n p2p_lib \<Rightarrow> 'u tui_lib \<Rightarrow> (thrown \<Rightarrow> jsval) \<Rightarrow> jsstring \<Rightarrow> unit result \<Rightarrow> 'w \<Rightarrow> 'b
      \<Rightarrow> jsval \<times> ('u, 'w, 'b, 'n p2p \<times> msg list) tui" where
  "tui_boot E P L err path store_ready w b =
     (case boot E P store_ready w b of (r, st, msgs) \<Rightarrow>
        (case r of Inl e \<Rightarrow> Null | Inr (m, key) \<Rightarrow> key,
         \<lparr>tu_app = fst (run_msgs L (msgs @ [case r of Inl e \<Rightarrow> Failed (err e) | Inr (m, key) \<Rightarrow> m]) (chatapp_new L path)),
          tu_claw = st, tu_gens = (\<lambda>_. chat Null Null Undef)\<rparr>))"

text \<open>
  \<open>main\<close>: the interface until the user quits, then \<open>shutdown\<close>.  The instance is made once the store is
  ready; \<open>store_closed\<close> is what closing the store does.  A user who never quits leaves it running.
\<close>

definition tui_main ::
    "('w, 'b, 'n p2p \<times> msg list) env \<Rightarrow> 'n p2p_lib \<Rightarrow> 'u tui_lib \<Rightarrow> (thrown \<Rightarrow> jsval) \<Rightarrow> jsstring list \<Rightarrow> jsstring list
      \<Rightarrow> unit result \<Rightarrow> unit result \<Rightarrow> 'w \<Rightarrow> 'b \<Rightarrow> (unit result \<times> ('u, 'w, 'b, 'n p2p \<times> msg list) tui) option" where
  "tui_main E P L err argv keys store_ready store_closed w b =
     (case tui_boot E P L err (storePath argv) store_ready w b of (key, s) \<Rightarrow>
        (case tui_keys E L err key keys s of
           None \<Rightarrow> None
         | Some s \<Rightarrow>
             (case tui_shutdown E (case store_ready of Inl _ \<Rightarrow> None | Inr _ \<Rightarrow> Some (tu_claw s)) of
                (None, bc) \<Rightarrow> None
              | (Some r, bc) \<Rightarrow>
                  Some (rbind r (\<lambda>_. store_closed), s\<lparr>tu_claw := (case bc of None \<Rightarrow> tu_claw s | Some st \<Rightarrow> st)\<rparr>))))"

text \<open>\<open>main().catch\<close>: what is logged, and the exit code.\<close>

definition tui_end :: "unit result \<Rightarrow> effect list \<times> int" where
  "tui_end r = (case r of Inl e \<Rightarrow> ([LoggedError e], 1) | Inr _ \<Rightarrow> ([], 0))"

definition tui_program ::
    "('w, 'b, 'n p2p \<times> msg list) env \<Rightarrow> 'n p2p_lib \<Rightarrow> 'u tui_lib \<Rightarrow> (thrown \<Rightarrow> jsval) \<Rightarrow> jsstring list \<Rightarrow> jsstring list
      \<Rightarrow> unit result \<Rightarrow> unit result \<Rightarrow> 'w \<Rightarrow> 'b \<Rightarrow> ((effect list \<times> int) \<times> ('u, 'w, 'b, 'n p2p \<times> msg list) tui) option" where
  "tui_program E P L err argv keys store_ready store_closed w b =
     map_option (apfst tui_end) (tui_main E P L err argv keys store_ready store_closed w b)"

section \<open>A turn in the program\<close>

lemma pulls_consume:
  assumes "consume E n (tu_gens s g) (tu_claw s) = ((vs, Inr ()), st')" and "length vs < n" and "ca_gen (tu_app s) = Some g"
  shows "\<exists>gen. tui_pulls E L err g s = Some (s\<lparr>tu_app := fst (run_msgs L (map Chunk vs @ [Exhausted]) (tu_app s)), tu_claw := st',
      tu_gens := (tu_gens s)(g := gen)\<rparr>)"
  using assms
proof (induction n arbitrary: s vs)
  case (Suc n)
  obtain x g1 st1 where step: "chat_next E (tu_gens s g) (tu_claw s) = ((x, g1), st1)"
    by (metis surj_pair)
  show ?case
  proof (cases "\<exists>v. x = Inr (Yields v)")
    case False
    then have "x = Inr Finished" "vs = []" "st' = st1"
      using Suc.prems(1) step by (auto split: sum.splits iter.splits)
    then show ?thesis
      using step by (intro exI [of _ g1]) (subst tui_pulls.simps, simp add: onExhausted_def)
  next
    case True
    then obtain v ws where v: "x = Inr (Yields v)" "vs = v # ws" "consume E n g1 st1 = ((ws, Inr ()), st')"
      using Suc.prems(1) step by (auto split: prod.splits)
    obtain a where chunk: "onChunk L v (tu_app s) = (a, Pull g)" "ca_gen a = Some g"
      using Suc.prems(3) by (simp add: onChunk_def Let_def pull_def)
    let ?s = "s\<lparr>tu_app := a, tu_claw := st1, tu_gens := (tu_gens s)(g := g1)\<rparr>"
    have "\<exists>gen. tui_pulls E L err g ?s = Some (?s\<lparr>tu_app := fst (run_msgs L (map Chunk ws @ [Exhausted]) (tu_app ?s)), tu_claw := st',
        tu_gens := (tu_gens ?s)(g := gen)\<rparr>)"
      using v(2,3) Suc.prems(2) chunk(2) by (intro Suc.IH) simp_all
    then obtain gen where "tui_pulls E L err g ?s = Some (s\<lparr>tu_app := fst (run_msgs L (map Chunk ws @ [Exhausted]) a), tu_claw := st',
        tu_gens := (tu_gens s)(g := gen)\<rparr>)"
      by auto
    moreover have "tui_pulls E L err g s = tui_pulls E L err g ?s"
      using step v(1) chunk(1) by (subst tui_pulls.simps) simp
    moreover have "fst (run_msgs L (map Chunk vs @ [Exhausted]) (tu_app s)) = fst (run_msgs L (map Chunk ws @ [Exhausted]) a)"
      using chunk(1) by (simp add: v(2) case_prod_beta)
    ultimately show ?thesis
      by (intro exI [of _ gen]) (simp add: fun_upd_def)
  qed
qed simp

text \<open>The chunks of an answer: the last one ends the turn, and no other does.\<close>

lemma go_reply_ends:
  "go_reply pc m ses = (cs, left) \<Longrightarrow> \<exists>body final. map shown cs = body @ [final] \<and> (\<forall>c \<in> set body. \<not> ends_turn c) \<and> ends_turn final"
proof -
  have content: "\<not> ends_turn (shown (chunk ''content'' t))" "ends_turn (shown (chunk ''error'' t))" "ends_turn (shown (chunk ''done'' t))" for t
    by (simp_all add: ends_turn_def shown_def chunk_def chat_value_def is_final_def)
  assume "go_reply pc m ses = (cs, left)"
  then consider (error) e where "cs = [chunk ''error'' e]" | (turn) r streamed where "cs = go_chunks r streamed"
    by (auto simp: go_reply_def split: option.splits prod.splits)
  then show ?thesis
  proof cases
    case error
    then show ?thesis
      using content by (intro exI [of _ "[]"]) auto
  next
    case turn
    show ?thesis
    proof (cases r)
      case (Inl e)
      then show ?thesis
        using content turn by (intro exI [of _ "map shown (map (chunk ''content'') streamed)"]) (auto simp: go_chunks_def)
    next
      case (Inr t)
      then show ?thesis
        using content turn
        by (intro exI [of _ "map shown (map (chunk ''content'') streamed @ (if streamed = [] then [chunk ''content'' t] else []))"])
          (auto simp: go_chunks_def)
    qed
  qed
qed

section \<open>The conversation\<close>

text \<open>What a user has sent when they quit: a fold over the keys on the input widget alone.\<close>

fun tui_texts :: "'u tui_lib \<Rightarrow> jsstring list \<Rightarrow> 'u \<Rightarrow> jsstring list option" where
  "tui_texts L [] i = None"
| "tui_texts L (k # ks) i =
     (if k \<in> {js ''ctrl+c'', js ''esc''} then Some []
      else if k \<in> {js ''pgup'', js ''pgdn'', js ''ctrl+u'', js ''ctrl+d''} then tui_texts L ks i
      else if k = js ''enter''
      then (let t = trim (tl_value L i)
            in if t = [] then tui_texts L ks i else map_option (Cons t) (tui_texts L ks (tl_focus L (tl_reset L i))))
      else tui_texts L ks (fst (tl_on_input L k i)))"

text \<open>The transcript of a conversation and the book it leaves, by the agent's answers.\<close>

fun transcript :: "picoclaw \<Rightarrow> jsstring \<Rightarrow> jsstring list \<Rightarrow> book \<Rightarrow> entry list \<times> book" where
  "transcript pc k [] bk = ([], bk)"
| "transcript pc k (t # ts) bk =
     (case transcript pc k ts (reply_left pc k t bk) of (es, bk') \<Rightarrow>
        ((User, t) # answer_entry (concat (map (chunk_text utf8_b4a \<circ> shown) (fst (go_reply pc t (bk_sessions bk k))))) @ es, bk'))"

text \<open>A law of the package: the commands of the text input are its own.\<close>

definition widget_cmds :: "'u tui_lib \<Rightarrow> bool" where
  "widget_cmds L \<longleftrightarrow> (\<forall>k i. case snd (tl_on_input L k i) of NoCmd \<Rightarrow> True | WidgetCmd _ \<Rightarrow> True | _ \<Rightarrow> False)"

lemma tui_turn:
  fixes s :: "('u, goserver link, entries, 'a) tui"
  assumes pc: "picoclaw_ok pc" "speaks pc" and L: "tl_b4a L = utf8_b4a" and st: "book_inv (tu_claw s)" and k: "listable k" and t: "key_ok t"
    and app: "ca_streaming (tu_app s)" "ca_pending (tu_app s) = []" "ca_gen (tu_app s) = Some g"
    and gen: "tu_gens s g = chat (Str k) (Str t) Undef"
  shows "\<exists>s'. tui_pulls (go_env pc) L err g s = Some s' \<and> book_inv (tu_claw s') \<and> book_of (tu_claw s') = reply_left pc k t (book_of (tu_claw s))
    \<and> ca_entries (tu_app s') = ca_entries (tu_app s)
        @ answer_entry (concat (map (chunk_text utf8_b4a \<circ> shown) (fst (go_reply pc t (bk_sessions (book_of (tu_claw s)) k)))))
    \<and> \<not> ca_streaming (tu_app s') \<and> ca_ready (tu_app s') = ca_ready (tu_app s) \<and> ca_input (tu_app s') = tl_focus L (ca_input (tu_app s))"
proof -
  obtain cs left where reply: "go_reply pc t (bk_sessions (book_of (tu_claw s)) k) = (cs, left)"
    by (metis surj_pair)
  obtain st' where st': "consume (go_env pc) (Suc (length cs)) (chat (Str k) (Str t) Undef) (tu_claw s) = ((map shown cs, Inr ()), st')"
    "book_inv st'" "book_of st' = book_set k left (book_of (tu_claw s))"
    using go_consume_book [OF pc st k t reply] by blast
  obtain gen' where run: "tui_pulls (go_env pc) L err g s
      = Some (s\<lparr>tu_app := fst (run_msgs L (map Chunk (map shown cs) @ [Exhausted]) (tu_app s)), tu_claw := st', tu_gens := (tu_gens s)(g := gen')\<rparr>)"
    using pulls_consume [OF st'(1) [folded gen]] app(3) by auto
  obtain body final where ends: "map shown cs = body @ [final]" "\<forall>c \<in> set body. \<not> ends_turn c" "ends_turn final"
    using go_reply_ends [OF reply] by blast
  have texts: "concat (map (chunk_text utf8_b4a) (map shown cs)) = concat (map (chunk_text utf8_b4a \<circ> shown) cs)"
    by simp
  show ?thesis
    using turn_run [OF app ends(2,3), of L, folded ends(1), unfolded L texts] st'(2,3) reply
    by (simp add: run case_prod_beta reply_left_def)
qed

lemma tui_keys_run:
  fixes s :: "('u, goserver link, entries, 'a) tui"
  assumes pc: "picoclaw_ok pc" "speaks pc" and L: "tl_b4a L = utf8_b4a" "widget_cmds L" and k: "listable k"
    and st: "book_inv (tu_claw s)" and app: "ca_ready (tu_app s)" "\<not> ca_streaming (tu_app s)"
    and texts: "tui_texts L keys (ca_input (tu_app s)) = Some ts" "\<forall>t \<in> set ts. key_ok t"
  shows "\<exists>s'. tui_keys (go_env pc) L err (Str k) keys s = Some s' \<and> book_inv (tu_claw s')
    \<and> ca_entries (tu_app s') = ca_entries (tu_app s) @ fst (transcript pc k ts (book_of (tu_claw s)))
    \<and> book_of (tu_claw s') = snd (transcript pc k ts (book_of (tu_claw s)))"
  using st app texts
proof (induction keys arbitrary: s ts)
  case (Cons x keys)
  note prems = Cons.prems
  consider (quit) "x \<in> {js ''ctrl+c'', js ''esc''}"
    | (scroll) "x \<notin> {js ''ctrl+c'', js ''esc''}" "x \<in> {js ''pgup'', js ''pgdn'', js ''ctrl+u'', js ''ctrl+d''}"
    | (enter) "x = js ''enter''"
    | (typed) "x \<notin> js ` {''ctrl+c'', ''esc'', ''pgup'', ''pgdn'', ''ctrl+u'', ''ctrl+d'', ''enter''}"
    by auto
  then show ?case
  proof cases
    case quit
    then show ?thesis
      using prems by (auto simp: onKey_def)
  next
    case scroll
    let ?s = "s\<lparr>tu_app := (tu_app s)\<lparr>ca_vp := tl_on_viewport L x (ca_vp (tu_app s))\<rparr>\<rparr>"
    have "tui_keys (go_env pc) L err (Str k) (x # keys) s = tui_keys (go_env pc) L err (Str k) keys ?s"
      using scroll by (simp add: onKey_def)
    moreover have "tui_texts L keys (ca_input (tu_app ?s)) = Some ts"
      using prems(4) scroll by simp
    ultimately show ?thesis
      using Cons.IH [of ?s ts] prems by simp
  next
    case typed
    obtain i c where i: "tl_on_input L x (ca_input (tu_app s)) = (i, c)"
      by (metis surj_pair)
    have c: "c = NoCmd \<or> (\<exists>n. c = WidgetCmd n)"
      using L(2) [unfolded widget_cmds_def, rule_format, of x "ca_input (tu_app s)"] i by (auto split: cmd.splits)
    let ?s = "s\<lparr>tu_app := (tu_app s)\<lparr>ca_input := i\<rparr>\<rparr>"
    have "tui_keys (go_env pc) L err (Str k) (x # keys) s = tui_keys (go_env pc) L err (Str k) keys ?s"
      using typed i c prems(2,3) by (auto simp: onKey_def)
    moreover have "tui_texts L keys (ca_input (tu_app ?s)) = Some ts"
      using prems(4) typed i by auto
    ultimately show ?thesis
      using Cons.IH [of ?s ts] prems by simp
  next
    case enter
    let ?t = "trim (tl_value L (ca_input (tu_app s)))"
    show ?thesis
    proof (cases "?t = []")
      case True
      then have "tui_keys (go_env pc) L err (Str k) (x # keys) s = tui_keys (go_env pc) L err (Str k) keys s"
        using enter prems(2,3) by (simp add: onKey_def)
      moreover have "tui_texts L keys (ca_input (tu_app s)) = Some ts"
        using prems(4) enter True by simp
      ultimately show ?thesis
        using Cons.IH [of s ts] prems by simp
    next
      case False
      then obtain us where us: "ts = ?t # us" "tui_texts L keys (tl_focus L (tl_reset L (ca_input (tu_app s)))) = Some us"
        using prems(4) enter by (auto simp: Let_def)
      let ?g = "ca_gens (tu_app s)"
      obtain a where a: "submit L ?t (tu_app s) = (a, Batch [Pull ?g, SpinnerInit])" "ca_entries a = ca_entries (tu_app s) @ [(User, ?t)]"
        "ca_pending a = []" "ca_streaming a" "ca_gen a = Some ?g" "ca_ready a" "ca_input a = tl_reset L (ca_input (tu_app s))"
        using prems(2) by (simp add: submit_def Let_def)
      let ?s = "s\<lparr>tu_app := a, tu_gens := (tu_gens s)(?g := chat (Str k) (Str ?t) Undef)\<rparr>"
      have t: "key_ok ?t"
        using prems(5) us(1) by simp
      obtain s' where s': "tui_pulls (go_env pc) L err ?g ?s = Some s'" "book_inv (tu_claw s')"
        "book_of (tu_claw s') = reply_left pc k ?t (book_of (tu_claw s))"
        "ca_entries (tu_app s') = ca_entries a
          @ answer_entry (concat (map (chunk_text utf8_b4a \<circ> shown) (fst (go_reply pc ?t (bk_sessions (book_of (tu_claw s)) k)))))"
        "\<not> ca_streaming (tu_app s')" "ca_ready (tu_app s')" "ca_input (tu_app s') = tl_focus L (tl_reset L (ca_input (tu_app s)))"
        using tui_turn [of pc L ?s k ?t ?g err, OF pc L(1) _ k t] prems(1) a by auto
      have step: "tui_keys (go_env pc) L err (Str k) (x # keys) s = tui_keys (go_env pc) L err (Str k) keys s'"
        using enter False prems(2,3) a(1,2) s'(1) by (simp add: onKey_def Let_def)
      show ?thesis
        unfolding step using Cons.IH [of s' us] s'(2-) us prems(5) by (simp add: a(2) case_prod_beta)
    qed
  qed
qed simp

section \<open>The program runs\<close>

definition greeting :: "entry list" where
  "greeting = [(System, js ''Agent ready, with the full P2P toolkit registered.''),
     (System, js ''Try: Join a Hyperswarm topic called \"lobby\", list the peers, then broadcast \"hello\". Or just chat.'')]"

abbreviation tui_key :: "picoclaw \<Rightarrow> jsstring" where
  "tui_key pc \<equiv> fleet_key pc ''tui'' (js ''p2p-tui'')"

lemma tui_boot_run:
  fixes w :: "goserver link" and P :: "'n p2p_lib" and L :: "'u tui_lib"
  assumes pc: "picoclaw_ok pc" and es: "store_ok es" and k: "listable (tui_key pc)"
  shows "\<exists>s. tui_boot (go_env pc) P L err path (Inr ()) w es = (Str (tui_key pc), s) \<and> book_inv (tu_claw s)
    \<and> book_of (tu_claw s) = with_name (tui_key pc) (store_book es)
    \<and> ca_entries (tu_app s) = greeting \<and> ca_ready (tu_app s) \<and> \<not> ca_streaming (tu_app s) \<and> ca_input (tu_app s) = tl_focus L (tl_input L)"
proof -
  have texts: "key_ok (js ''lfm2.5'')" "key_ok (js ''p2p-tui'')" "key_ok (js ''tui'')"
    by (simp_all add: small_key js_def)
  then have opts: "opts_ok tui_OPTS"
    by (simp add: opts_ok_def tui_OPTS_def js_or_def)
  obtain st1 :: "(goserver link, entries, 'n p2p \<times> msg list) claw" where st1:
    "e_ready (go_env pc) (claw_new tui_OPTS w es) = (Inr (), st1)" "book_inv st1" "book_of st1 = store_book es"
    using go_start_book [OF pc es opts] by blast
  obtain st2 where st2: "register_mirrored (go_env pc) P st1 = (Inr (), st2)" "book_inv st2" "book_of st2 = store_book es"
    using register_tools_book [OF pc st1(2) p2p_tools_sendable, of mirrored P] st1(3) by (auto simp: register_mirrored_def)
  have scope: "op_ok pc (NewSession (fleet_scope ''tui'' (js ''p2p-tui'')))"
    using fleet_scope_ok [OF texts(2,3)] k by (simp add: fleet_key_def)
  obtain st3 where st3: "session (go_env pc) (fleet_scope ''tui'' (js ''p2p-tui'')) st2 = (Inr (Str (tui_key pc)), st3)" "book_inv st3"
    "book_of st3 = with_name (tui_key pc) (store_book es)"
    using go_new_session [OF pc st2(2) scope] st2(3) by (auto simp: fleet_key_def with_name_def)
  have booted: "boot (go_env pc) P (Inr ()) w es = (Inr (Ready, Str (tui_key pc)), st3,
      [Status (js ''opening corestore'' @ [0x2026]), Status (js ''spawning bareclaw agent'' @ [0x2026]),
       Status (js ''registering P2P tools'' @ [0x2026])])"
    using st1(1) st2(1) st3(1) by (simp add: boot_def andthen_def status_def on_claw_def ret_def fleet_scope_def)
  show ?thesis
    using st3(2,3) by (simp add: tui_boot_def booted chatapp_new_def Let_def greeting_def)
qed



end
