(* ===== verification/Collab.thy ===== *)
theory Collab
  imports Chat_Loop Js_Text
begin

text \<open>
  The two agents of src/examples/swarm-collab.js: what each keeps, its message handler, its turns
  and its end, and the runs of both over one connection as a step relation, one step per
  event.  The connection is a queue of messages each way (what the line protocol makes of a
  stream), an agent's answer is any text, and the connection does not fail.
\<close>

section \<open>The agents\<close>

definition ROUNDS :: int where
  "ROUNDS = 3"

definition MAX_ROUND :: int where
  "MAX_ROUND = ROUNDS * 2"

definition TASK :: jsstring where
  "TASK = js ''plan a fun community hackathon''"

definition collab_OPTS :: jsval where
  "collab_OPTS = Obj [(js ''provider'', Str (js ''ollama'')), (js ''model'', Str (js ''llama3.2''))]"

text \<open>
  \<open>mb_asking\<close> is the turns whose agent is at work, each with its prompt and its round; \<open>mb_closing\<close>
  is that \<open>finish\<close> is closing the agent's resources.
\<close>

record member =
  mb_name :: jsstring
  mb_persona :: jsstring
  mb_done :: bool
  mb_asking :: "(jsstring \<times> int) list"
  mb_closing :: bool

text \<open>The instance behind a member: the key of its session.\<close>

definition collab_makeAgent :: "('w, 'b, 'a) env \<Rightarrow> jsstring \<Rightarrow> 'w \<Rightarrow> 'b \<Rightarrow> jsval result \<times> ('w, 'b, 'a) claw" where
  "collab_makeAgent E name w b =
     andthen (e_ready E) (\<lambda>_. session E (Obj [(js ''agentId'', Str name), (js ''channel'', Str (js ''collab''))]))
       (claw_new collab_OPTS w b)"

definition member_new :: "jsstring \<Rightarrow> jsstring \<Rightarrow> member" where
  "member_new name persona =
     \<lparr>mb_name = name, mb_persona = persona, mb_done = False, mb_asking = [], mb_closing = False\<rparr>"

section \<open>Turns\<close>

definition turn_prompt :: "b4a \<Rightarrow> jsstring \<Rightarrow> jsval \<Rightarrow> jsstring" where
  "turn_prompt b persona incoming =
     (if truthy incoming
      then js ''You are '' @ persona @ js '', co-planning \"'' @ TASK @ js ''\" with another AI.'' @ [10] @
           js ''Your partner just said: \"'' @ to_text b (field incoming (js ''text'')) @ js ''\"'' @ [10] @
           js ''Reply with ONE concrete idea or improvement that builds on it. Max 2 sentences.''
      else js ''You are '' @ persona @ js ''. Kick off planning \"'' @ TASK @ js ''\" with ONE opening idea. Max 2 sentences.'')"

definition finish :: "member \<Rightarrow> member" where
  "finish m = (if mb_done m then m else m\<lparr>mb_done := True, mb_closing := True\<rparr>)"

text \<open>A turn up to \<open>await ask\<close>, and from there, with the text of the answer.\<close>

definition turn :: "b4a \<Rightarrow> jsval \<Rightarrow> int \<Rightarrow> member \<Rightarrow> member" where
  "turn b incoming round m =
     (if round > MAX_ROUND then finish m
      else m\<lparr>mb_asking := mb_asking m @ [(turn_prompt b (mb_persona m) incoming, round)]\<rparr>)"

definition turn_message :: "member \<Rightarrow> int \<Rightarrow> jsstring \<Rightarrow> jsval" where
  "turn_message m round t = Obj [(js ''from'', Str (mb_name m)), (js ''round'', Num round), (js ''text'', Str t)]"

definition turn_answered :: "int \<Rightarrow> jsstring \<Rightarrow> member \<Rightarrow> jsval \<times> member" where
  "turn_answered round t m = (turn_message m round t, if round \<ge> MAX_ROUND then finish m else m)"

text \<open>A message whose round is a number.\<close>

definition onMessage :: "b4a \<Rightarrow> jsval \<Rightarrow> int \<Rightarrow> member \<Rightarrow> member" where
  "onMessage b msg round m = (if mb_done m then m else turn b msg (round + 1) m)"

section \<open>Both agents\<close>

datatype side = Alice | Bob

fun other :: "side \<Rightarrow> side" where
  "other Alice = Bob"
| "other Bob = Alice"

fun member_start :: "side \<Rightarrow> member" where
  "member_start Alice = member_new (js ''alice'') (js ''the visionary who proposes bold ideas'')"
| "member_start Bob = member_new (js ''bob'') (js ''the pragmatist who sharpens and grounds ideas'')"

text \<open>\<open>cb_wire\<close> is the messages on their way to a side, \<open>cb_said\<close> the texts printed, with their speaker.\<close>

record collab =
  cb_started :: bool
  cb_member :: "side \<Rightarrow> member"
  cb_wire :: "side \<Rightarrow> jsval list"
  cb_said :: "(side \<times> jsstring) list"
  cb_finished :: nat

definition collab_start :: collab where
  "collab_start = \<lparr>cb_started = False, cb_member = member_start, cb_wire = (\<lambda>_. []), cb_said = [], cb_finished = 0\<rparr>"

inductive collab_step :: "b4a \<Rightarrow> collab \<Rightarrow> collab \<Rightarrow> bool" for b where
  connect: "\<not> cb_started c \<Longrightarrow>
    collab_step b c (c\<lparr>cb_started := True, cb_member := (cb_member c)(Alice := turn b Null 1 (cb_member c Alice))\<rparr>)"
| message: "cb_wire c s = msg # msgs \<Longrightarrow> field msg (js ''round'') = Num round \<Longrightarrow>
    collab_step b c (c\<lparr>cb_wire := (cb_wire c)(s := msgs), cb_member := (cb_member c)(s := onMessage b msg round (cb_member c s))\<rparr>)"
| answer: "mb_asking (cb_member c s) = (q, round) # qs \<Longrightarrow>
    turn_answered round t ((cb_member c s)\<lparr>mb_asking := qs\<rparr>) = (msg, m) \<Longrightarrow>
    collab_step b c (c\<lparr>cb_member := (cb_member c)(s := m), cb_wire := (cb_wire c)(other s := cb_wire c (other s) @ [msg]),
      cb_said := cb_said c @ [(s, t)]\<rparr>)"
| closed: "mb_closing (cb_member c s) \<Longrightarrow>
    collab_step b c (c\<lparr>cb_member := (cb_member c)(s := (cb_member c s)\<lparr>mb_closing := False\<rparr>), cb_finished := Suc (cb_finished c)\<rparr>)"

inductive_cases collab_stepE: "collab_step b c c'"

section \<open>The phases of a run\<close>

text \<open>
  A run is before its connection, at the work on a round, with a round on its way, or over.
\<close>

datatype phase = Apart | Thinking nat | Telling nat | Over

definition speaker :: "nat \<Rightarrow> side" where
  "speaker n = (if odd n then Alice else Bob)"

text \<open>The prompt of the next round, given what was said: its speaker's, quoting the last text.\<close>

definition next_prompt :: "b4a \<Rightarrow> (side \<times> jsstring) list \<Rightarrow> jsstring" where
  "next_prompt b said =
     turn_prompt b (mb_persona (member_start (speaker (Suc (length said)))))
       (if said = [] then Null else turn_message (member_start (fst (last said))) (int (length said)) (snd (last said)))"

abbreviation open_for :: "collab \<Rightarrow> side \<Rightarrow> bool" where
  "open_for c s \<equiv> \<not> mb_done (cb_member c s)"

abbreviation idle :: "collab \<Rightarrow> side \<Rightarrow> bool" where
  "idle c s \<equiv> mb_asking (cb_member c s) = []"

fun in_phase :: "b4a \<Rightarrow> phase \<Rightarrow> collab \<Rightarrow> bool" where
  "in_phase b Apart c \<longleftrightarrow>
     \<not> cb_started c \<and> cb_said c = [] \<and> (\<forall>s. open_for c s \<and> idle c s \<and> cb_wire c s = [])"
| "in_phase b (Thinking n) c \<longleftrightarrow>
     cb_started c \<and> length (cb_said c) = n \<and> n < 6
     \<and> mb_asking (cb_member c (speaker (Suc n))) = [(next_prompt b (cb_said c), int (Suc n))]
     \<and> idle c (other (speaker (Suc n))) \<and> (\<forall>s. open_for c s \<and> cb_wire c s = [])"
| "in_phase b (Telling n) c \<longleftrightarrow>
     cb_started c \<and> length (cb_said c) = n \<and> 0 < n \<and> n \<le> 6
     \<and> cb_wire c (other (speaker n)) = [turn_message (member_start (speaker n)) (int n) (snd (last (cb_said c)))]
     \<and> cb_wire c (speaker n) = [] \<and> (\<forall>s. idle c s) \<and> open_for c (other (speaker n))
     \<and> (if n = 6 then mb_done (cb_member c (speaker n)) else open_for c (speaker n))"
| "in_phase b Over c \<longleftrightarrow>
     cb_started c \<and> length (cb_said c) = 6 \<and> (\<forall>s. idle c s \<and> cb_wire c s = [] \<and> mb_done (cb_member c s))"

text \<open>Whose ends are still to come: each member closes once.\<close>

definition to_close :: "collab \<Rightarrow> side \<Rightarrow> bool" where
  "to_close c s \<longleftrightarrow> \<not> mb_done (cb_member c s) \<or> mb_closing (cb_member c s)"

definition collab_inv :: "b4a \<Rightarrow> phase \<Rightarrow> collab \<Rightarrow> bool" where
  "collab_inv b ph c \<longleftrightarrow> in_phase b ph c
     \<and> (\<forall>s. mb_name (cb_member c s) = mb_name (member_start s) \<and> mb_persona (cb_member c s) = mb_persona (member_start s)
           \<and> (mb_closing (cb_member c s) \<longrightarrow> mb_done (cb_member c s)))
     \<and> map fst (cb_said c) = map speaker [1..<Suc (length (cb_said c))]
     \<and> cb_finished c + of_bool (to_close c Alice) + of_bool (to_close c Bob) = 2"

fun phase_weight :: "phase \<Rightarrow> nat" where
  "phase_weight Apart = 13"
| "phase_weight (Thinking n) = 12 - 2 * n"
| "phase_weight (Telling n) = 13 - 2 * n"
| "phase_weight Over = 0"

definition collab_weight :: "phase \<Rightarrow> collab \<Rightarrow> nat" where
  "collab_weight ph c = phase_weight ph + of_bool (to_close c Alice) + of_bool (to_close c Bob)"

lemma all_sides: "(\<forall>s. P s) \<longleftrightarrow> P Alice \<and> P Bob"
  by (metis side.exhaust)

lemma collab_inv_start: "collab_inv b Apart collab_start"
  by (simp add: collab_inv_def collab_start_def all_sides to_close_def member_start.simps member_new_def)

section \<open>The invariant is kept\<close>

lemma MAX_ROUND_6: "MAX_ROUND = 6"
  by (simp add: MAX_ROUND_def ROUNDS_def)

declare member_start.simps [simp del]

lemma other_speaker: "other (speaker n) = speaker (Suc n)"
  by (simp add: speaker_def)

lemma other_other [simp]: "other (other s) = s" and other_neq [simp]: "other s \<noteq> s" "s \<noteq> other s"
  by (cases s; simp)+

lemma side_cases: "s' = s \<or> s' = other s"
  by (cases s; cases s') simp_all

lemma collab_inv_connect:
  assumes "collab_inv b ph c" and "\<not> cb_started c"
  defines "c' \<equiv> c\<lparr>cb_started := True, cb_member := (cb_member c)(Alice := turn b Null 1 (cb_member c Alice))\<rparr>"
  shows "collab_inv b (Thinking 0) c' \<and> Suc (collab_weight (Thinking 0) c') = collab_weight ph c"
proof -
  have "ph = Apart"
    using assms(1,2) by (cases ph) (simp_all add: collab_inv_def)
  then show ?thesis
    using assms(1) unfolding c'_def
    by (auto simp: collab_inv_def all_sides to_close_def turn_def MAX_ROUND_6 speaker_def
      next_prompt_def collab_weight_def)
qed

lemma collab_inv_closed:
  assumes "collab_inv b ph c" and "mb_closing (cb_member c s)"
  defines "c' \<equiv> c\<lparr>cb_member := (cb_member c)(s := (cb_member c s)\<lparr>mb_closing := False\<rparr>), cb_finished := Suc (cb_finished c)\<rparr>"
  shows "collab_inv b ph c' \<and> Suc (collab_weight ph c') = collab_weight ph c"
proof -
  have ended: "mb_done (cb_member c s)"
    using assms(1,2) by (simp add: collab_inv_def)
  have "mb_done (cb_member c' x) = mb_done (cb_member c x)" "mb_asking (cb_member c' x) = mb_asking (cb_member c x)"
    "cb_wire c' x = cb_wire c x" for x
    unfolding c'_def by simp_all
  moreover have "cb_started c' = cb_started c" "cb_said c' = cb_said c"
    unfolding c'_def by simp_all
  ultimately have inv: "in_phase b ph c'"
    using assms(1) by (cases ph) (auto simp: collab_inv_def split: if_splits)
  have "of_bool (to_close c' Alice) + of_bool (to_close c' Bob) + (1 :: nat) = of_bool (to_close c Alice) + of_bool (to_close c Bob)"
    using assms(2) ended unfolding c'_def by (cases s) (simp_all add: to_close_def)
  with inv assms(1) show ?thesis
    unfolding c'_def by (simp add: collab_inv_def collab_weight_def)
qed

lemma collab_inv_move:
  assumes "collab_inv b ph c" and "in_phase b ph' c'" and "to_close c' = to_close c" and "cb_finished c' = cb_finished c"
    and "\<forall>x. mb_name (cb_member c' x) = mb_name (cb_member c x) \<and> mb_persona (cb_member c' x) = mb_persona (cb_member c x)
           \<and> (mb_closing (cb_member c' x) \<longrightarrow> mb_done (cb_member c' x))"
    and "map fst (cb_said c') = map speaker [1..<Suc (length (cb_said c'))]" and "Suc (phase_weight ph') = phase_weight ph"
  shows "\<exists>ph'. collab_inv b ph' c' \<and> Suc (collab_weight ph' c') = collab_weight ph c"
  using assms by (intro exI [of _ ph']) (simp add: collab_inv_def collab_weight_def)

lemma collab_inv_message:
  assumes inv: "collab_inv b ph c" and "cb_wire c s = msg # msgs" and "field msg (js ''round'') = Num round"
  defines "c' \<equiv> c\<lparr>cb_wire := (cb_wire c)(s := msgs), cb_member := (cb_member c)(s := onMessage b msg round (cb_member c s))\<rparr>"
  shows "\<exists>ph'. collab_inv b ph' c' \<and> Suc (collab_weight ph' c') = collab_weight ph c"
proof -
  from inv have ph: "in_phase b ph c"
    and names: "\<And>x. mb_name (cb_member c x) = mb_name (member_start x)" "\<And>x. mb_persona (cb_member c x) = mb_persona (member_start x)"
    "\<And>x. mb_closing (cb_member c x) \<Longrightarrow> mb_done (cb_member c x)"
    and said: "map fst (cb_said c) = map speaker [1..<Suc (length (cb_said c))]"
    by (auto simp: collab_inv_def)
  show ?thesis
  proof (cases ph)
    case (Telling n)
    note at = ph [unfolded Telling in_phase.simps]
    have s: "s = other (speaker n)"
      using at assms(2) side_cases [of s "speaker n"] by auto
    have "last (map fst (cb_said c)) = speaker n"
      using at unfolding said by simp
    moreover have ne: "cb_said c \<noteq> []"
      using at by auto
    ultimately have last: "fst (last (cb_said c)) = speaker n"
      by (simp add: last_map)
    have msg: "msg = turn_message (member_start (speaker n)) (int n) (snd (last (cb_said c)))" "msgs = []"
      using at assms(2) s by auto
    then have round: "round = int n"
      using assms(3) by (simp add: turn_message_def)
    show ?thesis
    proof (cases "n = 6")
      case True
      have m: "onMessage b msg round (cb_member c s) = (cb_member c s)\<lparr>mb_done := True, mb_closing := True\<rparr>"
        using at True s round by (simp add: onMessage_def turn_def finish_def MAX_ROUND_6)
      have "speaker n = Bob" "s = Alice"
        using True by (simp_all add: s speaker_def)
      then have at': "in_phase b Over c'"
        using at True msg(2) unfolding c'_def m by (simp add: all_sides)
      have close: "to_close c' = to_close c"
        using at s unfolding c'_def m by (auto simp: to_close_def fun_eq_iff)
      show ?thesis
        by (rule collab_inv_move [OF inv at' close]) (use names said True Telling in \<open>auto simp: c'_def m\<close>)
    next
      case False
      have m: "onMessage b msg round (cb_member c s) = (cb_member c s)\<lparr>mb_asking := [(next_prompt b (cb_said c), int (Suc n))]\<rparr>"
        using at False s round last msg(1) names
        by (simp add: onMessage_def turn_def MAX_ROUND_6 next_prompt_def other_speaker ne add.commute)
      have s': "s = speaker (Suc n)"
        by (simp add: s other_speaker)
      have "\<not> mb_done (cb_member c' x) \<and> cb_wire c' x = []" for x
        using at False s msg(2) side_cases [of x s] unfolding c'_def m by auto
      moreover have "mb_asking (cb_member c' s) = [(next_prompt b (cb_said c), int (Suc n))]" "mb_asking (cb_member c' (other s)) = []"
        using at unfolding c'_def m by simp_all
      moreover have "cb_started c'" "cb_said c' = cb_said c"
        using at unfolding c'_def by simp_all
      ultimately have at': "in_phase b (Thinking n) c'"
        using at False by (simp add: s' [symmetric])
      have close: "to_close c' = to_close c"
        unfolding c'_def m by (simp add: to_close_def fun_eq_iff)
      show ?thesis
        by (rule collab_inv_move [OF inv at' close]) (use at names said Telling in \<open>auto simp: c'_def m\<close>)
    qed
  qed (use ph assms(2) in auto)
qed

lemma collab_inv_answer:
  assumes inv: "collab_inv b ph c" and "mb_asking (cb_member c s) = (q, round) # qs"
    and "turn_answered round t ((cb_member c s)\<lparr>mb_asking := qs\<rparr>) = (msg, m)"
  defines "c' \<equiv> c\<lparr>cb_member := (cb_member c)(s := m), cb_wire := (cb_wire c)(other s := cb_wire c (other s) @ [msg]),
      cb_said := cb_said c @ [(s, t)]\<rparr>"
  shows "\<exists>ph'. collab_inv b ph' c' \<and> Suc (collab_weight ph' c') = collab_weight ph c"
proof -
  from inv have ph: "in_phase b ph c"
    and names: "\<And>x. mb_name (cb_member c x) = mb_name (member_start x)" "\<And>x. mb_persona (cb_member c x) = mb_persona (member_start x)"
    "\<And>x. mb_closing (cb_member c x) \<Longrightarrow> mb_done (cb_member c x)"
    and said: "map fst (cb_said c) = map speaker [1..<Suc (length (cb_said c))]"
    by (auto simp: collab_inv_def)
  show ?thesis
  proof (cases ph)
    case (Thinking n)
    note at = ph [unfolded Thinking in_phase.simps]
    have s: "s = speaker (Suc n)"
      using at assms(2) side_cases [of s "speaker (Suc n)"] by auto
    have round: "round = int (Suc n)" "qs = []"
      using at assms(2) s by auto
    have m: "msg = turn_message (member_start s) (int (Suc n)) t"
      "m = (if n = 5 then (cb_member c s)\<lparr>mb_asking := [], mb_done := True, mb_closing := True\<rparr> else (cb_member c s)\<lparr>mb_asking := []\<rparr>)"
      using assms(3) at round names by (auto simp: turn_answered_def turn_message_def finish_def MAX_ROUND_6)
    have "mb_asking (cb_member c' x) = []" for x
      using at s side_cases [of x s] unfolding c'_def m by auto
    moreover have "mb_done (cb_member c' s) = (n = 5)" "\<not> mb_done (cb_member c' (other s))"
      "cb_wire c' (other s) = [turn_message (member_start s) (int (Suc n)) t]" "cb_wire c' s = []"
      using at unfolding c'_def m by auto
    moreover have "cb_started c'" "cb_said c' = cb_said c @ [(s, t)]"
      using at unfolding c'_def by simp_all
    moreover have "n = 5 \<Longrightarrow> speaker 6 = s"
      by (simp add: s)
    ultimately have at': "in_phase b (Telling (Suc n)) c'"
      using at by (simp add: s [symmetric])
    have close: "to_close c' = to_close c"
      using at unfolding c'_def m by (auto simp: to_close_def fun_eq_iff)
    have said': "map fst (cb_said c') = map speaker [1..<Suc (length (cb_said c'))]"
      using said at s unfolding c'_def by simp
    show ?thesis
      by (rule collab_inv_move [OF inv at' close _ _ said']) (use at names Thinking in \<open>auto simp: c'_def m\<close>)
  qed (use ph assms(2) in auto)
qed

lemma collab_inv_step:
  assumes "collab_inv b ph c" and "collab_step b c c'"
  shows "\<exists>ph'. collab_inv b ph' c' \<and> Suc (collab_weight ph' c') = collab_weight ph c"
  using assms(2)
proof cases
  case connect
  then show ?thesis
    using collab_inv_connect [OF assms(1)] by blast
next
  case (message s msg msgs round)
  then show ?thesis
    using collab_inv_message [OF assms(1)] by blast
next
  case (answer s q round qs t msg m)
  then show ?thesis
    using collab_inv_answer [OF assms(1)] by blast
next
  case (closed s)
  then show ?thesis
    using collab_inv_closed [OF assms(1)] by blast
qed

end
