(* ===== verification/Collab_Props.thy ===== *)
theory Collab_Props
  imports Collab
begin

text \<open>
  What the collaboration of src/examples/swarm-collab.js promises: one agent at a time is at work, on a
  prompt that quotes the other's last text, and every run comes to its end after three turns
  of each agent.
\<close>

section \<open>Progress\<close>

lemma collab_inv_progress:
  assumes "collab_inv b ph c" and "collab_weight ph c \<noteq> 0"
  shows "\<exists>c'. collab_step b c c'"
proof -
  from assms(1) have ph: "in_phase b ph c"
    by (simp add: collab_inv_def)
  show ?thesis
  proof (cases ph)
    case Apart
    then show ?thesis
      using ph collab_step.connect by fastforce
  next
    case (Thinking n)
    then obtain q round where "mb_asking (cb_member c (speaker (Suc n))) = [(q, round)]"
      using ph by auto
    then show ?thesis
      using collab_step.answer by (metis surj_pair)
  next
    case (Telling n)
    then show ?thesis
      using ph collab_step.message [of c "other (speaker n)" _ "[]" "int n"] by (fastforce simp: turn_message_def)
  next
    case Over
    then have "\<exists>s. mb_closing (cb_member c s)"
      using assms(2) ph by (auto simp: collab_weight_def to_close_def split: if_splits)
    then show ?thesis
      using collab_step.closed by blast
  qed
qed

lemma collab_run:
  "(collab_step b ^^ n) collab_start c \<Longrightarrow> \<exists>ph. collab_inv b ph c \<and> n + collab_weight ph c = 15"
proof (induction n arbitrary: c)
  case 0
  then have c: "c = collab_start"
    by simp
  have "collab_weight Apart collab_start = 15"
    by (simp add: collab_weight_def to_close_def collab_start_def member_start.simps member_new_def)
  then show ?case
    unfolding c using collab_inv_start by (intro exI [of _ Apart]) simp
next
  case (Suc n)
  then obtain d where d: "(collab_step b ^^ n) collab_start d" "collab_step b d c"
    by (elim relpowp_Suc_E)
  from Suc.IH [OF d(1)] obtain ph where "collab_inv b ph d" "n + collab_weight ph d = 15"
    by blast
  with collab_inv_step [OF _ d(2)] show ?case
    by fastforce
qed

lemma collab_runs: "n \<le> 15 \<Longrightarrow> \<exists>c. (collab_step b ^^ n) collab_start c"
proof (induction n)
  case 0
  show ?case
    by (intro exI [of _ collab_start]) simp
next
  case (Suc n)
  then obtain c where c: "(collab_step b ^^ n) collab_start c"
    by auto
  from collab_run [OF c] obtain ph where "collab_inv b ph c" "n + collab_weight ph c = 15"
    by blast
  then obtain c' where "collab_step b c c'"
    using collab_inv_progress Suc.prems by fastforce
  with c show ?case
    using relpowp_Suc_I by fast
qed

text \<open>
  C19. The collaboration comes to its end.  No run of the two agents has more than 15 steps, whatever the agents
  answer and however their ends overlap; one that cannot go on has had exactly six turns,
  Alice's and Bob's in alternation, and both agents have closed their resources.
\<close>

theorem collaboration_comes_to_its_end:
  assumes "(collab_step b ^^ n) collab_start c"
  shows "n \<le> 15 \<and> ((\<exists>c'. collab_step b c c')
    \<or> n = 15 \<and> map fst (cb_said c) = [Alice, Bob, Alice, Bob, Alice, Bob] \<and> cb_finished c = 2
      \<and> (\<forall>s. mb_done (cb_member c s) \<and> \<not> mb_closing (cb_member c s)))"
proof -
  from collab_run [OF assms] obtain ph where inv: "collab_inv b ph c" and n: "n + collab_weight ph c = 15"
    by blast
  show ?thesis
  proof (cases "collab_weight ph c = 0")
    case False
    then show ?thesis
      using collab_inv_progress [OF inv] n by simp
  next
    case True
    then have "ph = Over" "\<not> to_close c Alice" "\<not> to_close c Bob"
      using inv by (cases ph; auto simp: collab_weight_def collab_inv_def split: if_splits)+
    then show ?thesis
      using inv n True by (auto simp: collab_inv_def all_sides to_close_def speaker_def upt_rec)
  qed
qed

theorem collaboration_comes_to_its_end_witness:
  "\<exists>c. (collab_step utf8_b4a ^^ 15) collab_start c \<and> cb_finished c = 2"
proof -
  obtain c where c: "(collab_step utf8_b4a ^^ 15) collab_start c"
    using collab_runs [of 15] by auto
  moreover have "\<nexists>c'. collab_step utf8_b4a c c'"
  proof
    assume "\<exists>c'. collab_step utf8_b4a c c'"
    then obtain c' where "(collab_step utf8_b4a ^^ Suc 15) collab_start c'"
      using c relpowp_Suc_I by fast
    then show False
      using collab_run by fastforce
  qed
  ultimately show ?thesis
    using collaboration_comes_to_its_end [OF c] by auto
qed


lemma open_weight: "open_for c s \<Longrightarrow> open_for c (other s) \<Longrightarrow> collab_weight ph c = phase_weight ph + 2"
  by (cases s) (simp_all add: collab_weight_def to_close_def)


end
