(* ===== verification/Collab_Program.thy ===== *)
theory Collab_Program
  imports Fleets Collab_Props Ndjson
begin

text \<open>
  The program of src/examples/swarm-collab.js as a whole: two agents, the rounds they say, and their
  leaving.
\<close>

section \<open>The agents and the program\<close>

text \<open>\<open>ask\<close>: the text of the answer, trimmed.\<close>

definition answer_text :: "jsstring \<Rightarrow> jsstring" where
  "answer_text out = (if trim out \<noteq> [] then trim out else js ''(no response)'')"

definition collab_ask ::
    "('w, 'b, 'a) env \<Rightarrow> jsval \<Rightarrow> jsstring \<Rightarrow> ('w, 'b, 'a) claw \<Rightarrow> (jsstring result \<times> ('w, 'b, 'a) claw) option" where
  "collab_ask E key message st =
     map_option (\<lambda>(r, st). (rbind r (\<lambda>out. Inr (answer_text out)), st))
       (chat_loop E (\<lambda>out v. out @ content_text (e_b4a E) v) (chat key (Str message) Undef) [] st)"

text \<open>
  \<open>send\<close>, and \<open>wire\<close>: a \<open>data\<close> event of the connection hands \<open>onMessage\<close> the message of every complete line;
  what \<open>onMessage\<close> does with it is no concern of the loop, because it is an asynchronous function.
\<close>

definition collab_send :: "b4a \<Rightarrow> jsval \<Rightarrow> bytes" where
  "collab_send b obj = writeJSON b obj"

definition collab_wire :: "b4a \<Rightarrow> (jsstring \<Rightarrow> jsstring) \<Rightarrow> bytes \<Rightarrow> jsstring \<times> jsval list \<Rightarrow> unit result \<times> jsstring \<times> jsval list" where
  "collab_wire b message = readJSON b message (\<lambda>msg handed. (Inr (), handed @ [msg]))"

definition collab_TOPIC :: "(nat \<Rightarrow> jsstring \<Rightarrow> bytes) \<Rightarrow> bytes" where
  "collab_TOPIC fill = fill 32 (js ''bareclaw:swarm-collab:v1'')"

definition collab_agent :: "('w, 'b, 'a) env \<Rightarrow> host \<Rightarrow> (nat \<Rightarrow> jsstring \<Rightarrow> bytes) \<Rightarrow> jsstring \<Rightarrow> (('w, 'b, 'a) run, jsval) prog" where
  "collab_agent E host fill name =
     pthen (fleet_agent E host ''collab'' name) (\<lambda>key.
     pthen (effect host (Opened (Swarm name))) (\<lambda>_.
     pthen (effect host (Joined (Swarm name) (collab_TOPIC fill) True True)) (\<lambda>_.
     pret key)))"

definition collab_leave :: "('w, 'b, 'a) env \<Rightarrow> host \<Rightarrow> jsstring \<Rightarrow> (('w, 'b, 'a) run, unit) prog" where
  "collab_leave E host name =
     pthen (close_agent E host name) (\<lambda>_. effect host (Released (Swarm name)))"

text \<open>\<open>finish\<close>: an agent leaves, and is counted; the second says that both have.\<close>

definition collab_finish :: "('w, 'b, unit) env \<Rightarrow> host \<Rightarrow> jsstring \<Rightarrow> nat \<Rightarrow> (('w, 'b) fleet, nat) prog" where
  "collab_finish E host name finished =
     pthen (as_member name (collab_leave E host name)) (\<lambda>_.
     let finished = Suc finished
     in pthen (if finished = 2
               then fleet_effect host (Printed ([0x2705] @ js '' collaboration complete '' @ [0x2014] @ js '' both agents left the swarm''))
               else pret ()) (\<lambda>_.
        pret finished))"

abbreviation side_name :: "side \<Rightarrow> jsstring" where
  "side_name s \<equiv> mb_name (member_start s)"

definition said_line :: "side \<Rightarrow> jsstring \<Rightarrow> jsstring" where
  "said_line s t = [0xD83D, 0xDDE3, 0xFE0F] @ js ''  '' @ side_name s @ js '': '' @ t @ [10]"

definition heard_line :: "side \<Rightarrow> nat \<Rightarrow> jsstring \<Rightarrow> jsstring" where
  "heard_line s n t = [0xD83D, 0xDCAC] @ js '' '' @ side_name s @ js '' '' @ [0x2192] @ js '' '' @ side_name (other s)
     @ js '' (round '' @ dec_nat n @ js ''): '' @ t"

text \<open>The rounds: the speaker asks its agent with the next prompt, says it, and the other hears it.\<close>

fun collab_rounds :: "('w, 'b, unit) env \<Rightarrow> host \<Rightarrow> (side \<Rightarrow> jsval) \<Rightarrow> nat \<Rightarrow> (side \<times> jsstring) list
    \<Rightarrow> (('w, 'b) fleet, (side \<times> jsstring) list) prog" where
  "collab_rounds E host key 0 said = pret said"
| "collab_rounds E host key (Suc n) said =
     (let round = Suc (length said); s = speaker round
      in pthen (as_member (side_name s) (on_loop (collab_ask E (key s) (next_prompt (e_b4a E) said)))) (\<lambda>t.
         pthen (fleet_effect host (Printed (said_line s t))) (\<lambda>_.
         pthen (fleet_effect host (Printed (heard_line s round t))) (\<lambda>_.
         collab_rounds E host key n (said @ [(s, t)])))))"

fun collab_finishes :: "('w, 'b, unit) env \<Rightarrow> host \<Rightarrow> side list \<Rightarrow> nat \<Rightarrow> (('w, 'b) fleet, nat) prog" where
  "collab_finishes E host [] finished = pret finished"
| "collab_finishes E host (s # ss) finished = pthen (collab_finish E host (side_name s) finished) (collab_finishes E host ss)"

text \<open>\<open>order\<close> is the order in which the two agents are done closing.\<close>

definition collab_main :: "('w, 'b, unit) env \<Rightarrow> host \<Rightarrow> (nat \<Rightarrow> jsstring \<Rightarrow> bytes) \<Rightarrow> side list
    \<Rightarrow> (('w, 'b) fleet, (side \<times> jsstring) list) prog" where
  "collab_main E host fill order =
     pthen (as_member (side_name Alice) (collab_agent E host fill (side_name Alice))) (\<lambda>alice.
     pthen (as_member (side_name Bob) (collab_agent E host fill (side_name Bob))) (\<lambda>bob.
     pthen (fleet_effect host (Printed ([0xD83D, 0xDC1D] @ js '' joining swarm, waiting for agents to find each other'' @ [0x2026]))) (\<lambda>_.
     pthen (fleet_effect host (Printed ([10, 0xD83D, 0xDD17] @ js '' agents connected '' @ [0x2014] @ js '' collaborating on: '' @ TASK @ [10]))) (\<lambda>_.
     pthen (collab_rounds E host (case_side alice bob) (nat MAX_ROUND) []) (\<lambda>said.
     pthen (collab_finishes E host order 0) (\<lambda>_.
     pret said))))))"

section \<open>The collaboration\<close>

text \<open>What the rounds make of the two agents' books and of what was said.\<close>

fun collab_spec :: "picoclaw \<Rightarrow> (side \<Rightarrow> jsstring) \<Rightarrow> nat \<Rightarrow> (side \<Rightarrow> book) \<Rightarrow> (side \<times> jsstring) list
    \<Rightarrow> (side \<Rightarrow> book) \<times> (side \<times> jsstring) list" where
  "collab_spec pc k 0 bk said = (bk, said)"
| "collab_spec pc k (Suc n) bk said =
     (let s = speaker (Suc (length said)); q = next_prompt utf8_b4a said
      in collab_spec pc k n (bk(s := reply_left pc (k s) q (bk s)))
           (said @ [(s, answer_text (reply_text pc q (bk_sessions (bk s) (k s))))]))"

lemma collab_spec_said: "\<exists>more. snd (collab_spec pc k n bk said) = said @ more \<and> length more = n"
proof (induction n arbitrary: bk said)
  case (Suc n)
  let ?s = "speaker (Suc (length said))" and ?q = "next_prompt utf8_b4a said"
  obtain more where "snd (collab_spec pc k (Suc n) bk said)
      = (said @ [(?s, answer_text (reply_text pc ?q (bk_sessions (bk ?s) (k ?s))))]) @ more" "length more = n"
    using Suc by (auto simp: Let_def simp del: append_assoc)
  then show ?case
    by (intro exI [of _ "(?s, answer_text (reply_text pc ?q (bk_sessions (bk ?s) (k ?s)))) # more"]) simp
qed simp

lemma side_names [simp]: "side_name s = side_name s' \<longleftrightarrow> s = s'"
  by (cases s; cases s') (simp_all add: member_start.simps member_new_def js_def)

text \<open>What an agent's coming has for effects.\<close>

definition collab_arrival :: "(nat \<Rightarrow> jsstring \<Rightarrow> bytes) \<Rightarrow> side \<Rightarrow> effect list" where
  "collab_arrival fill s = [Opened (Corestore (store_path (side_name s))), Opened (Swarm (side_name s)),
     Joined (Swarm (side_name s)) (collab_TOPIC fill) True True]"

lemma collab_rounds_run:
  fixes f :: "(goserver link, entries) fleet"
  assumes pc: "picoclaw_ok pc" "speaks pc" and host: "willing host" and k: "\<And>s. listable (k s)"
    and key: "\<And>s. key s = Str (k s)"
    and up: "\<And>s. book_inv (fl_claws f (side_name s)) \<and> book_of (fl_claws f (side_name s)) = bk s"
    and prompts: "\<And>i. i < n \<Longrightarrow> key_ok (next_prompt utf8_b4a (take (length said + i) (snd (collab_spec pc k n bk said))))"
  shows "\<exists>f' tr. collab_rounds (go_env pc) host key n said f = Some (Inr (snd (collab_spec pc k n bk said)), f')
    \<and> (\<forall>s. book_inv (fl_claws f' (side_name s)) \<and> book_of (fl_claws f' (side_name s)) = fst (collab_spec pc k n bk said) s)
    \<and> fl_trace f' = fl_trace f @ tr \<and> quiet tr"
  using up prompts
proof (induction n arbitrary: f bk said)
  case 0
  then show ?case
    by (auto simp: pret_def intro!: exI [of _ "[]"])
next
  case (Suc n)
  let ?s = "speaker (Suc (length said))" and ?q = "next_prompt utf8_b4a said"
  let ?t = "answer_text (reply_text pc ?q (bk_sessions (bk ?s) (k ?s)))"
  let ?bk = "bk(?s := reply_left pc (k ?s) ?q (bk ?s))"
  have spec: "collab_spec pc k (Suc n) bk said = collab_spec pc k n ?bk (said @ [(?s, ?t)])"
    by (simp add: Let_def)
  obtain more where more: "snd (collab_spec pc k (Suc n) bk said) = said @ more"
    using collab_spec_said by blast
  have "key_ok ?q"
    using Suc.prems(2) [of 0] more by simp
  from go_ask [OF pc conjunct1 [OF Suc.prems(1)] k this, of ?s ?s] obtain st' where st':
    "chat_loop (go_env pc) (\<lambda>out v. out @ content_text utf8_b4a v) (chat (Str (k ?s)) (Str ?q) Undef) []
      (fl_claws f (side_name ?s)) = Some (Inr (reply_text pc ?q (bk_sessions (bk ?s) (k ?s))), st')"
    "book_inv st'" "book_of st' = reply_left pc (k ?s) ?q (bk ?s)"
    using Suc.prems(1) by auto
  let ?lines = "[Printed (said_line ?s ?t), Printed (heard_line ?s (Suc (length said)) ?t)]"
  let ?f = "f\<lparr>fl_claws := (fl_claws f)(side_name ?s := st'), fl_trace := fl_trace f @ ?lines\<rparr>"
  have step: "collab_rounds (go_env pc) host key (Suc n) said f = collab_rounds (go_env pc) host key n (said @ [(?s, ?t)]) ?f"
    using st'(1) by (simp add: prog_simps as_member_def collab_ask_def key host Let_def)
  have "\<exists>f' tr. collab_rounds (go_env pc) host key n (said @ [(?s, ?t)]) ?f
        = Some (Inr (snd (collab_spec pc k n ?bk (said @ [(?s, ?t)]))), f')
    \<and> (\<forall>s. book_inv (fl_claws f' (side_name s)) \<and> book_of (fl_claws f' (side_name s)) = fst (collab_spec pc k n ?bk (said @ [(?s, ?t)])) s)
    \<and> fl_trace f' = fl_trace ?f @ tr \<and> quiet tr"
  proof (rule Suc.IH)
    show "book_inv (fl_claws ?f (side_name s)) \<and> book_of (fl_claws ?f (side_name s)) = ?bk s" for s
      using Suc.prems(1) [of s] st'(2,3) by (cases "s = ?s") simp_all
    show "key_ok (next_prompt utf8_b4a (take (length (said @ [(?s, ?t)]) + i) (snd (collab_spec pc k n ?bk (said @ [(?s, ?t)])))))"
      if "i < n" for i
      using Suc.prems(2) [of "Suc i"] that unfolding spec by simp
  qed
  then obtain f' tr where f': "collab_rounds (go_env pc) host key n (said @ [(?s, ?t)]) ?f
        = Some (Inr (snd (collab_spec pc k n ?bk (said @ [(?s, ?t)]))), f')"
    "\<forall>s. book_inv (fl_claws f' (side_name s)) \<and> book_of (fl_claws f' (side_name s)) = fst (collab_spec pc k n ?bk (said @ [(?s, ?t)])) s"
    "fl_trace f' = fl_trace ?f @ tr" "quiet tr"
    by blast
  show ?case
    unfolding step spec using f' by (intro exI [of _ f'] exI [of _ "?lines @ tr"]) simp
qed

lemma side_sides: "(UNIV :: side set) = {Alice, Bob}"
  by (auto intro: side.exhaust)

lemma collab_agent_run:
  fixes w :: "goserver link"
  assumes pc: "picoclaw_ok pc" and host: "willing host" and es: "store_ok es"
    and k: "k = fleet_key pc ''collab'' (side_name s)" "listable k"
  shows "\<exists>st. local_run (side_name s) (claw_new collab_OPTS w es)
      (as_member (side_name s) (collab_agent (go_env pc) host fill (side_name s))) (Str k) st (collab_arrival fill s)
    \<and> book_inv st \<and> book_of st = with_name k (store_book es)"
proof -
  have name: "key_ok (side_name s)" "key_ok (js ''collab'')"
    by (cases s; simp add: small_key member_start.simps member_new_def js_def) (simp add: small_key js_def)
  have "key_ok (js ''llama3.2'')"
    by (simp add: small_key js_def)
  then have "opts_ok collab_OPTS"
    by (simp add: opts_ok_def collab_OPTS_def js_or_def)
  from go_fleet_agent [where 'a = unit and w = w, OF pc host es this name k(2) [unfolded k(1)]] obtain st :: "(goserver link, entries, unit) claw" where
    st: "\<And>a tr. fleet_agent (go_env pc) host ''collab'' (side_name s) \<lparr>rn_claw = claw_new collab_OPTS w es, rn_tools = a, rn_trace = tr\<rparr>
      = Some (Inr (Str k), \<lparr>rn_claw = st, rn_tools = a, rn_trace = tr @ [Opened (Corestore (store_path (side_name s)))]\<rparr>)"
    "book_inv st" "book_of st = with_name k (store_book es)"
    unfolding k(1) by auto
  then show ?thesis
    by (intro exI [of _ st] conjI local_member) (simp_all add: collab_agent_def prog_simps collab_arrival_def host)
qed

lemma collab_leave_run:
  assumes pc: "picoclaw_ok pc" and host: "willing host" and st: "book_inv st"
  shows "\<exists>st'. local_run name st (as_member name (collab_leave (go_env pc) host name)) () st'
      [Released (Corestore (store_path name)), Released (Swarm name)]
    \<and> store_ok (cl_store st') \<and> store_book (cl_store st') = book_of st"
proof -
  obtain st' where "\<And>a tr. close_agent (go_env pc) host name \<lparr>rn_claw = st, rn_tools = a, rn_trace = tr\<rparr>
      = Some (Inr (), \<lparr>rn_claw = st', rn_tools = a, rn_trace = tr @ [Released (Corestore (store_path name))]\<rparr>)"
    "store_ok (cl_store st')" "store_book (cl_store st') = book_of st"
    using go_close_agent [where name = name, OF pc host st] by auto
  then show ?thesis
    by (intro exI [of _ st'] conjI local_member) (simp_all add: collab_leave_def prog_simps host)
qed

text \<open>Both agents come, and both leave, in either order.\<close>

lemma collab_meet_run:
  fixes w :: "jsstring \<Rightarrow> goserver link"
  assumes pc: "picoclaw_ok pc" and host: "willing host" and es: "\<And>s. store_ok (es (side_name s))"
    and k: "k = (\<lambda>s. fleet_key pc ''collab'' (side_name s))" "\<And>s. listable (k s)"
  shows "\<exists>f1 f2. as_member (side_name Alice) (collab_agent (go_env pc) host fill (side_name Alice)) (fleet_start collab_OPTS w es) = Some (Inr (Str (k Alice)), f1)
    \<and> as_member (side_name Bob) (collab_agent (go_env pc) host fill (side_name Bob)) f1 = Some (Inr (Str (k Bob)), f2)
    \<and> fl_trace f2 = collab_arrival fill Alice @ collab_arrival fill Bob
    \<and> (\<forall>s. book_inv (fl_claws f2 (side_name s)) \<and> book_of (fl_claws f2 (side_name s)) = with_name (k s) (store_book (es (side_name s))))"
proof -
  let ?start = "fleet_start collab_OPTS w es"
  have "\<exists>st. local_run (side_name s) (claw_new collab_OPTS (w (side_name s)) (es (side_name s)))
      (as_member (side_name s) (collab_agent (go_env pc) host fill (side_name s))) (Str (k s)) st (collab_arrival fill s)
    \<and> book_inv st \<and> book_of st = with_name (k s) (store_book (es (side_name s)))" for s
    by (rule collab_agent_run [OF pc host es _ k(2)]) (simp add: k(1))
  then obtain c where c: "\<And>s. local_run (side_name s) (claw_new collab_OPTS (w (side_name s)) (es (side_name s)))
      (as_member (side_name s) (collab_agent (go_env pc) host fill (side_name s))) (Str (k s)) (c s) (collab_arrival fill s)"
    "\<And>s. book_inv (c s) \<and> book_of (c s) = with_name (k s) (store_book (es (side_name s)))"
    by metis
  let ?f1 = "?start\<lparr>fl_claws := (fl_claws ?start)(side_name Alice := c Alice), fl_trace := collab_arrival fill Alice\<rparr>"
  let ?f2 = "?f1\<lparr>fl_claws := (fl_claws ?f1)(side_name Bob := c Bob), fl_trace := collab_arrival fill Alice @ collab_arrival fill Bob\<rparr>"
  have "fl_claws ?f2 (side_name s) = c s" for s
    by (cases s) simp_all
  then show ?thesis
    using c(1) [of Alice] c(1) [of Bob] c(2)
    by (intro exI [of _ ?f1] exI [of _ ?f2]) (simp add: local_run_def fleet_start_def del: member_start.simps)
qed

definition left_line :: effect where
  "left_line = Printed ([0x2705] @ js '' collaboration complete '' @ [0x2014] @ js '' both agents left the swarm'')"

lemma two_sides:
  assumes "distinct order" "set order = (UNIV :: side set)"
  obtains a c where "order = [a, c]"
proof -
  have "length order = 2"
    using assms distinct_card [of order] by (simp add: side_sides)
  then show ?thesis
    using that by (auto simp: length_Suc_conv numeral_2_eq_2)
qed

lemma collab_finishes_run:
  assumes pc: "picoclaw_ok pc" and host: "willing host"
    and up: "\<And>s. book_inv (fl_claws f (side_name s)) \<and> book_of (fl_claws f (side_name s)) = bk s"
    and order: "distinct order" "set order = UNIV"
  shows "\<exists>f'. collab_finishes (go_env pc) host order 0 f = Some (Inr 2, f')
    \<and> fl_trace f' = fl_trace f @ concat (map (\<lambda>s. [Released (Corestore (store_path (side_name s))), Released (Swarm (side_name s))]) order) @ [left_line]
    \<and> (\<forall>s. store_ok (cl_store (fl_claws f' (side_name s))) \<and> store_book (cl_store (fl_claws f' (side_name s))) = bk s)"
proof -
  let ?leave = "\<lambda>s. as_member (side_name s) (collab_leave (go_env pc) host (side_name s))"
  let ?leaves = "\<lambda>s. [Released (Corestore (store_path (side_name s))), Released (Swarm (side_name s))]"
  have "\<exists>st. local_run (side_name s) (fl_claws f (side_name s)) (?leave s) () st (?leaves s)
    \<and> store_ok (cl_store st) \<and> store_book (cl_store st) = bk s" for s
    using collab_leave_run [where host = host and name = "side_name s", OF pc host conjunct1 [OF up]] conjunct2 [OF up] by metis
  moreover have "distinct (map side_name order)"
    using order(1) by (simp add: distinct_map inj_on_def)
  ultimately obtain f' where f': "peach ?leave order f = Some (Inr (), f')" "fl_trace f' = fl_trace f @ concat (map ?leaves order)"
    "\<forall>s \<in> set order. store_ok (cl_store (fl_claws f' (side_name s))) \<and> store_book (cl_store (fl_claws f' (side_name s))) = bk s"
    using fleet_peach [where f = f and p = ?leave and e = ?leaves
      and Q = "\<lambda>s st. store_ok (cl_store st) \<and> store_book (cl_store st) = bk s"] by blast
  obtain a c where ac: "order = [a, c]"
    using two_sides [OF order] .
  have "collab_finishes (go_env pc) host order 0 = pthen (peach ?leave order) (\<lambda>_. pthen (fleet_effect host left_line) (\<lambda>_. pret 2))"
    by (simp add: ac collab_finish_def left_line_def pthen_assoc pthen_pret Let_def numeral_2_eq_2 del: member_start.simps)
  then show ?thesis
    using f' order(2) by (intro exI [of _ "f'\<lparr>fl_trace := fl_trace f' @ [left_line]\<rparr>"])
      (simp add: pthen_run fleet_effect_def host pret_def)
qed


definition echo_said :: "(side \<times> jsstring) list" where
  "echo_said = [(Alice, js ''ok''), (Bob, js ''ok''), (Alice, js ''ok''), (Bob, js ''ok''), (Alice, js ''ok''), (Bob, js ''ok'')]"

lemma speakers [simp]: "speaker 0 = Bob" "speaker (Suc 0) = Alice" "speaker (Suc (Suc n)) = speaker n"
  by (simp_all add: speaker_def)

lemma echo_said: "snd (collab_spec echo_picoclaw k 6 bk []) = echo_said"
proof -
  have "answer_text (js ''ok'') = js ''ok''"
    by (simp add: answer_text_def) (simp add: js_def trim_def trim_start_def is_space_def)
  then show ?thesis
    by (simp add: eval_nat_numeral echo_replies Let_def echo_said_def)
qed

lemma echo_prompts: "i < 6 \<Longrightarrow> key_ok (next_prompt utf8_b4a (take i echo_said))"
proof -
  have small: "list_all (\<lambda>u. u < 255) (next_prompt utf8_b4a said) \<and> length (next_prompt utf8_b4a said) < 1000"
    if "said = [] \<or> snd (last said) = js ''ok''" for said
    using that by (cases "speaker (Suc (length said))")
      (auto simp: next_prompt_def turn_prompt_def turn_message_def TASK_def member_start.simps member_new_def js_def)
  assume "i < 6"
  then have "take i echo_said = [] \<or> snd (last (take i echo_said)) = js ''ok''"
    by (auto simp: echo_said_def eval_nat_numeral less_Suc_eq)
  then show ?thesis
    using small [of "take i echo_said"] by (intro small_key) auto
qed


end
