(* ===== verification/Shared_Board.thy ===== *)
theory Shared_Board
  imports Panel_Spec Chat_Loop
begin

text \<open>
  The shared board of src/examples/dht-shared.js: the hub, which collects one idea from each agent and sends
  everyone the board after each, and the agents, which post their idea and wait for the full
  board; their runs as a step relation, one step per event.  The sockets are ordered queues
  of messages, an agent's answer is any text, and connections do not fail.
\<close>

section \<open>Ideas\<close>

definition AGENTS :: "jsstring list" where
  "AGENTS = [js ''scout'', js ''maker'', js ''critic'']"

definition PROMPT :: jsstring where
  "PROMPT = js ''Give ONE short feature idea for a peer-to-peer notes app. Max 10 words, no preamble.''"

text \<open>The first line of an answer.\<close>

definition idea_of :: "jsstring \<Rightarrow> jsstring" where
  "idea_of out = (let line = hd (split_on 10 (trim out)) in if line \<noteq> [] then line else js ''(no idea)'')"

definition shared_ask ::
    "('w, 'b, 'a) env \<Rightarrow> jsval \<Rightarrow> jsstring \<Rightarrow> ('w, 'b, 'a) claw \<Rightarrow> (jsstring result \<times> ('w, 'b, 'a) claw) option" where
  "shared_ask E key message st =
     map_option (\<lambda>(r, st). (rbind r (\<lambda>out. Inr (idea_of out)), st))
       (chat_loop E (\<lambda>out v. out @ content_text (e_b4a E) v) (chat key (Str message) Undef) [] st)"

text \<open>The instance behind an agent: the key of its session.\<close>

definition shared_agent :: "('w, 'b, 'a) env \<Rightarrow> jsstring \<Rightarrow> 'w \<Rightarrow> 'b \<Rightarrow> jsval result \<times> ('w, 'b, 'a) claw" where
  "shared_agent E name w b =
     andthen (e_ready E) (\<lambda>_. session E (Obj [(js ''agentId'', Str name), (js ''channel'', Str (js ''ideas''))]))
       (claw_new (Obj [(js ''provider'', Str (js ''ollama'')), (js ''model'', Str (js ''llama3.2''))]) w b)"

section \<open>The hub\<close>

record board_hub =
  bh_conns :: "nat list"
  bh_board :: "jsval list"

definition shared_item :: "jsval \<Rightarrow> jsval \<Rightarrow> jsval" where
  "shared_item name t = Obj [(js ''from'', name), (js ''text'', t)]"

definition shared_payload :: "jsval list \<Rightarrow> jsval" where
  "shared_payload items = Obj [(js ''type'', Str (js ''board'')), (js ''items'', Arr items)]"

definition hub_post :: "jsval \<Rightarrow> board_hub \<Rightarrow> writes result \<times> board_hub" where
  "hub_post msg h =
     (case getp msg (js ''type'') of
        Inl e \<Rightarrow> (Inl e, h)
      | Inr t \<Rightarrow>
          if t \<noteq> Str (js ''post'') then (Inr [], h)
          else let h = h\<lparr>bh_board := bh_board h @ [shared_item (field msg (js ''from'')) (field msg (js ''text''))]\<rparr>
               in (Inr (map (\<lambda>c. (c, shared_payload (bh_board h))) (bh_conns h)), h))"

section \<open>The agents\<close>

definition post_message :: "jsstring \<Rightarrow> jsstring \<Rightarrow> jsval" where
  "post_message name idea =
     Obj [(js ''type'', Str (js ''post'')), (js ''from'', Str name), (js ''text'', Str idea)]"

text \<open>
  \<open>v.length >= n\<close>: what has no \<open>length\<close> compares as not reaching it.  (A \<open>length\<close> of an object's own
  that is neither a number, \<open>null\<close> nor a boolean is taken to be no number.)
\<close>

definition length_reaches :: "jsval \<Rightarrow> nat \<Rightarrow> bool result" where
  "length_reaches v n =
     (case v of
        Arr xs \<Rightarrow> Inr (n \<le> length xs)
      | Str s \<Rightarrow> Inr (n \<le> length s)
      | Buf x \<Rightarrow> Inr (n \<le> length x)
      | _ \<Rightarrow> rbind (getp v (js ''length'')) (\<lambda>l. Inr (case l of
            Num i \<Rightarrow> int n \<le> i
          | Null \<Rightarrow> n = 0
          | Bool x \<Rightarrow> n \<le> (if x then 1 else 0)
          | _ \<Rightarrow> False)))"

text \<open>A message to an agent, which keeps the latest board and the one its promise was resolved with.\<close>

definition shared_message :: "nat \<Rightarrow> jsval \<Rightarrow> jsval \<times> jsval option \<Rightarrow> unit result \<times> jsval \<times> jsval option" where
  "shared_message expected msg s =
     (case getp msg (js ''type'') of
        Inl e \<Rightarrow> (Inl e, s)
      | Inr t \<Rightarrow>
          if t \<noteq> Str (js ''board'') then (Inr (), s)
          else let latest = field msg (js ''items'')
               in (case length_reaches latest expected of
                     Inl e \<Rightarrow> (Inl e, latest, snd s)
                   | Inr True \<Rightarrow> (Inr (), latest, if snd s = None then Some latest else snd s)
                   | Inr False \<Rightarrow> (Inr (), latest, snd s)))"

section \<open>All of them\<close>

datatype idea_stage = Pondering | Connecting jsstring | Posted

record shared =
  sd_hub :: board_hub
  sd_stage :: "nat \<Rightarrow> idea_stage"
  sd_up :: "nat \<Rightarrow> jsval list"
  sd_down :: "nat \<Rightarrow> jsval list"
  sd_seen :: "nat \<Rightarrow> jsval \<times> jsval option"

definition shared_start :: shared where
  "shared_start = \<lparr>sd_hub = \<lparr>bh_conns = [], bh_board = []\<rparr>, sd_stage = (\<lambda>_. Pondering), sd_up = (\<lambda>_. []), sd_down = (\<lambda>_. []),
     sd_seen = (\<lambda>_. (Arr [], None))\<rparr>"

text \<open>The hub accepts a connection and its client sees it open in either order.\<close>

inductive shared_step :: "shared \<Rightarrow> shared \<Rightarrow> bool" where
  idea: "i < length AGENTS \<Longrightarrow> sd_stage s i = Pondering \<Longrightarrow>
    shared_step s (s\<lparr>sd_stage := (sd_stage s)(i := Connecting (idea_of t))\<rparr>)"
| accept: "sd_stage s i \<noteq> Pondering \<Longrightarrow> i \<notin> set (bh_conns (sd_hub s)) \<Longrightarrow>
    shared_step s (s\<lparr>sd_hub := (sd_hub s)\<lparr>bh_conns := set_add i (bh_conns (sd_hub s))\<rparr>\<rparr>)"
| opened: "sd_stage s i = Connecting t \<Longrightarrow>
    shared_step s (s\<lparr>sd_stage := (sd_stage s)(i := Posted), sd_up := (sd_up s)(i := sd_up s i @ [post_message (AGENTS ! i) t])\<rparr>)"
| collect: "i \<in> set (bh_conns (sd_hub s)) \<Longrightarrow> sd_up s i = m # ms \<Longrightarrow> hub_post m (sd_hub s) = (Inr ws, h) \<Longrightarrow>
    shared_step s (s\<lparr>sd_up := (sd_up s)(i := ms), sd_hub := h, sd_down := deliver ws (sd_down s)\<rparr>)"
| receive: "sd_down s i = m # ms \<Longrightarrow> shared_message (length AGENTS) m (sd_seen s i) = (Inr (), seen) \<Longrightarrow>
    shared_step s (s\<lparr>sd_down := (sd_down s)(i := ms), sd_seen := (sd_seen s)(i := seen)\<rparr>)"

inductive_cases shared_stepE: "shared_step s s'"

text \<open>What \<open>main\<close> prints of a board.\<close>

definition shared_lines :: "b4a \<Rightarrow> jsval \<Rightarrow> jsstring list result" where
  "shared_lines b v =
     rbind (iterated v) (traverse (\<lambda>item.
       rbind (getp item (js ''from'')) (\<lambda>name.
       rbind (getp item (js ''text'')) (\<lambda>t.
       Inr (js ''   '' @ [0x2022, 32] @ to_text b name @ js '': '' @ to_text b t)))))"

section \<open>The invariant\<close>

definition filed_idea :: "nat \<Rightarrow> jsval list \<Rightarrow> nat" where
  "filed_idea i items = length (filter (\<lambda>it. field it (js ''from'') = Str (AGENTS ! i)) items)"

lemma filed_idea_simps [simp]:
  "filed_idea i [] = 0" "filed_idea i (items @ items') = filed_idea i items + filed_idea i items'"
  "filed_idea i [shared_item (Str n) t] = of_bool (n = AGENTS ! i)"
  by (simp_all add: filed_idea_def shared_item_def)

lemma length_AGENTS [simp]: "length AGENTS = 3"
  by (simp add: AGENTS_def)

lemma same_agent: "i < 3 \<Longrightarrow> j < 3 \<Longrightarrow> AGENTS ! i = AGENTS ! j \<longleftrightarrow> i = j"
  using nth_eq_iff_index_eq [of AGENTS i j] by (simp add: AGENTS_def)

definition ideas_only :: "jsval list \<Rightarrow> bool" where
  "ideas_only items \<longleftrightarrow> (\<forall>it \<in> set items. \<exists>i < 3. \<exists>t. it = shared_item (Str (AGENTS ! i)) (Str t))"

lemma length_ideas: "ideas_only items \<Longrightarrow> length items = (\<Sum>i<3. filed_idea i items)"
proof (induction items)
  case (Cons it items)
  then obtain i t where i: "i < 3" "it = shared_item (Str (AGENTS ! i)) (Str t)"
    by (auto simp: ideas_only_def)
  have "(\<Sum>j<3. filed_idea j (it # items)) = (\<Sum>j<3. of_bool (i = j) + filed_idea j items)"
    using i same_agent [OF i(1)] filed_idea_simps(2) [of _ "[it]" items] by (intro sum.cong) simp_all
  also have "\<dots> = 1 + length items"
    using Cons i(1) by (simp add: sum.distrib ideas_only_def of_bool_def)
  finally show ?case
    by simp
qed simp

text \<open>
  An agent has its idea to come, in its hands, on the way or on the board.  A board it is sent is an initial part
  of the hub's; a full one is the hub's, and it has it or is being sent it.
\<close>

definition agent_inv :: "board_hub \<Rightarrow> nat \<Rightarrow> idea_stage \<Rightarrow> jsval list \<Rightarrow> jsval list \<Rightarrow> jsval option \<Rightarrow> bool" where
  "agent_inv h i stage up down got \<longleftrightarrow>
     length up + filed_idea i (bh_board h) = of_bool (stage = Posted)
     \<and> (stage = Pondering \<longrightarrow> i \<notin> set (bh_conns h))
     \<and> (filed_idea i (bh_board h) = 1 \<longrightarrow> i \<in> set (bh_conns h))
     \<and> (\<forall>m \<in> set up. \<exists>t. m = post_message (AGENTS ! i) t)
     \<and> (\<forall>m \<in> set down. \<exists>k \<le> length (bh_board h). m = shared_payload (take k (bh_board h)))
     \<and> (\<forall>v. got = Some v \<longrightarrow> v = Arr (bh_board h) \<and> length (bh_board h) = 3)
     \<and> (length (bh_board h) = 3 \<longrightarrow> got \<noteq> None \<or> shared_payload (bh_board h) \<in> set down)"

definition shared_inv :: "shared \<Rightarrow> bool" where
  "shared_inv s \<longleftrightarrow>
     (\<forall>i < 3. agent_inv (sd_hub s) i (sd_stage s i) (sd_up s i) (sd_down s i) (snd (sd_seen s i)))
     \<and> (\<forall>i \<ge> 3. sd_stage s i = Pondering \<and> sd_up s i = [] \<and> sd_down s i = [])
     \<and> distinct (bh_conns (sd_hub s)) \<and> set (bh_conns (sd_hub s)) \<subseteq> {..<3} \<and> ideas_only (bh_board (sd_hub s))"

lemma shared_inv_start: "shared_inv shared_start"
  by (simp add: shared_inv_def shared_start_def agent_inv_def ideas_only_def)

lemma hub_post_message:
  "hub_post (post_message name idea) h =
     (let items = bh_board h @ [shared_item (Str name) (Str idea)]
      in (Inr (map (\<lambda>c. (c, shared_payload items)) (bh_conns h)), h\<lparr>bh_board := items\<rparr>))"
  by (simp add: hub_post_def post_message_def Let_def)

lemma shared_message_payload:
  "shared_message n (shared_payload items) s =
     (Inr (), Arr items, if n \<le> length items \<and> snd s = None then Some (Arr items) else snd s)"
  by (cases "n \<le> length items") (simp_all add: shared_message_def shared_payload_def length_reaches_def Let_def)

lemma board_at_most_full: "shared_inv s \<Longrightarrow> length (bh_board (sd_hub s)) \<le> 3"
proof -
  assume inv: "shared_inv s"
  have "filed_idea i (bh_board (sd_hub s)) \<le> 1" if "i < 3" for i
  proof -
    have "length (sd_up s i) + filed_idea i (bh_board (sd_hub s)) = of_bool (sd_stage s i = Posted)"
      using inv that by (simp add: shared_inv_def agent_inv_def)
    then show ?thesis
      by (cases "sd_stage s i = Posted") simp_all
  qed
  then have "(\<Sum>i<3. filed_idea i (bh_board (sd_hub s))) \<le> (\<Sum>i<3::nat. 1)"
    by (intro sum_mono) simp
  then show ?thesis
    using inv length_ideas by (simp add: shared_inv_def)
qed

lemma shared_inv_collect:
  assumes inv: "shared_inv s" and i: "i \<in> set (bh_conns (sd_hub s))" and up: "sd_up s i = m # ms"
    and hub: "hub_post m (sd_hub s) = (r, h)"
  shows "\<exists>ws. r = Inr ws \<and> shared_inv (s\<lparr>sd_up := (sd_up s)(i := ms), sd_hub := h, sd_down := deliver ws (sd_down s)\<rparr>)
    \<and> ws = map (\<lambda>c. (c, shared_payload (bh_board h))) (bh_conns (sd_hub s))"
proof -
  let ?items = "bh_board (sd_hub s)" and ?conns = "bh_conns (sd_hub s)"
  have i3: "i < 3" and conns: "distinct ?conns" and valid: "ideas_only ?items"
    using inv i by (auto simp: shared_inv_def)
  have agents: "agent_inv (sd_hub s) j (sd_stage s j) (sd_up s j) (sd_down s j) (snd (sd_seen s j))" if "j < 3" for j
    using inv that by (simp add: shared_inv_def)
  obtain t where m: "m = post_message (AGENTS ! i) t"
    using agents [OF i3] up by (auto simp: agent_inv_def)
  define it where "it = shared_item (Str (AGENTS ! i)) (Str t)"
  have r: "r = Inr (map (\<lambda>c. (c, shared_payload (?items @ [it]))) ?conns)" and h: "h = (sd_hub s)\<lparr>bh_board := ?items @ [it]\<rparr>"
    using hub by (simp_all add: m hub_post_message it_def Let_def)
  have none: "filed_idea i ?items = 0" and posted: "ms = []" "sd_stage s i = Posted"
    using agents [OF i3] up by (auto simp: agent_inv_def of_bool_def split: if_splits)
  have one: "filed_idea j ?items \<le> 1" if "j < 3" for j
    using agents [OF that] by (auto simp: agent_inv_def of_bool_def split: if_splits)
  have "length ?items < (\<Sum>j<3::nat. 1)"
    unfolding length_ideas [OF valid] by (rule sum_strict_mono_ex1) (use one none i3 in auto)
  then have less: "length ?items < 3"
    by simp
  have filed: "filed_idea j (?items @ [it]) = filed_idea j ?items + of_bool (i = j)" if "j < 3" for j
    using same_agent [OF i3 that] by (simp add: it_def)
  have valid': "ideas_only (?items @ [it])"
    using valid i3 by (auto simp: ideas_only_def it_def)
  have all_in: "j \<in> set ?conns" if "length (?items @ [it]) = 3" "j < 3" for j
  proof (cases "i = j")
    case False
    have "filed_idea j (?items @ [it]) = 1"
    proof (rule ccontr)
      assume "filed_idea j (?items @ [it]) \<noteq> 1"
      moreover have most: "filed_idea l (?items @ [it]) \<le> 1" if "l < 3" for l
        using one [OF that] none filed [OF that] by (cases "i = l") auto
      ultimately have "(\<Sum>l<3. filed_idea l (?items @ [it])) < (\<Sum>l<3::nat. 1)"
        using that(2) by (intro sum_strict_mono_ex1) (auto simp: le_less dest: bspec)
      then show False
        using that(1) length_ideas [OF valid'] by simp
    qed
    then show ?thesis
      using filed [OF that(2)] False agents [OF that(2)] by (simp add: agent_inv_def)
  qed (use i in simp)
  have down: "deliver (map (\<lambda>c. (c, shared_payload (?items @ [it]))) ?conns) (sd_down s) j
      = sd_down s j @ (if j \<in> set ?conns then [shared_payload (?items @ [it])] else [])" for j
    by (rule deliver_broadcast [OF conns])
  have part: "\<exists>k \<le> length (?items @ [it]). shared_payload (take n ?items) = shared_payload (take k (?items @ [it]))"
    if "n \<le> length ?items" for n
    using that by (intro exI [of _ n]) simp
  have "agent_inv h j (sd_stage s j) (((sd_up s)(i := ms)) j)
      (deliver (map (\<lambda>c. (c, shared_payload (?items @ [it]))) ?conns) (sd_down s) j) (snd (sd_seen s j))" if j: "j < 3" for j
  proof -
    have "snd (sd_seen s j) = None"
      using agents [OF j] less by (cases "snd (sd_seen s j)") (auto simp: agent_inv_def)
    moreover have "length (((sd_up s)(i := ms)) j) + filed_idea j (?items @ [it]) = of_bool (sd_stage s j = Posted)"
    proof -
      have old: "length (sd_up s j) + filed_idea j ?items = of_bool (sd_stage s j = Posted)"
        using agents [OF j] by (simp add: agent_inv_def)
      show ?thesis
      proof (cases "i = j")
        case True
        then show ?thesis
          using posted none filed [OF j] by simp
      next
        case False
        then show ?thesis
          using old filed [OF j] by simp
      qed
    qed
    moreover have "\<forall>m \<in> set (((sd_up s)(i := ms)) j). \<exists>t. m = post_message (AGENTS ! j) t"
      using agents [OF j] posted by (auto simp: agent_inv_def)
    moreover have "filed_idea j (?items @ [it]) = 1 \<longrightarrow> j \<in> set ?conns"
      using agents [OF j] i filed [OF j] by (cases "i = j") (simp_all add: agent_inv_def)
    moreover have "\<forall>m \<in> set (sd_down s j). \<exists>k \<le> length (?items @ [it]). m = shared_payload (take k (?items @ [it]))"
    proof
      fix m' assume "m' \<in> set (sd_down s j)"
      then obtain n where "n \<le> length ?items" "m' = shared_payload (take n ?items)"
        using agents [OF j] by (auto simp: agent_inv_def)
      then show "\<exists>k \<le> length (?items @ [it]). m' = shared_payload (take k (?items @ [it]))"
        using part by simp
    qed
    moreover have "\<exists>k \<le> length (?items @ [it]). shared_payload (?items @ [it]) = shared_payload (take k (?items @ [it]))"
      by (intro exI [of _ "length (?items @ [it])"]) simp
    moreover have "sd_stage s j = Pondering \<longrightarrow> j \<notin> set ?conns"
      using agents [OF j] by (simp add: agent_inv_def)
    ultimately show ?thesis
      using all_in [OF _ j] unfolding agent_inv_def down h by (auto simp del: take_append)
  qed
  moreover have "deliver (map (\<lambda>c. (c, shared_payload (?items @ [it]))) ?conns) (sd_down s) j = []" if "j \<ge> 3" for j
    using inv that unfolding down by (auto simp: shared_inv_def)
  ultimately show ?thesis
    using inv i3 valid' by (intro exI [of _ "map (\<lambda>c. (c, shared_payload (?items @ [it]))) ?conns"]) (auto simp: r h shared_inv_def)
qed

lemma shared_inv_receive:
  assumes inv: "shared_inv s" and down: "sd_down s i = m # ms" and "shared_message (length AGENTS) m (sd_seen s i) = (r, seen)"
  shows "r = Inr () \<and> shared_inv (s\<lparr>sd_down := (sd_down s)(i := ms), sd_seen := (sd_seen s)(i := seen)\<rparr>)"
proof -
  have i: "i < 3"
    using inv down by (cases "i < 3") (auto simp: shared_inv_def)
  then have agent: "agent_inv (sd_hub s) i (sd_stage s i) (sd_up s i) (m # ms) (snd (sd_seen s i))"
    using inv down by (auto simp: shared_inv_def)
  then obtain k where k: "k \<le> length (bh_board (sd_hub s))" "m = shared_payload (take k (bh_board (sd_hub s)))"
    by (auto simp: agent_inv_def)
  have seen: "r = Inr ()" "snd seen = (if 3 \<le> k \<and> snd (sd_seen s i) = None then Some (Arr (take k (bh_board (sd_hub s)))) else snd (sd_seen s i))"
    using assms(3) k(1) by (auto simp: k(2) shared_message_payload)
  have most: "length (bh_board (sd_hub s)) \<le> 3"
    by (rule board_at_most_full [OF inv])
  have "agent_inv (sd_hub s) i (sd_stage s i) (sd_up s i) ms (snd seen)"
  proof (cases "3 \<le> k \<and> snd (sd_seen s i) = None")
    case True
    then have "take k (bh_board (sd_hub s)) = bh_board (sd_hub s)" "length (bh_board (sd_hub s)) = 3"
      using k(1) most by simp_all
    then show ?thesis
      using agent True unfolding agent_inv_def seen(2) by simp
  next
    case False
    have "m \<noteq> shared_payload (bh_board (sd_hub s))" if "length (bh_board (sd_hub s)) = 3" "snd (sd_seen s i) = None"
      using False k that by (auto simp: shared_payload_def)
    then show ?thesis
      using agent False unfolding agent_inv_def seen(2) by (cases "snd (sd_seen s i)") auto
  qed
  then show ?thesis
    using inv i seen(1) by (auto simp: shared_inv_def)
qed

end
