(* ===== verification/Shared_Props.thy ===== *)
theory Shared_Props
  imports Shared_Board
begin

text \<open>
  What the shared board of src/examples/dht-shared.js promises: every run is short, and at its end every agent
  holds the same full board with one idea of each; an idea is one line.
\<close>

section \<open>Reachable states and their weight\<close>

lemma shared_inv_step: "shared_step s s' \<Longrightarrow> shared_inv s \<Longrightarrow> shared_inv s'"
proof (induction rule: shared_step.induct)
  case (idea i s t)
  then show ?case
    by (auto simp: shared_inv_def agent_inv_def)
next
  case (accept s i)
  then have "i < 3"
    by (cases "i < 3") (auto simp: shared_inv_def)
  with accept show ?case
    by (auto simp: shared_inv_def agent_inv_def set_set_add distinct_set_add)
next
  case (opened s i t)
  then have i: "i < 3"
    by (cases "i < 3") (auto simp: shared_inv_def)
  have "agent_inv (sd_hub s) i (sd_stage s i) (sd_up s i) (sd_down s i) (snd (sd_seen s i))"
    using opened(2) i unfolding shared_inv_def by blast
  then have "agent_inv (sd_hub s) i Posted (sd_up s i @ [post_message (AGENTS ! i) t]) (sd_down s i) (snd (sd_seen s i))"
    using opened(1) by (auto simp: agent_inv_def)
  with opened i show ?case
    by (auto simp: shared_inv_def)
next
  case (collect i s m ms ws h)
  then show ?case
    using shared_inv_collect [of s i m ms "Inr ws" h] by auto
next
  case (receive s i m ms seen)
  then show ?case
    using shared_inv_receive by blast
qed

fun stage_weight :: "idea_stage \<Rightarrow> nat" where
  "stage_weight Pondering = 6"
| "stage_weight (Connecting t) = 5"
| "stage_weight Posted = 0"

text \<open>What an agent still has to do; an idea on its way weighs more than the boards its filing sends out.\<close>

definition agent_weight :: "shared \<Rightarrow> nat \<Rightarrow> nat" where
  "agent_weight s i = stage_weight (sd_stage s i) + of_bool (i \<notin> set (bh_conns (sd_hub s))) + 4 * length (sd_up s i) + length (sd_down s i)"

definition shared_weight :: "shared \<Rightarrow> nat" where
  "shared_weight s = (\<Sum>i<3. agent_weight s i)"

lemma shared_weight_less:
  assumes "i < 3" and "\<And>j. j \<noteq> i \<Longrightarrow> agent_weight s' j = agent_weight s j" and "agent_weight s' i < agent_weight s i"
  shows "shared_weight s' < shared_weight s"
proof -
  have "agent_weight s' j \<le> agent_weight s j" for j
    using assms(2,3) by (cases "j = i") auto
  then show ?thesis
    unfolding shared_weight_def using assms(1,3) by (intro sum_strict_mono_ex1) auto
qed

lemma shared_weight_step:
  assumes "shared_step s s'" and inv: "shared_inv s"
  shows "shared_weight s' < shared_weight s"
proof -
  have small: "i < 3" if "sd_stage s i \<noteq> Pondering \<or> sd_up s i \<noteq> [] \<or> sd_down s i \<noteq> []" for i
    using inv that by (cases "i < 3") (auto simp: shared_inv_def)
  from assms(1) show ?thesis
  proof cases
    case (idea i t)
    then show ?thesis
      by (intro shared_weight_less [of i]) (auto simp: agent_weight_def)
  next
    case (accept i)
    then show ?thesis
      using small by (intro shared_weight_less [of i]) (auto simp: agent_weight_def set_set_add)
  next
    case (opened i t)
    then show ?thesis
      using small [of i] by (intro shared_weight_less [of i]) (auto simp: agent_weight_def)
  next
    case (receive i m ms seen)
    then show ?thesis
      using small [of i] by (intro shared_weight_less [of i]) (auto simp: agent_weight_def)
  next
    case (collect i m ms ws h)
    from shared_inv_collect [OF inv collect(2,3,4)]
    have ws: "ws = map (\<lambda>c. (c, shared_payload (bh_board h))) (bh_conns (sd_hub s))"
      by blast
    have conns: "bh_conns h = bh_conns (sd_hub s)"
      using collect(4) by (auto simp: hub_post_def Let_def split: sum.splits if_splits)
    have "length (deliver ws (sd_down s) j) \<le> Suc (length (sd_down s j))" for j
      using inv deliver_broadcast unfolding ws by (simp add: shared_inv_def)
    then have "agent_weight s' j + (if j = i then 4 else 0) \<le> agent_weight s j + 1" for j
      using collect(1,3) conns by (auto simp: agent_weight_def)
    then have "(\<Sum>j<3. agent_weight s' j + (if j = i then 4 else 0)) \<le> (\<Sum>j<3. agent_weight s j + 1)"
      by (intro sum_mono)
    moreover have "(\<Sum>j<3. agent_weight s j + 1) = shared_weight s + 3"
      by (subst sum.distrib) (simp add: shared_weight_def)
    moreover have "(\<Sum>j<3. agent_weight s' j + (if j = i then 4 else 0)) = shared_weight s' + 4"
      using small [of i] collect(3) by (subst sum.distrib) (simp add: shared_weight_def)
    ultimately show ?thesis
      by simp
  qed
qed

lemma shared_run: "(shared_step ^^ k) shared_start s \<Longrightarrow> shared_inv s \<and> k + shared_weight s \<le> 21"
proof (induction k arbitrary: s)
  case 0
  then have s: "s = shared_start"
    by simp
  have "shared_weight shared_start = 21"
    by (simp add: shared_weight_def agent_weight_def shared_start_def)
  then show ?case
    unfolding s using shared_inv_start by simp
next
  case (Suc k)
  then obtain r where "(shared_step ^^ k) shared_start r" "shared_step r s"
    by (elim relpowp_Suc_E)
  then show ?case
    using Suc.IH [of r] shared_weight_step shared_inv_step by fastforce
qed

section \<open>The end of a run\<close>

lemma shared_stuck:
  assumes inv: "shared_inv s" and stuck: "\<nexists>s'. shared_step s s'" and i: "i < 3"
  shows "filed_idea i (bh_board (sd_hub s)) = 1 \<and> sd_down s i = []"
proof -
  have agent: "agent_inv (sd_hub s) i (sd_stage s i) (sd_up s i) (sd_down s i) (snd (sd_seen s i))"
    using inv i by (simp add: shared_inv_def)
  have "sd_stage s i \<noteq> Pondering"
    using stuck shared_step.idea [of i s] i by auto
  moreover have "sd_stage s i \<noteq> Connecting t" for t
    using stuck shared_step.opened by blast
  ultimately have posted: "sd_stage s i = Posted"
    using idea_stage.exhaust by blast
  then have conn: "i \<in> set (bh_conns (sd_hub s))"
    using stuck shared_step.accept [of s i] by auto
  have "sd_up s i = []"
  proof (rule ccontr)
    assume "sd_up s i \<noteq> []"
    then obtain m ms where up: "sd_up s i = m # ms"
      by (cases "sd_up s i") simp_all
    obtain r h where hub: "hub_post m (sd_hub s) = (r, h)"
      by fastforce
    from shared_inv_collect [OF inv conn up hub] obtain ws where "r = Inr ws"
      by blast
    then show False
      using stuck shared_step.collect [OF conn up] hub by blast
  qed
  moreover have "sd_down s i = []"
  proof (rule ccontr)
    assume "sd_down s i \<noteq> []"
    then obtain m ms where down: "sd_down s i = m # ms"
      by (cases "sd_down s i") simp_all
    obtain r seen where msg: "shared_message (length AGENTS) m (sd_seen s i) = (r, seen)"
      by (metis surj_pair)
    from shared_inv_receive [OF inv down msg] have "r = Inr ()"
      by blast
    then show False
      using stuck shared_step.receive [OF down] msg by blast
  qed
  ultimately show ?thesis
    using agent posted by (simp add: agent_inv_def)
qed

lemma stuck_board:
  assumes inv: "shared_inv s" and stuck: "\<nexists>s'. shared_step s s'"
  shows "length (bh_board (sd_hub s)) = 3"
    and "i < 3 \<Longrightarrow> filed_idea i (bh_board (sd_hub s)) = 1 \<and> snd (sd_seen s i) = Some (Arr (bh_board (sd_hub s)))"
proof -
  have each: "filed_idea i (bh_board (sd_hub s)) = 1" "sd_down s i = []" if "i < 3" for i
    using shared_stuck [OF inv stuck that] by simp_all
  have "ideas_only (bh_board (sd_hub s))"
    using inv by (simp add: shared_inv_def)
  then show full: "length (bh_board (sd_hub s)) = 3"
    using each length_ideas by simp
  assume i: "i < 3"
  have agent: "agent_inv (sd_hub s) i (sd_stage s i) (sd_up s i) (sd_down s i) (snd (sd_seen s i))"
    using inv i by (simp add: shared_inv_def)
  then obtain v where "snd (sd_seen s i) = Some v"
    using full each(2) [OF i] by (auto simp: agent_inv_def)
  then show "filed_idea i (bh_board (sd_hub s)) = 1 \<and> snd (sd_seen s i) = Some (Arr (bh_board (sd_hub s)))"
    using agent each(1) [OF i] by (simp add: agent_inv_def)
qed

text \<open>
  C17. Everyone sees the same full board.  No run of the hub and its three agents has more than 21 steps, whatever the
  order of its events; one that cannot go on has left the hub with exactly one idea of each agent,
  and every agent's promise resolved with exactly that board, of which \<open>main\<close> prints three lines.
\<close>

theorem everyone_sees_the_full_board:
  assumes "(shared_step ^^ k) shared_start s"
  shows "k \<le> 21 \<and> ((\<exists>s'. shared_step s s')
    \<or> list_all (\<lambda>i. filed_idea i (bh_board (sd_hub s)) = 1 \<and> snd (sd_seen s i) = Some (Arr (bh_board (sd_hub s)))) [0..<length AGENTS]
      \<and> length (bh_board (sd_hub s)) = length AGENTS
      \<and> (\<exists>printed. shared_lines b (Arr (bh_board (sd_hub s))) = Inr printed \<and> length printed = length AGENTS))"
proof -
  let ?board = "bh_board (sd_hub s)"
  have inv: "shared_inv s" and k: "k \<le> 21"
    using shared_run [OF assms] by simp_all
  show ?thesis
  proof (cases "\<exists>s'. shared_step s s'")
    case False
    have ideas: "ideas_only ?board"
      using inv by (simp add: shared_inv_def)
    have "\<exists>printed. shared_lines b (Arr ?board) = Inr printed"
      unfolding shared_lines_def iterated_def rbind_simps jsval.case
      using ideas by (intro traverse_returns) (auto simp: ideas_only_def shared_item_def)
    moreover have "length printed = 3" if "shared_lines b (Arr ?board) = Inr printed" for printed
      using that [unfolded shared_lines_def iterated_def rbind_simps jsval.case, THEN traverse_InrD, THEN list_all2_lengthD]
        stuck_board(1) [OF inv False]
      by simp
    ultimately show ?thesis
      using k stuck_board [OF inv False] by (auto simp: list_all_iff)
  qed (use k in simp)
qed

theorem everyone_sees_the_full_board_witness:
  "\<exists>s. shared_step\<^sup>*\<^sup>* shared_start s \<and> snd (sd_seen s 0) = Some (Arr (bh_board (sd_hub s))) \<and> length (bh_board (sd_hub s)) = 3"
proof -
  have "\<exists>s. shared_step\<^sup>*\<^sup>* shared_start s \<and> (\<nexists>s'. shared_step s s')"
    using shared_run by (intro bounded_runs_end [of _ _ 21]) fastforce
  then obtain s where s: "shared_step\<^sup>*\<^sup>* shared_start s" "\<nexists>s'. shared_step s s'"
    by blast
  then obtain k where "(shared_step ^^ k) shared_start s"
    by (metis rtranclp_imp_relpowp)
  from everyone_sees_the_full_board [OF this] s show ?thesis
    by (intro exI [of _ s]) (simp add: upt_rec)
qed

text \<open>
  An idea is one line without white space around it, and never empty.
\<close>

lemma idea_is_one_line: "10 \<notin> set (idea_of out) \<and> idea_of out \<noteq> []"
proof -
  have "10 \<notin> set (hd (split_on 10 (trim out)))"
    using split_on_fresh [of _ 10 "trim out"] by (simp add: hd_in_set)
  then show ?thesis
    by (simp add: idea_of_def Let_def js_def)
qed

end
