(* ===== verification/Shared_Program.thy ===== *)
theory Shared_Program
  imports Fleets Shared_Board
begin

text \<open>
  The program of src/examples/dht-shared.js as a whole: the hub, the agents with their ideas, the board and the
  end.
\<close>

section \<open>The agents and the program\<close>

definition shared_opts :: jsval where
  "shared_opts = Obj [(js ''provider'', Str (js ''ollama'')), (js ''model'', Str (js ''llama3.2''))]"

definition shared_run :: "('w, 'b, 'a) env \<Rightarrow> host \<Rightarrow> jsstring \<Rightarrow> (('w, 'b, 'a) run, jsstring) prog" where
  "shared_run E host name =
     pthen (fleet_agent E host ''ideas'' name) (\<lambda>key.
     pthen (on_loop (shared_ask E key PROMPT)) (\<lambda>idea.
     pthen (effect host (Printed ([0xD83D, 0xDCA1] @ js '' '' @ name @ js '' thought of: '' @ idea))) (\<lambda>_.
     pthen (link_up host name) (\<lambda>_.
     pret idea))))"

definition shared_cleanup :: "('w, 'b, 'a) env \<Rightarrow> host \<Rightarrow> jsstring \<Rightarrow> (('w, 'b, 'a) run, unit) prog" where
  "shared_cleanup E host name = pthen (link_down host name) (\<lambda>_. close_agent E host name)"

text \<open>
  \<open>order\<close> is the order in which the agents have their ideas, \<open>posts\<close> the one in which the hub is sent
  them; \<open>hex\<close> is its public key.
\<close>

definition shared_board :: "(jsstring \<Rightarrow> jsstring) \<Rightarrow> jsstring list \<Rightarrow> jsval list" where
  "shared_board idea posts = map (\<lambda>name. shared_item (Str name) (Str (idea name))) posts"

definition hub_open :: "host \<Rightarrow> jsstring \<Rightarrow> (('w, 'b) fleet, unit) prog" where
  "hub_open host hex =
     pthen (fleet_effect host (Opened HubNode)) (\<lambda>_.
     pthen (fleet_effect host (Opened Server)) (\<lambda>_.
     fleet_effect host (Printed ([0xD83D, 0xDCE1] @ js '' hub listening on '' @ take 16 hex @ [0x2026, 10]))))"

definition shared_finish :: "('w, 'b, unit) env \<Rightarrow> host \<Rightarrow> jsval list \<Rightarrow> (('w, 'b) fleet, unit) prog" where
  "shared_finish E host board =
     pthen (fleet_effect host (Printed ([10, 0xD83D, 0xDCCB] @ js '' final shared board (as every agent saw it):''))) (\<lambda>_.
     pthen (of_result (shared_lines (e_b4a E) (Arr board))) (\<lambda>lines.
     pthen (peach (\<lambda>l. fleet_effect host (Printed l)) lines) (\<lambda>_.
     pthen (peach (\<lambda>name. as_member name (shared_cleanup E host name)) AGENTS) (\<lambda>_.
     pthen (fleet_effect host (Released Server)) (\<lambda>_.
     pthen (fleet_effect host (Released HubNode)) (\<lambda>_.
     fleet_effect host (Printed ([10, 0x2705] @ js '' done '' @ [0x2014] @ js '' board shared across '' @ dec_nat (length AGENTS)
       @ js '' agents via one DHT server''))))))))"

definition received_line :: "jsstring \<Rightarrow> jsstring \<Rightarrow> jsstring" where
  "received_line name idea = [0xD83D, 0xDDD2, 0xFE0F] @ js ''  hub received from '' @ name @ js '': '' @ idea"

definition shared_main :: "('w, 'b, unit) env \<Rightarrow> host \<Rightarrow> jsstring \<Rightarrow> jsstring list \<Rightarrow> jsstring list \<Rightarrow> (('w, 'b) fleet, unit) prog" where
  "shared_main E host hex order posts =
     pthen (hub_open host hex) (\<lambda>_.
     pthen (pmap (\<lambda>name. as_member name (shared_run E host name)) order) (\<lambda>ideas.
     let idea = (\<lambda>name. the (map_of (zip order ideas) name)) in
     pthen (peach (\<lambda>name. fleet_effect host (Printed (received_line name (idea name)))) posts) (\<lambda>_.
     shared_finish E host (shared_board idea posts))))"

section \<open>The program runs\<close>

lemma agent_names: "name \<in> set AGENTS \<Longrightarrow> key_ok name"
  by (auto simp: AGENTS_def) (simp_all add: small_key js_def)

lemma shared_texts: "key_ok PROMPT" "opts_ok shared_opts" "key_ok (js ''ideas'')"
proof -
  have "key_ok (js ''llama3.2'')"
    by (simp add: small_key js_def)
  then show "key_ok PROMPT" "opts_ok shared_opts" "key_ok (js ''ideas'')"
    by (simp_all add: opts_ok_def shared_opts_def js_or_def PROMPT_def) (simp_all add: small_key js_def)
qed

definition thought_line :: "jsstring \<Rightarrow> jsstring \<Rightarrow> jsstring" where
  "thought_line name idea = [0xD83D, 0xDCA1] @ js '' '' @ name @ js '' thought of: '' @ idea"

definition board_line :: "jsstring \<Rightarrow> jsstring \<Rightarrow> jsstring" where
  "board_line name idea = js ''   '' @ [0x2022, 32] @ name @ js '': '' @ idea"

text \<open>An agent's idea, and its book after, when its store had the book \<open>bk\<close>.\<close>

definition shared_idea :: "picoclaw \<Rightarrow> (jsstring \<Rightarrow> book) \<Rightarrow> jsstring \<Rightarrow> jsstring" where
  "shared_idea pc bk name = idea_of (reply_text pc PROMPT (bk_sessions (bk name) (fleet_key pc ''ideas'' name)))"

definition shared_left :: "picoclaw \<Rightarrow> (jsstring \<Rightarrow> book) \<Rightarrow> jsstring \<Rightarrow> book" where
  "shared_left pc bk name =
     reply_left pc (fleet_key pc ''ideas'' name) PROMPT (with_name (fleet_key pc ''ideas'' name) (bk name))"

lemma shared_run_local:
  fixes w :: "goserver link"
  assumes pc: "picoclaw_ok pc" "speaks pc" and host: "willing host" and es: "store_ok es" and name: "name \<in> set AGENTS"
    and k: "listable (fleet_key pc ''ideas'' name)" and bk: "bk name = store_book es"
  shows "\<exists>st. local_run name (claw_new shared_opts w es) (as_member name (shared_run (go_env pc) host name)) (shared_idea pc bk name) st
      [Opened (Corestore (store_path name)), Printed (thought_line name (shared_idea pc bk name)), Opened (Node name), Opened (Socket name)]
    \<and> book_inv st \<and> book_of st = shared_left pc bk name"
proof -
  let ?k = "fleet_key pc ''ideas'' name"
  obtain st1 :: "(goserver link, entries, unit) claw" where st1:
    "\<And>a tr. fleet_agent (go_env pc) host ''ideas'' name \<lparr>rn_claw = claw_new shared_opts w es, rn_tools = a, rn_trace = tr\<rparr>
      = Some (Inr (Str ?k), \<lparr>rn_claw = st1, rn_tools = a, rn_trace = tr @ [Opened (Corestore (store_path name))]\<rparr>)"
    "book_inv st1" "book_of st1 = with_name ?k (store_book es)"
    using go_fleet_agent [where 'a = unit and w = w, OF pc(1) host es shared_texts(2) agent_names [OF name] shared_texts(3) k] by auto
  obtain st2 where st2: "chat_loop (go_env pc) (\<lambda>out v. out @ content_text utf8_b4a v) (chat (Str ?k) (Str PROMPT) Undef) [] st1
      = Some (Inr (reply_text pc PROMPT (bk_sessions (book_of st1) ?k)), st2)"
    "book_inv st2" "book_of st2 = reply_left pc ?k PROMPT (book_of st1)"
    using go_ask [OF pc st1(2) k shared_texts(1)] by blast
  have "shared_ask (go_env pc) (Str ?k) PROMPT st1 = Some (Inr (shared_idea pc bk name), st2)"
    using st2(1) by (simp add: shared_ask_def shared_idea_def st1(3) bk with_name_def)
  then show ?thesis
    using st2(2,3) st1(3) bk
    by (intro exI [of _ st2] conjI local_member)
      (simp_all add: shared_run_def link_up_def prog_simps host st1(1) thought_line_def shared_left_def)
qed

lemma shared_lines_board: "shared_lines b (Arr (shared_board idea posts)) = Inr (map (\<lambda>name. board_line name (idea name)) posts)"
proof -
  have "traverse g (map h posts) = traverse (g \<circ> h) posts" for g :: "jsval \<Rightarrow> jsstring result" and h
    by (induction posts) simp_all
  then show ?thesis
    unfolding shared_lines_def iterated_def shared_board_def
    by (simp, intro traverse_Inr) (simp add: shared_item_def board_line_def)
qed

lemma agents_distinct: "distinct AGENTS"
  by (simp add: AGENTS_def js_def)

definition idea_opens :: "(jsstring \<Rightarrow> jsstring) \<Rightarrow> jsstring \<Rightarrow> effect list" where
  "idea_opens idea name =
     [Opened (Corestore (store_path name)), Printed (thought_line name (idea name)), Opened (Node name), Opened (Socket name)]"

lemma shared_agents_run:
  fixes w :: "jsstring \<Rightarrow> goserver link"
  assumes pc: "picoclaw_ok pc" "speaks pc" and host: "willing host"
    and es: "\<And>name. name \<in> set AGENTS \<Longrightarrow> store_ok (es name)"
    and k: "\<And>name. name \<in> set AGENTS \<Longrightarrow> listable (fleet_key pc ''ideas'' name)"
    and bk: "bk = (\<lambda>name. store_book (es name))" and order: "mset order = mset AGENTS"
    and fresh: "\<And>name. fl_claws f name = claw_new shared_opts (w name) (es name)"
  shows "\<exists>f'. pmap (\<lambda>name. as_member name (shared_run (go_env pc) host name)) order f = Some (Inr (map (shared_idea pc bk) order), f')
    \<and> (\<forall>name \<in> set AGENTS. book_inv (fl_claws f' name) \<and> book_of (fl_claws f' name) = shared_left pc bk name)
    \<and> fl_trace f' = fl_trace f @ concat (map (idea_opens (shared_idea pc bk)) order)"
proof -
  have agents: "set order = set AGENTS" "distinct (map (\<lambda>x. x) order)"
    using order agents_distinct by (metis mset_eq_setD, metis mset_eq_imp_distinct_iff list.map_ident)
  have "\<exists>st. local_run name (fl_claws f name) (as_member name (shared_run (go_env pc) host name)) (shared_idea pc bk name) st
      (idea_opens (shared_idea pc bk) name) \<and> book_inv st \<and> book_of st = shared_left pc bk name" if "name \<in> set order" for name
    using shared_run_local [where w = "w name" and bk = bk and name = name, OF pc host] es k that bk
    unfolding agents(1) fresh idea_opens_def by simp
  from fleet_pmap [where nm = "\<lambda>x. x" and ys = order, OF agents(2) this] show ?thesis
    unfolding agents(1) by auto
qed

lemma shared_finish_run:
  assumes pc: "picoclaw_ok pc" and host: "willing host"
    and inv: "\<And>name. name \<in> set AGENTS \<Longrightarrow> book_inv (fl_claws f name) \<and> book_of (fl_claws f name) = left name"
  shows "\<exists>f' head tr. shared_finish (go_env pc) host (shared_board idea posts) f = Some (Inr (), f')
    \<and> fl_trace f' = fl_trace f @ Printed head # map (\<lambda>name. Printed (board_line name (idea name))) posts @ tr
    \<and> opened tr = [] \<and> released tr = concat (map (\<lambda>name. [Socket name, Node name, Corestore (store_path name)]) AGENTS) @ [Server, HubNode]
    \<and> (\<forall>name \<in> set AGENTS. store_ok (cl_store (fl_claws f' name)) \<and> store_book (cl_store (fl_claws f' name)) = left name)"
proof -
  let ?head = "[10, 0xD83D, 0xDCCB] @ js '' final shared board (as every agent saw it):''"
  let ?f = "f\<lparr>fl_trace := fl_trace f @ Printed ?head # map (\<lambda>name. Printed (board_line name (idea name))) posts\<rparr>"
  let ?closes = "\<lambda>name. [Released (Socket name), Released (Node name), Released (Corestore (store_path name))]"
  have "\<exists>st. local_run name (fl_claws ?f name) (as_member name (shared_cleanup (go_env pc) host name)) () st (?closes name)
    \<and> store_ok (cl_store st) \<and> store_book (cl_store st) = left name" if "name \<in> set AGENTS" for name
    using close_linked [OF pc host, of "fl_claws f name" name] inv [OF that] unfolding shared_cleanup_def by simp
  from fleet_peach [where nm = "\<lambda>x. x" and ys = AGENTS, OF _ this] agents_distinct obtain f1 where f1:
    "peach (\<lambda>name. as_member name (shared_cleanup (go_env pc) host name)) AGENTS ?f = Some (Inr (), f1)"
    "\<forall>name \<in> set AGENTS. store_ok (cl_store (fl_claws f1 name)) \<and> store_book (cl_store (fl_claws f1 name)) = left name"
    "fl_trace f1 = fl_trace ?f @ concat (map ?closes AGENTS)"
    by auto
  let ?ending = "[Released Server, Released HubNode, Printed ([10, 0x2705] @ js '' done '' @ [0x2014] @ js '' board shared across ''
    @ dec_nat (length AGENTS) @ js '' agents via one DHT server'')]"
  have "shared_finish (go_env pc) host (shared_board idea posts) f = Some (Inr (), f1\<lparr>fl_trace := fl_trace f1 @ ?ending\<rparr>)"
    using f1(1) by (simp add: shared_finish_def pthen_run fleet_effect_def fleet_prints host of_result_def shared_lines_board comp_def)
  with f1(2,3) show ?thesis
    by (intro exI [of _ "f1\<lparr>fl_trace := fl_trace f1 @ ?ending\<rparr>"] exI [of _ ?head] exI [of _ "concat (map ?closes AGENTS) @ ?ending"])
      (simp add: opened_concat released_concat)
qed



end
