(* ===== verification/Shared_Wire.thy ===== *)
theory Shared_Wire
  imports Shared_Props
begin

text \<open>
  The shared board of src/examples/dht-shared.js on its sockets as they are: streams of bytes that arrive in chunks,
  with the line reader and writer at their ends.  The hub and the agents are those of Shared_Board; here a
  step of a reader is one \<open>data\<close> event, with the bytes of a message, of several, or of a part of one.  Chunks are
  cut between characters (of others the reader loses some, see Ndjson).
\<close>

section \<open>Sockets\<close>

text \<open>What was written and has not arrived, and the buffer of the reader.\<close>

record pipe =
  pi_bytes :: bytes
  pi_buf :: jsstring

definition shared_writeJSON :: "b4a \<Rightarrow> jsval \<Rightarrow> pipe \<Rightarrow> pipe" where
  "shared_writeJSON b obj p = p\<lparr>pi_bytes := pi_bytes p @ b4a_from b (to_text b (JSON_stringify obj) @ [10])\<rparr>"

text \<open>One \<open>data\<close> event, on the buffer and the state the handler \<open>fn\<close> works on.\<close>

definition shared_readJSON ::
    "b4a \<Rightarrow> (jsstring \<Rightarrow> jsstring) \<Rightarrow> (jsval \<Rightarrow> 's \<Rightarrow> unit result \<times> 's) \<Rightarrow> bytes \<Rightarrow> jsstring \<Rightarrow> 's
      \<Rightarrow> unit result \<times> jsstring \<times> 's" where
  "shared_readJSON b message fn data buf s = readJSON_lines message fn (buf @ b4a_toString b data) s"

section \<open>The hub and the agents on them\<close>

definition wire_deliver :: "b4a \<Rightarrow> writes \<Rightarrow> (nat \<Rightarrow> pipe) \<Rightarrow> nat \<Rightarrow> pipe" where
  "wire_deliver b ws down = fold (\<lambda>(c, m) d. d(c := shared_writeJSON b m (d c))) ws down"

text \<open>The hub's listener writes to the sockets.\<close>

definition wire_post :: "b4a \<Rightarrow> jsval \<Rightarrow> board_hub \<times> (nat \<Rightarrow> pipe) \<Rightarrow> unit result \<times> board_hub \<times> (nat \<Rightarrow> pipe)" where
  "wire_post b msg s =
     (case hub_post msg (fst s) of
        (Inl e, h) \<Rightarrow> (Inl e, h, snd s)
      | (Inr ws, h) \<Rightarrow> (Inr (), h, wire_deliver b ws (snd s)))"

record shared_wire =
  sw_hub :: board_hub
  sw_stage :: "nat \<Rightarrow> idea_stage"
  sw_up :: "nat \<Rightarrow> pipe"
  sw_down :: "nat \<Rightarrow> pipe"
  sw_seen :: "nat \<Rightarrow> jsval \<times> jsval option"

definition idle_pipe :: pipe where
  "idle_pipe = \<lparr>pi_bytes = [], pi_buf = []\<rparr>"

definition wire_start :: shared_wire where
  "wire_start = \<lparr>sw_hub = \<lparr>bh_conns = [], bh_board = []\<rparr>, sw_stage = (\<lambda>_. Pondering), sw_up = (\<lambda>_. idle_pipe),
     sw_down = (\<lambda>_. idle_pipe), sw_seen = (\<lambda>_. (Arr [], None))\<rparr>"

text \<open>A chunk: some characters of what is on the way, and the others.\<close>

definition chunk_of :: "b4a \<Rightarrow> pipe \<Rightarrow> bytes \<Rightarrow> bytes \<Rightarrow> bool" where
  "chunk_of b p data rest \<longleftrightarrow> data \<noteq> [] \<and> pi_bytes p = data @ rest
     \<and> (\<exists>part left. wf16 part \<and> wf16 left \<and> data = b4a_from b part \<and> rest = b4a_from b left)"

inductive wire_step :: "b4a \<Rightarrow> (jsstring \<Rightarrow> jsstring) \<Rightarrow> shared_wire \<Rightarrow> shared_wire \<Rightarrow> bool" for b message where
  wire_idea: "i < length AGENTS \<Longrightarrow> sw_stage t i = Pondering \<Longrightarrow>
    wire_step b message t (t\<lparr>sw_stage := (sw_stage t)(i := Connecting (idea_of out))\<rparr>)"
| wire_accept: "sw_stage t i \<noteq> Pondering \<Longrightarrow> i \<notin> set (bh_conns (sw_hub t)) \<Longrightarrow>
    wire_step b message t (t\<lparr>sw_hub := (sw_hub t)\<lparr>bh_conns := set_add i (bh_conns (sw_hub t))\<rparr>\<rparr>)"
| wire_opened: "sw_stage t i = Connecting idea \<Longrightarrow>
    wire_step b message t (t\<lparr>sw_stage := (sw_stage t)(i := Posted),
      sw_up := (sw_up t)(i := shared_writeJSON b (post_message (AGENTS ! i) idea) (sw_up t i))\<rparr>)"
| hub_data: "i \<in> set (bh_conns (sw_hub t)) \<Longrightarrow> chunk_of b (sw_up t i) data rest \<Longrightarrow>
    shared_readJSON b message (wire_post b) data (pi_buf (sw_up t i)) (sw_hub t, sw_down t) = (Inr (), buf, h, down) \<Longrightarrow>
    wire_step b message t (t\<lparr>sw_up := (sw_up t)(i := \<lparr>pi_bytes = rest, pi_buf = buf\<rparr>), sw_hub := h, sw_down := down\<rparr>)"
| agent_data: "chunk_of b (sw_down t i) data rest \<Longrightarrow>
    shared_readJSON b message (shared_message (length AGENTS)) data (pi_buf (sw_down t i)) (sw_seen t i) = (Inr (), buf, seen) \<Longrightarrow>
    wire_step b message t (t\<lparr>sw_down := (sw_down t)(i := \<lparr>pi_bytes = rest, pi_buf = buf\<rparr>), sw_seen := (sw_seen t)(i := seen)\<rparr>)"

section \<open>A pipe carries messages\<close>

definition carries :: "b4a \<Rightarrow> jsval list \<Rightarrow> pipe \<Rightarrow> bool" where
  "carries b ms p \<longleftrightarrow> (\<forall>m \<in> set ms. json_ok m) \<and> 10 \<notin> set (pi_buf p)
     \<and> (\<exists>u. wf16 u \<and> pi_bytes p = b4a_from b u \<and> pi_buf p @ u = concat (map line_of ms))"

lemma line_of_ok: "json_ok v \<Longrightarrow> \<exists>t. line_of v = t @ [10] \<and> 10 \<notin> set t"
  using json_ok_text [of v] json_text_no_newline [of v] by (auto simp: line_of_def)

lemma lines_prefix:
  assumes "\<forall>v \<in> set ms. json_ok v" and "s @ left = concat (map line_of ms)"
  shows "\<exists>ms1 ms2 r. ms = ms1 @ ms2 \<and> s = concat (map line_of ms1) @ r \<and> 10 \<notin> set r \<and> r @ left = concat (map line_of ms2)"
  using assms
proof (induction ms arbitrary: s)
  case (Cons v ms)
  show ?case
  proof (cases "10 \<in> set s")
    case False
    then show ?thesis
      using Cons.prems by (intro exI [of _ "[]"] exI [of _ "v # ms"] exI [of _ s]) simp
  next
    case True
    then obtain r s' where s: "s = r @ 10 # s'" "10 \<notin> set r"
      by (metis split_list_first)
    obtain t where t: "line_of v = t @ [10]" "10 \<notin> set t"
      using line_of_ok Cons.prems(1) by force
    have eq: "r @ 10 # (s' @ left) = t @ 10 # concat (map line_of ms)"
      using Cons.prems(2) s t by simp
    then have "split_line (r @ 10 # (s' @ left)) = split_line (t @ 10 # concat (map line_of ms))"
      by simp
    then have "r = t" "s' @ left = concat (map line_of ms)"
      using split_line_fresh [OF s(2), of "s' @ left"] split_line_fresh [OF t(2)] by simp_all
    with Cons.IH [of s'] Cons.prems(1) obtain ms1 ms2 r' where "ms = ms1 @ ms2" "s' = concat (map line_of ms1) @ r'" "10 \<notin> set r'"
      "r' @ left = concat (map line_of ms2)"
      by auto
    then show ?thesis
      using s(1) t(1) \<open>r = t\<close> by (intro exI [of _ "v # ms1"] exI [of _ ms2] exI [of _ r']) simp
  qed
qed (auto intro: exI [of _ "[]"])

context text_encoding
begin

lemma carries_idle: "carries b [] idle_pipe"
  by (simp add: carries_def idle_pipe_def from_Nil)

lemma carries_write: "carries b ms p \<Longrightarrow> json_ok m \<Longrightarrow> carries b (ms @ [m]) (shared_writeJSON b m p)"
proof -
  assume p: "carries b ms p" and m: "json_ok m"
  obtain u where u: "wf16 u" "pi_bytes p = b4a_from b u" "pi_buf p @ u = concat (map line_of ms)"
    using p by (auto simp: carries_def)
  have "b4a_from b (u @ line_of m) = pi_bytes p @ b4a_from b (to_text b (JSON_stringify m) @ [10])"
    using from_append [OF u(1)] writeJSON_line [OF m] u(2) by (simp add: writeJSON_def)
  moreover have "wf16 (u @ line_of m)"
    using u(1) wf16_line_of [OF m] by (rule wf16_append)
  ultimately show ?thesis
    using p m u(3) by (auto simp: carries_def shared_writeJSON_def intro!: exI [of _ "u @ line_of m"])
qed

text \<open>A chunk of a pipe completes some of its messages, and the handler runs on these.\<close>

lemma chunk_read:
  fixes fn :: "jsval \<Rightarrow> 's \<Rightarrow> unit result \<times> 's"
  assumes p: "carries b ms p" and chunk: "chunk_of b p data rest"
  shows "\<exists>ms1 ms2. ms = ms1 @ ms2 \<and> (\<forall>x x'. for_each fn ms1 x = (Inr (), x') \<longrightarrow>
    (\<exists>buf. shared_readJSON b message fn data (pi_buf p) x = (Inr (), buf, x') \<and> carries b ms2 \<lparr>pi_bytes = rest, pi_buf = buf\<rparr>))"
proof -
  obtain part left where c: "wf16 part" "wf16 left" "data = b4a_from b part" "rest = b4a_from b left" "pi_bytes p = data @ rest"
    using chunk by (auto simp: chunk_of_def)
  obtain u where u: "wf16 u" "pi_bytes p = b4a_from b u" "pi_buf p @ u = concat (map line_of ms)" and ok: "\<forall>m \<in> set ms. json_ok m"
    using p by (auto simp: carries_def)
  have "b4a_from b (part @ left) = b4a_from b u"
    using c u(2) from_append by simp
  then have "u = part @ left"
    using u(1) c(1,2) wf16_append by (simp add: from_inj)
  then obtain ms1 ms2 r where ms: "ms = ms1 @ ms2" "pi_buf p @ part = concat (map line_of ms1) @ r" "10 \<notin> set r"
    "r @ left = concat (map line_of ms2)"
    using lines_prefix [OF ok, of "pi_buf p @ part" left] u(3) by auto
  have decoded: "b4a_toString b data = part"
    using c(1,3) toString_from by simp
  have "shared_readJSON b message fn data (pi_buf p) x = (Inr (), r, x')" if fn: "for_each fn ms1 x = (Inr (), x')"
    for x x'
  proof -
    have "\<forall>v \<in> set ms1. json_ok v"
      using ok ms(1) by simp
    then have whole: "readJSON_lines message fn (concat (map line_of ms1)) x = (Inr (), [], x')"
      using readJSON_lines_messages [where vs = ms1 and message = message and fn = fn and x = x] unfolding fn
      by (cases "readJSON_lines message fn (concat (map line_of ms1)) x") auto
    show ?thesis
      unfolding shared_readJSON_def decoded ms(2) readJSON_lines_append [of message fn "concat (map line_of ms1)"] whole
      by (simp add: readJSON_lines_none [OF ms(3)])
  qed
  moreover have "carries b ms2 \<lparr>pi_bytes = rest, pi_buf = r\<rparr>"
    unfolding carries_def using ok ms(1,3,4) c(2,4) by (intro conjI exI [of _ left]) simp_all
  ultimately show ?thesis
    by - (rule exI [of _ ms1], rule exI [of _ ms2], intro conjI allI impI exI [of _ r], simp_all add: ms(1))
qed

end

section \<open>The queues behind the bytes\<close>

text \<open>A state of the sockets and the state of Shared_Board it carries.\<close>

definition wire_of :: "b4a \<Rightarrow> shared \<Rightarrow> shared_wire \<Rightarrow> bool" where
  "wire_of b s t \<longleftrightarrow> sw_hub t = sd_hub s \<and> sw_stage t = sd_stage s \<and> sw_seen t = sd_seen s
     \<and> (\<forall>i. carries b (sd_up s i) (sw_up t i)) \<and> (\<forall>i. carries b (sd_down s i) (sw_down t i))"

lemma json_ok_post: "json_ok (post_message name idea)"
  by (simp add: post_message_def props_ok_def js_def is_index_def is_digit16_def)

lemma json_ok_payload: "ideas_only items \<Longrightarrow> json_ok (shared_payload items)"
  by (auto simp: shared_payload_def ideas_only_def shared_item_def props_ok_def js_def is_index_def is_digit16_def)

lemma wire_deliver_simps [simp]:
  "wire_deliver b [] down = down"
  "wire_deliver b ((c, m) # ws) down = wire_deliver b ws (down(c := shared_writeJSON b m (down c)))"
  by (simp_all add: wire_deliver_def)

lemma deliver_simps [simp]:
  "deliver [] down = down" "deliver ((c, m) # ws) down = deliver ws (down(c := down c @ [m]))"
  by (simp_all add: deliver_def)

context text_encoding
begin

lemma carries_deliver:
  assumes "\<forall>(c, m) \<in> set ws. json_ok m" and "\<forall>i. carries b (q i) (down i)"
  shows "\<forall>i. carries b (deliver ws q i) (wire_deliver b ws down i)"
  using assms
proof (induction ws arbitrary: q down)
  case (Cons w ws)
  obtain c m where w: "w = (c, m)"
    by fastforce
  have "\<forall>i. carries b ((q(c := q c @ [m])) i) ((down(c := shared_writeJSON b m (down c))) i)"
    using Cons.prems carries_write w by auto
  then have "\<forall>i. carries b (deliver ws (q(c := q c @ [m])) i) (wire_deliver b ws (down(c := shared_writeJSON b m (down c))) i)"
    using Cons.prems(1) by (intro Cons.IH) auto
  then show ?case
    unfolding w deliver_simps wire_deliver_simps .
qed simp

text \<open>The messages a chunk completes are received one by one.\<close>

lemma hub_steps:
  assumes "shared_inv s" and "i \<in> set (bh_conns (sd_hub s))" and "sd_up s i = ms1 @ ms2"
    and "\<forall>j. carries b (sd_down s j) (down j)"
  shows "\<exists>s' down'. shared_step\<^sup>*\<^sup>* s s' \<and> for_each (wire_post b) ms1 (sd_hub s, down) = (Inr (), sd_hub s', down')
    \<and> (\<forall>j. carries b (sd_down s' j) (down' j)) \<and> sd_up s' = (sd_up s)(i := ms2) \<and> sd_stage s' = sd_stage s \<and> sd_seen s' = sd_seen s"
  using assms
proof (induction ms1 arbitrary: s down)
  case Nil
  then show ?case
    by (intro exI [of _ s] exI [of _ down]) (auto simp: ret_def fun_eq_iff)
next
  case (Cons m ms)
  obtain r h where hub: "hub_post m (sd_hub s) = (r, h)"
    by fastforce
  have up: "sd_up s i = m # (ms @ ms2)"
    using Cons.prems(3) by simp
  from shared_inv_collect [OF Cons.prems(1,2) up hub] obtain ws where ws: "r = Inr ws"
    "ws = map (\<lambda>c. (c, shared_payload (bh_board h))) (bh_conns (sd_hub s))" by blast
  let ?s = "s\<lparr>sd_up := (sd_up s)(i := ms @ ms2), sd_hub := h, sd_down := deliver ws (sd_down s)\<rparr>"
  have step: "shared_step s ?s"
    using shared_step.collect [OF Cons.prems(2) up] hub ws(1) by simp
  then have inv: "shared_inv ?s"
    using shared_inv_step Cons.prems(1) by blast
  have conns: "bh_conns h = bh_conns (sd_hub s)"
    using hub ws(1) by (auto simp: hub_post_def Let_def split: sum.splits if_splits)
  have "ideas_only (bh_board h)"
    using inv by (simp add: shared_inv_def)
  then have "\<forall>(c, m) \<in> set ws. json_ok m"
    using json_ok_payload by (auto simp: ws(2))
  then have down: "\<forall>j. carries b (sd_down ?s j) (wire_deliver b ws down j)"
    using carries_deliver Cons.prems(4) by simp
  have "\<exists>s' down'. shared_step\<^sup>*\<^sup>* ?s s' \<and> for_each (wire_post b) ms (sd_hub ?s, wire_deliver b ws down) = (Inr (), sd_hub s', down')
    \<and> (\<forall>j. carries b (sd_down s' j) (down' j)) \<and> sd_up s' = (sd_up ?s)(i := ms2) \<and> sd_stage s' = sd_stage ?s \<and> sd_seen s' = sd_seen ?s"
    by (rule Cons.IH [OF inv _ _ down]) (use Cons.prems(2) conns in simp_all)
  then obtain s' down' where s': "shared_step\<^sup>*\<^sup>* ?s s'" "for_each (wire_post b) ms (sd_hub ?s, wire_deliver b ws down) = (Inr (), sd_hub s', down')"
    "\<forall>j. carries b (sd_down s' j) (down' j)" "sd_up s' = (sd_up ?s)(i := ms2)" "sd_stage s' = sd_stage ?s" "sd_seen s' = sd_seen ?s"
    by blast
  have "for_each (wire_post b) (m # ms) (sd_hub s, down) = (Inr (), sd_hub s', down')"
    using s'(2) by (simp add: andthen_def wire_post_def hub ws(1))
  then show ?case
    using s' step by (intro exI [of _ s'] exI [of _ down']) (auto intro: converse_rtranclp_into_rtranclp)
qed

lemma agent_steps:
  assumes "shared_inv s" and "sd_down s i = ms1 @ ms2"
  shows "\<exists>s'. shared_step\<^sup>*\<^sup>* s s' \<and> for_each (shared_message (length AGENTS)) ms1 (sd_seen s i) = (Inr (), sd_seen s' i)
    \<and> sd_down s' = (sd_down s)(i := ms2) \<and> (\<forall>j. j \<noteq> i \<longrightarrow> sd_seen s' j = sd_seen s j)
    \<and> sd_hub s' = sd_hub s \<and> sd_stage s' = sd_stage s \<and> sd_up s' = sd_up s"
  using assms
proof (induction ms1 arbitrary: s)
  case Nil
  then show ?case
    by (intro exI [of _ s]) (auto simp: ret_def fun_eq_iff)
next
  case (Cons m ms)
  obtain r seen where msg: "shared_message (length AGENTS) m (sd_seen s i) = (r, seen)"
    by (metis surj_pair)
  have down: "sd_down s i = m # (ms @ ms2)"
    using Cons.prems(2) by simp
  let ?s = "s\<lparr>sd_down := (sd_down s)(i := ms @ ms2), sd_seen := (sd_seen s)(i := seen)\<rparr>"
  have r: "r = Inr ()" and inv: "shared_inv ?s"
    using shared_inv_receive [OF Cons.prems(1) down msg] by simp_all
  have step: "shared_step s ?s"
    using shared_step.receive [OF down] msg r by simp
  have "\<exists>s'. shared_step\<^sup>*\<^sup>* ?s s' \<and> for_each (shared_message (length AGENTS)) ms (sd_seen ?s i) = (Inr (), sd_seen s' i)
    \<and> sd_down s' = (sd_down ?s)(i := ms2) \<and> (\<forall>j. j \<noteq> i \<longrightarrow> sd_seen s' j = sd_seen ?s j)
    \<and> sd_hub s' = sd_hub ?s \<and> sd_stage s' = sd_stage ?s \<and> sd_up s' = sd_up ?s"
    by (rule Cons.IH [OF inv]) simp
  then obtain s' where s': "shared_step\<^sup>*\<^sup>* ?s s'" "for_each (shared_message (length AGENTS)) ms (sd_seen ?s i) = (Inr (), sd_seen s' i)"
    "sd_down s' = (sd_down ?s)(i := ms2)" "\<forall>j. j \<noteq> i \<longrightarrow> sd_seen s' j = sd_seen ?s j"
    "sd_hub s' = sd_hub ?s" "sd_stage s' = sd_stage ?s" "sd_up s' = sd_up ?s"
    by blast
  then show ?case
    using step msg r by (intro exI [of _ s']) (auto simp: andthen_def intro: converse_rtranclp_into_rtranclp)
qed

lemma wire_step_simulated:
  assumes step: "wire_step b message t t'" and of: "wire_of b s t" and inv: "shared_inv s"
  shows "\<exists>s'. shared_step\<^sup>*\<^sup>* s s' \<and> wire_of b s' t'"
  using step
proof cases
  case (wire_idea i out)
  then show ?thesis
    using of by (intro exI [of _ "s\<lparr>sd_stage := (sd_stage s)(i := Connecting (idea_of out))\<rparr>"] conjI r_into_rtranclp shared_step.idea)
      (auto simp: wire_of_def)
next
  case (wire_accept i)
  then show ?thesis
    using of by (intro exI [of _ "s\<lparr>sd_hub := (sd_hub s)\<lparr>bh_conns := set_add i (bh_conns (sd_hub s))\<rparr>\<rparr>"] conjI r_into_rtranclp
      shared_step.accept) (auto simp: wire_of_def)
next
  case (wire_opened i idea)
  let ?m = "post_message (AGENTS ! i) idea"
  have "carries b (sd_up s i @ [?m]) (shared_writeJSON b ?m (sw_up t i))"
    using of carries_write json_ok_post by (simp add: wire_of_def)
  then show ?thesis
    using of wire_opened
    by (intro exI [of _ "s\<lparr>sd_stage := (sd_stage s)(i := Posted), sd_up := (sd_up s)(i := sd_up s i @ [?m])\<rparr>"] conjI r_into_rtranclp
      shared_step.opened) (auto simp: wire_of_def)
next
  case (hub_data i data rest buf h down)
  have carried: "carries b (sd_up s i) (sw_up t i)" "\<forall>j. carries b (sd_down s j) (sw_down t j)" and hub: "sw_hub t = sd_hub s"
    using of by (simp_all add: wire_of_def)
  obtain ms1 ms2 where ms: "sd_up s i = ms1 @ ms2" "\<And>x x'. for_each (wire_post b) ms1 x = (Inr (), x') \<Longrightarrow>
      \<exists>buf. shared_readJSON b message (wire_post b) data (pi_buf (sw_up t i)) x = (Inr (), buf, x') \<and> carries b ms2 \<lparr>pi_bytes = rest, pi_buf = buf\<rparr>"
    using chunk_read [where fn = "wire_post b" and message = message, OF carried(1) hub_data(3)] by blast
  obtain s' down' where s': "shared_step\<^sup>*\<^sup>* s s'" "for_each (wire_post b) ms1 (sd_hub s, sw_down t) = (Inr (), sd_hub s', down')"
    "\<forall>j. carries b (sd_down s' j) (down' j)" "sd_up s' = (sd_up s)(i := ms2)" "sd_stage s' = sd_stage s" "sd_seen s' = sd_seen s"
    using hub_steps [OF inv _ ms(1) carried(2)] hub_data(2) hub by auto
  have "h = sd_hub s'" "down = down'" "carries b ms2 \<lparr>pi_bytes = rest, pi_buf = buf\<rparr>"
    using ms(2) [OF s'(2)] hub_data(4) hub by auto
  then show ?thesis
    using s' of hub_data(1) by (intro exI [of _ s']) (simp add: wire_of_def)
next
  case (agent_data i data rest buf seen)
  have carried: "carries b (sd_down s i) (sw_down t i)" and same: "sw_seen t = sd_seen s"
    using of by (simp_all add: wire_of_def)
  obtain ms1 ms2 where ms: "sd_down s i = ms1 @ ms2" "\<And>x x'. for_each (shared_message (length AGENTS)) ms1 x = (Inr (), x') \<Longrightarrow>
      \<exists>buf. shared_readJSON b message (shared_message (length AGENTS)) data (pi_buf (sw_down t i)) x = (Inr (), buf, x') \<and> carries b ms2 \<lparr>pi_bytes = rest, pi_buf = buf\<rparr>"
    using chunk_read [where fn = "shared_message (length AGENTS)" and message = message, OF carried agent_data(2)] by blast
  obtain s' where s': "shared_step\<^sup>*\<^sup>* s s'" "for_each (shared_message (length AGENTS)) ms1 (sd_seen s i) = (Inr (), sd_seen s' i)"
    "sd_down s' = (sd_down s)(i := ms2)" "\<forall>j. j \<noteq> i \<longrightarrow> sd_seen s' j = sd_seen s j" "sd_hub s' = sd_hub s" "sd_stage s' = sd_stage s"
    "sd_up s' = sd_up s"
    using agent_steps [OF inv ms(1)] by blast
  have "seen = sd_seen s' i" "carries b ms2 \<lparr>pi_bytes = rest, pi_buf = buf\<rparr>"
    using ms(2) [OF s'(2)] agent_data(3) same by auto
  then show ?thesis
    using s' of agent_data(1) by (intro exI [of _ s']) (auto simp: wire_of_def fun_eq_iff)
qed

lemma run_simulated:
  assumes "(wire_step b message)\<^sup>*\<^sup>* wire_start t"
  shows "\<exists>s. shared_step\<^sup>*\<^sup>* shared_start s \<and> wire_of b s t \<and> shared_inv s"
  using assms
proof (induction rule: rtranclp_induct)
  case base
  have "wire_of b shared_start wire_start"
    using carries_idle by (simp add: wire_of_def shared_start_def wire_start_def)
  then show ?case
    using shared_inv_start by blast
next
  case (step t t')
  then obtain s where s: "shared_step\<^sup>*\<^sup>* shared_start s" "wire_of b s t" "shared_inv s"
    by blast
  obtain s' where s': "shared_step\<^sup>*\<^sup>* s s'" "wire_of b s' t'"
    using wire_step_simulated [OF step.hyps(2) s(2,3)] by blast
  have "shared_inv s'"
    using s'(1) s(3) by (induction rule: rtranclp_induct) (use shared_inv_step in blast)+
  then show ?case
    using s(1) s' by (meson rtranclp_trans)
qed

text \<open>A pipe that is empty carries nothing; one that is not may have all it carries arrive.\<close>

lemma empty_pipe: "carries b ms p \<Longrightarrow> pi_bytes p = [] \<Longrightarrow> ms = []"
proof (rule ccontr)
  assume p: "carries b ms p" "pi_bytes p = []" and "ms \<noteq> []"
  then obtain m ms' where ms: "ms = m # ms'"
    by (cases ms) simp_all
  obtain u where u: "wf16 u" "b4a_from b u = []" "pi_buf p @ u = concat (map line_of ms)" "10 \<notin> set (pi_buf p)" "json_ok m"
    using p ms by (auto simp: carries_def)
  have "u = []"
    using toString_from [OF u(1)] toString_from [of "[]"] from_Nil u(2) by simp
  then show False
    using u(3,4) line_of_ok [OF u(5)] ms by auto
qed

lemma whole_chunk: "carries b ms p \<Longrightarrow> pi_bytes p \<noteq> [] \<Longrightarrow> chunk_of b p (pi_bytes p) []"
proof -
  assume p: "carries b ms p" "pi_bytes p \<noteq> []"
  then obtain u where "wf16 u" "pi_bytes p = b4a_from b u"
    by (auto simp: carries_def)
  then show "chunk_of b p (pi_bytes p) []"
    using p(2) from_Nil unfolding chunk_of_def by (intro conjI exI [of _ u] exI [of _ "[]"]) simp_all
qed

lemma written_bytes: "json_ok m \<Longrightarrow> pi_bytes (shared_writeJSON b m p) \<noteq> []"
proof -
  assume m: "json_ok m"
  have "b4a_toString b (b4a_from b (line_of m)) = line_of m" "b4a_toString b [] = []" "line_of m \<noteq> []"
    using toString_from [OF wf16_line_of [OF m]] toString_from [of "[]"] from_Nil by (simp_all add: line_of_def)
  then have "b4a_from b (line_of m) \<noteq> []"
    by metis
  then show ?thesis
    using writeJSON_line [OF m] by (simp add: shared_writeJSON_def writeJSON_def)
qed

text \<open>Every chunk is read without an exception, by the hub and by the agents.\<close>

lemma hub_reads:
  assumes of: "wire_of b s t" and inv: "shared_inv s" and i: "i \<in> set (bh_conns (sw_hub t))" and chunk: "chunk_of b (sw_up t i) data rest"
  shows "\<exists>buf h down. shared_readJSON b message (wire_post b) data (pi_buf (sw_up t i)) (sw_hub t, sw_down t) = (Inr (), buf, h, down)"
proof -
  have carried: "carries b (sd_up s i) (sw_up t i)" "\<forall>j. carries b (sd_down s j) (sw_down t j)" and hub: "sw_hub t = sd_hub s"
    using of by (simp_all add: wire_of_def)
  obtain ms1 ms2 where ms: "sd_up s i = ms1 @ ms2" "\<And>x x'. for_each (wire_post b) ms1 x = (Inr (), x') \<Longrightarrow>
      \<exists>buf. shared_readJSON b message (wire_post b) data (pi_buf (sw_up t i)) x = (Inr (), buf, x')"
    using chunk_read [where fn = "wire_post b" and message = message, OF carried(1) chunk] by blast
  obtain h down' where "for_each (wire_post b) ms1 (sd_hub s, sw_down t) = (Inr (), h, down')"
    using hub_steps [OF inv _ ms(1) carried(2)] i hub by auto
  from ms(2) [OF this] show ?thesis
    using hub by auto
qed

lemma agent_reads:
  assumes of: "wire_of b s t" and inv: "shared_inv s" and chunk: "chunk_of b (sw_down t i) data rest"
  shows "\<exists>buf seen. shared_readJSON b message (shared_message (length AGENTS)) data (pi_buf (sw_down t i)) (sw_seen t i) = (Inr (), buf, seen)"
proof -
  have carried: "carries b (sd_down s i) (sw_down t i)" and same: "sw_seen t = sd_seen s"
    using of by (simp_all add: wire_of_def)
  obtain ms1 ms2 where ms: "sd_down s i = ms1 @ ms2" "\<And>x x'. for_each (shared_message (length AGENTS)) ms1 x = (Inr (), x') \<Longrightarrow>
      \<exists>buf. shared_readJSON b message (shared_message (length AGENTS)) data (pi_buf (sw_down t i)) x = (Inr (), buf, x')"
    using chunk_read [where fn = "shared_message (length AGENTS)" and message = message, OF carried chunk] by blast
  obtain seen where "for_each (shared_message (length AGENTS)) ms1 (sd_seen s i) = (Inr (), seen)"
    using agent_steps [OF inv ms(1)] by blast
  from ms(2) [OF this] show ?thesis
    using same by auto
qed

lemma wire_stuck:
  assumes stuck: "\<nexists>t'. wire_step b message t t'" and of: "wire_of b s t" and inv: "shared_inv s"
  shows "\<nexists>s'. shared_step s s'"
proof -
  have carried: "carries b (sd_up s i) (sw_up t i)" "carries b (sd_down s i) (sw_down t i)" and all: "\<forall>j. carries b (sd_down s j) (sw_down t j)"
    and same: "sw_hub t = sd_hub s" "sw_stage t = sd_stage s" "sw_seen t = sd_seen s" for i
    using of by (simp_all add: wire_of_def)
  have down: "sd_down s i = []" for i
  proof (rule ccontr)
    assume "sd_down s i \<noteq> []"
    then have chunk: "chunk_of b (sw_down t i) (pi_bytes (sw_down t i)) []"
      using empty_pipe whole_chunk carried(2) by blast
    from agent_reads [OF of inv this] show False
      using wire_step.agent_data [OF chunk] stuck by blast
  qed
  have up: "sd_up s i = []" if i: "i \<in> set (bh_conns (sd_hub s))" for i
  proof (rule ccontr)
    assume "sd_up s i \<noteq> []"
    then have chunk: "chunk_of b (sw_up t i) (pi_bytes (sw_up t i)) []"
      using empty_pipe whole_chunk carried(1) by blast
    from hub_reads [OF of inv _ this] show False
      using wire_step.hub_data [OF _ chunk] i same(1) stuck by (metis (no_types, lifting))
  qed
  show ?thesis
  proof
    assume "\<exists>s'. shared_step s s'"
    then obtain s' where "shared_step s s'" ..
    then show False
    proof cases
      case (idea i out)
      then show ?thesis
        using stuck wire_step.wire_idea [of i t] same by auto
    next
      case (accept i)
      then show ?thesis
        using stuck wire_step.wire_accept [of t i] same by auto
    next
      case (opened i idea)
      then show ?thesis
        using stuck wire_step.wire_opened [of t i] same by auto
    qed (use down up in simp_all)
  qed
qed

end

text \<open>
  C27. The board over bytes.  The hub and the agents on sockets that are streams of bytes, cut into chunks between
  characters in whatever way: whatever they do is what they do on queues of messages; no listener throws; and
  where nothing is left to happen, the hub has one idea of each agent and every agent's promise was
  resolved with exactly that board.
\<close>

theorem board_over_bytes:
  assumes "text_encoding b" and "(wire_step b message)\<^sup>*\<^sup>* wire_start t"
  shows "(\<exists>s. shared_step\<^sup>*\<^sup>* shared_start s \<and> sw_hub t = sd_hub s \<and> sw_stage t = sd_stage s \<and> sw_seen t = sd_seen s)
    \<and> (\<forall>i data rest. chunk_of b (sw_up t i) data rest \<and> i \<in> set (bh_conns (sw_hub t)) \<longrightarrow>
        fst (shared_readJSON b message (wire_post b) data (pi_buf (sw_up t i)) (sw_hub t, sw_down t)) = Inr ())
    \<and> (\<forall>i data rest. chunk_of b (sw_down t i) data rest \<longrightarrow>
        fst (shared_readJSON b message (shared_message (length AGENTS)) data (pi_buf (sw_down t i)) (sw_seen t i)) = Inr ())
    \<and> ((\<exists>t'. wire_step b message t t')
      \<or> (list_all (\<lambda>i. filed_idea i (bh_board (sw_hub t)) = 1 \<and> snd (sw_seen t i) = Some (Arr (bh_board (sw_hub t)))) [0..<length AGENTS]
        \<and> length (bh_board (sw_hub t)) = length AGENTS))"
proof -
  obtain s where s: "shared_step\<^sup>*\<^sup>* shared_start s" "wire_of b s t" "shared_inv s"
    using text_encoding.run_simulated [OF assms] by blast
  have same: "sw_hub t = sd_hub s" "sw_stage t = sd_stage s" "sw_seen t = sd_seen s"
    using s(2) by (simp_all add: wire_of_def)
  have reads: "fst (shared_readJSON b message (wire_post b) data (pi_buf (sw_up t i)) (sw_hub t, sw_down t)) = Inr ()"
    if "chunk_of b (sw_up t i) data rest \<and> i \<in> set (bh_conns (sw_hub t))" for i data rest
    using text_encoding.hub_reads [OF assms(1) s(2,3) conjunct2 [OF that] conjunct1 [OF that], of message] by auto
  have heard: "fst (shared_readJSON b message (shared_message (length AGENTS)) data (pi_buf (sw_down t i)) (sw_seen t i)) = Inr ()"
    if "chunk_of b (sw_down t i) data rest" for i data rest
    using text_encoding.agent_reads [OF assms(1) s(2,3) that, of message] by auto
  have "(\<exists>t'. wire_step b message t t') \<or>
      (list_all (\<lambda>i. filed_idea i (bh_board (sw_hub t)) = 1 \<and> snd (sw_seen t i) = Some (Arr (bh_board (sw_hub t)))) [0..<length AGENTS]
        \<and> length (bh_board (sw_hub t)) = length AGENTS)"
  proof (cases "\<exists>t'. wire_step b message t t'")
    case False
    then have "\<nexists>s'. shared_step s s'"
      using text_encoding.wire_stuck [OF assms(1) _ s(2,3)] by blast
    from stuck_board [OF s(3) this] show ?thesis
      using same by (auto simp: list_all_iff)
  qed simp
  then show ?thesis
    using s(1) same reads heard by blast
qed

text \<open>An agent with its idea posted and connected: the hub has something to read.\<close>

theorem board_over_bytes_witness:
  "\<exists>t. (wire_step utf8_b4a id)\<^sup>*\<^sup>* wire_start t \<and> sw_stage t 0 = Posted \<and> pi_bytes (sw_up t 0) \<noteq> []
    \<and> (\<exists>s. shared_step\<^sup>*\<^sup>* shared_start s \<and> sw_stage t = sd_stage s) \<and> (\<exists>t'. wire_step utf8_b4a id t t')"
proof -
  let ?t1 = "wire_start\<lparr>sw_stage := (\<lambda>_. Pondering)(0 := Connecting (idea_of (js ''x'')))\<rparr>"
  let ?t = "?t1\<lparr>sw_stage := (sw_stage ?t1)(0 := Posted),
    sw_up := (sw_up ?t1)(0 := shared_writeJSON utf8_b4a (post_message (AGENTS ! 0) (idea_of (js ''x''))) (sw_up ?t1 0))\<rparr>"
  have "wire_step utf8_b4a id wire_start ?t1"
    using wire_step.wire_idea [of 0 wire_start utf8_b4a id "js ''x''"] by (simp add: wire_start_def)
  moreover have "wire_step utf8_b4a id ?t1 ?t"
    by (rule wire_step.wire_opened) simp
  ultimately have run: "(wire_step utf8_b4a id)\<^sup>*\<^sup>* wire_start ?t"
    by (meson rtranclp.rtrancl_into_rtrancl rtranclp.rtrancl_refl)
  have "bh_board (sw_hub ?t) = []" "sw_stage ?t 0 = Posted"
    by (simp_all add: wire_start_def)
  moreover have "pi_bytes (sw_up ?t 0) \<noteq> []"
    using text_encoding.written_bytes [OF utf8_text.text_encoding_axioms json_ok_post] by simp
  ultimately show ?thesis
    using board_over_bytes [OF utf8_text.text_encoding_axioms run] run by (intro exI [of _ ?t]) auto
qed

end
