(* ===== verification/Review_Program.thy ===== *)
theory Review_Program
  imports Fleets Review_Agent Panel_Props
begin

text \<open>
  The program of src/examples/swarm-code-review.js as a whole: the hub, the reviewers with their reviews,
  the correlator, the report and the end.
\<close>

section \<open>The agents and the program\<close>

definition review_agent :: "('w, 'b, 'a) env \<Rightarrow> host \<Rightarrow> jsstring \<Rightarrow> (('w, 'b, 'a) run, jsval) prog" where
  "review_agent E host name =
     pthen (fleet_agent E host ''review'' name) (\<lambda>key. pthen (link_up host name) (\<lambda>_. pret key))"

definition review_cleanup :: "('w, 'b, 'a) env \<Rightarrow> host \<Rightarrow> jsstring \<Rightarrow> (('w, 'b, 'a) run, unit) prog" where
  "review_cleanup E host name = pthen (link_down host name) (\<lambda>_. close_agent E host name)"

definition review_turn :: "('w, 'b, unit) env \<Rightarrow> host \<Rightarrow> (jsstring \<Rightarrow> jsval) \<Rightarrow> jsstring \<Rightarrow> spec \<Rightarrow> (('w, 'b) fleet, jsval) prog" where
  "review_turn E host key diff sp =
     pthen (as_member (sp_from sp) (on_loop (ask E (key (sp_from sp)) (reviewPrompt (e_b4a E) (sp_lens sp) (Str diff))))) (\<lambda>review.
     pthen (fleet_effect host (Printed ([0xD83E, 0xDDD0] @ js '' '' @ sp_from sp @ js '' finished''))) (\<lambda>_.
     pret (reviewer_answer sp review)))"

definition filed_line :: "b4a \<Rightarrow> nat \<Rightarrow> jsval \<Rightarrow> jsstring" where
  "filed_line b n review = [0xD83D, 0xDCE5] @ js '' '' @ to_text b (field review (js ''from'')) @ js '' filed a review (''
     @ dec_nat n @ js ''/'' @ dec_nat (length SPECS) @ js '')''"

definition reviewing_line :: "jsstring \<Rightarrow> jsstring" where
  "reviewing_line diff = [0xD83D, 0xDD0D] @ js '' reviewing '' @ dec_nat (length diff) @ js '' chars vs '' @ BASE @ js '' ''
     @ [0x2014] @ js '' '' @ dec_nat (length CATEGORIES) @ js '' lenses '' @ [0xD7] @ js '' '' @ dec_nat PER_CATEGORY
     @ js '' agents = '' @ dec_nat (length SPECS) @ js '' reviewers + 1 correlator'' @ [10]"

definition correlator_name :: jsstring where
  "correlator_name = js ''correlator''"

definition review_correlator :: "('w, 'b, unit) env \<Rightarrow> host \<Rightarrow> jsval list \<Rightarrow> (('w, 'b) fleet, jsstring) prog" where
  "review_correlator E host reviews =
     pthen (as_member correlator_name (review_agent E host correlator_name)) (\<lambda>key.
     pthen (fleet_effect host (Printed ([10, 0xD83D, 0xDD17] @ js '' correlator received the full board, weighing agreement'' @ [0x2026]))) (\<lambda>_.
     pthen (of_result (correlatePrompt (e_b4a E) reviews)) (\<lambda>q.
     as_member correlator_name (on_loop (ask E key q)))))"

definition correlator_cleanup :: "('w, 'b, 'a) env \<Rightarrow> host \<Rightarrow> (('w, 'b, 'a) run, unit) prog" where
  "correlator_cleanup E host =
     pthen (link_down host correlator_name) (\<lambda>_. close_agent E host correlator_name)"

text \<open>The panel's reviews, in the order \<open>posts\<close>, and the correlation of them.\<close>

definition review_panel :: "('w, 'b, unit) env \<Rightarrow> host \<Rightarrow> jsstring \<Rightarrow> spec list \<Rightarrow> spec list \<Rightarrow> (('w, 'b) fleet, jsval list \<times> jsstring) prog" where
  "review_panel E host diff order posts =
     pthen (pmap (\<lambda>sp. as_member (sp_from sp) (review_agent E host (sp_from sp))) order) (\<lambda>keys.
     pthen (pmap (review_turn E host (\<lambda>name. the (map_of (zip (map sp_from order) keys) name)) diff) posts) (\<lambda>reviews.
     pthen (peach (\<lambda>i. fleet_effect host (Printed (filed_line (e_b4a E) (Suc i) (reviews ! i)))) [0..<length reviews]) (\<lambda>_.
     pthen (review_correlator E host reviews) (\<lambda>t.
     pret (reviews, t)))))"

text \<open>
  \<open>out\<close> is the path of the report.  (The report is computed with the lists before them being printed; of
  the panel's own messages neither throws.)
\<close>

definition review_finish :: "('w, 'b, unit) env \<Rightarrow> host \<Rightarrow> jsstring \<Rightarrow> jsstring \<Rightarrow> jsval list \<times> jsstring \<Rightarrow> (('w, 'b) fleet, unit) prog" where
  "review_finish E host out diff panel =
     (case panel of (reviews, correlation) \<Rightarrow>
        pthen (of_result (main_output (e_b4a E) diff (hub_new\<lparr>hub_reviews := reviews, hub_correlation := Str correlation\<rparr>))) (\<lambda>(lines, report).
        pthen (peach (\<lambda>l. fleet_effect host (Printed l)) lines) (\<lambda>_.
        pthen (fleet_effect host (Wrote out report)) (\<lambda>_.
        pthen (fleet_effect host (Printed ([10, 0xD83D, 0xDCDD] @ js '' full report '' @ [0x2192] @ js '' '' @ out))) (\<lambda>_.
        pthen (peach (\<lambda>name. as_member name (review_cleanup E host name)) (map sp_from SPECS)) (\<lambda>_.
        pthen (as_member correlator_name (correlator_cleanup E host)) (\<lambda>_.
        pthen (fleet_effect host (Released Server)) (\<lambda>_.
        pthen (fleet_effect host (Released HubNode)) (\<lambda>_.
        fleet_effect host (Printed ([10, 0x2705] @ js '' review complete'')))))))))))"

definition review_start :: "host \<Rightarrow> jsstring \<Rightarrow> (('w, 'b) fleet, unit) prog" where
  "review_start host diff =
     pthen (fleet_effect host (Printed (reviewing_line diff))) (\<lambda>_.
     pthen (fleet_effect host (Opened HubNode)) (\<lambda>_.
     fleet_effect host (Opened Server)))"

definition review_main :: "('w, 'b, unit) env \<Rightarrow> host \<Rightarrow> jsstring \<Rightarrow> jsstring \<Rightarrow> spec list \<Rightarrow> spec list \<Rightarrow> (('w, 'b) fleet, unit) prog" where
  "review_main E host out diff order posts =
     (if diff = [] then fleet_effect host (Printed (js ''nothing to review (empty diff)''))
      else pthen (review_start host diff) (\<lambda>_. pthen (review_panel E host diff order posts) (review_finish E host out diff)))"

section \<open>The program runs\<close>

lemma reviewer_names: "sp \<in> set SPECS \<Longrightarrow> key_ok (sp_from sp)" "correlator_name \<notin> sp_from ` set SPECS" "key_ok correlator_name"
proof -
  have names: "map sp_from SPECS = map snd (map (\<lambda>sp. (sp_category sp, sp_from sp)) SPECS)"
    by simp
  have "list_all key_ok (map sp_from SPECS)" "correlator_name \<notin> set (map sp_from SPECS)"
    unfolding names SPECS_list by (simp_all add: small_key correlator_name_def js_def)
  then show "sp \<in> set SPECS \<Longrightarrow> key_ok (sp_from sp)" "correlator_name \<notin> sp_from ` set SPECS"
    by (auto simp: list_all_iff)
  show "key_ok correlator_name"
    by (simp add: small_key correlator_name_def js_def)
qed

lemma review_texts: "opts_ok OPTS" "key_ok (js ''review'')"
proof -
  have "key_ok (js ''llama3.2'')"
    by (simp add: small_key js_def)
  then show "opts_ok OPTS" "key_ok (js ''review'')"
    by (simp_all add: opts_ok_def OPTS_def js_or_def) (simp add: small_key js_def)
qed

abbreviation review_key :: "picoclaw \<Rightarrow> jsstring \<Rightarrow> jsstring" where
  "review_key pc \<equiv> fleet_key pc ''review''"

definition asked_text :: "picoclaw \<Rightarrow> jsstring \<Rightarrow> jsval list \<times> jsstring \<Rightarrow> jsstring" where
  "asked_text pc m ses = (if trim (reply_text pc m ses) \<noteq> [] then trim (reply_text pc m ses) else js ''(no response)'')"

lemma review_ask:
  assumes "picoclaw_ok pc" "speaks pc" and "book_inv st" and "listable k" and "key_ok m"
  shows "\<exists>st'. ask (go_env pc) (Str k) m st = Some (Inr (asked_text pc m (bk_sessions (book_of st) k)), st')
    \<and> book_inv st' \<and> book_of st' = reply_left pc k m (book_of st)"
  using go_ask [OF assms] by (auto simp: ask_def ask_loop_def asked_text_def)

definition spec_prompt :: "jsstring \<Rightarrow> spec \<Rightarrow> jsstring" where
  "spec_prompt diff sp = reviewPrompt utf8_b4a (sp_lens sp) (Str diff)"

text \<open>What a member's agent answers when its store had the book \<open>bk\<close>, and the book then.\<close>

definition member_answer :: "picoclaw \<Rightarrow> jsstring \<Rightarrow> book \<Rightarrow> jsstring \<Rightarrow> jsstring" where
  "member_answer pc name bk m = asked_text pc m (bk_sessions bk (review_key pc name))"

definition member_left :: "picoclaw \<Rightarrow> jsstring \<Rightarrow> book \<Rightarrow> jsstring \<Rightarrow> book" where
  "member_left pc name bk m = reply_left pc (review_key pc name) m (with_name (review_key pc name) bk)"

definition panel_reviews :: "picoclaw \<Rightarrow> (jsstring \<Rightarrow> book) \<Rightarrow> jsstring \<Rightarrow> spec list \<Rightarrow> jsval list" where
  "panel_reviews pc bk diff posts = map (\<lambda>sp. reviewer_answer sp (member_answer pc (sp_from sp) (bk (sp_from sp)) (spec_prompt diff sp))) posts"

definition member_opens :: "jsstring \<Rightarrow> effect list" where
  "member_opens name = [Opened (Corestore (store_path name)), Opened (Node name), Opened (Socket name)]"

definition finished_line :: "spec \<Rightarrow> effect" where
  "finished_line sp = Printed ([0xD83E, 0xDDD0] @ js '' '' @ sp_from sp @ js '' finished'')"

lemma review_agent_local:
  fixes w :: "goserver link"
  assumes pc: "picoclaw_ok pc" and host: "willing host" and es: "store_ok es" and name: "key_ok name" "listable (review_key pc name)"
  shows "\<exists>st. local_run name (claw_new OPTS w es) (as_member name (review_agent (go_env pc) host name)) (Str (review_key pc name)) st (member_opens name)
    \<and> book_inv st \<and> book_of st = with_name (review_key pc name) (store_book es)"
proof -
  obtain st :: "(goserver link, entries, unit) claw" where
    "\<And>a tr. fleet_agent (go_env pc) host ''review'' name \<lparr>rn_claw = claw_new OPTS w es, rn_tools = a, rn_trace = tr\<rparr>
      = Some (Inr (Str (review_key pc name)), \<lparr>rn_claw = st, rn_tools = a, rn_trace = tr @ [Opened (Corestore (store_path name))]\<rparr>)"
    "book_inv st" "book_of st = with_name (review_key pc name) (store_book es)"
    using go_fleet_agent [where 'a = unit and w = w, OF pc host es review_texts(1) name(1) review_texts(2) name(2)] by auto
  then show ?thesis
    by (intro exI [of _ st] conjI local_member) (simp_all add: review_agent_def link_up_def prog_simps host member_opens_def)
qed

lemma review_turn_local:
  assumes pc: "picoclaw_ok pc" "speaks pc" and host: "willing host" and st: "book_inv st" "book_of st = with_name (review_key pc (sp_from sp)) bk"
    and k: "listable (review_key pc (sp_from sp))" "key (sp_from sp) = Str (review_key pc (sp_from sp))" and m: "key_ok (spec_prompt diff sp)"
  shows "\<exists>st'. local_run (sp_from sp) st (review_turn (go_env pc) host key diff sp)
      (reviewer_answer sp (member_answer pc (sp_from sp) bk (spec_prompt diff sp))) st' [finished_line sp]
    \<and> book_inv st' \<and> book_of st' = member_left pc (sp_from sp) bk (spec_prompt diff sp)"
proof -
  obtain st' where st': "ask (go_env pc) (Str (review_key pc (sp_from sp))) (spec_prompt diff sp) st
      = Some (Inr (member_answer pc (sp_from sp) bk (spec_prompt diff sp)), st')"
    "book_inv st'" "book_of st' = member_left pc (sp_from sp) bk (spec_prompt diff sp)"
    using review_ask [OF pc st(1) k(1) m] by (auto simp: member_answer_def member_left_def st(2) with_name_def)
  have "local_run (sp_from sp) st (as_member (sp_from sp) (on_loop (ask (go_env pc) (key (sp_from sp)) (spec_prompt diff sp))))
      (member_answer pc (sp_from sp) bk (spec_prompt diff sp)) st' []"
    using st'(1) by (intro local_member) (simp add: prog_simps k(2))
  from local_then [OF this, where q = "\<lambda>review. pthen (fleet_effect host (finished_line sp)) (\<lambda>_. pret (reviewer_answer sp review))"
      and e' = "[finished_line sp]"] show ?thesis
    using st'(2,3) by (intro exI [of _ st']) (simp add: review_turn_def prog_simps host finished_line_def spec_prompt_def)
qed

text \<open>What the panel opens, and that it writes nothing.\<close>

abbreviation wrote :: "effect list \<Rightarrow> effect list" where
  "wrote tr \<equiv> filter (\<lambda>e. \<exists>out t. e = Wrote out t) tr"

definition panel_names :: "jsstring list" where
  "panel_names = map sp_from SPECS @ [correlator_name]"

text \<open>The reviewers: all are made, then each reviews.\<close>

lemma reviewers_run:
  fixes w :: "jsstring \<Rightarrow> goserver link"
  assumes pc: "picoclaw_ok pc" "speaks pc" and host: "willing host"
    and es: "\<And>name. name \<in> set panel_names \<Longrightarrow> store_ok (es name)"
    and k: "\<And>name. name \<in> set panel_names \<Longrightarrow> listable (review_key pc name)"
    and fresh: "\<And>name. fl_claws f name = claw_new OPTS (w name) (es name)"
    and bk: "bk = (\<lambda>name. store_book (es name))"
    and order: "mset order = mset SPECS" "mset posts = mset SPECS"
    and m: "\<And>sp. sp \<in> set SPECS \<Longrightarrow> key_ok (spec_prompt diff sp)"
    and key: "key = (\<lambda>name. the (map_of (zip (map sp_from order) (map (\<lambda>sp. Str (review_key pc (sp_from sp))) order)) name))"
  shows "\<exists>f1 f2. pmap (\<lambda>sp. as_member (sp_from sp) (review_agent (go_env pc) host (sp_from sp))) order f
      = Some (Inr (map (\<lambda>sp. Str (review_key pc (sp_from sp))) order), f1)
    \<and> pmap (review_turn (go_env pc) host key diff) posts f1 = Some (Inr (panel_reviews pc bk diff posts), f2)
    \<and> (\<forall>sp \<in> set SPECS. book_inv (fl_claws f2 (sp_from sp))
        \<and> book_of (fl_claws f2 (sp_from sp)) = member_left pc (sp_from sp) (bk (sp_from sp)) (spec_prompt diff sp))
    \<and> fl_claws f2 correlator_name = fl_claws f correlator_name
    \<and> fl_trace f2 = fl_trace f @ concat (map (\<lambda>sp. member_opens (sp_from sp)) order) @ concat (map (\<lambda>sp. [finished_line sp]) posts)"
proof -
  have sets: "set order = set SPECS" "set posts = set SPECS"
    using order [THEN mset_eq_setD] by simp_all
  have distinct: "distinct (map sp_from order)" "distinct (map sp_from posts)"
    using SPECS_from order by (metis mset_map mset_eq_imp_distinct_iff)+
  have names: "sp_from sp \<in> set panel_names" if "sp \<in> set SPECS" for sp
    using that by (simp add: panel_names_def)
  have "\<exists>st. local_run (sp_from sp) (fl_claws f (sp_from sp)) (as_member (sp_from sp) (review_agent (go_env pc) host (sp_from sp)))
      (Str (review_key pc (sp_from sp))) st (member_opens (sp_from sp))
    \<and> book_inv st \<and> book_of st = with_name (review_key pc (sp_from sp)) (bk (sp_from sp))" if "sp \<in> set SPECS" for sp
    unfolding fresh bk
    using review_agent_local [OF pc(1) host es [OF names [OF that]] reviewer_names(1) [OF that] k [OF names [OF that]]] .
  from fleet_pmap [OF distinct(1), unfolded sets, OF this] obtain f1 where f1:
    "pmap (\<lambda>sp. as_member (sp_from sp) (review_agent (go_env pc) host (sp_from sp))) order f
      = Some (Inr (map (\<lambda>sp. Str (review_key pc (sp_from sp))) order), f1)"
    "\<And>sp. sp \<in> set SPECS \<Longrightarrow> book_inv (fl_claws f1 (sp_from sp))"
    "\<And>sp. sp \<in> set SPECS \<Longrightarrow> book_of (fl_claws f1 (sp_from sp)) = with_name (review_key pc (sp_from sp)) (bk (sp_from sp))"
    "fl_claws f1 correlator_name = fl_claws f correlator_name"
    "fl_trace f1 = fl_trace f @ concat (map (\<lambda>sp. member_opens (sp_from sp)) order)"
    using reviewer_names(2) by auto
  have "map (\<lambda>sp. Str (review_key pc (sp_from sp))) order = map (\<lambda>name. Str (review_key pc name)) (map sp_from order)"
    by simp
  then have key: "key (sp_from sp) = Str (review_key pc (sp_from sp))" if "sp \<in> set SPECS" for sp
    using that sets by (simp add: key map_of_zip_map del: map_map)
  let ?answer = "\<lambda>sp. reviewer_answer sp (member_answer pc (sp_from sp) (bk (sp_from sp)) (spec_prompt diff sp))"
  have "\<exists>st. local_run (sp_from sp) (fl_claws f1 (sp_from sp)) (review_turn (go_env pc) host key diff sp) (?answer sp) st [finished_line sp]
    \<and> book_inv st \<and> book_of st = member_left pc (sp_from sp) (bk (sp_from sp)) (spec_prompt diff sp)" if "sp \<in> set SPECS" for sp
    using review_turn_local [where key = key, OF pc host f1(2,3) k [OF names] key m] that by simp
  from fleet_pmap [OF distinct(2), unfolded sets, OF this] show ?thesis
    using f1(1,4,5) reviewer_names(2) by (fastforce simp: panel_reviews_def)
qed

definition correlating_line :: effect where
  "correlating_line = Printed ([10, 0xD83D, 0xDD17] @ js '' correlator received the full board, weighing agreement'' @ [0x2026])"

lemma review_correlator_run:
  fixes w :: "goserver link"
  assumes pc: "picoclaw_ok pc" "speaks pc" and host: "willing host" and es: "store_ok es" and k: "listable (review_key pc correlator_name)"
    and fresh: "fl_claws f correlator_name = claw_new OPTS w es" and q: "correlatePrompt utf8_b4a reviews = Inr q" "key_ok q"
  shows "\<exists>st. review_correlator (go_env pc) host reviews f = Some (Inr (member_answer pc correlator_name (store_book es) q),
      f\<lparr>fl_claws := (fl_claws f)(correlator_name := st), fl_trace := fl_trace f @ member_opens correlator_name @ [correlating_line]\<rparr>)
    \<and> book_inv st \<and> book_of st = member_left pc correlator_name (store_book es) q"
proof -
  obtain e where e: "local_run correlator_name (fl_claws f correlator_name) (as_member correlator_name (review_agent (go_env pc) host correlator_name))
      (Str (review_key pc correlator_name)) e (member_opens correlator_name)"
    "book_inv e" "book_of e = with_name (review_key pc correlator_name) (store_book es)"
    unfolding fresh using review_agent_local [OF pc(1) host es reviewer_names(3) k] by blast
  obtain g where g: "ask (go_env pc) (Str (review_key pc correlator_name)) q e = Some (Inr (member_answer pc correlator_name (store_book es) q), g)"
    "book_inv g" "book_of g = member_left pc correlator_name (store_book es) q"
    using review_ask [OF pc e(2) k q(2)] by (auto simp: member_answer_def member_left_def e(3) with_name_def)
  have run: "as_member correlator_name (review_agent (go_env pc) host correlator_name) f = Some (Inr (Str (review_key pc correlator_name)),
      f\<lparr>fl_claws := (fl_claws f)(correlator_name := e), fl_trace := fl_trace f @ member_opens correlator_name\<rparr>)"
    using e(1) by (simp add: local_run_def)
  show ?thesis
    unfolding review_correlator_def pthen_run [where m = "as_member correlator_name (review_agent (go_env pc) host correlator_name)", OF run]
    using g by (intro exI [of _ g])
      (simp add: correlating_line_def pthen_run fleet_effect_def host of_result_def q(1) as_member_def on_loop_def)
qed

lemma review_panel_run:
  fixes w :: "jsstring \<Rightarrow> goserver link"
  assumes pc: "picoclaw_ok pc" "speaks pc" and host: "willing host"
    and es: "\<And>name. name \<in> set panel_names \<Longrightarrow> store_ok (es name)"
    and k: "\<And>name. name \<in> set panel_names \<Longrightarrow> listable (review_key pc name)"
    and fresh: "\<And>name. fl_claws f name = claw_new OPTS (w name) (es name)"
    and bk: "bk = (\<lambda>name. store_book (es name))"
    and order: "mset order = mset SPECS" "mset posts = mset SPECS"
    and m: "\<And>sp. sp \<in> set SPECS \<Longrightarrow> key_ok (spec_prompt diff sp)"
    and q: "correlatePrompt utf8_b4a (panel_reviews pc bk diff posts) = Inr q" "key_ok q"
  shows "\<exists>f' tr. review_panel (go_env pc) host diff order posts f
      = Some (Inr (panel_reviews pc bk diff posts, member_answer pc correlator_name (bk correlator_name) q), f')
    \<and> (\<forall>name \<in> set panel_names. book_inv (fl_claws f' name))
    \<and> (\<forall>sp \<in> set SPECS. book_of (fl_claws f' (sp_from sp)) = member_left pc (sp_from sp) (bk (sp_from sp)) (spec_prompt diff sp))
    \<and> book_of (fl_claws f' correlator_name) = member_left pc correlator_name (bk correlator_name) q
    \<and> fl_trace f' = fl_trace f @ tr \<and> released tr = [] \<and> wrote tr = []
    \<and> mset (opened tr) = mset (concat (map (\<lambda>name. opened (member_opens name)) panel_names))"
proof -
  let ?reviews = "panel_reviews pc bk diff posts"
  obtain f1 f2 where f1: "pmap (\<lambda>sp. as_member (sp_from sp) (review_agent (go_env pc) host (sp_from sp))) order f
      = Some (Inr (map (\<lambda>sp. Str (review_key pc (sp_from sp))) order), f1)"
    and f2: "pmap (review_turn (go_env pc) host (\<lambda>name. the (map_of (zip (map sp_from order) (map (\<lambda>sp. Str (review_key pc (sp_from sp))) order)) name)) diff)
      posts f1 = Some (Inr ?reviews, f2)"
    and left: "\<forall>sp \<in> set SPECS. book_inv (fl_claws f2 (sp_from sp))
        \<and> book_of (fl_claws f2 (sp_from sp)) = member_left pc (sp_from sp) (bk (sp_from sp)) (spec_prompt diff sp)"
    and other: "fl_claws f2 correlator_name = fl_claws f correlator_name"
    and trace: "fl_trace f2 = fl_trace f @ concat (map (\<lambda>sp. member_opens (sp_from sp)) order) @ concat (map (\<lambda>sp. [finished_line sp]) posts)"
    using reviewers_run [OF pc host es k fresh bk order m refl] by blast
  let ?filed = "map (\<lambda>i. Printed (filed_line utf8_b4a (Suc i) (?reviews ! i))) [0..<length ?reviews]"
  let ?f3 = "f2\<lparr>fl_trace := fl_trace f2 @ ?filed\<rparr>"
  have corr: "correlator_name \<in> set panel_names" and fresh3: "fl_claws ?f3 correlator_name = claw_new OPTS (w correlator_name) (es correlator_name)"
    using other fresh by (simp_all add: panel_names_def)
  obtain st where st: "review_correlator (go_env pc) host ?reviews ?f3 = Some (Inr (member_answer pc correlator_name (bk correlator_name) q),
      ?f3\<lparr>fl_claws := (fl_claws ?f3)(correlator_name := st), fl_trace := fl_trace ?f3 @ member_opens correlator_name @ [correlating_line]\<rparr>)"
    "book_inv st" "book_of st = member_left pc correlator_name (bk correlator_name) q"
    using review_correlator_run [OF pc host es [OF corr] k [OF corr] fresh3 q] by (auto simp: bk)
  let ?tr = "concat (map (\<lambda>sp. member_opens (sp_from sp)) order) @ concat (map (\<lambda>sp. [finished_line sp]) posts)
      @ ?filed @ member_opens correlator_name @ [correlating_line]"
  let ?f' = "f2\<lparr>fl_claws := (fl_claws f2)(correlator_name := st), fl_trace := fl_trace f @ ?tr\<rparr>"
  have "review_panel (go_env pc) host diff order posts f = Some (Inr (?reviews, member_answer pc correlator_name (bk correlator_name) q), ?f')"
    unfolding review_panel_def using f1 f2 st(1) trace
    by (simp add: pthen_run fleet_prints host fleet_effect_def pret_def)
  moreover have "released ?tr = []" "wrote ?tr = []"
    by (simp_all add: released_concat filter_concat member_opens_def finished_line_def correlating_line_def comp_def filter_empty_conv)
  moreover have "mset (concat (map (\<lambda>sp. opened (member_opens (sp_from sp))) order)) = mset (concat (map (\<lambda>sp. opened (member_opens (sp_from sp))) SPECS))"
    by (rule mset_concat_order [OF order(1)])
  then have "mset (opened ?tr) = mset (concat (map (\<lambda>name. opened (member_opens name)) panel_names))"
    by (simp add: opened_concat finished_line_def correlating_line_def panel_names_def comp_def)
  moreover have "sp_from sp \<noteq> correlator_name" if "sp \<in> set SPECS" for sp
    using reviewer_names(2) that by (metis imageI)
  then have "\<forall>sp \<in> set SPECS. fl_claws ?f' (sp_from sp) = fl_claws f2 (sp_from sp)" "fl_claws ?f' correlator_name = st"
    by simp_all
  moreover from this have "\<forall>name \<in> set panel_names. book_inv (fl_claws ?f' name)"
    using left st(2) by (auto simp: panel_names_def)
  ultimately show ?thesis
    using left st(3) by (intro exI [of _ ?f'] exI [of _ ?tr]) simp
qed

text \<open>The report and the end.\<close>

lemma peach_snoc: "pthen (peach g xs) (\<lambda>_. pthen (g y) h) = pthen (peach g (xs @ [y])) h"
  by (induction xs) (simp_all add: pthen_assoc pthen_pret)

lemma review_finish_run:
  assumes pc: "picoclaw_ok pc" and host: "willing host"
    and inv: "\<And>name. name \<in> set panel_names \<Longrightarrow> book_inv (fl_claws f name)"
    and main_out: "main_output utf8_b4a diff (hub_new\<lparr>hub_reviews := reviews, hub_correlation := Str t\<rparr>) = Inr (printed, report)"
  shows "\<exists>f' tr. review_finish (go_env pc) host out diff (reviews, t) f = Some (Inr (), f')
    \<and> fl_trace f' = fl_trace f @ map Printed printed @ Wrote out report # tr \<and> wrote tr = [] \<and> opened tr = []
    \<and> released tr = concat (map (\<lambda>name. [Socket name, Node name, Corestore (store_path name)]) panel_names) @ [Server, HubNode]
    \<and> (\<forall>name \<in> set panel_names. store_ok (cl_store (fl_claws f' name)) \<and> store_book (cl_store (fl_claws f' name)) = book_of (fl_claws f name))"
proof -
  let ?full = "Printed ([10, 0xD83D, 0xDCDD] @ js '' full report '' @ [0x2192] @ js '' '' @ out)"
  let ?f = "f\<lparr>fl_trace := fl_trace f @ map Printed printed @ [Wrote out report, ?full]\<rparr>"
  let ?closes = "\<lambda>name. [Released (Socket name), Released (Node name), Released (Corestore (store_path name))]"
  have "\<exists>st. local_run name (fl_claws ?f name) (as_member name (review_cleanup (go_env pc) host name)) () st (?closes name)
    \<and> store_ok (cl_store st) \<and> store_book (cl_store st) = book_of (fl_claws f name)" if "name \<in> set panel_names" for name
    using close_linked [OF pc host inv [OF that], of name] unfolding review_cleanup_def by simp
  moreover have distinct: "distinct (map (\<lambda>x. x) panel_names)"
    using SPECS_from reviewer_names(2) by (simp add: panel_names_def)
  ultimately obtain f1 where f1: "peach (\<lambda>name. as_member name (review_cleanup (go_env pc) host name)) panel_names ?f = Some (Inr (), f1)"
    "\<forall>name \<in> set panel_names. store_ok (cl_store (fl_claws f1 name)) \<and> store_book (cl_store (fl_claws f1 name)) = book_of (fl_claws f name)"
    "fl_trace f1 = fl_trace ?f @ concat (map ?closes panel_names)"
    using fleet_peach [where f = ?f and e = ?closes and p = "\<lambda>name. as_member name (review_cleanup (go_env pc) host name)"
      and Q = "\<lambda>name st. store_ok (cl_store st) \<and> store_book (cl_store st) = book_of (fl_claws f name)", OF distinct] by blast
  let ?ending = "[Released Server, Released HubNode, Printed ([10, 0x2705] @ js '' review complete'')]"
  let ?f' = "f1\<lparr>fl_trace := fl_trace f1 @ ?ending\<rparr>"
  have "review_finish (go_env pc) host out diff (reviews, t) f = Some (Inr (), ?f')"
    unfolding review_finish_def correlator_cleanup_def review_cleanup_def [symmetric]
      peach_snoc [where g = "\<lambda>name. as_member name (review_cleanup (go_env pc) host name)"] panel_names_def [symmetric]
    using f1(1) main_out by (simp add: pthen_run fleet_prints host fleet_effect_def of_result_def)
  then show ?thesis
    using f1(2,3) by (intro exI [of _ ?f'] exI [of _ "?full # concat (map ?closes panel_names) @ ?ending"])
      (simp add: filter_concat comp_def filter_empty_conv opened_concat released_concat)
qed


lemma plain_lenses: "\<forall>sp \<in> set SPECS. list_all (\<lambda>u. \<not> is_high u \<and> \<not> is_low u) (sp_lens sp) \<and> length (sp_lens sp) < 1000"
  by (simp add: SPECS_def CATEGORIES_def PER_CATEGORY_def) (simp add: plain_text)

lemma echo_reviews: "panel_reviews echo_picoclaw bk diff SPECS = map (\<lambda>sp. reviewer_answer sp (js ''ok'')) SPECS"
proof -
  have "member_answer echo_picoclaw name b m = js ''ok''" for name b m
    by (simp add: member_answer_def asked_text_def echo_replies) (simp add: js_def trim_def trim_start_def is_space_def)
  then show ?thesis
    by (simp add: panel_reviews_def)
qed

definition filed_as :: "jsstring \<times> jsstring \<Rightarrow> jsval" where
  "filed_as p = Obj [(js ''type'', Str (js ''review'')), (js ''category'', Str (fst p)), (js ''from'', Str (snd p)), (js ''review'', Str (js ''ok''))]"

lemma echo_board: "\<exists>q. correlatePrompt utf8_b4a (panel_reviews echo_picoclaw bk diff SPECS) = Inr q \<and> key_ok q"
proof -
  have "map (\<lambda>sp. reviewer_answer sp (js ''ok'')) SPECS = map filed_as (map (\<lambda>sp. (sp_category sp, sp_from sp)) SPECS)"
    by (simp add: reviewer_answer_def filed_as_def)
  note board = this [unfolded SPECS_list list.map]
  have filed: "getp (filed_as p) (js ''category'') = Inr (Str (fst p))" "review_line utf8_b4a (filed_as p) = js ''['' @ snd p @ js ''] ok''" for p
    by (simp_all add: filed_as_def review_line_def) (simp add: js_def)
  have "\<not> is_index (js ''bugs'')" "\<not> is_index (js ''security'')" "\<not> is_index (js ''design'')" "\<not> is_index (js ''quality'')"
    by (simp_all add: js_def is_index_def is_digit16_def)
  then have "group_reviews utf8_b4a [filed_as (js ''bugs'', js ''bugs#1''), filed_as (js ''security'', js ''security#1''),
      filed_as (js ''design'', js ''design#1''), filed_as (js ''quality'', js ''quality#1'')] []
    = Inr [(js ''bugs'', Arr [filed_as (js ''bugs'', js ''bugs#1'')]), (js ''security'', Arr [filed_as (js ''security'', js ''security#1'')]),
      (js ''design'', Arr [filed_as (js ''design'', js ''design#1'')]), (js ''quality'', Arr [filed_as (js ''quality'', js ''quality#1'')])]"
    by (simp add: group_review_def filed inherited_names_def Let_def)
  moreover have "dec_nat PER_CATEGORY = js ''1''"
    by (simp add: PER_CATEGORY_def dec_nat_step) (simp add: js_def)
  ultimately show ?thesis
    unfolding echo_reviews board
    by (simp add: correlatePrompt_def category_block_def filed) (rule small_key, simp_all add: js_def)
qed


end
