(* ===== verification/Go_Hub.thy ===== *)
theory Go_Hub
  imports Go_Server "HOL-Library.Sublist"
begin

text \<open>
  Chats in flight at once: the stream delegate of src/go/pkg/server/stream.go and the body of
  \<open>Chat\<close> in src/go/pkg/server/server.go as steps that interleave with those of other chats and
  with tool calls.  A chat is named by its response stream.  When a turn of the agent loop
  streams, asks for its streamer or ends is the loop's choice, so it is an event; that a write
  on a response stream fails from some moment on is one too.
\<close>

section \<open>State\<close>

datatype chat_phase = Fresh | Turning jsstring | Over

record gohub =
  hb_provider_error :: "jsstring option"
  hb_attached :: bool
  hb_calls :: "64 word"
  hb_streamers :: "jsstring \<Rightarrow> nat option"
  hb_published :: "nat \<Rightarrow> bool"
  hb_out :: "nat \<Rightarrow> jsval list"
  hb_gone :: "nat \<Rightarrow> bool"
  hb_phase :: "nat \<Rightarrow> chat_phase"

text \<open>\<open>New\<close> and \<open>NewStreamDelegate\<close>.\<close>

definition gohub_new :: "jsstring option \<Rightarrow> gohub" where
  "gohub_new providerErr = \<lparr>hb_provider_error = providerErr, hb_attached = False, hb_calls = 0,
     hb_streamers = (\<lambda>_. None), hb_published = (\<lambda>_. False), hb_out = (\<lambda>_. []), hb_gone = (\<lambda>_. False),
     hb_phase = (\<lambda>_. Fresh)\<rparr>"

section \<open>The stream delegate\<close>

definition streamer_key :: "jsstring \<Rightarrow> jsstring \<Rightarrow> jsstring" where
  "streamer_key channel chatID = channel @ js '':'' @ chatID"

definition register :: "jsstring \<Rightarrow> jsstring \<Rightarrow> nat \<Rightarrow> gohub \<Rightarrow> gohub" where
  "register channel chatID i h = h\<lparr>hb_streamers := (hb_streamers h)(streamer_key channel chatID \<mapsto> i)\<rparr>"

definition unregister :: "jsstring \<Rightarrow> jsstring \<Rightarrow> gohub \<Rightarrow> gohub" where
  "unregister channel chatID h = h\<lparr>hb_streamers := (hb_streamers h)(streamer_key channel chatID := None)\<rparr>"

definition GetStreamer :: "jsstring \<Rightarrow> jsstring \<Rightarrow> gohub \<Rightarrow> nat option" where
  "GetStreamer channel chatID h = hb_streamers h (streamer_key channel chatID)"

text \<open>\<open>Send\<close> of the response stream: whether it succeeded.\<close>

definition send_chunk :: "nat \<Rightarrow> jsval \<Rightarrow> gohub \<Rightarrow> bool \<times> gohub" where
  "send_chunk i c h =
     (if hb_gone h i then (False, h) else (True, h\<lparr>hb_out := (hb_out h)(i := hb_out h i @ [c])\<rparr>))"

text \<open>\<open>Update\<close>; \<open>Finalize\<close> and \<open>Cancel\<close> do nothing.\<close>

definition streamer_Update :: "nat \<Rightarrow> jsstring \<Rightarrow> gohub \<Rightarrow> gohub" where
  "streamer_Update i content h =
     (case send_chunk i (chunk ''content'' content) h of
        (False, h) \<Rightarrow> h
      | (True, h) \<Rightarrow> h\<lparr>hb_published := (hb_published h)(i := True)\<rparr>)"

section \<open>A chat\<close>

text \<open>How a turn of the loop ends; \<open>turn\<close> makes an error of a panic.\<close>

datatype turn_end = Answered jsstring | TurnFailed jsstring | Panicked jsstring

fun turn_result :: "turn_end \<Rightarrow> (jsstring, jsstring) sum" where
  "turn_result (Answered t) = Inr t"
| "turn_result (TurnFailed e) = Inl e"
| "turn_result (Panicked v) = Inl (js ''agent panic: '' @ v)"

definition chat_id :: "64 word \<Rightarrow> jsstring" where
  "chat_id n = js ''rpc-'' @ dec_nat (unat n)"

text \<open>\<open>Chat\<close> up to the turn.\<close>

definition chat_begin :: "nat \<Rightarrow> gohub \<Rightarrow> gohub" where
  "chat_begin i h =
     (case hb_provider_error h of
        Some e \<Rightarrow> (snd (send_chunk i (chunk ''error'' (js ''no model: '' @ e)) h))\<lparr>hb_phase := (hb_phase h)(i := Over)\<rparr>
      | None \<Rightarrow>
          (let n = hb_calls h + 1; chatID = chat_id n
           in register (js ''rpc'') chatID i
                (h\<lparr>hb_calls := n, hb_published := (hb_published h)(i := False),
                   hb_phase := (hb_phase h)(i := Turning chatID)\<rparr>)))"

text \<open>\<open>Chat\<close> from the end of its turn; the deferred \<open>unregister\<close> runs on every way out.\<close>

definition chat_finish :: "nat \<Rightarrow> (jsstring, jsstring) sum \<Rightarrow> gohub \<Rightarrow> gohub" where
  "chat_finish i r h =
     (case r of
        Inl err \<Rightarrow> snd (send_chunk i (chunk ''error'' err) h)
      | Inr response \<Rightarrow>
          (case (if hb_published h i then (True, h) else send_chunk i (chunk ''content'' response) h) of
             (False, h) \<Rightarrow> h
           | (True, h) \<Rightarrow> snd (send_chunk i (chunk ''done'' []) h)))"

definition chat_end :: "nat \<Rightarrow> turn_end \<Rightarrow> jsstring \<Rightarrow> gohub \<Rightarrow> gohub" where
  "chat_end i r chatID h =
     (unregister (js ''rpc'') chatID (chat_finish i (turn_result r) h))\<lparr>hb_phase := (hb_phase h)(i := Over)\<rparr>"

section \<open>Events\<close>

text \<open>
  \<open>Attach\<close> hands over the channel, which a tool call waits for (\<open>client\<close>); a call takes a number
  of the counter the chats use.  \<open>Streamed i t\<close>: the turn of chat \<open>i\<close> has a piece of text, and
  the loop looks for the streamer of the turn's channel and chat id.
\<close>

datatype hub_event =
    Attach
  | ToolCall
  | ChatBegin nat
  | Streamed nat jsstring
  | ChatEnd nat turn_end
  | Gone nat

fun hub_step :: "hub_event \<Rightarrow> gohub \<Rightarrow> gohub option" where
  "hub_step Attach h = (if hb_attached h then None else Some (h\<lparr>hb_attached := True\<rparr>))"
| "hub_step ToolCall h = (if hb_attached h then Some (h\<lparr>hb_calls := hb_calls h + 1\<rparr>) else None)"
| "hub_step (ChatBegin i) h = (if hb_phase h i = Fresh then Some (chat_begin i h) else None)"
| "hub_step (Streamed i t) h =
     (case hb_phase h i of
        Turning chatID \<Rightarrow>
          (case GetStreamer (js ''rpc'') chatID h of
             None \<Rightarrow> Some h
           | Some j \<Rightarrow> Some (streamer_Update j t h))
      | _ \<Rightarrow> None)"
| "hub_step (ChatEnd i r) h =
     (case hb_phase h i of Turning chatID \<Rightarrow> Some (chat_end i r chatID h) | _ \<Rightarrow> None)"
| "hub_step (Gone i) h = Some (h\<lparr>hb_gone := (hb_gone h)(i := True)\<rparr>)"

fun hub_run :: "hub_event list \<Rightarrow> gohub \<Rightarrow> gohub option" where
  "hub_run [] h = Some h"
| "hub_run (e # es) h = Option.bind (hub_step e h) (hub_run es)"

section \<open>A chat on its own\<close>

text \<open>What the events say of one chat: the texts its turn had, and how the turn ended.\<close>

definition texts_of :: "nat \<Rightarrow> hub_event list \<Rightarrow> jsstring list" where
  "texts_of i es = concat (map (\<lambda>e. case e of Streamed j t \<Rightarrow> if j = i then [t] else [] | _ \<Rightarrow> []) es)"

definition ends_of :: "nat \<Rightarrow> hub_event list \<Rightarrow> turn_end list" where
  "ends_of i es = concat (map (\<lambda>e. case e of ChatEnd j r \<Rightarrow> if j = i then [r] else [] | _ \<Rightarrow> []) es)"

text \<open>What a chat sends when it is the only one.\<close>

definition alone :: "jsstring option \<Rightarrow> nat \<Rightarrow> hub_event list \<Rightarrow> jsval list" where
  "alone providerErr i es =
     (case providerErr of
        Some e \<Rightarrow> (if ChatBegin i \<in> set es then [chunk ''error'' (js ''no model: '' @ e)] else [])
      | None \<Rightarrow>
          (case ends_of i es of
             [] \<Rightarrow> map (chunk ''content'') (texts_of i es)
           | r # _ \<Rightarrow> go_chunks (turn_result r) (texts_of i es)))"

lemma of_append [simp]:
  "texts_of i (es @ es') = texts_of i es @ texts_of i es'" "ends_of i (es @ es') = ends_of i es @ ends_of i es'"
  "texts_of i [] = []" "ends_of i [] = []"
  by (simp_all add: texts_of_def ends_of_def)

lemma of_event [simp]:
  "texts_of i [Streamed j t] = (if j = i then [t] else [])" "ends_of i [ChatEnd j r] = (if j = i then [r] else [])"
  "texts_of i [ChatEnd j r] = []" "ends_of i [Streamed j t] = []"
  "texts_of i [Attach] = []" "texts_of i [ToolCall] = []" "texts_of i [ChatBegin j] = []" "texts_of i [Gone j] = []"
  "ends_of i [Attach] = []" "ends_of i [ToolCall] = []" "ends_of i [ChatBegin j] = []" "ends_of i [Gone j] = []"
  by (simp_all add: texts_of_def ends_of_def)

section \<open>The invariant\<close>

lemma chat_id_inj: "chat_id m = chat_id n \<longleftrightarrow> m = n"
proof
  assume "chat_id m = chat_id n"
  then have "dec_value (dec_nat (unat m)) = dec_value (dec_nat (unat n))"
    by (simp add: chat_id_def)
  then have "unat m = unat n"
    by simp
  then show "m = n"
    by (rule unsigned_word_eqI)
qed simp

lemma streamer_key_inj: "streamer_key c m = streamer_key c n \<longleftrightarrow> m = n"
  by (simp add: streamer_key_def)

text \<open>
  What holds of one chat: its streamer is registered under its own id, a number already given
  out, while it is in its turn; what it has sent is what it sends alone, or the part of that from
  before its stream was gone.
\<close>

definition chat_ok :: "hub_event list \<Rightarrow> gohub \<Rightarrow> nat \<Rightarrow> bool" where
  "chat_ok es h i \<longleftrightarrow>
     (case hb_phase h i of
        Fresh \<Rightarrow> texts_of i es = [] \<and> ends_of i es = [] \<and> ChatBegin i \<notin> set es
      | Turning c \<Rightarrow> hb_provider_error h = None \<and> ends_of i es = []
          \<and> (hb_gone h i \<or> (hb_published h i \<longleftrightarrow> texts_of i es \<noteq> []))
          \<and> (\<exists>n. c = chat_id n \<and> unat n \<le> unat (hb_calls h)) \<and> GetStreamer (js ''rpc'') c h = Some i
      | Over \<Rightarrow> (if hb_provider_error h = None then ends_of i es \<noteq> [] else ChatBegin i \<in> set es))
     \<and> prefix (hb_out h i) (alone (hb_provider_error h) i es)
     \<and> (hb_gone h i \<or> hb_out h i = alone (hb_provider_error h) i es)"

definition no_leak :: "gohub \<Rightarrow> bool" where
  "no_leak h \<longleftrightarrow> (\<forall>k i. hb_streamers h k = Some i \<longrightarrow> (\<exists>c. hb_phase h i = Turning c \<and> k = streamer_key (js ''rpc'') c))"

definition gohub_inv :: "hub_event list \<Rightarrow> gohub \<Rightarrow> bool" where
  "gohub_inv es h \<longleftrightarrow> (\<forall>i. chat_ok es h i) \<and> no_leak h \<and> unat (hb_calls h) \<le> length es"

lemma gohub_inv_new: "gohub_inv [] (gohub_new e)"
  by (simp add: gohub_inv_def chat_ok_def gohub_new_def no_leak_def alone_def split: option.split)

text \<open>An event that does not name a chat leaves what is said of it.\<close>

definition about :: "hub_event \<Rightarrow> nat option" where
  "about e = (case e of ChatBegin i \<Rightarrow> Some i | Streamed i t \<Rightarrow> Some i | ChatEnd i r \<Rightarrow> Some i | _ \<Rightarrow> None)"

lemma unnamed:
  assumes "about e \<noteq> Some i"
  shows "texts_of i (es @ [e]) = texts_of i es" "ends_of i (es @ [e]) = ends_of i es"
    "e \<noteq> ChatBegin i" "alone pe i (es @ [e]) = alone pe i es"
proof -
  have "texts_of i [e] = []" "ends_of i [e] = []"
    using assms by (cases e; simp add: about_def)+
  moreover show "e \<noteq> ChatBegin i"
    using assms by (auto simp: about_def)
  ultimately show "texts_of i (es @ [e]) = texts_of i es" "ends_of i (es @ [e]) = ends_of i es"
    "alone pe i (es @ [e]) = alone pe i es"
    by (simp_all add: alone_def split: option.split list.split)
qed

lemma turning_id:
  "chat_ok es h i \<Longrightarrow> hb_phase h i = Turning c \<Longrightarrow> \<exists>n. c = chat_id n \<and> unat n \<le> unat (hb_calls h)"
  "chat_ok es h i \<Longrightarrow> hb_phase h i = Turning c \<Longrightarrow> GetStreamer (js ''rpc'') c h = Some i"
  by (simp_all add: chat_ok_def)

text \<open>A step that keeps what is seen of another chat keeps what holds of it.\<close>

lemma chat_ok_kept:
  assumes "chat_ok es h i" and "about e \<noteq> Some i"
    and "hb_phase h' i = hb_phase h i" "hb_out h' i = hb_out h i" "hb_published h' i = hb_published h i"
    and "hb_gone h i \<Longrightarrow> hb_gone h' i" and "hb_provider_error h' = hb_provider_error h"
    and "unat (hb_calls h) \<le> unat (hb_calls h')"
    and "\<And>c. hb_phase h i = Turning c \<Longrightarrow> GetStreamer (js ''rpc'') c h = Some i \<Longrightarrow> GetStreamer (js ''rpc'') c h' = Some i"
  shows "chat_ok (es @ [e]) h' i"
proof (cases "hb_phase h i")
  case Fresh
  then show ?thesis
    using assms(1,3,4,6,7) unnamed [OF assms(2)] by (auto simp: chat_ok_def)
next
  case (Turning c)
  then obtain n where n: "c = chat_id n" "unat n \<le> unat (hb_calls h)"
    using turning_id(1) [OF assms(1)] by blast
  then have "\<exists>n. c = chat_id n \<and> unat n \<le> unat (hb_calls h')"
    using assms(8) order_trans by blast
  then show ?thesis
    using Turning assms(1,3-7) assms(9) [OF Turning] unnamed [OF assms(2)] by (auto simp: chat_ok_def)
next
  case Over
  then show ?thesis
    using assms(1,3,4,6,7) unnamed [OF assms(2)] by (auto simp: chat_ok_def)
qed

lemma count_step:
  assumes "unat (n :: 64 word) \<le> length es" and "length es < 2 ^ 64 - 1"
  shows "unat (n + 1) = unat n + 1"
proof -
  have "unat n + 1 < 2 ^ 64"
    using assms by simp
  then show ?thesis
    by (simp add: unat_word_ariths)
qed

lemmas hub_op_defs = send_chunk_def register_def unregister_def GetStreamer_def

lemma Update_kept:
  "i \<noteq> j \<Longrightarrow> hb_out (streamer_Update j t h) i = hb_out h i \<and> hb_published (streamer_Update j t h) i = hb_published h i"
  "hb_phase (streamer_Update j t h) = hb_phase h" "hb_gone (streamer_Update j t h) = hb_gone h"
  "hb_provider_error (streamer_Update j t h) = hb_provider_error h" "hb_calls (streamer_Update j t h) = hb_calls h"
  "hb_streamers (streamer_Update j t h) = hb_streamers h"
  by (auto simp: streamer_Update_def send_chunk_def)

lemma finish_kept:
  "i \<noteq> j \<Longrightarrow> hb_out (chat_finish j r h) i = hb_out h i" "hb_published (chat_finish j r h) = hb_published h"
  "hb_phase (chat_finish j r h) = hb_phase h" "hb_gone (chat_finish j r h) = hb_gone h"
  "hb_provider_error (chat_finish j r h) = hb_provider_error h" "hb_calls (chat_finish j r h) = hb_calls h"
  "hb_streamers (chat_finish j r h) = hb_streamers h"
  by (auto simp: chat_finish_def send_chunk_def split: sum.split bool.split)

lemma fresh_unsaid:
  "chat_ok es h j \<Longrightarrow> hb_phase h j = Fresh \<Longrightarrow> texts_of j es = [] \<and> ends_of j es = [] \<and> hb_out h j = []"
  by (auto simp: chat_ok_def alone_def split: option.splits)

lemma begin_inv:
  assumes inv: "gohub_inv es h" and fresh: "hb_phase h j = Fresh" and few: "length es < 2 ^ 64 - 1"
  shows "gohub_inv (es @ [ChatBegin j]) (chat_begin j h)"
proof (cases "hb_provider_error h")
  case None
  let ?n = "hb_calls h + 1"
  have n: "unat ?n = unat (hb_calls h) + 1"
    using inv few count_step unfolding gohub_inv_def by blast
  have key: "streamer_key (js ''rpc'') c \<noteq> streamer_key (js ''rpc'') (chat_id ?n)" if t: "hb_phase h i = Turning c" for i c
  proof -
    obtain m where "c = chat_id m" "unat m \<le> unat (hb_calls h)"
      using inv turning_id(1) [of es h i c] t by (auto simp: gohub_inv_def)
    then show ?thesis
      using n by (auto simp: streamer_key_inj chat_id_inj)
  qed
  have "chat_ok (es @ [ChatBegin j]) (chat_begin j h) i" if "i \<noteq> j" for i
    by (rule chat_ok_kept [of es h]) (use inv that None n key in \<open>auto simp: gohub_inv_def about_def chat_begin_def hub_op_defs Let_def\<close>)
  moreover have "chat_ok (es @ [ChatBegin j]) (chat_begin j h) j"
    using fresh_unsaid [OF _ fresh, of es] inv None by (auto simp: gohub_inv_def chat_begin_def hub_op_defs alone_def Let_def chat_ok_def [of "es @ [ChatBegin j]"])
  moreover have "no_leak (chat_begin j h)"
    using inv fresh None by (fastforce simp: gohub_inv_def no_leak_def chat_begin_def hub_op_defs Let_def)
  moreover have "unat (hb_calls (chat_begin j h)) \<le> length (es @ [ChatBegin j])"
    using inv n None by (simp add: gohub_inv_def chat_begin_def hub_op_defs Let_def)
  ultimately show ?thesis
    unfolding gohub_inv_def by metis
next
  case (Some e)
  have "chat_ok (es @ [ChatBegin j]) (chat_begin j h) i" if "i \<noteq> j" for i
    by (rule chat_ok_kept [of es h]) (use inv that Some in \<open>auto simp: gohub_inv_def about_def chat_begin_def hub_op_defs\<close>)
  moreover have "chat_ok (es @ [ChatBegin j]) (chat_begin j h) j"
    using fresh_unsaid [OF _ fresh, of es] inv Some by (simp add: gohub_inv_def) (simp add: chat_ok_def chat_begin_def hub_op_defs alone_def)
  moreover have "no_leak (chat_begin j h)"
    using inv fresh Some by (fastforce simp: gohub_inv_def no_leak_def chat_begin_def hub_op_defs)
  moreover have "unat (hb_calls (chat_begin j h)) \<le> length (es @ [ChatBegin j])"
    using inv Some by (auto simp: gohub_inv_def chat_begin_def hub_op_defs)
  ultimately show ?thesis
    unfolding gohub_inv_def by metis
qed

lemma streamed_inv:
  assumes inv: "gohub_inv es h" and turn: "hb_phase h j = Turning c"
  shows "gohub_inv (es @ [Streamed j t]) (streamer_Update j t h)"
proof -
  have "chat_ok (es @ [Streamed j t]) (streamer_Update j t h) i" if "i \<noteq> j" for i
    by (rule chat_ok_kept [of es h])
      (use inv that in \<open>auto simp: gohub_inv_def about_def Update_kept GetStreamer_def\<close>)
  moreover have ok: "chat_ok es h j"
    using inv by (simp add: gohub_inv_def)
  then have "chat_ok (es @ [Streamed j t]) (streamer_Update j t h) j"
    using turn by (auto simp: chat_ok_def alone_def Update_kept GetStreamer_def streamer_Update_def send_chunk_def
      intro: prefix_order.trans)
  moreover have "no_leak (streamer_Update j t h)"
    using inv by (simp add: gohub_inv_def no_leak_def Update_kept)
  ultimately show ?thesis
    using inv unfolding gohub_inv_def by (metis Update_kept(5) length_append le_add1 order_trans)
qed

lemma chunks_begin: "prefix (map (chunk ''content'') ts) (go_chunks r ts)"
  by (simp add: go_chunks_def)

lemma ended_inv:
  assumes inv: "gohub_inv es h" and turn: "hb_phase h j = Turning c"
  shows "gohub_inv (es @ [ChatEnd j r]) (chat_end j r c h)"
proof -
  have streamer: "GetStreamer (js ''rpc'') c h = Some j"
    using inv turn turning_id(2) [of es h j c] by (auto simp: gohub_inv_def)
  have "chat_ok (es @ [ChatEnd j r]) (chat_end j r c h) i" if "i \<noteq> j" for i
    by (rule chat_ok_kept [of es h])
      (use inv that streamer in \<open>auto simp: gohub_inv_def about_def chat_end_def finish_kept unregister_def GetStreamer_def\<close>)
  moreover have ok: "chat_ok es h j"
    using inv by (simp add: gohub_inv_def)
  have "chat_ok (es @ [ChatEnd j r]) (chat_end j r c h) j"
  proof (cases "hb_gone h j")
    case True
    then have "hb_out (chat_finish j (turn_result r) h) j = hb_out h j"
      by (auto simp: chat_finish_def send_chunk_def split: sum.split)
    moreover have "prefix (hb_out h j) (go_chunks (turn_result r) (texts_of j es))"
      using ok turn chunks_begin prefix_order.trans by (fastforce simp: chat_ok_def alone_def)
    ultimately show ?thesis
      using ok turn True by (simp add: chat_ok_def alone_def chat_end_def finish_kept unregister_def)
  next
    case False
    then have "hb_out (chat_finish j (turn_result r) h) j = go_chunks (turn_result r) (texts_of j es)"
      using ok turn by (auto simp: chat_ok_def alone_def chat_finish_def send_chunk_def go_chunks_def split: sum.split)
    then show ?thesis
      using ok turn by (simp add: chat_ok_def alone_def chat_end_def finish_kept unregister_def)
  qed
  moreover have "no_leak (chat_end j r c h)"
    using inv turn by (fastforce simp: gohub_inv_def no_leak_def chat_end_def finish_kept unregister_def)
  ultimately show ?thesis
    using inv by (simp add: gohub_inv_def chat_end_def finish_kept unregister_def) (metis chat_end_def)
qed

lemma quiet_inv:
  assumes inv: "gohub_inv es h" and few: "length es < 2 ^ 64 - 1" and e: "e \<in> {Attach, ToolCall} \<or> e = Gone i"
    and run: "hub_step e h = Some h'"
  shows "gohub_inv (es @ [e]) h'"
proof -
  have n: "unat (hb_calls h + 1) = unat (hb_calls h) + 1"
    using inv few count_step unfolding gohub_inv_def by blast
  have "chat_ok (es @ [e]) h' k" for k
    by (rule chat_ok_kept [of es h])
      (use inv e run n in \<open>auto simp: gohub_inv_def about_def GetStreamer_def split: if_splits\<close>)
  moreover have "no_leak h'" "unat (hb_calls h') \<le> length (es @ [e])"
    using inv e run n by (auto simp: gohub_inv_def no_leak_def split: if_splits)
  ultimately show ?thesis
    by (simp add: gohub_inv_def)
qed

lemma step_inv:
  assumes inv: "gohub_inv es h" and few: "length es < 2 ^ 64 - 1" and run: "hub_step e h = Some h'"
  shows "gohub_inv (es @ [e]) h'"
proof (cases e)
  case (ChatBegin i)
  then show ?thesis
    using begin_inv [OF inv _ few] run by (auto split: if_splits)
next
  case (Streamed i t)
  then obtain c where c: "hb_phase h i = Turning c"
    using run by (auto split: chat_phase.splits)
  then have "GetStreamer (js ''rpc'') c h = Some i"
    using inv turning_id(2) [of es h i c] by (auto simp: gohub_inv_def)
  then show ?thesis
    using streamed_inv [OF inv c] run c Streamed by auto
next
  case (ChatEnd i r)
  then show ?thesis
    using ended_inv [OF inv] run by (auto split: chat_phase.splits)
qed (use quiet_inv [OF inv few _ run] in auto)

lemma run_inv:
  assumes "hub_run es h = Some h'" and "gohub_inv es0 h" and "length es0 + length es < 2 ^ 64"
  shows "gohub_inv (es0 @ es) h'"
  using assms
proof (induction es arbitrary: es0 h)
  case (Cons e es)
  then obtain h1 where "hub_step e h = Some h1" "hub_run es h1 = Some h'"
    by (auto simp: Option.bind_eq_Some_conv)
  with Cons show ?case
    using step_inv [of es0 h e h1] by fastforce
qed simp

lemma run_keeps_provider: "hub_run es h = Some h' \<Longrightarrow> hb_provider_error h' = hb_provider_error h"
proof (induction es arbitrary: h)
  case (Cons e es)
  then obtain h1 where "hub_step e h = Some h1" "hub_run es h1 = Some h'"
    by (auto simp: Option.bind_eq_Some_conv)
  moreover from this(1) have "hb_provider_error h1 = hb_provider_error h"
    by (cases e) (auto simp: chat_begin_def chat_end_def finish_kept Update_kept hub_op_defs Let_def
      split: if_splits option.splits chat_phase.splits)
  ultimately show ?case
    using Cons.IH by simp
qed simp

lemma hub_sends:
  assumes "hub_run es (gohub_new providerErr) = Some h" and "length es < 2 ^ 64"
  shows "prefix (hb_out h i) (alone providerErr i es)" and "hb_gone h i \<or> hb_out h i = alone providerErr i es"
    and "gohub_inv es h"
proof -
  show inv: "gohub_inv es h"
    using run_inv [OF assms(1) gohub_inv_new] assms(2) by simp
  have "hb_provider_error h = providerErr"
    using run_keeps_provider [OF assms(1)] by (simp add: gohub_new_def)
  then show "prefix (hb_out h i) (alone providerErr i es)" "hb_gone h i \<or> hb_out h i = alone providerErr i es"
    using inv by (auto simp: gohub_inv_def chat_ok_def)
qed

section \<open>The chat of Go_Server\<close>

text \<open>
  A chat that nothing comes between: the handler \<open>go_Chat\<close>, which takes a turn in one step, has
  sent what these steps send.
\<close>

definition lone_chat :: "(jsstring, jsstring) sum \<Rightarrow> jsstring list \<Rightarrow> hub_event list" where
  "lone_chat r streamed =
     ChatBegin 0 # map (Streamed 0) streamed @ [ChatEnd 0 (case r of Inl e \<Rightarrow> TurnFailed e | Inr t \<Rightarrow> Answered t)]"

lemma streamed_run:
  "hb_phase h i = Turning c \<Longrightarrow> GetStreamer (js ''rpc'') c h = Some i \<Longrightarrow>
   \<exists>h'. hub_run (map (Streamed i) ts) h = Some h' \<and> hb_phase h' i = Turning c \<and> hb_gone h' = hb_gone h"
proof (induction ts arbitrary: h)
  case (Cons t ts)
  then show ?case
    using Cons.IH [of "streamer_Update i t h"] by (simp add: Update_kept GetStreamer_def)
qed simp

lemma run_append: "hub_run (es @ es') h = Option.bind (hub_run es h) (hub_run es')"
proof (induction es arbitrary: h)
  case (Cons e es)
  then show ?case
    by (cases "hub_step e h") simp_all
qed simp

lemma lone_chat_run:
  "\<exists>h. hub_run (lone_chat r streamed) (gohub_new None) = Some h \<and> \<not> hb_gone h 0"
proof -
  let ?h = "chat_begin 0 (gohub_new None)"
  have "hb_phase ?h 0 = Turning (chat_id 1)" "GetStreamer (js ''rpc'') (chat_id 1) ?h = Some 0" "\<not> hb_gone ?h 0"
    by (simp_all add: chat_begin_def gohub_new_def hub_op_defs Let_def)
  then obtain h where "hub_run (map (Streamed 0) streamed) ?h = Some h" "hb_phase h 0 = Turning (chat_id 1)" "\<not> hb_gone h 0"
    using streamed_run [of ?h 0 "chat_id 1" streamed] by auto
  moreover have "hb_phase (gohub_new None) 0 = Fresh"
    by (simp add: gohub_new_def)
  ultimately show ?thesis
    by (simp add: lone_chat_def run_append chat_end_def finish_kept unregister_def)
qed

lemma go_Chat_is_a_lone_chat:
  assumes "pc_provider_error pc = None" and "length streamed + 2 < 2 ^ 64"
    and "pc_turn pc (go_string (field v (js ''message''))) (gs_sessions s (go_string (field v (js ''sessionId'')))) = (r, streamed, left)"
  shows "\<exists>h. hub_run (lone_chat r streamed) (gohub_new None) = Some h
    \<and> gs_sent (snd (go_Chat pc enc (HStream p v) s)) = map enc (hb_out h 0)"
proof -
  obtain h where h: "hub_run (lone_chat r streamed) (gohub_new None) = Some h" "\<not> hb_gone h 0"
    using lone_chat_run by blast
  let ?ended = "case r of Inl e \<Rightarrow> TurnFailed e | Inr t \<Rightarrow> Answered t"
  have events: "texts_of 0 (map (Streamed 0) streamed) = streamed" "ends_of 0 (map (Streamed 0) streamed) = []"
    by (induction streamed) (simp_all add: texts_of_def ends_of_def)
  have "lone_chat r streamed = [ChatBegin 0] @ map (Streamed 0) streamed @ [ChatEnd 0 ?ended]"
    by (simp add: lone_chat_def)
  then have "texts_of 0 (lone_chat r streamed) = streamed" "ends_of 0 (lone_chat r streamed) = [?ended]"
    using events by (simp_all only: of_append of_event) simp_all
  moreover have "turn_result ?ended = r"
    by (cases r) simp_all
  ultimately have "alone None 0 (lone_chat r streamed) = go_chunks r streamed"
    by (simp add: alone_def)
  moreover have "length (lone_chat r streamed) < 2 ^ 64"
    using assms(2) by (simp add: lone_chat_def)
  ultimately have "hb_out h 0 = go_chunks r streamed"
    using hub_sends(2) [OF h(1), of 0] h(2) by simp
  then show ?thesis
    using h(1) assms(1,3) by (simp add: go_Chat_def Let_def)
qed

section \<open>Chats do not mix\<close>

text \<open>
  C26. Chats do not mix.  Whatever chats are begun, stream and end in whatever order, with tool
  calls taking numbers in between, for fewer than \<open>2 ^ 64\<close> events: every stream has been sent what
  its chat sends when it is the only one (the chunks of its turn once that has ended), or, when
  writes to it have begun to fail, the part of that from before; and a streamer is registered
  exactly for each chat in its turn, so none is left behind.
\<close>

theorem chats_do_not_mix:
  assumes "hub_run es (gohub_new providerErr) = Some h" and "length es < 2 ^ 64"
  shows "(\<forall>i. prefix (hb_out h i) (alone providerErr i es) \<and> (hb_gone h i \<or> hb_out h i = alone providerErr i es))
    \<and> (\<forall>k i. hb_streamers h k = Some i \<longleftrightarrow> (\<exists>c. hb_phase h i = Turning c \<and> k = streamer_key (js ''rpc'') c))"
proof -
  have inv: "gohub_inv es h"
    by (rule hub_sends(3) [OF assms])
  moreover have "hb_streamers h (streamer_key (js ''rpc'') c) = Some i" if "hb_phase h i = Turning c" for i c
    using inv turning_id(2) [of es h i c] that by (simp add: gohub_inv_def GetStreamer_def)
  ultimately show ?thesis
    using hub_sends(1,2) [OF assms] unfolding gohub_inv_def no_leak_def by blast
qed

text \<open>Two chats and a tool call, the first without a word streamed, the second gone before its end.\<close>

definition two_chats :: "hub_event list" where
  "two_chats = [ChatBegin 0, Attach, ChatBegin 1, Streamed 1 (js ''a''), ToolCall, Streamed 1 (js ''b''), Gone 1,
     ChatEnd 0 (Answered (js ''x'')), Streamed 1 (js ''c''), ChatEnd 1 (Panicked (js ''p''))]"


lemma two_ids: "streamer_key (js ''rpc'') (chat_id 1) \<noteq> streamer_key (js ''rpc'') (chat_id 2)"
  by (simp add: streamer_key_inj chat_id_inj)

lemmas two_chats_defs = two_chats_def gohub_new_def chat_begin_def chat_end_def chat_finish_def streamer_Update_def hub_op_defs Let_def

lemma two_chats_run:
  "\<exists>h. hub_run two_chats (gohub_new None) = Some h \<and> (\<forall>i c. hb_phase h i \<noteq> Turning c) \<and> \<not> hb_gone h 0"
  using two_ids by (simp add: two_chats_defs)

theorem chats_do_not_mix_witness:
  "\<exists>h. hub_run two_chats (gohub_new None) = Some h \<and> hb_out h 0 = [chunk ''content'' (js ''x''), chunk ''done'' []]
    \<and> prefix (hb_out h 1) (map (chunk ''content'') [js ''a'', js ''b'', js ''c''] @ [chunk ''error'' (js ''agent panic: p'')])
    \<and> (\<forall>k. hb_streamers h k = None)"
proof -
  obtain h where run: "hub_run two_chats (gohub_new None) = Some h" and phases: "hb_phase h i = Turning c \<Longrightarrow> False"
    and gone: "\<not> hb_gone h 0" for i c
    using two_chats_run by blast
  from chats_do_not_mix [OF run] have seen: "prefix (hb_out h i) (alone None i two_chats)"
      "hb_gone h i \<or> hb_out h i = alone None i two_chats"
      "hb_streamers h k = Some i \<Longrightarrow> \<exists>c. hb_phase h i = Turning c" for i k
    by (auto simp: two_chats_def)
  have "alone None 0 two_chats = [chunk ''content'' (js ''x''), chunk ''done'' []]"
    "alone None 1 two_chats = map (chunk ''content'') [js ''a'', js ''b'', js ''c''] @ [chunk ''error'' (js ''agent panic: p'')]"
    by (simp_all add: alone_def two_chats_def texts_of_def ends_of_def go_chunks_def js_def)
  moreover have "hb_streamers h k = None" for k
    using seen(3) phases by (metis option.exhaust)
  ultimately show ?thesis
    using run seen(1) [of 1] seen(2) [of 0] gone by (intro exI [of _ h]) simp
qed

end
