(* ===== verification/Go_Main.thy ===== *)
theory Go_Main
  imports Spawn Go_Hub
begin

text \<open>
  src/go/cmd/main.go: from the flags to a server that is attached, or to the message the process
  fails with, and how it ends.  picoclaw's configuration (its defaults, reading a file, decoding
  JSON over it), its providers and the inherited pipe are arguments; of a configuration the
  fields main writes are modelled, the others are kept as they are.
\<close>

section \<open>The configuration\<close>

record model_config =
  mc_provider :: jsstring
  mc_name :: jsstring
  mc_model :: jsstring
  mc_base :: jsstring
  mc_enabled :: bool
  mc_key :: "jsstring option"

record 'c goconfig =
  gc_models :: "model_config list"
  gc_provider :: jsstring
  gc_model :: jsstring
  gc_rest :: 'c

text \<open>
  What main is built over: decoding JSON over a configuration, the defaults, reading a
  configuration file, the model provider of a configuration with the id of its model, whether an
  agent loop on it has a default agent, and the pipe on file descriptor 3.
\<close>

record ('c, 'p) gomain =
  gm_unmarshal :: "jsstring \<Rightarrow> 'c goconfig \<Rightarrow> (jsstring, 'c goconfig) sum"
  gm_default :: "'c goconfig"
  gm_load :: "jsstring \<Rightarrow> (jsstring, 'c goconfig) sum"
  gm_provider :: "'c goconfig \<Rightarrow> (jsstring, 'p \<times> jsstring) sum"
  gm_default_agent :: "'c goconfig \<Rightarrow> bool"
  gm_inherited :: "(jsstring, unit) sum"

definition loadConfig :: "('c, 'p) gomain \<Rightarrow> jsstring \<Rightarrow> jsstring \<Rightarrow> (jsstring, 'c goconfig) sum" where
  "loadConfig M path inline =
     (if inline \<noteq> [] then
        (case gm_unmarshal M inline (gm_default M) of
           Inl err \<Rightarrow> Inl (js ''config-json: '' @ err)
         | Inr cfg \<Rightarrow> Inr cfg)
      else gm_load M path)"

text \<open>The flags over the configuration.\<close>

definition flag_model :: "flags \<Rightarrow> model_config" where
  "flag_model f = \<lparr>mc_provider = fl_provider f, mc_name = fl_model f, mc_model = fl_model f, mc_base = fl_api_base f,
     mc_enabled = True, mc_key = (if fl_api_key f \<noteq> [] then Some (fl_api_key f) else None)\<rparr>"

definition apply_flags :: "flags \<Rightarrow> 'c goconfig \<Rightarrow> 'c goconfig" where
  "apply_flags f cfg =
     (let cfg = (if fl_provider f \<noteq> [] \<or> fl_api_key f \<noteq> [] \<or> fl_model f \<noteq> []
                 then cfg\<lparr>gc_models := gc_models cfg @ [flag_model f]\<rparr> else cfg);
          cfg = (if fl_provider f \<noteq> [] then cfg\<lparr>gc_provider := fl_provider f\<rparr> else cfg)
      in if fl_model f \<noteq> [] then cfg\<lparr>gc_model := fl_model f\<rparr> else cfg)"

section \<open>Starting\<close>

text \<open>
  \<open>go_fail\<close> (\<open>fail\<close>) prints and exits with 1; otherwise the loop has a configuration, a provider if there is
  one, the built-in tools of its default agent or an empty registry in their place, and a server
  that is attached to the channel.
\<close>

datatype ('c, 'p) started =
    Failed jsstring
  | Serving "'c goconfig" "'p option" bool gohub

definition go_fail :: "jsstring \<Rightarrow> ('c, 'p) started" where
  "go_fail err = Failed (js ''bareclaw: '' @ err)"

definition no_pipe :: "jsstring \<Rightarrow> jsstring" where
  "no_pipe err = js ''bareclaw must be spawned with an RPC pipe on fd 3: '' @ err"

text \<open>The provider of a configuration; without one the model id is empty and the error is kept.\<close>

definition go_provider :: "('c, 'p) gomain \<Rightarrow> 'c goconfig \<Rightarrow> 'p option \<times> jsstring \<times> jsstring option" where
  "go_provider M cfg =
     (case gm_provider M cfg of
        Inl err \<Rightarrow> (None, [], Some err)
      | Inr (p, modelID) \<Rightarrow> (Some p, modelID, None))"

definition go_main :: "('c, 'p) gomain \<Rightarrow> flags \<Rightarrow> ('c, 'p) started" where
  "go_main M f =
     (case loadConfig M (fl_config f) (fl_config_json f) of
        Inl err \<Rightarrow> go_fail err
      | Inr cfg \<Rightarrow>
          (let cfg = apply_flags f cfg; (provider, modelID, providerErr) = go_provider M cfg;
               cfg = (if modelID \<noteq> [] then cfg\<lparr>gc_model := modelID\<rparr> else cfg);
               keeps = (fl_builtin f \<or> \<not> gm_default_agent M cfg)
           in case gm_inherited M of
                Inl err \<Rightarrow> go_fail (no_pipe err)
              | Inr _ \<Rightarrow> Serving cfg provider keeps ((gohub_new providerErr)\<lparr>hb_attached := True\<rparr>)))"

text \<open>
  The end: the channel is done, or a signal closed it.  The end of the input is the normal one;
  any other error fails, unless a signal had come.
\<close>

datatype channel_error = Eof | ChannelError jsstring

fun go_exit :: "bool \<Rightarrow> channel_error option \<Rightarrow> jsstring option" where
  "go_exit signalled (Some (ChannelError err)) = (if signalled then None else Some (js ''bareclaw: '' @ err))"
| "go_exit signalled _ = None"

section \<open>From the options to a server\<close>

text \<open>The agent as a whole: the command line of the options, read and acted on.  A usage error exits.\<close>

definition start_agent :: "('c, 'p) gomain \<Rightarrow> jsval \<Rightarrow> ('c, 'p) started option" where
  "start_agent M opts = map_option (go_main M) (parse_flags (arg_texts (spawn_args opts)) no_flags)"

text \<open>The configuration the options ask for: an object is decoded over the defaults, else a file is read.\<close>

definition opt_config :: "('c, 'p) gomain \<Rightarrow> jsval \<Rightarrow> (jsstring, 'c goconfig) sum" where
  "opt_config M config =
     (if truthy config \<and> typeof_object config
      then map_sum (\<lambda>e. js ''config-json: '' @ e) id (gm_unmarshal M (the (json_text config)) (gm_default M))
      else gm_load M (opt_text config))"

definition opt_model :: "jsval \<Rightarrow> model_config" where
  "opt_model opts = \<lparr>mc_provider = opt_text (field opts (js ''provider'')), mc_name = opt_text (field opts (js ''model'')),
     mc_model = opt_text (field opts (js ''model'')), mc_base = opt_text (field opts (js ''apiBase'')), mc_enabled = True,
     mc_key = (if truthy (field opts (js ''apiKey'')) then Some (opt_text (field opts (js ''apiKey''))) else None)\<rparr>"

definition js_text_or :: "jsval \<Rightarrow> jsstring \<Rightarrow> jsstring" where
  "js_text_or v d = (if truthy v then opt_text v else d)"

lemma opt_text_truthy: "string_opt v \<Longrightarrow> truthy v \<longleftrightarrow> opt_text v \<noteq> []"
  by (cases v) (auto simp: string_opt_def)

text \<open>Options that are strings, or falsy, and a configuration that is a path or has a JSON text.\<close>

definition agent_opts :: "jsval \<Rightarrow> bool" where
  "agent_opts opts \<longleftrightarrow> config_opt (field opts (js ''config'')) \<and> string_opt (field opts (js ''provider''))
     \<and> string_opt (field opts (js ''apiKey'')) \<and> string_opt (field opts (js ''model'')) \<and> string_opt (field opts (js ''apiBase''))"

lemma flags_of_opts:
  assumes "agent_opts opts"
  shows "\<exists>f. parse_flags (arg_texts (spawn_args opts)) no_flags = Some f
    \<and> loadConfig M (fl_config f) (fl_config_json f) = opt_config M (field opts (js ''config''))
    \<and> flag_model f = opt_model opts \<and> fl_builtin f = truthy (field opts (js ''builtinTools''))
    \<and> fl_provider f = opt_text (field opts (js ''provider'')) \<and> fl_model f = opt_text (field opts (js ''model''))
    \<and> fl_api_key f = opt_text (field opts (js ''apiKey''))"
proof -
  let ?c = "field opts (js ''config'')"
  note opts = assms [unfolded agent_opts_def]
  obtain f where f: "parse_flags (arg_texts (spawn_args opts)) no_flags = Some f"
    "fl_provider f = opt_text (field opts (js ''provider''))" "fl_api_key f = opt_text (field opts (js ''apiKey''))"
    "fl_model f = opt_text (field opts (js ''model''))" "fl_api_base f = opt_text (field opts (js ''apiBase''))"
    "fl_builtin f = truthy (field opts (js ''builtinTools''))"
    and c: "if typeof_object ?c \<and> truthy ?c then fl_config f = [] \<and> fl_config_json f = the (json_text ?c) \<and> fl_config_json f \<noteq> []
       else fl_config f = opt_text ?c \<and> fl_config_json f = []"
    using flags_read [OF conjunct1 [OF opts]] opts by blast
  have "loadConfig M (fl_config f) (fl_config_json f) = opt_config M ?c"
    using c by (auto simp: loadConfig_def opt_config_def split: if_splits sum.split)
  moreover have "flag_model f = opt_model opts"
    using f(2-5) opt_text_truthy [of "field opts (js ''apiKey'')"] opts by (simp add: flag_model_def opt_model_def)
  ultimately show ?thesis
    using f by auto
qed

text \<open>
  C25. From the options to a server.  For options that are strings (or falsy) and a configuration
  that is a path or an object, whatever characters they have: an object is decoded over
  picoclaw's defaults, a path is read, and a failure of that is what the process fails with; so is
  a missing pipe.  Otherwise the server is attached, and its configuration has, after the models
  it had, one enabled model with the options' provider, name, endpoint and key, if a provider, a
  key or a model was given (an endpoint alone is dropped); the defaults name the options'
  provider, and the model the provider answers to; the built-in tools stay exactly if asked for (or
  if there is no agent to take them from); and chat is refused for the provider's own error.
\<close>

theorem agent_starts_as_the_options_say:
  fixes M :: "('c, 'p) gomain"
  assumes "agent_opts opts"
  defines "named \<equiv> truthy (field opts (js ''provider'')) \<or> truthy (field opts (js ''apiKey'')) \<or> truthy (field opts (js ''model''))"
  shows "case (opt_config M (field opts (js ''config'')), gm_inherited M) of
      (Inl err, _) \<Rightarrow> start_agent M opts = Some (Failed (js ''bareclaw: '' @ err))
    | (Inr _, Inl err) \<Rightarrow> start_agent M opts = Some (Failed (js ''bareclaw: bareclaw must be spawned with an RPC pipe on fd 3: '' @ err))
    | (Inr cfg, Inr _) \<Rightarrow>
        \<exists>asked cfg' p keeps h. start_agent M opts = Some (Serving cfg' p keeps h)
          \<and> gc_models asked = gc_models cfg @ (if named then [opt_model opts] else [])
          \<and> gc_provider asked = js_text_or (field opts (js ''provider'')) (gc_provider cfg)
          \<and> gc_model asked = js_text_or (field opts (js ''model'')) (gc_model cfg) \<and> gc_rest asked = gc_rest cfg
          \<and> hb_attached h
          \<and> (case gm_provider M asked of
               Inl err \<Rightarrow> cfg' = asked \<and> p = None \<and> hb_provider_error h = Some err
             | Inr (q, modelID) \<Rightarrow> cfg' = (if modelID = [] then asked else asked\<lparr>gc_model := modelID\<rparr>)
                 \<and> p = Some q \<and> hb_provider_error h = None)
          \<and> (keeps \<longleftrightarrow> truthy (field opts (js ''builtinTools'')) \<or> \<not> gm_default_agent M cfg')"
proof -
  obtain f where f: "parse_flags (arg_texts (spawn_args opts)) no_flags = Some f"
    "loadConfig M (fl_config f) (fl_config_json f) = opt_config M (field opts (js ''config''))"
    "flag_model f = opt_model opts" "fl_builtin f = truthy (field opts (js ''builtinTools''))"
    "fl_provider f = opt_text (field opts (js ''provider''))" "fl_model f = opt_text (field opts (js ''model''))"
    "fl_api_key f = opt_text (field opts (js ''apiKey''))"
    using flags_of_opts [OF assms(1)] by blast
  have start: "start_agent M opts = Some (go_main M f)"
    using f(1) by (simp add: start_agent_def)
  have given: "truthy (field opts (js ''provider'')) \<longleftrightarrow> fl_provider f \<noteq> []"
    "truthy (field opts (js ''apiKey'')) \<longleftrightarrow> fl_api_key f \<noteq> []" "truthy (field opts (js ''model'')) \<longleftrightarrow> fl_model f \<noteq> []"
    using assms(1) opt_text_truthy f(5-7) by (simp_all add: agent_opts_def)
  show ?thesis
  proof (cases "opt_config M (field opts (js ''config''))")
    case (Inl err)
    then show ?thesis
      using f(2) start by (simp add: go_main_def go_fail_def)
  next
    case (Inr cfg)
    have asked: "gc_models (apply_flags f cfg) = gc_models cfg @ (if named then [opt_model opts] else [])"
      "gc_provider (apply_flags f cfg) = js_text_or (field opts (js ''provider'')) (gc_provider cfg)"
      "gc_model (apply_flags f cfg) = js_text_or (field opts (js ''model'')) (gc_model cfg)"
      "gc_rest (apply_flags f cfg) = gc_rest cfg"
      using f(3) given f(5,6) by (simp_all add: apply_flags_def named_def js_text_or_def Let_def)
    show ?thesis
    proof (cases "gm_inherited M")
      case Inl
      then show ?thesis
        using f(2) start Inr by (simp add: go_main_def go_fail_def no_pipe_def js_def case_prod_beta Let_def)
    next
      case (Inr u)
      then show ?thesis
        using f(2,4) start \<open>opt_config M _ = Inr cfg\<close> asked
        by (auto simp: go_main_def go_provider_def gohub_new_def Let_def intro!: exI [of _ "apply_flags f cfg"] split: sum.split)
    qed
  qed
qed

text \<open>
  A surrounding that takes every configuration, whose providers need a model name and answer to
  it, with an agent and the pipe.
\<close>

definition plain_main :: "(unit, jsstring) gomain" where
  "plain_main = \<lparr>gm_unmarshal = (\<lambda>t cfg. Inr cfg), gm_default = \<lparr>gc_models = [], gc_provider = [], gc_model = [], gc_rest = ()\<rparr>,
     gm_load = (\<lambda>path. Inl (js ''no such file'')),
     gm_provider = (\<lambda>cfg. if gc_model cfg = [] then Inl (js ''no model'') else Inr (gc_model cfg, js ''id'')),
     gm_default_agent = (\<lambda>_. True), gm_inherited = Inr ()\<rparr>"

definition plain_opts :: jsval where
  "plain_opts = Obj [(js ''config'', Obj []), (js ''model'', Str (js ''--m'')), (js ''apiBase'', Str (js ''u''))]"

theorem agent_starts_as_the_options_say_witness:
  "\<exists>cfg h. start_agent plain_main plain_opts = Some (Serving cfg (Some (js ''--m'')) False h)
    \<and> gc_models cfg = [\<lparr>mc_provider = [], mc_name = js ''--m'', mc_model = js ''--m'', mc_base = js ''u'', mc_enabled = True, mc_key = None\<rparr>]
    \<and> gc_model cfg = js ''id'' \<and> hb_provider_error h = None \<and> hb_attached h"
proof -
  have "agent_opts plain_opts"
    by (simp add: agent_opts_def plain_opts_def config_opt_def props_ok_def string_opt_def)
  from agent_starts_as_the_options_say [OF this, of plain_main] show ?thesis
    by (auto simp: plain_main_def plain_opts_def opt_config_def opt_model_def js_text_or_def js_def split: if_splits)
qed

end
