(* ===== verification/Claw_Chats.thy ===== *)
theory Claw_Chats
  imports Session_Book "HOL-Library.Sublist"
begin

text \<open>
  Several chats on one instance of src/index.js at once, each with a consumer of its own.  A step is one
  \<open>next()\<close> or one \<open>return()\<close> of one of the generators, in any order; so what is interleaved is what
  happens between the chunks.  The contract of an agent with several response streams is the locale
  \<open>chats_env\<close>, which extends \<open>claw_env\<close>; the lemmas are proved in it.
\<close>

section \<open>Chats and their consumers\<close>

text \<open>Of each chat: its generator, the values its consumer was given, and how its loop ended.\<close>

record ('w, 'b, 'a) chats =
  ch_claw :: "('w, 'b, 'a) claw"
  ch_gen :: "nat \<Rightarrow> gen"
  ch_seen :: "nat \<Rightarrow> jsval list"
  ch_over :: "nat \<Rightarrow> unit result option"

datatype chat_event = Pull nat | Leave nat

fun chats_step :: "('w, 'b, 'a) env \<Rightarrow> chat_event \<Rightarrow> ('w, 'b, 'a) chats \<Rightarrow> ('w, 'b, 'a) chats" where
  "chats_step E (Pull i) s =
     (case chat_next E (ch_gen s i) (ch_claw s) of
        ((Inl e, g), st) \<Rightarrow> s\<lparr>ch_claw := st, ch_gen := (ch_gen s)(i := g), ch_over := (ch_over s)(i \<mapsto> Inl e)\<rparr>
      | ((Inr Finished, g), st) \<Rightarrow> s\<lparr>ch_claw := st, ch_gen := (ch_gen s)(i := g), ch_over := (ch_over s)(i \<mapsto> Inr ())\<rparr>
      | ((Inr (Yields v), g), st) \<Rightarrow>
          s\<lparr>ch_claw := st, ch_gen := (ch_gen s)(i := g), ch_seen := (ch_seen s)(i := ch_seen s i @ [v])\<rparr>)"
| "chats_step E (Leave i) s =
     (case chat_return E (ch_gen s i) (ch_claw s) of
        ((r, g), st) \<Rightarrow> s\<lparr>ch_claw := st, ch_gen := (ch_gen s)(i := g), ch_over := (ch_over s)(i \<mapsto> map_sum id (\<lambda>_. ()) r)\<rparr>)"

definition chats_run :: "('w, 'b, 'a) env \<Rightarrow> chat_event list \<Rightarrow> ('w, 'b, 'a) chats \<Rightarrow> ('w, 'b, 'a) chats" where
  "chats_run E es s = fold (chats_step E) es s"

text \<open>\<open>turns\<close> are the sessions and messages of the chats; no other generator does anything.\<close>

definition chats_start :: "(jsstring \<times> jsstring) list \<Rightarrow> ('w, 'b, 'a) claw \<Rightarrow> ('w, 'b, 'a) chats" where
  "chats_start turns st = \<lparr>ch_claw = st,
     ch_gen = (\<lambda>i. if i < length turns then chat (Str (fst (turns ! i))) (Str (snd (turns ! i))) Undef else GenDone),
     ch_seen = (\<lambda>_. []), ch_over = (\<lambda>_. None)\<rparr>"

section \<open>An agent with several response streams\<close>

text \<open>Chunks as they are received: none but the last is final.\<close>

fun ends_once :: "jsval list \<Rightarrow> bool" where
  "ends_once [] = False"
| "ends_once [c] = (is_obj c \<and> is_final (field c (js ''type'')))"
| "ends_once (c # cs) = (is_obj c \<and> \<not> is_final (field c (js ''type'')) \<and> ends_once cs)"

definition chunk_seen :: "jsval \<Rightarrow> jsval" where
  "chunk_seen c = chat_value (field c (js ''type'')) (field c (js ''content'')) (is_final (field c (js ''type'')))"

text \<open>
  \<open>waiting\<close> is what has been sent on an open stream and not been read, \<open>turn\<close> the chunks of a turn and the
  session it leaves, by the message and the session it finds.  A chat has a stream that was not
  open; reading one stream and ending it leaves the others, and so does an export.
\<close>

locale chats_env = claw_env E up dump dumped contents usable blank
  for E :: "('w, 'b, 'a) env" and up :: "'w \<Rightarrow> bool" and dump :: "'w \<Rightarrow> jsstring \<Rightarrow> bytes"
    and dumped :: "bytes \<Rightarrow> bool" and contents :: "'b \<Rightarrow> entries" and usable :: "'b \<Rightarrow> bool" and blank :: "jsstring \<Rightarrow> bytes" +
  fixes waiting :: "'w \<Rightarrow> nat \<Rightarrow> jsval list option" and turn :: "jsstring \<Rightarrow> bytes \<Rightarrow> jsval list \<times> bytes"
  assumes opens: "up w \<Longrightarrow> key_ok k \<Longrightarrow> key_ok m \<Longrightarrow> key_ok model \<Longrightarrow>
      \<exists>q p w'. hrpc_chat (e_c E) (e_rpc E) (Obj [(js ''sessionId'', Str k), (js ''message'', Str m), (js ''model'', Str model)]) w
          = (Inr (ResponseStream q p), w')
        \<and> waiting w q = None \<and> waiting w' = (waiting w)(q \<mapsto> fst (turn m (dump w k)))
        \<and> dump w' = (dump w)(k := snd (turn m (dump w k)))"
    and takes: "up w \<Longrightarrow> waiting w q = Some (c # cs) \<Longrightarrow>
      \<exists>w'. e_next E q w = (Inr (Some c), w') \<and> waiting w' = (waiting w)(q \<mapsto> cs) \<and> dump w' = dump w"
    and drops: "up w \<Longrightarrow> waiting (e_end E q w) = (waiting w)(q := None) \<and> dump (e_end E q w) = dump w"
    and export_waiting: "up w \<Longrightarrow> key_ok k \<Longrightarrow> sessionExport (e_c E) (e_rpc E) (key_msg k) w = (r, w') \<Longrightarrow> waiting w' = waiting w"
    and turn_ends: "key_ok m \<Longrightarrow> dumped d \<Longrightarrow> ends_once (fst (turn m d))"
begin

lemma persist_waiting:
  assumes "live st" and "key_ok k" and "persistSession E (Str k) st = (r, st')"
  shows "waiting (cl_world st') = waiting (cl_world st)"
proof -
  obtain w' where w': "sessionExport (e_c E) (e_rpc E) (key_msg k) (cl_world st) = (Inr (blob_msg k (agent st k)), w')" "up w'"
    using export [OF _ assms(2)] assms(1) unfolding claw_live_def by blast
  have same: "waiting w' = waiting (cl_world st)"
    using export_waiting [OF _ assms(2) w'(1)] assms(1) by (simp add: claw_live_def)
  have exported: "exportSession E (Str k) st = (Inr (Buf (agent st k)), st\<lparr>cl_world := w'\<rparr>)"
    using w'(1) assms(1) by (simp add: exportSession_def andthen_def ensure_open_live act_simps
      key_msg_def [symmetric] blob_msg_def claw_live_def)
  have "live (st\<lparr>cl_world := w'\<rparr>)"
    using assms(1) w'(2) by (simp add: claw_live_def)
  from put_live [OF this, of "data_key (e_b4a E) (Str k)" "Buf (agent st k)"] show ?thesis
    using assms(1,3) exported same by (auto simp: persistSession_def act_simps claw_live_def)
qed

text \<open>Leaving the loop of one chat.\<close>

lemma leave_chat:
  assumes "live st" and "key_ok k"
  shows "\<exists>st'. leave_loop E q (Str k) r st = (r, st') \<and> live st' \<and> frame st st' \<and> agent st' = agent st
    \<and> stored st' = (stored st)(data_key (e_b4a E) (Str k) \<mapsto> Buf (agent st k))
    \<and> waiting (cl_world st') = (waiting (cl_world st))(q := None)"
proof -
  let ?st = "st\<lparr>cl_world := e_end E q (cl_world st)\<rparr>"
  have live: "live ?st"
    using assms(1) end_up by (simp add: claw_live_def)
  have ended: "waiting (cl_world ?st) = (waiting (cl_world st))(q := None)" "agent ?st = agent st"
    using drops [of "cl_world st" q] assms(1) by (simp_all add: claw_live_def)
  obtain st' where st': "persistSession E (Str k) ?st = (Inr (), st')" "live st'" "frame ?st st'" "agent st' = agent ?st"
    "stored st' = (stored ?st)(data_key (e_b4a E) (Str k) \<mapsto> Buf (agent ?st k))"
    using persist_live [OF live assms(2)] by blast
  moreover have "waiting (cl_world st') = waiting (cl_world ?st)"
    using persist_waiting [OF live assms(2) st'(1)] .
  ultimately show ?thesis
    using ended by (simp add: leave_loop_def chat_finally_def andthen_def frame_def)
qed

text \<open>Reading a chunk.\<close>

lemma pull_chat:
  assumes st: "live st" and waits: "waiting (cl_world st) q = Some rest" and rest: "ends_once rest"
  shows "\<exists>c cs w. rest = c # cs \<and> is_final (field c (js ''type'')) = (cs = []) \<and> (cs \<noteq> [] \<longrightarrow> ends_once cs)
    \<and> chat_pull E q x st = ((Inr (Yields (chunk_seen c)), if cs = [] then GenLast q x else GenChunk q x), st\<lparr>cl_world := w\<rparr>)
    \<and> live (st\<lparr>cl_world := w\<rparr>) \<and> waiting w = (waiting (cl_world st))(q \<mapsto> cs) \<and> dump w = agent st"
proof -
  obtain c cs where c: "rest = c # cs" "is_obj c" "is_final (field c (js ''type'')) = (cs = [])" "cs \<noteq> [] \<longrightarrow> ends_once cs"
    using rest by (cases rest rule: ends_once.cases) auto
  obtain w where w: "e_next E q (cl_world st) = (Inr (Some c), w)" "waiting w = (waiting (cl_world st))(q \<mapsto> cs)" "dump w = agent st"
    using takes [of "cl_world st" q c cs] st waits c(1) by (auto simp: claw_live_def)
  have "live (st\<lparr>cl_world := w\<rparr>)"
    using st next_up [OF _ w(1)] by (simp add: claw_live_def)
  then show ?thesis
    using c w by (intro exI [of _ c] exI [of _ cs] exI [of _ w]) (simp add: chat_pull_def chunk_seen_def is_obj_getp)
qed

text \<open>The first \<open>next()\<close>.\<close>

lemma open_chat:
  assumes st: "live st" and k: "key_ok k" and m: "key_ok m" and opts: "opts_ok (cl_opts st)"
  shows "\<exists>q w. chat_next E (GenStart (Str k) (Str m) (Obj [])) st = chat_pull E q (Str k) (st\<lparr>cl_world := w\<rparr>)
    \<and> live (st\<lparr>cl_world := w\<rparr>) \<and> waiting (cl_world st) q = None
    \<and> waiting w = (waiting (cl_world st))(q \<mapsto> fst (turn m (agent st k)))
    \<and> dump w = (agent st)(k := snd (turn m (agent st k)))"
proof -
  obtain model where model: "is_obj (cl_opts st)" "js_or (field (cl_opts st) (js ''model'')) (Str []) = Str model" "key_ok model"
    using opts by (auto simp: opts_ok_def)
  have request: "chat_request st (Str k) (Str m) (Obj [])
      = Inr (Obj [(js ''sessionId'', Str k), (js ''message'', Str m), (js ''model'', Str model)])"
    using model(1,2) by (simp add: chat_request_def is_obj_getp)
  obtain q p w where w: "hrpc_chat (e_c E) (e_rpc E) (Obj [(js ''sessionId'', Str k), (js ''message'', Str m), (js ''model'', Str model)]) (cl_world st)
      = (Inr (ResponseStream q p), w)" "waiting (cl_world st) q = None" "waiting w = (waiting (cl_world st))(q \<mapsto> fst (turn m (agent st k)))"
    "dump w = (agent st)(k := snd (turn m (agent st k)))"
    using opens [OF _ k m model(3), of "cl_world st"] st by (auto simp: claw_live_def)
  have "live (st\<lparr>cl_world := w\<rparr>)"
    using st chat_up [OF _ w(1)] by (simp add: claw_live_def)
  then show ?thesis
    using w st request
    by (intro exI [of _ q] exI [of _ w]) (simp add: chat_next_def andthen_def ensure_open_live rpc_do_def claw_live_def)
qed

section \<open>The invariant\<close>

text \<open>
  What holds of one chat, by where its generator stands.  Before it is begun, nothing of its session has
  changed; in its loop, the agent has the session the turn leaves, the store what it had, and what was
  seen with what waits is the turn; once it is over, the store has the session too.
\<close>

definition chat_fine ::
    "('w, 'b, 'a) claw \<Rightarrow> jsstring \<Rightarrow> jsstring \<Rightarrow> chat_event list \<Rightarrow> ('w, 'b, 'a) chats \<Rightarrow> nat \<Rightarrow> bool" where
  "chat_fine st0 k m es s i \<longleftrightarrow>
     (let cs = map chunk_seen (fst (turn m (agent st0 k))); left = snd (turn m (agent st0 k));
          seen = ch_seen s i; st = ch_claw s; key = data_key (e_b4a E) (Str k)
      in (ch_over s i = None \<longrightarrow> count_list es (Pull i) = length seen) \<and>
         (case ch_gen s i of
            GenStart x y z \<Rightarrow> x = Str k \<and> y = Str m \<and> z = Obj [] \<and> seen = [] \<and> ch_over s i = None
              \<and> agent st k = agent st0 k \<and> stored st key = stored st0 key
          | GenChunk q x \<Rightarrow> x = Str k \<and> seen \<noteq> [] \<and> ch_over s i = None \<and> agent st k = left \<and> stored st key = stored st0 key
              \<and> (\<exists>rest. waiting (cl_world st) q = Some rest \<and> ends_once rest \<and> cs = seen @ map chunk_seen rest)
          | GenLast q x \<Rightarrow> x = Str k \<and> seen \<noteq> [] \<and> ch_over s i = None \<and> agent st k = left \<and> stored st key = stored st0 key
              \<and> waiting (cl_world st) q \<noteq> None \<and> cs = seen
          | GenDone \<Rightarrow> ch_over s i = Some (Inr ()) \<and> prefix seen cs \<and> (Leave i \<notin> set es \<longrightarrow> seen = cs)
              \<and> (if seen = [] then agent st k = agent st0 k \<and> stored st key = stored st0 key
                 else agent st k = left \<and> stored st key = Some (Buf left))))"

end

fun stream_of :: "gen \<Rightarrow> nat option" where
  "stream_of (GenChunk q x) = Some q"
| "stream_of (GenLast q x) = Some q"
| "stream_of g = None"

fun event_of :: "chat_event \<Rightarrow> nat" where
  "event_of (Pull i) = i"
| "event_of (Leave i) = i"

context chats_env
begin

definition chats_fine ::
    "('w, 'b, 'a) claw \<Rightarrow> (jsstring \<times> jsstring) list \<Rightarrow> chat_event list \<Rightarrow> ('w, 'b, 'a) chats \<Rightarrow> bool" where
  "chats_fine st0 turns es s \<longleftrightarrow> live (ch_claw s) \<and> frame st0 (ch_claw s)
     \<and> (\<forall>i < length turns. chat_fine st0 (fst (turns ! i)) (snd (turns ! i)) es s i)
     \<and> (\<forall>i. length turns \<le> i \<longrightarrow> ch_gen s i = GenDone)
     \<and> (\<forall>i j q. stream_of (ch_gen s i) = Some q \<longrightarrow> stream_of (ch_gen s j) = Some q \<longrightarrow> i = j)
     \<and> (\<forall>x. x \<notin> fst ` set turns \<longrightarrow> agent (ch_claw s) x = agent st0 x)
     \<and> (\<forall>key. key \<notin> (\<lambda>t. data_key (e_b4a E) (Str (fst t))) ` set turns \<longrightarrow> stored (ch_claw s) key = stored st0 key)"

lemma stream_waits: "chat_fine st0 k m es s i \<Longrightarrow> stream_of (ch_gen s i) = Some q \<Longrightarrow> waiting (cl_world (ch_claw s)) q \<noteq> None"
  by (cases "ch_gen s i") (auto simp: chat_fine_def Let_def)

lemma chats_fine_start:
  assumes "live st" and "\<forall>t \<in> set turns. key_ok (fst t)"
  shows "chats_fine st turns [] (chats_start turns st)"
  using assms(1) frame_refl by (auto simp: chats_fine_def chats_start_def chat_fine_def chat_def)

text \<open>An event of another chat leaves this one.\<close>

lemma chat_fine_kept:
  assumes "chat_fine st0 k m es s j" and "event_of e \<noteq> j"
    and "ch_gen s' j = ch_gen s j" "ch_seen s' j = ch_seen s j" "ch_over s' j = ch_over s j"
    and "agent (ch_claw s') k = agent (ch_claw s) k"
    and "stored (ch_claw s') (data_key (e_b4a E) (Str k)) = stored (ch_claw s) (data_key (e_b4a E) (Str k))"
    and "\<And>q. stream_of (ch_gen s j) = Some q \<Longrightarrow> waiting (cl_world (ch_claw s')) q = waiting (cl_world (ch_claw s)) q"
  shows "chat_fine st0 k m (es @ [e]) s' j"
proof -
  have "Pull j \<noteq> e" "Leave j \<noteq> e"
    using assms(2) by auto
  then show ?thesis
    using assms(1,3-8) by (cases "ch_gen s j") (auto simp: chat_fine_def Let_def)
qed

text \<open>A step of one chat that touches its own session and stream only.\<close>

lemma chats_fine_step:
  assumes fine: "chats_fine st0 turns es s" and i: "i < length turns" and e: "event_of e = i"
    and turns: "distinct (map fst turns)" "\<forall>t \<in> set turns. key_ok (fst t)"
    and k: "k = fst (turns ! i)"
    and s': "s' = s\<lparr>ch_claw := st, ch_gen := (ch_gen s)(i := g), ch_seen := (ch_seen s)(i := vs), ch_over := (ch_over s)(i := r)\<rparr>"
    and st: "live st" "frame (ch_claw s) st"
    and same: "\<And>x. x \<noteq> k \<Longrightarrow> agent st x = agent (ch_claw s) x"
      "\<And>key. key \<noteq> data_key (e_b4a E) (Str k) \<Longrightarrow> stored st key = stored (ch_claw s) key"
    and streams: "\<And>q. waiting (cl_world (ch_claw s)) q \<noteq> None \<Longrightarrow> stream_of (ch_gen s i) \<noteq> Some q
        \<Longrightarrow> waiting (cl_world st) q = waiting (cl_world (ch_claw s)) q"
      "\<And>q. stream_of g = Some q \<Longrightarrow> stream_of (ch_gen s i) = Some q \<or> waiting (cl_world (ch_claw s)) q = None"
    and own: "chat_fine st0 k (snd (turns ! i)) (es @ [e]) s' i"
  shows "chats_fine st0 turns (es @ [e]) s'"
proof -
  have others: "stream_of (ch_gen s j) \<noteq> Some q" if "waiting (cl_world (ch_claw s)) q = None" for j q
    using stream_waits fine that unfolding chats_fine_def by (metis (no_types, lifting) linorder_not_le option.distinct(1) stream_of.simps(4))
  have kj: "fst (turns ! j) \<noteq> k" "data_key (e_b4a E) (Str (fst (turns ! j))) \<noteq> data_key (e_b4a E) (Str k)"
    if "j < length turns" "j \<noteq> i" for j
  proof -
    show "fst (turns ! j) \<noteq> k"
      using turns(1) that i k by (auto simp: distinct_conv_nth)
    then show "data_key (e_b4a E) (Str (fst (turns ! j))) \<noteq> data_key (e_b4a E) (Str k)"
      using data_key_same turns(2) that i k by auto
  qed
  have each: "chat_fine st0 (fst (turns ! j)) (snd (turns ! j)) (es @ [e]) s' j" if j: "j < length turns" for j
  proof (cases "j = i")
    case False
    have fj: "chat_fine st0 (fst (turns ! j)) (snd (turns ! j)) es s j"
      using fine j by (simp add: chats_fine_def)
    show ?thesis
    proof (rule chat_fine_kept [OF fj])
      show "waiting (cl_world (ch_claw s')) q = waiting (cl_world (ch_claw s)) q" if "stream_of (ch_gen s j) = Some q" for q
      proof -
        have "stream_of (ch_gen s i) \<noteq> Some q"
          using fine that False unfolding chats_fine_def by blast
        then show ?thesis
          using streams(1) [of q] stream_waits [OF fj that] by (simp add: s')
      qed
    qed (use False e same kj [OF j False] in \<open>simp_all add: s'\<close>)
  qed (use own k in simp)
  have apart: "a = b" if "stream_of (ch_gen s' a) = Some q" "stream_of (ch_gen s' b) = Some q" for a b q
    using that streams(2) [of q] others [of q] fine unfolding chats_fine_def s' by (auto split: if_splits)
  have mem: "k \<in> fst ` set turns" "data_key (e_b4a E) (Str k) \<in> (\<lambda>t. data_key (e_b4a E) (Str (fst t))) ` set turns"
    using i k by auto
  have old: "frame st0 (ch_claw s)" "\<And>j. length turns \<le> j \<Longrightarrow> ch_gen s j = GenDone"
    "\<And>x. x \<notin> fst ` set turns \<Longrightarrow> agent (ch_claw s) x = agent st0 x"
    "\<And>key. key \<notin> (\<lambda>t. data_key (e_b4a E) (Str (fst t))) ` set turns \<Longrightarrow> stored (ch_claw s) key = stored st0 key"
    using fine unfolding chats_fine_def by blast+
  have claw: "ch_claw s' = st" and gens: "j \<noteq> i \<Longrightarrow> ch_gen s' j = ch_gen s j" for j
    by (simp_all add: s')
  show ?thesis
    unfolding chats_fine_def claw
  proof (intro conjI allI impI)
    show "frame st0 st"
      using frame_trans [OF old(1) st(2)] .
    show "ch_gen s' j = GenDone" if "length turns \<le> j" for j
      using old(2) [OF that] gens [of j] that i by auto
    show "agent st x = agent st0 x" if "x \<notin> fst ` set turns" for x
      using old(3) [OF that] same(1) [of x] that mem(1) by metis
    show "stored st key = stored st0 key" if "key \<notin> (\<lambda>t. data_key (e_b4a E) (Str (fst t))) ` set turns" for key
      using old(4) [OF that] same(2) [of key] that mem(2) by metis
  qed (use st(1) each apart in blast)+
qed

text \<open>A chat that is over, or was never one, can be pulled and left again.\<close>

lemma done_step:
  assumes fine: "chats_fine st0 turns es s" and e: "event_of e = i" and over: "ch_gen s i = GenDone"
  shows "chats_fine st0 turns (es @ [e]) (s\<lparr>ch_over := (ch_over s)(i \<mapsto> Inr ())\<rparr>)"
proof -
  let ?s = "s\<lparr>ch_over := (ch_over s)(i \<mapsto> Inr ())\<rparr>"
  have "chat_fine st0 (fst (turns ! j)) (snd (turns ! j)) (es @ [e]) ?s j" if j: "j < length turns" for j
  proof (cases "j = i")
    case True
    have "chat_fine st0 (fst (turns ! j)) (snd (turns ! j)) es s j"
      using fine j by (simp add: chats_fine_def)
    then show ?thesis
      using over True by (auto simp: chat_fine_def Let_def)
  next
    case False
    then show ?thesis
      using fine j e by (intro chat_fine_kept [where s = s]) (simp_all add: chats_fine_def)
  qed
  then show ?thesis
    using fine unfolding chats_fine_def by simp
qed

lemma pull_step:
  assumes fine: "chats_fine st0 turns es s" and i: "i < length turns"
    and turns: "distinct (map fst turns)" "\<forall>t \<in> set turns. key_ok (fst t)"
    and live: "live (ch_claw s\<lparr>cl_world := w0\<rparr>)"
    and pulls: "chat_next E (ch_gen s i) (ch_claw s) = chat_pull E q (Str (fst (turns ! i))) (ch_claw s\<lparr>cl_world := w0\<rparr>)"
    and waits: "waiting w0 q = Some rest" "ends_once rest"
      "map chunk_seen (fst (turn (snd (turns ! i)) (agent st0 (fst (turns ! i))))) = ch_seen s i @ map chunk_seen rest"
    and others: "\<And>q'. q' \<noteq> q \<Longrightarrow> waiting w0 q' = waiting (cl_world (ch_claw s)) q'"
      "\<And>x. x \<noteq> fst (turns ! i) \<Longrightarrow> dump w0 x = agent (ch_claw s) x"
    and stream: "stream_of (ch_gen s i) = Some q \<or> waiting (cl_world (ch_claw s)) q = None"
    and own: "dump w0 (fst (turns ! i)) = snd (turn (snd (turns ! i)) (agent st0 (fst (turns ! i))))"
      "stored (ch_claw s) (data_key (e_b4a E) (Str (fst (turns ! i)))) = stored st0 (data_key (e_b4a E) (Str (fst (turns ! i))))"
      "ch_over s i = None" "count_list es (Pull i) = length (ch_seen s i)"
  shows "chats_fine st0 turns (es @ [Pull i]) (chats_step E (Pull i) s)"
proof -
  let ?k = "fst (turns ! i)" and ?st = "ch_claw s\<lparr>cl_world := w0\<rparr>"
  obtain c cs w where c: "rest = c # cs" "cs \<noteq> [] \<longrightarrow> ends_once cs"
    "chat_pull E q (Str ?k) ?st = ((Inr (Yields (chunk_seen c)), if cs = [] then GenLast q (Str ?k) else GenChunk q (Str ?k)), ?st\<lparr>cl_world := w\<rparr>)"
    "live (?st\<lparr>cl_world := w\<rparr>)" "waiting w = (waiting w0)(q \<mapsto> cs)" "dump w = dump w0"
    using pull_chat [OF live _ waits(2), of q "Str ?k"] waits(1) by auto
  let ?g = "if cs = [] then GenLast q (Str ?k) else GenChunk q (Str ?k)"
  let ?s = "s\<lparr>ch_claw := ch_claw s\<lparr>cl_world := w\<rparr>, ch_gen := (ch_gen s)(i := ?g), ch_seen := (ch_seen s)(i := ch_seen s i @ [chunk_seen c]),
    ch_over := (ch_over s)(i := ch_over s i)\<rparr>"
  have step: "chats_step E (Pull i) s = ?s"
    using c(3) pulls by simp
  have "chat_fine st0 ?k (snd (turns ! i)) (es @ [Pull i]) ?s i"
    using c own waits(3) by (simp add: chat_fine_def Let_def)
  moreover have "live (ch_claw s\<lparr>cl_world := w\<rparr>)" "frame (ch_claw s) (ch_claw s\<lparr>cl_world := w\<rparr>)"
    using c(4) by (simp_all add: frame_def)
  moreover have "waiting w q' = waiting (cl_world (ch_claw s)) q'"
    if "waiting (cl_world (ch_claw s)) q' \<noteq> None" "stream_of (ch_gen s i) \<noteq> Some q'" for q'
    using that stream others(1) [of q'] c(5) by (cases "q' = q") auto
  moreover have "stream_of ?g = Some q' \<Longrightarrow> stream_of (ch_gen s i) = Some q' \<or> waiting (cl_world (ch_claw s)) q' = None" for q'
    using stream by (auto split: if_splits)
  ultimately show ?thesis
    unfolding step using others(2) c(6)
    by (intro chats_fine_step [OF fine i _ turns refl refl]) simp_all
qed

lemma leave_step:
  assumes fine: "chats_fine st0 turns es s" and i: "i < length turns" and e: "event_of e = i"
    and turns: "distinct (map fst turns)" "\<forall>t \<in> set turns. key_ok (fst t)"
    and g: "stream_of (ch_gen s i) = Some q" "e = Leave i \<or> ch_gen s i = GenLast q (Str (fst (turns ! i)))"
  shows "\<exists>st. leave_loop E q (Str (fst (turns ! i))) (Inr Finished) (ch_claw s) = (Inr Finished, st)
    \<and> chats_fine st0 turns (es @ [e]) (s\<lparr>ch_claw := st, ch_gen := (ch_gen s)(i := GenDone), ch_over := (ch_over s)(i \<mapsto> Inr ())\<rparr>)"
proof -
  let ?k = "fst (turns ! i)" and ?m = "snd (turns ! i)"
  have live: "live (ch_claw s)" and fi: "chat_fine st0 ?k ?m es s i" and k: "key_ok ?k"
    using fine i turns(2) by (simp_all add: chats_fine_def)
  obtain st where st: "leave_loop E q (Str ?k) (Inr Finished) (ch_claw s) = (Inr Finished, st)" "live st" "frame (ch_claw s) st"
    "agent st = agent (ch_claw s)" "stored st = (stored (ch_claw s))(data_key (e_b4a E) (Str ?k) \<mapsto> Buf (agent (ch_claw s) ?k))"
    "waiting (cl_world st) = (waiting (cl_world (ch_claw s)))(q := None)"
    using leave_chat [OF live k] by blast
  let ?s = "s\<lparr>ch_claw := st, ch_gen := (ch_gen s)(i := GenDone), ch_seen := (ch_seen s)(i := ch_seen s i), ch_over := (ch_over s)(i := Some (Inr ()))\<rparr>"
  have "chat_fine st0 ?k ?m (es @ [e]) ?s i"
    using fi g st(4,5) by (cases "ch_gen s i") (auto simp: chat_fine_def Let_def)
  then have "chats_fine st0 turns (es @ [e]) ?s"
    by (intro chats_fine_step [OF fine i e turns refl refl st(2,3)]) (use st(4-6) g(1) in auto)
  then show ?thesis
    using st(1) by (intro exI [of _ st]) simp
qed

lemma chats_fine_event:
  assumes fine: "chats_fine st0 turns es s" and opts: "opts_ok (cl_opts st0)" and up: "live st0"
    and turns: "distinct (map fst turns)" "\<forall>t \<in> set turns. key_ok (fst t) \<and> key_ok (snd t)"
  shows "chats_fine st0 turns (es @ [e]) (chats_step E e s)"
proof -
  obtain i where i: "event_of e = i"
    by simp
  have live: "live (ch_claw s)" and opts': "opts_ok (cl_opts (ch_claw s))"
    using fine opts by (simp_all add: chats_fine_def frame_def)
  have keys: "\<forall>t \<in> set turns. key_ok (fst t)"
    using turns(2) by blast
  show ?thesis
  proof (cases "ch_gen s i = GenDone")
    case True
    then have "chats_step E e s = s\<lparr>ch_over := (ch_over s)(i \<mapsto> Inr ())\<rparr>"
      using i by (cases e) (simp_all add: chat_next_def chat_return_def fun_upd_idem)
    then show ?thesis
      using done_step [OF fine i True] by simp
  next
    case False
    then have len: "i < length turns"
      using fine unfolding chats_fine_def by (meson linorder_not_less)
    let ?k = "fst (turns ! i)" and ?m = "snd (turns ! i)"
    have fi: "chat_fine st0 ?k ?m es s i" and k: "key_ok ?k" "key_ok ?m"
      using fine turns(2) len by (simp_all add: chats_fine_def)
    show ?thesis
    proof (cases "stream_of (ch_gen s i)")
      case None
      with False fi have g: "ch_gen s i = GenStart (Str ?k) (Str ?m) (Obj [])" and
        start: "ch_seen s i = []" "ch_over s i = None" "agent (ch_claw s) ?k = agent st0 ?k"
        "stored (ch_claw s) (data_key (e_b4a E) (Str ?k)) = stored st0 (data_key (e_b4a E) (Str ?k))" "count_list es (Pull i) = 0"
        by (cases "ch_gen s i"; simp add: chat_fine_def Let_def)+
      show ?thesis
      proof (cases e)
        case (Leave j)
        let ?s = "s\<lparr>ch_claw := ch_claw s, ch_gen := (ch_gen s)(i := GenDone), ch_seen := (ch_seen s)(i := ch_seen s i), ch_over := (ch_over s)(i := Some (Inr ()))\<rparr>"
        have "chats_step E e s = ?s"
          using i g Leave by (simp add: chat_return_def)
        moreover have "chat_fine st0 ?k ?m (es @ [e]) ?s i"
          using i start Leave by (simp add: chat_fine_def Let_def)
        then have "chats_fine st0 turns (es @ [e]) ?s"
          by (intro chats_fine_step [OF fine len i turns(1) keys refl refl live frame_refl]) simp_all
        ultimately show ?thesis
          by simp
      next
        case (Pull j)
        obtain q w where w: "chat_next E (GenStart (Str ?k) (Str ?m) (Obj [])) (ch_claw s) = chat_pull E q (Str ?k) (ch_claw s\<lparr>cl_world := w\<rparr>)"
          "live (ch_claw s\<lparr>cl_world := w\<rparr>)" "waiting (cl_world (ch_claw s)) q = None"
          "waiting w = (waiting (cl_world (ch_claw s)))(q \<mapsto> fst (turn ?m (agent (ch_claw s) ?k)))"
          "dump w = (agent (ch_claw s))(?k := snd (turn ?m (agent (ch_claw s) ?k)))"
          using open_chat [OF live k opts'] by blast
        have "ends_once (fst (turn ?m (agent (ch_claw s) ?k)))"
          using turn_ends [OF k(2) dump_dumped [OF _ k(1)]] live by (simp add: claw_live_def)
        moreover have "e = Pull i"
          using Pull i by simp
        ultimately show ?thesis
          by (simp only:, intro pull_step [OF fine len turns(1) keys w(2), of q "fst (turn ?m (agent (ch_claw s) ?k))"])
            (use g start w in simp_all)
      qed
    next
      case (Some q)
      show ?thesis
      proof (cases "e = Leave i \<or> ch_gen s i = GenLast q (Str ?k)")
        case True
        obtain st where st: "leave_loop E q (Str ?k) (Inr Finished) (ch_claw s) = (Inr Finished, st)"
          "chats_fine st0 turns (es @ [e]) (s\<lparr>ch_claw := st, ch_gen := (ch_gen s)(i := GenDone), ch_over := (ch_over s)(i \<mapsto> Inr ())\<rparr>)"
          using leave_step [OF fine len i turns(1) keys Some True] by blast
        have "ch_gen s i = GenLast q (Str ?k) \<or> ch_gen s i = GenChunk q (Str ?k)"
          using Some fi by (cases "ch_gen s i") (auto simp: chat_fine_def Let_def)
        then have "chats_step E e s = s\<lparr>ch_claw := st, ch_gen := (ch_gen s)(i := GenDone), ch_over := (ch_over s)(i \<mapsto> Inr ())\<rparr>"
          using True i st(1) by (cases e) (auto simp: chat_next_def chat_return_def)
        then show ?thesis
          using st(2) by simp
      next
        case False
        then have g: "e = Pull i" "ch_gen s i = GenChunk q (Str ?k)"
          using Some fi i by (cases "ch_gen s i"; cases e; auto simp: chat_fine_def Let_def)+
        with fi obtain rest where rest: "waiting (cl_world (ch_claw s)) q = Some rest" "ends_once rest"
          "map chunk_seen (fst (turn ?m (agent st0 ?k))) = ch_seen s i @ map chunk_seen rest"
          "ch_over s i = None" "count_list es (Pull i) = length (ch_seen s i)" "agent (ch_claw s) ?k = snd (turn ?m (agent st0 ?k))"
          "stored (ch_claw s) (data_key (e_b4a E) (Str ?k)) = stored st0 (data_key (e_b4a E) (Str ?k))"
          by (auto simp: chat_fine_def Let_def)
        show ?thesis
          unfolding g(1)
          by (rule pull_step [OF fine len turns(1) keys, of "cl_world (ch_claw s)" q rest]) (use live g rest in \<open>simp_all add: chat_next_def\<close>)
      qed
    qed
  qed
qed

lemma chats_run_fine:
  assumes "opts_ok (cl_opts st0)" and "live st0" and "distinct (map fst turns)" and "\<forall>t \<in> set turns. key_ok (fst t) \<and> key_ok (snd t)"
  shows "chats_fine st0 turns es (chats_run E es (chats_start turns st0))"
proof (induction es rule: rev_induct)
  case Nil
  then show ?case
    using chats_fine_start [OF assms(2), of turns] assms(4) by (simp add: chats_run_def)
next
  case (snoc e es)
  then show ?case
    using chats_fine_event [OF snoc assms(1-4), of e] by (simp add: chats_run_def)
qed

text \<open>
  Each chat is what it is alone: its consumer sees a part of its turn from the start, and all of it unless
  it left; its session is what the turn leaves, in the agent once it is begun, in the store once
  it is over; and it is over after as many pulls as the turn has chunks, and one.
\<close>

lemma chats_keep_apart:
  assumes "opts_ok (cl_opts st0)" and "live st0" and "distinct (map fst turns)" and "\<forall>t \<in> set turns. key_ok (fst t) \<and> key_ok (snd t)"
    and i: "i < length turns" and t: "turns ! i = (k, m)" "turn m (agent st0 k) = (cs, left)"
    and s: "s = chats_run E es (chats_start turns st0)"
  shows "prefix (ch_seen s i) (map chunk_seen cs)"
    and "ch_over s i = None \<or> ch_over s i = Some (Inr ())"
    and "agent (ch_claw s) k = (if ch_seen s i = [] then agent st0 k else left)"
    and "stored (ch_claw s) (data_key (e_b4a E) (Str k))
      = (if ch_over s i = None \<or> ch_seen s i = [] then stored st0 (data_key (e_b4a E) (Str k)) else Some (Buf left))"
    and "ch_over s i \<noteq> None \<Longrightarrow> Leave i \<notin> set es \<Longrightarrow> ch_seen s i = map chunk_seen cs"
    and "length cs < count_list es (Pull i) \<Longrightarrow> ch_over s i \<noteq> None"
proof -
  have fi: "chat_fine st0 k m es s i"
    using chats_run_fine [OF assms(1-4), of es] i t(1) unfolding chats_fine_def s by force
  then show part: "prefix (ch_seen s i) (map chunk_seen cs)"
    by (cases "ch_gen s i") (auto simp: chat_fine_def Let_def t(2))
  show "ch_over s i = None \<or> ch_over s i = Some (Inr ())" "agent (ch_claw s) k = (if ch_seen s i = [] then agent st0 k else left)"
    "stored (ch_claw s) (data_key (e_b4a E) (Str k))
      = (if ch_over s i = None \<or> ch_seen s i = [] then stored st0 (data_key (e_b4a E) (Str k)) else Some (Buf left))"
    "ch_over s i \<noteq> None \<Longrightarrow> Leave i \<notin> set es \<Longrightarrow> ch_seen s i = map chunk_seen cs"
    using fi by (cases "ch_gen s i"; auto simp: chat_fine_def Let_def t(2))+
  show "ch_over s i \<noteq> None" if "length cs < count_list es (Pull i)"
    using that fi prefix_length_le [OF part] by (auto simp: chat_fine_def Let_def)
qed

lemma others_untouched:
  assumes "opts_ok (cl_opts st0)" and "live st0" and "distinct (map fst turns)" and "\<forall>t \<in> set turns. key_ok (fst t) \<and> key_ok (snd t)"
  shows "x \<notin> fst ` set turns \<Longrightarrow> agent (ch_claw (chats_run E es (chats_start turns st0))) x = agent st0 x"
    and "key \<notin> (\<lambda>t. data_key (e_b4a E) (Str (fst t))) ` set turns \<Longrightarrow>
      stored (ch_claw (chats_run E es (chats_start turns st0))) key = stored st0 key"
  using chats_run_fine [OF assms, of es] unfolding chats_fine_def by blast+

end

end
