(* ===== verification/Go_Streams.thy ===== *)
theory Go_Streams
  imports Claw_Chats
begin

text \<open>
  The Go server of Go_Server behind a transport that has several response streams open at a time: a chat's
  chunks are queued on its own stream.  (A turn is made when its chat is opened; how turns of the
  agent loop interleave on the server's side is Go_Hub.)  It is an agent in the sense of \<open>chats_env\<close>.
\<close>

section \<open>The transport\<close>

text \<open>A link of two processes, and what waits on each open response stream.\<close>

record go_streams =
  gx_link :: "goserver link"
  gx_open :: "nat \<Rightarrow> bytes list option"

definition streams_start :: go_streams where
  "streams_start = \<lparr>gx_link = link_start go_fresh, gx_open = (\<lambda>_. None)\<rparr>"

definition emptied :: "goserver link \<Rightarrow> goserver link" where
  "emptied l = l\<lparr>lk_peer := (lk_peer l)\<lparr>gs_sent := []\<rparr>\<rparr>"

text \<open>A request is served with nothing sent before; what its handler sent waits on its response stream.\<close>

definition streams_lib :: "(jsval \<Rightarrow> bytes option \<Rightarrow> goserver \<Rightarrow> outcome \<times> goserver) \<Rightarrow> go_streams rpc_lib" where
  "streams_lib serve = \<lparr>
     lib_request = (\<lambda>command w. case link_open True command (emptied (gx_link w)) of (k, l) \<Rightarrow> (k, w\<lparr>gx_link := l\<rparr>)),
     lib_event = (\<lambda>command w. case link_open False command (emptied (gx_link w)) of (k, l) \<Rightarrow> (k, w\<lparr>gx_link := l\<rparr>)),
     lib_send = (\<lambda>k payload w. w\<lparr>gx_link := link_send serve k payload (gx_link w)\<rparr>),
     lib_reply = (\<lambda>k w. case link_reply k (gx_link w) of (r, l) \<Rightarrow> (r, w\<lparr>gx_link := l\<rparr>)),
     lib_responseStream = (\<lambda>k w. (k, w\<lparr>gx_open := (gx_open w)(k \<mapsto> gs_sent (lk_peer (gx_link w)))\<rparr>)),
     lib_requestStream = Pair\<rparr>"

definition streams_next :: "nat \<Rightarrow> go_streams \<Rightarrow> (jsval option) result \<times> go_streams" where
  "streams_next q w =
     (case gx_open w q of
        Some (bs # rest) \<Rightarrow>
          (map_sum id Some (c_decode ref_cenc (encoding3 ref_cenc) bs), w\<lparr>gx_open := (gx_open w)(q \<mapsto> rest)\<rparr>)
      | _ \<Rightarrow> (Inr None, w))"

definition streams_env_closed :: "picoclaw \<Rightarrow> (go_streams, entries, 'a) env" where
  "streams_env_closed pc = \<lparr>e_c = ref_cenc, e_rpc = streams_lib (on_request ref_cenc (go_hs pc)), e_next = streams_next,
     e_end = (\<lambda>q w. w\<lparr>gx_open := (gx_open w)(q := None)\<rparr>),
     e_start = (\<lambda>args w. (Inr (), streams_start)), e_pipe_end = (\<lambda>w. ([ProcExit], w)),
     e_bee = list_bee, e_bee_ready = Pair (Inr ()), e_bee_close = Pair (Inr ()), e_b4a = utf8_b4a,
     e_ready = (\<lambda>st. (Inl TypeError, st)), e_syntax = id, e_type = js ''TypeError''\<rparr>"

definition streams_env :: "picoclaw \<Rightarrow> (go_streams, entries, 'a) env" where
  "streams_env pc = (streams_env_closed pc)\<lparr>e_ready := (\<lambda>st. case claw_open (streams_env_closed pc) st of
       (Inl e, st) \<Rightarrow> (Inl e, st) | (Inr _, st) \<Rightarrow> (Inr (), st\<lparr>cl_opened := True\<rparr>))\<rparr>"

lemma streams_env_simps [simp]:
  "e_c (streams_env pc) = ref_cenc" "e_rpc (streams_env pc) = streams_lib (on_request ref_cenc (go_hs pc))"
  "e_next (streams_env pc) = streams_next" "e_end (streams_env pc) q w = w\<lparr>gx_open := (gx_open w)(q := None)\<rparr>"
  "e_start (streams_env pc) args w = (Inr (), streams_start)"
  "e_bee (streams_env pc) = list_bee" "e_bee_ready (streams_env pc) b = (Inr (), b)" "e_bee_close (streams_env pc) b = (Inr (), b)"
  "e_b4a (streams_env pc) = utf8_b4a"
  by (simp_all add: streams_env_def streams_env_closed_def)

section \<open>Calls and chats on it\<close>

text \<open>A call is the call on the link; a chat also opens a stream, with the number of its request.\<close>

lemma streams_call:
  "hrpc_call c (streams_lib serve) name v w
    = (case hrpc_call c (link_lib serve) name v (emptied (gx_link w)) of (r, l) \<Rightarrow> (r, w\<lparr>gx_link := l\<rparr>))"
  by (auto simp: hrpc_call_def streams_lib_def link_simps Let_def split: sum.split prod.split)

lemma call_next: "hrpc_call c (link_lib serve) name v l = (r, l') \<Longrightarrow> lk_next l' = Suc (lk_next l)"
  by (auto simp: hrpc_call_def link_simps Let_def split: sum.splits prod.splits)

lemma streams_chat:
  "hrpc_chat c (streams_lib serve) v w
    = (case hrpc_chat c (link_lib serve) v (emptied (gx_link w)) of
         (Inr x, l) \<Rightarrow> (Inr x, w\<lparr>gx_link := l, gx_open := (gx_open w)(lk_next (gx_link w) \<mapsto> gs_sent (lk_peer l))\<rparr>)
       | (Inl e, l) \<Rightarrow> (Inl e, w\<lparr>gx_link := l\<rparr>))"
  by (auto simp: hrpc_chat_def hrpc_callSync_def streams_lib_def link_simps Let_def emptied_def methods_get_name
      split: sum.split prod.split)

lemma chat_next_stream: "hrpc_chat c (link_lib serve) v l = (r, l') \<Longrightarrow> lk_next l' = Suc (lk_next l)
    \<and> (\<forall>q p. r = Inr (ResponseStream q p) \<longrightarrow> q = lk_next l)"
  by (auto simp: hrpc_chat_def hrpc_callSync_def link_simps Let_def split: sum.splits prod.splits if_splits)

section \<open>The agent\<close>

definition readable :: "bytes \<Rightarrow> bool" where
  "readable bs \<longleftrightarrow> (\<exists>v. c_decode ref_cenc (encoding3 ref_cenc) bs = Inr v)"

definition read_chunk :: "bytes \<Rightarrow> jsval" where
  "read_chunk bs = (case c_decode ref_cenc (encoding3 ref_cenc) bs of Inl e \<Rightarrow> Undef | Inr v \<Rightarrow> v)"

text \<open>The streams that are open have numbers already used, and what waits on them can be read.\<close>

definition streams_up :: "go_streams \<Rightarrow> bool" where
  "streams_up w \<longleftrightarrow> go_up (gx_link w)
     \<and> (\<forall>q bss. gx_open w q = Some bss \<longrightarrow> q < lk_next (gx_link w) \<and> (\<forall>bs \<in> set bss. readable bs))"

definition streams_waiting :: "go_streams \<Rightarrow> nat \<Rightarrow> jsval list option" where
  "streams_waiting w q = map_option (map read_chunk) (gx_open w q)"

text \<open>A turn, by the message and the session it finds, as it is received.\<close>

definition streams_turn :: "picoclaw \<Rightarrow> jsstring \<Rightarrow> bytes \<Rightarrow> jsval list \<times> bytes" where
  "streams_turn pc m d =
     (case go_reply pc m (case unmarshalSession utf8_b4a d of Inl e \<Rightarrow> ([], []) | Inr ses \<Rightarrow> ses) of
        (cs, left) \<Rightarrow> (map (\<lambda>c. read_chunk (go_encode c)) cs, marshalSession utf8_b4a (fst left) (snd left)))"

lemma emptied_simps [simp]:
  "go_up (emptied l) \<longleftrightarrow> go_up l" "go_dump (emptied l) = go_dump l" "lk_next (emptied l) = lk_next l"
  "gs_sessions (lk_peer (emptied l)) = gs_sessions (lk_peer l)" "gs_sent (lk_peer (emptied l)) = []"
  by (simp_all add: emptied_def go_up_def go_dump_def fun_eq_iff)

lemma chunk_received:
  assumes "chunk_ok c"
  shows "readable (go_encode c)" and "is_obj (read_chunk (go_encode c))"
    and "field (read_chunk (go_encode c)) (js ''type'') = field c (js ''type'')" and "chunk_seen (read_chunk (go_encode c)) = shown c"
  using go_encode_decode [OF assms] by (simp_all add: readable_def read_chunk_def chunk_seen_def shown_def)

lemma turn_ok_chunks: "turn_ok cs \<Longrightarrow> \<forall>c \<in> set cs. chunk_ok c"
  by (induction cs rule: turn_ok.induct) simp_all

lemma turn_read: "turn_ok cs \<Longrightarrow> ends_once (map (\<lambda>c. read_chunk (go_encode c)) cs)"
  by (induction cs rule: turn_ok.induct) (simp_all add: chunk_received)

lemma go_Chat_sent:
  assumes "speaks pc"
  shows "\<forall>bs \<in> set (gs_sent (snd (go_Chat pc go_encode arg s))). readable bs"
proof -
  let ?v = "case arg of HStream p v \<Rightarrow> v | _ \<Rightarrow> Undef"
  obtain cs left where reply: "go_reply pc (go_string (field ?v (js ''message''))) (gs_sessions s (go_string (field ?v (js ''sessionId'')))) = (cs, left)"
    by (metis surj_pair)
  then have "gs_sent (snd (go_Chat pc go_encode arg s)) = map go_encode cs"
    by (auto simp: go_Chat_def go_reply_def Let_def split: option.splits prod.splits)
  then show ?thesis
    using turn_ok_chunks [OF speaks_turn [OF assms reply]] chunk_received(1) by simp
qed

lemma chat_sent:
  assumes "speaks pc" and "hrpc_chat ref_cenc (link_lib (on_request ref_cenc (go_hs pc))) v (emptied l) = (r, l')"
  shows "\<forall>bs \<in> set (gs_sent (lk_peer l')). readable bs"
proof -
  have served: "\<forall>bs \<in> set (gs_sent (snd (on_request ref_cenc (go_hs pc) (Num 0) data (lk_peer (emptied l))))). readable bs" for data
    using go_Chat_sent [OF assms(1)]
    by (cases "request_of ref_cenc (requestEncodings ref_cenc (Str (js ''@bareclaw/chat''))) data")
      (simp_all add: on_request_def Let_def methods_get_number call_handler_def go_handlers_at complete_def case_prod_beta)
  show ?thesis
    using assms(2) served
    by (auto simp: hrpc_chat_def hrpc_callSync_def methods_get_name link_simps Let_def case_prod_beta split: sum.splits)
qed

lemma streams_call_up:
  assumes "hrpc_call c (link_lib serve) name v (emptied (gx_link w)) = (r, l')" and "go_up l'" and "streams_up w"
  shows "hrpc_call c (streams_lib serve) name v w = (r, w\<lparr>gx_link := l'\<rparr>) \<and> streams_up (w\<lparr>gx_link := l'\<rparr>)"
  using assms call_next [OF assms(1)] by (auto simp: streams_call streams_up_def less_SucI)

lemma streams_session_agent:
  assumes pc: "picoclaw_ok pc"
  shows "session_agent ref_cenc (streams_lib (on_request ref_cenc (go_hs pc))) streams_up (\<lambda>w. go_dump (gx_link w)) (is_dump utf8_b4a)"
proof (unfold_locales, goal_cases)
  case (1 w k)
  then have "go_up (emptied (gx_link w))"
    by (simp add: streams_up_def)
  from session_agent.export [OF go_session_agent [OF pc] this 1(2)] obtain l' where
    "sessionExport ref_cenc (link_lib (on_request ref_cenc (go_hs pc))) (key_msg k) (emptied (gx_link w)) = (Inr (blob_msg k (go_dump (gx_link w) k)), l')"
    "go_up l'" "go_dump l' = go_dump (gx_link w)"
    by auto
  then show ?case
    using streams_call_up [OF _ _ 1(1)] unfolding sessionExport_def by fastforce
next
  case (2 w k d)
  then have "go_up (emptied (gx_link w))"
    by (simp add: streams_up_def)
  from session_agent.import [OF go_session_agent [OF pc] this 2(2,3)] obtain v l' where
    "sessionImport ref_cenc (link_lib (on_request ref_cenc (go_hs pc))) (blob_msg k d) (emptied (gx_link w)) = (Inr v, l')"
    "go_up l'" "go_dump l' = (go_dump (gx_link w))(k := d)"
    by auto
  then show ?case
    using streams_call_up [OF _ _ 2(1)] unfolding sessionImport_def by fastforce
next
  case (3 w f scope)
  then have "go_up (emptied (gx_link w))"
    by (simp add: streams_up_def)
  from session_agent.create [OF go_session_agent [OF pc] this 3(2)] obtain k l' where
    "sessionCreate ref_cenc (link_lib (on_request ref_cenc (go_hs pc))) scope (emptied (gx_link w)) = (Inr (key_msg k), l')"
    "key_ok k" "go_up l'" "go_dump l' = go_dump (gx_link w)"
    by auto
  then show ?case
    using streams_call_up [OF _ _ 3(1)] unfolding sessionCreate_def by fastforce
next
  case (4 w k)
  then show ?case
    using session_agent.dump_dumped [OF go_session_agent [OF pc]] by (simp add: streams_up_def)
next
  case (5 d)
  then show ?case
    using session_agent.dumped_nonempty [OF go_session_agent [OF pc]] by blast
qed

lemma streams_chat_up:
  assumes pc: "picoclaw_ok pc" "speaks pc" and up: "streams_up w"
    and chat: "hrpc_chat ref_cenc (streams_lib (on_request ref_cenc (go_hs pc))) v w = (r, w')"
  shows "streams_up w'"
proof -
  obtain r1 l where l: "hrpc_chat ref_cenc (link_lib (on_request ref_cenc (go_hs pc))) v (emptied (gx_link w)) = (r1, l)"
    by (metis surj_pair)
  have "go_up l" "lk_next l = Suc (lk_next (gx_link w))" "\<forall>bs \<in> set (gs_sent (lk_peer l)). readable bs"
    using go_chat_up [OF pc(1) _ l] up chat_next_stream [OF l] chat_sent [OF pc(2) l] by (simp_all add: streams_up_def)
  then show ?thesis
    using chat up by (cases r1) (auto simp: streams_chat l streams_up_def less_SucI split: if_splits)
qed

lemma streams_next_up: "streams_up w \<Longrightarrow> streams_next q w = (r, w') \<Longrightarrow> streams_up w'"
  by (auto simp: streams_next_def streams_up_def split: option.splits list.splits if_splits)

lemma streams_claw_env:
  assumes pc: "picoclaw_ok pc" "speaks pc"
  shows "claw_env (streams_env pc) streams_up (\<lambda>w. go_dump (gx_link w)) (is_dump utf8_b4a) (\<lambda>es. es) ordered
    (\<lambda>_. marshalSession utf8_b4a [] [])"
proof (rule claw_env.intro)
  show "session_agent (e_c (streams_env pc)) (e_rpc (streams_env pc)) streams_up (\<lambda>w. go_dump (gx_link w)) (is_dump utf8_b4a)"
    using streams_session_agent [OF pc(1)] by simp
  show "bee_store (e_bee (streams_env pc)) (\<lambda>es. es) ordered"
    using list_bee.bee_store_axioms by simp
  show "text_encoding (e_b4a (streams_env pc))"
    using utf8_text.text_encoding_axioms by simp
  show "claw_env_axioms (streams_env pc) streams_up (\<lambda>w. go_dump (gx_link w)) (\<lambda>es. es) ordered (\<lambda>_. marshalSession utf8_b4a [] [])"
  proof (unfold_locales, goal_cases)
    case (1 w v r w')
    then show ?case
      using streams_chat_up [OF pc 1(1)] by simp
  next
    case (2 w q r' w')
    then show ?case
      using streams_next_up by simp
  next
    case (4 args)
    then show ?case
      using session_fits_empty by (simp add: streams_up_def streams_start_def link_start_def go_fresh_def go_up_def go_dump_def fun_eq_iff)
  qed (auto simp: streams_up_def)
qed

lemma dump_read: "go_up l \<Longrightarrow> unmarshalSession utf8_b4a (go_dump l k) = Inr (gs_sessions (lk_peer l) k)"
  using utf8_text.unmarshal_marshal(1) [of "fst (gs_sessions (lk_peer l) k)" "snd (gs_sessions (lk_peer l) k)"]
  by (simp add: go_up_def go_dump_def session_fits_def)

lemma streams_opens:
  assumes pc: "picoclaw_ok pc" "speaks pc" and up: "streams_up w" and k: "key_ok k" "key_ok m" "key_ok model"
  shows "\<exists>q p w'. hrpc_chat ref_cenc (streams_lib (on_request ref_cenc (go_hs pc)))
        (Obj [(js ''sessionId'', Str k), (js ''message'', Str m), (js ''model'', Str model)]) w = (Inr (ResponseStream q p), w')
      \<and> streams_waiting w q = None
      \<and> streams_waiting w' = (streams_waiting w)(q \<mapsto> fst (streams_turn pc m (go_dump (gx_link w) k)))
      \<and> go_dump (gx_link w') = (go_dump (gx_link w))(k := snd (streams_turn pc m (go_dump (gx_link w) k)))"
proof -
  let ?v = "Obj [(js ''sessionId'', Str k), (js ''message'', Str m), (js ''model'', Str model)]" and ?l = "emptied (gx_link w)"
  let ?got = "ty_got schema_depth (js ''@bareclaw/chat-request'') ?v"
  have v: "ty_ok schema_depth ref_fmt (js ''@bareclaw/chat-request'') ?v"
    "field ?got (js ''sessionId'') = Str k" "field ?got (js ''message'') = Str m"
    using k by (simp_all add: schema_chat_request key_ok_def)
  from go_chat_sent [OF v(1), of pc ?l] obtain q l' where sent:
    "hrpc_chat ref_cenc (link_lib (on_request ref_cenc (go_hs pc))) ?v ?l = (Inr (ResponseStream q (Some (encoding3 ref_cenc))), l')"
    "lk_peer l' = snd (go_Chat pc go_encode (HStream (Some (encoding3 ref_cenc)) ?got) (lk_peer ?l))"
    by blast
  obtain cs left where reply: "go_reply pc m (gs_sessions (lk_peer (gx_link w)) k) = (cs, left)"
    by (metis surj_pair)
  have "go_Chat pc go_encode (HStream (Some (encoding3 ref_cenc)) ?got) (lk_peer ?l) = (Inr Undef, lk_peer l')"
    using go_Chat_answers sent(2) by (intro prod_eqI) simp_all
  from go_Chat_reply [OF this] have served: "gs_sent (lk_peer l') = map go_encode cs"
    "gs_sessions (lk_peer l') = (gs_sessions (lk_peer (gx_link w)))(k := left)"
    using reply v(2,3) by simp_all
  have turn: "streams_turn pc m (go_dump (gx_link w) k) = (map (\<lambda>c. read_chunk (go_encode c)) cs, marshalSession utf8_b4a (fst left) (snd left))"
    using up dump_read [of "gx_link w" k] reply by (simp add: streams_turn_def streams_up_def)
  have q: "q = lk_next (gx_link w)"
    using chat_next_stream [OF sent(1)] by simp
  have "gx_open w q = None"
    using up unfolding q streams_up_def by (cases "gx_open w (lk_next (gx_link w))") auto
  moreover have "go_dump l' = (go_dump (gx_link w))(k := marshalSession utf8_b4a (fst left) (snd left))"
    using served(2) by (simp add: go_dump_def fun_eq_iff)
  ultimately show ?thesis
    using sent(1) served(1) turn q by (auto simp: streams_chat streams_waiting_def fun_eq_iff)
qed

lemma streams_chats_env:
  assumes pc: "picoclaw_ok pc" "speaks pc"
  shows "chats_env (streams_env pc) streams_up (\<lambda>w. go_dump (gx_link w)) (is_dump utf8_b4a) (\<lambda>es. es) ordered
    (\<lambda>_. marshalSession utf8_b4a [] []) streams_waiting (streams_turn pc)"
proof (rule chats_env.intro)
  show "claw_env (streams_env pc) streams_up (\<lambda>w. go_dump (gx_link w)) (is_dump utf8_b4a) (\<lambda>es. es) ordered (\<lambda>_. marshalSession utf8_b4a [] [])"
    using streams_claw_env [OF pc] .
  show "chats_env_axioms (streams_env pc) streams_up (\<lambda>w. go_dump (gx_link w)) (is_dump utf8_b4a) streams_waiting (streams_turn pc)"
  proof (unfold_locales, goal_cases)
    case (1 w k m model)
    then show ?case
      using streams_opens [OF pc] by simp
  next
    case (2 w q c cs)
    then obtain bs rest where bs: "gx_open w q = Some (bs # rest)" "c = read_chunk bs" "cs = map read_chunk rest"
      by (auto simp: streams_waiting_def)
    moreover have "readable bs"
      using 2(1) bs(1) unfolding streams_up_def by force
    then obtain v where "c_decode ref_cenc (encoding3 ref_cenc) bs = Inr v"
      unfolding readable_def by blast
    ultimately show ?case
      by (auto simp: streams_waiting_def streams_next_def read_chunk_def fun_eq_iff)
  next
    case (3 w q)
    then show ?case
      by (auto simp: streams_waiting_def fun_eq_iff)
  next
    case (4 w k r w')
    then show ?case
      by (auto simp: sessionExport_def streams_call streams_waiting_def fun_eq_iff split: prod.splits)
  next
    case (5 m d)
    then show ?case
      using turn_read [OF speaks_turn [OF pc(2)]] by (auto simp: streams_turn_def split: prod.split)
  qed
qed

interpretation echo_streams: chats_env "streams_env echo_picoclaw" streams_up "\<lambda>w. go_dump (gx_link w)" "is_dump utf8_b4a"
    "\<lambda>es. es" ordered "\<lambda>_. marshalSession utf8_b4a [] []" streams_waiting "streams_turn echo_picoclaw"
  by (rule streams_chats_env [OF echo_ok echo_speaks])

section \<open>Chats in flight\<close>

lemma turn_seen:
  assumes "speaks pc" and "go_up l" and "go_reply pc m (gs_sessions (lk_peer l) k) = (cs, left)"
  shows "streams_turn pc m (go_dump l k) = (map (\<lambda>c. read_chunk (go_encode c)) cs, marshalSession utf8_b4a (fst left) (snd left))"
    and "map chunk_seen (map (\<lambda>c. read_chunk (go_encode c)) cs) = map shown cs"
  using assms dump_read [of l k] turn_ok_chunks [OF speaks_turn [OF assms(1,3)]] chunk_received(4)
  by (simp_all add: streams_turn_def)

text \<open>What is promised of the chat of session \<open>k\<close> with message \<open>m\<close>, the chat of number \<open>i\<close>.\<close>

definition as_if_alone ::
    "picoclaw \<Rightarrow> (go_streams, entries, 'a) claw \<Rightarrow> jsstring \<Rightarrow> jsstring \<Rightarrow> nat \<Rightarrow> chat_event list \<Rightarrow> (go_streams, entries, 'a) chats \<Rightarrow> bool" where
  "as_if_alone pc st k m i es s \<longleftrightarrow>
     (case go_reply pc m (gs_sessions (lk_peer (gx_link (cl_world st))) k) of (cs, left) \<Rightarrow>
        let d = marshalSession utf8_b4a (fst left) (snd left); key = data_key utf8_b4a (Str k)
        in prefix (ch_seen s i) (map shown cs)
          \<and> (ch_over s i = None \<or> ch_over s i = Some (Inr ()))
          \<and> (ch_over s i \<noteq> None \<longrightarrow> Leave i \<notin> set es \<longrightarrow> ch_seen s i = map shown cs)
          \<and> (length cs < count_list es (Pull i) \<longrightarrow> ch_over s i \<noteq> None)
          \<and> go_dump (gx_link (cl_world (ch_claw s))) k = (if ch_seen s i = [] then go_dump (gx_link (cl_world st)) k else d)
          \<and> claw_stored (\<lambda>es. es) (ch_claw s) key
            = (if ch_over s i = None \<or> ch_seen s i = [] then claw_stored (\<lambda>es. es) st key else Some (Buf d)))"


text \<open>Two chats of one instance, the first left after its first chunk, the second read to its end in between.\<close>

definition streams_claw :: "(go_streams, entries, nat) claw" where
  "streams_claw = (claw_new (Obj []) streams_start [])\<lparr>cl_opened := True, cl_rpc := True\<rparr>"

definition two_turns :: "(jsstring \<times> jsstring) list" where
  "two_turns = [(js ''s'', js ''hi''), (js ''t'', js ''ho'')]"


end
