(* ===== verification/Spec2Isabelle.thy ===== *)
theory Spec2Isabelle
  imports Wire Hrpc_Spec Bareclaw_Tools Panel_Props Review_Agent P2P_Props Tui_Program Collab_Program Shared_Props
    Shared_Program Shared_Wire Review_Program Go_Main Go_Streams
begin

text \<open>
  A verification library for bareclaw, a Bare (JavaScript) module that runs the picoclaw agent, a Go
  process, behind an RPC pipe, keeps its sessions in a Hyperbee and calls tools of the
  application for it.

  The program and how its parts work together.  src/build.js registers the message types and the
  RPC methods; the generated src/spec/hrpc/messages.js holds a codec per type and
  src/spec/hrpc/index.js the class whose methods send the calls and whose dispatcher serves
  them.  src/lib/spawn.js starts the agent with the flags the options ask for.  src/index.js is the
  class Bareclaw: it opens the store, starts the agent, restores the sessions of the store in
  it, streams chat turns to the caller, persists each session after its turn and on request of
  the agent, runs the tools the agent calls, and on closing flushes every session and ends the
  process.  The agent's side is src/go/cmd/main.go and src/go/pkg/server.  The examples use the class:
  src/examples/swarm-code-review.js lets a panel of agents review a diff over a hub,
  src/examples/tools/p2p.js gives an instance fifteen tools on peer-to-peer networks, and
  src/examples/p2p-tui.js is a terminal interface to such an instance; src/examples/swarm-collab.js lets two agents talk,
  src/examples/dht-shared.js lets three fill a board, and src/examples/dht-rpc.js and src/examples/peer-scan-tool.js have
  agents scan for peers.

  How it is modelled.  Values of the language are the datatype \<open>jsval\<close> (Prelude): strings are
  lists of UTF-16 code units, buffers lists of bytes, objects lists of properties in their
  order.  What throws returns a sum whose left side is what is thrown.  State is passed
  explicitly: a component's state is a record, an operation takes it and returns its result or
  what it throws with the state afterwards, and \<open>await\<close> is sequencing (\<open>andthen\<close>, \<open>for_each\<close> in
  Bareclaw).  Code outside the repository is a record of functions the definitions take
  as an argument, and what the proofs need of it is a locale: \<open>compact_encoding\<close> (the package of
  leaf codecs) with \<open>wire_codec\<close>, the contract of every codec; \<open>text_encoding\<close> (b4a);
  \<open>bee_store\<close> (hyperbee2); \<open>rpc_transport\<close> and \<open>hrpc_pair\<close> (bare-rpc and its peer);
  \<open>session_agent\<close>, \<open>claw_env\<close> and \<open>chats_env\<close> (the agent process as the class sees it).  Each is interpreted:
  the package on its wire format, b4a on UTF-8, the store on ordered entries, the transport on a
  link of two processes, the agent on the model of the Go server.

  The theories, in the order of the code.

  Prelude: values, errors, truthiness, property reads.
  Compact_Encoding, Reference_Encoding: codecs and their contract; the wire format.
  Schema: what src/build.js registers, as data, and the bytes, conforming values and received
  values it prescribes for each type.
  Messages, Message_Codecs: src/spec/hrpc/messages.js, one definition per \<open>encodingN\<close>, and that each is
  a codec for its type.  Wire: the lookups and the properties of the codecs.
  Hrpc, Hrpc_Spec: the tables, calls, dispatcher and handler setters of
  src/spec/hrpc/index.js; the transport contract and calls from one process to another.
  Json: \<open>JSON.stringify\<close> and \<open>JSON.parse\<close> with the round trip; Json_Reader: that the fuel of the reader is
  enough, and texts as Go's encoder escapes them; Text_Encoding: b4a and UTF-8.
  Spawn: the command line of src/lib/spawn.js, the executable check of src/lib/bareclaw.js, and how the flag
  parser of src/go/cmd/main.go reads it.
  Bee: the store.  Bareclaw: src/index.js, one definition per method (\<open>claw_open\<close>, \<open>claw_close\<close>,
  \<open>shutdownProc\<close>, \<open>session\<close>, \<open>sessions\<close>, \<open>exportSession\<close>, \<open>importSession\<close>, \<open>registerTool\<close>,
  \<open>onToolExec_claw\<close>, \<open>persistSession\<close>, \<open>loadFromStore\<close>, \<open>listStoreKeys\<close>); the chat
  generator is a state machine with \<open>chat_next\<close> and \<open>chat_return\<close>, \<open>consume\<close> is a loop that drives it.
  Session_Keys: which keys the store can list.  Bareclaw_Spec: the invariants of an instance
  (\<open>claw_live\<close>, \<open>claw_sound\<close>, \<open>claw_tidy\<close>) and what each method does to the store and the agent.
  Go_Server, Go_World: the agent's handlers and session dumps, and that it is an agent in the
  sense of \<open>claw_env\<close>.  Go_Hub: chats in flight at once, over the stream delegate of src/go/pkg/server/stream.go.
  Go_Main: src/go/cmd/main.go, from the flags to a server or a failure, and its end.
  Bareclaw_Props, Bareclaw_Tools: the properties of the class.
  Ndjson: the line protocol of the examples.  Js_Text: string methods.
  Review, Review_Props: the texts of src/examples/swarm-code-review.js: cleaning, findings, consensus, actions,
  report, prompts, diff.  Panel, Panel_Spec, Panel_Props: hub, reviewers and correlator as a step relation
  with its invariant.  Review_Agent: making an agent and asking it.
  P2P, P2P_Registration, P2P_Props: src/examples/tools/p2p.js.
  Tui, Tui_Props: src/examples/p2p-tui.js, its state \<open>chatapp\<close>, \<open>update\<close> on every message, rendering and booting.
  Chat_Loop: the loop over a chat turn the examples share.  Collab, Collab_Props: src/examples/swarm-collab.js as a
  step relation.  Shared_Board, Shared_Props: src/examples/dht-shared.js likewise, and
  Shared_Wire on sockets that are streams of bytes.  Scan: the scanning examples.
  Go_Turn: a turn of the Go server read to its end; Go_Tools: how the agent calls a tool of the
  application (src/go/pkg/server/tools.go).  Session_Book: the abstract specification of the class on the Go agent, a
  book of sessions, and the refinement (\<open>book_of\<close> with \<open>book_inv\<close>, one lemma per operation).
  Claw_Chats, Go_Streams: several chats on one instance at once, over an agent with several response streams.
  Programs: a run of a program, its instance and the trace of its effects, and src/example.js,
  src/examples/peer-scan-tool.js and src/examples/dht-rpc.js as runs.  Fleets: programs of several instances.
  Collab_Program, Shared_Program, Review_Program, Tui_Program: the \<open>main\<close> of src/examples/swarm-collab.js,
  dht-shared.js, swarm-code-review.js and p2p-tui.js.

  What the lemmas show.  Codecs: the generated code writes exactly the bytes of the schema and
  reads them back, in the room it reserved.  RPC: a call returns the peer's answer; the dispatcher
  replies only with what a handler returned.  Sessions: a turn is persisted however its loop is left; a created
  session is listed; closing and reopening restores every session that can be listed.  Tools: a
  call is answered, and its output arrives.  Shutdown: one kill at most, and the promise resolves
  with the exit.  Book: whatever is done with an instance, and however often its process is restarted or
  killed, the answers are those of the book.  Agent: it starts as the options say, and
  chats in flight at once do not mix, at the agent or on an instance.  Programs: each comes to its end without an error, with what it
  says, the turns it leaves in its stores, and everything it opened released.  Panel: every run ends, within 60 steps, and ends with its report.  Examples: texts, bounds,
  inboxes, identifiers; the collaboration ends after six turns, each building on the last, and everyone sees the full board, over
  bytes in chunks too.  Where the code does not do what it means to, the property says what it does.

  Fuel and bounds.  \<open>JSON_parse\<close> reads with fuel twice the length of its text and two, which is
  shown to be enough for every text: it reads what any fuel reads (\<open>JSON_parse_accepts\<close>).  \<open>schema_depth\<close> bounds the nesting of
  types.  Types are registered in build.js before they are used, so it covers them all.  Loops that may not end (a stream that goes on, the
  loop of \<open>ask\<close>, a program that waits for its user) are partial functions or driven by a number of steps, and the
  properties show that they return.

  Not modelled.  Numbers other than integers are carried as their text; properties inherited from a prototype
  are modelled only where the code meets them (\<open>inherited_names\<close>), and an object's own \<open>toString\<close> is not
  called.  An operation of the class runs as one step, one \<open>next()\<close> of a chat too: chats on one instance are
  interleaved between their chunks, other concurrent calls on it are not, nor are those of the tools of p2p.js; the processes of the panel, the collaboration and the board are.  Connections of
  these do not fail; their queues carry messages (what the board makes of bytes is shown in Shared_Wire, for chunks
  cut between characters; of others the reader loses some, see Ndjson).  The programs run one order of their events, with the order in which concurrent agents come first
  as an argument; peers, sockets and swarms are effects with a name.
  The agent loop of picoclaw, its configuration and its providers are parameters; names in the JSON Go reads are matched
  exactly, and signals are a flag; the Go transport and the generated Go code are not modelled, nor are the tests;
  src/spec/schema/index.js is a copy of src/spec/hrpc/messages.js.
\<close>

end
